(* ===== verification/Prelude.thy ===== *)
theory Prelude
  imports Main "HOL-Library.Word" "HOL-Library.Sublist" "HOL-Library.Char_ord" "HOL-Library.List_Lexorder"
begin

text \<open>
  What the components share: the Go standard-library functions on strings that the
  sources call (packages strings and strconv, on ASCII text), the Go integer and time
  conventions (64-bit signed values, saturating \<open>Time.Sub\<close>), the theorem collections
  the component proofs draw on, and generic lemmas on lists and maps.

  A Go string is a byte sequence and is modelled as \<^typ>\<open>string\<close> (a list of 8-bit
  characters). Case folding and white space are Go's on ASCII text; bytes above 127 are
  left alone.
\<close>

named_theorems wf_intros "operations keep the well-formedness invariants"
named_theorems op_simps "functional behaviour of the operations"

section \<open>strings\<close>

type_synonym go_time = int  \<comment> \<open>nanoseconds since Go's zero time; \<open>0\<close> is \<open>time.Time{}\<close>\<close>
type_synonym duration = int \<comment> \<open>nanoseconds\<close>

definition is_space :: "char \<Rightarrow> bool" where
  "is_space c \<longleftrightarrow> of_char c \<in> {9, 10, 11, 12, 13, 32 :: nat}"

definition upper_char :: "char \<Rightarrow> char" where
  "upper_char c = (if (97 :: nat) \<le> of_char c \<and> of_char c \<le> (122 :: nat) then char_of (of_char c - 32 :: nat) else c)"

definition lower_char :: "char \<Rightarrow> char" where
  "lower_char c = (if (65 :: nat) \<le> of_char c \<and> of_char c \<le> (90 :: nat) then char_of (of_char c + 32 :: nat) else c)"

definition to_upper :: "string \<Rightarrow> string" where
  "to_upper s = map upper_char s"

definition to_lower :: "string \<Rightarrow> string" where
  "to_lower s = map lower_char s"

definition trim_left :: "(char \<Rightarrow> bool) \<Rightarrow> string \<Rightarrow> string" where
  "trim_left P s = dropWhile P s"

definition trim_right :: "(char \<Rightarrow> bool) \<Rightarrow> string \<Rightarrow> string" where
  "trim_right P s = rev (dropWhile P (rev s))"

definition trim_space :: "string \<Rightarrow> string" where
  "trim_space s = trim_right is_space (trim_left is_space s)"

definition trim_suffix :: "string \<Rightarrow> string \<Rightarrow> string" where
  "trim_suffix suf s = (if suffix suf s then take (length s - length suf) s else s)"

definition trim_prefix :: "string \<Rightarrow> string \<Rightarrow> string" where
  "trim_prefix pre s = (if prefix pre s then drop (length pre) s else s)"

definition equal_fold :: "string \<Rightarrow> string \<Rightarrow> bool" where
  "equal_fold a b \<longleftrightarrow> to_upper a = to_upper b"

text \<open>\<open>strings.Split\<close> with a one-byte separator: never empty, one more piece than separators.\<close>

fun split_on :: "char \<Rightarrow> string \<Rightarrow> string list" where
  "split_on c [] = [[]]"
| "split_on c (x # xs) =
     (if x = c then [] # split_on c xs
      else (case split_on c xs of [] \<Rightarrow> [[x]] | p # ps \<Rightarrow> (x # p) # ps))"

fun join_with :: "string \<Rightarrow> string list \<Rightarrow> string" where
  "join_with sep [] = []"
| "join_with sep [s] = s"
| "join_with sep (s # t # ts) = s @ sep @ join_with sep (t # ts)"

section \<open>strconv\<close>

definition digit_char :: "nat \<Rightarrow> char" where
  "digit_char d = char_of (48 + d)"

fun show_nat :: "nat \<Rightarrow> string" where
  "show_nat n = (if n < 10 then [digit_char n] else show_nat (n div 10) @ [digit_char (n mod 10)])"

declare show_nat.simps [simp del]

definition itoa :: "int \<Rightarrow> string" where
  "itoa i = (if i < 0 then ''-'' @ show_nat (nat (- i)) else show_nat (nat i))"

definition is_digit :: "char \<Rightarrow> bool" where
  "is_digit c \<longleftrightarrow> (48 :: nat) \<le> of_char c \<and> of_char c \<le> (57 :: nat)"

definition digits_value :: "string \<Rightarrow> nat" where
  "digits_value s = foldl (\<lambda>acc c. acc * 10 + (of_char c - 48)) 0 s"

definition max_int64 :: int where "max_int64 = 9223372036854775807"
definition min_int64 :: int where "min_int64 = - 9223372036854775808"

text \<open>\<open>strconv.Atoi\<close>: an optional sign, at least one digit, in the range of a 64-bit int.\<close>

definition atoi :: "string \<Rightarrow> int option" where
  "atoi s =
     (let neg = (prefix ''-'' s);
          ds = (if prefix ''-'' s \<or> prefix ''+'' s then drop 1 s else s)
      in if ds = [] \<or> \<not> list_all is_digit ds then None
         else let v = (if neg then - int (digits_value ds) else int (digits_value ds))
              in if min_int64 \<le> v \<and> v \<le> max_int64 then Some v else None)"

section \<open>net\<close>

definition index_byte :: "char \<Rightarrow> string \<Rightarrow> nat option" where
  "index_byte c s = (if c \<in> set s then Some (length (takeWhile (\<lambda>x. x \<noteq> c) s)) else None)"

definition last_index_byte :: "char \<Rightarrow> string \<Rightarrow> nat option" where
  "last_index_byte c s =
     (if c \<in> set s then Some (length s - 1 - length (takeWhile (\<lambda>x. x \<noteq> c) (rev s))) else None)"

text \<open>\<open>net.SplitHostPort\<close>, \<open>None\<close> for any of its errors, and \<open>net.JoinHostPort\<close>.\<close>

definition split_host_port :: "string \<Rightarrow> (string \<times> string) option" where
  "split_host_port hp =
     (case last_index_byte (CHR '':'') hp of
        None \<Rightarrow> None
      | Some i \<Rightarrow>
          if hp ! 0 = CHR ''['' then
            (case index_byte (CHR '']'') hp of
               None \<Rightarrow> None
             | Some e \<Rightarrow>
                 if e + 1 \<noteq> i then None
                 else if CHR ''['' \<in> set (drop 1 hp) \<or> CHR '']'' \<in> set (drop (e + 1) hp) then None
                 else Some (drop 1 (take e hp), drop (i + 1) hp))
          else if CHR '':'' \<in> set (take i hp) then None
          else if CHR ''['' \<in> set hp \<or> CHR '']'' \<in> set hp then None
          else Some (take i hp, drop (i + 1) hp))"

definition join_host_port :: "string \<Rightarrow> string \<Rightarrow> string" where
  "join_host_port host port =
     (if CHR '':'' \<in> set host then ''['' @ host @ '']:'' @ port else host @ '':'' @ port)"

section \<open>time\<close>

text \<open>\<open>t.Sub(u)\<close> saturates at the ends of the 64-bit duration range.\<close>

definition sat64 :: "int \<Rightarrow> int" where
  "sat64 x = max min_int64 (min max_int64 x)"

definition time_sub :: "go_time \<Rightarrow> go_time \<Rightarrow> duration" where
  "time_sub a b = sat64 (a - b)"

definition wrap64 :: "int \<Rightarrow> int" where \<comment> \<open>the result of 64-bit signed arithmetic\<close>
  "wrap64 x = (x + 9223372036854775808) mod 18446744073709551616 - 9223372036854775808"

definition second :: duration where "second = 1000000000"
definition minute :: duration where "minute = 60 * second"
definition hour :: duration where "hour = 60 * minute"

definition unix_time :: "int \<Rightarrow> go_time" where \<comment> \<open>\<open>time.Unix(s, 0)\<close>\<close>
  "unix_time s = (62135596800 + s) * second"

definition time_unix :: "go_time \<Rightarrow> int" where \<comment> \<open>\<open>t.Unix()\<close>\<close>
  "time_unix t = t div second - 62135596800"

section \<open>Lemmas\<close>

lemma upper_char_idem [simp]: "upper_char (upper_char c) = upper_char c"
  by (auto simp: upper_char_def)

lemma to_upper_idem [simp]: "to_upper (to_upper s) = to_upper s"
  by (simp add: to_upper_def)

lemma to_upper_Nil [simp]: "to_upper [] = []" "to_upper s = [] \<longleftrightarrow> s = []"
  by (simp_all add: to_upper_def)

lemma length_to_upper [simp]: "length (to_upper s) = length s"
  by (simp add: to_upper_def)

lemma is_space_upper [simp]: "is_space (upper_char c) = is_space c"
  by (auto simp: upper_char_def is_space_def)

lemma dropWhile_upper: "dropWhile is_space (map upper_char s) = map upper_char (dropWhile is_space s)"
  by (induction s) auto

lemma trim_space_upper: "trim_space (to_upper s) = to_upper (trim_space s)"
  by (simp add: trim_space_def trim_left_def trim_right_def to_upper_def dropWhile_upper rev_map)

lemma trim_right_subset: "set (trim_right P s) \<subseteq> set s"
  unfolding trim_right_def by (metis set_dropWhileD set_rev subsetI)

lemma split_on_not_Nil [simp]: "split_on c s \<noteq> []"
  by (induction s) (auto split: list.splits)

lemma split_on_no_sep: "p \<in> set (split_on c s) \<Longrightarrow> c \<notin> set p"
  by (induction s arbitrary: p) (auto split: list.splits if_splits)

lemma join_split [simp]: "join_with [c] (split_on c s) = s"
proof (induction s)
  case (Cons x xs)
  obtain p ps where sp: "split_on c xs = p # ps" by (cases "split_on c xs") auto
  show ?case
    using Cons by (cases ps) (auto simp: sp)
qed simp

lemma split_on_append_sep: "c \<notin> set a \<Longrightarrow> split_on c (a @ c # b) = a # split_on c b"
  by (induction a) auto

lemma split_on_no: "c \<notin> set a \<Longrightarrow> split_on c a = [a]"
  by (induction a) auto

lemma split_join: "ls \<noteq> [] \<Longrightarrow> (\<And>l. l \<in> set ls \<Longrightarrow> c \<notin> set l) \<Longrightarrow> split_on c (join_with [c] ls) = ls"
proof (induction ls)
  case (Cons l ls)
  then show ?case by (cases ls) (auto simp: split_on_no split_on_append_sep)
qed simp

lemma time_sub_in_range: "min_int64 \<le> time_sub a b" "time_sub a b \<le> max_int64"
  by (auto simp: time_sub_def sat64_def min_int64_def max_int64_def)

lemma time_sub_le: "w < max_int64 \<Longrightarrow> min_int64 \<le> w \<Longrightarrow> time_sub a b \<le> w \<longleftrightarrow> a - b \<le> w"
  by (auto simp: time_sub_def sat64_def min_int64_def max_int64_def)

lemma time_sub_less: "w \<le> max_int64 \<Longrightarrow> min_int64 < w \<Longrightarrow> time_sub a b < w \<longleftrightarrow> a - b < w"
  by (auto simp: time_sub_def sat64_def min_int64_def max_int64_def)

lemma wrap64_id: "min_int64 \<le> x \<Longrightarrow> x \<le> max_int64 \<Longrightarrow> wrap64 x = x"
  by (simp add: wrap64_def min_int64_def max_int64_def)

lemma find_key_iff: "distinct (map f xs) \<Longrightarrow> find (\<lambda>x. f x = i) xs = Some x \<longleftrightarrow> x \<in> set xs \<and> f x = i"
  by (induction xs) (auto simp: image_iff)

subsection \<open>Host and port\<close>

lemma last_index_append: "c \<notin> set b \<Longrightarrow> last_index_byte c (a @ c # b) = Some (length a)"
  by (simp add: last_index_byte_def takeWhile_append)

lemma index_append: "c \<notin> set a \<Longrightarrow> index_byte c (a @ c # b) = Some (length a)"
  by (simp add: index_byte_def takeWhile_append)

lemma split_join_host_port:
  assumes "CHR ''['' \<notin> set host" "CHR '']'' \<notin> set host" "set port \<inter> {CHR '':'', CHR ''['', CHR '']''} = {}"
  shows "split_host_port (join_host_port host port) = Some (host, port)"
proof (cases "CHR '':'' \<in> set host")
  case True
  have "last_index_byte (CHR '':'') ((CHR ''['' # host @ [CHR '']'']) @ CHR '':'' # port) = Some (length host + 2)"
    by (subst last_index_append) (use assms in auto)
  moreover have "index_byte (CHR '']'') ((CHR ''['' # host) @ CHR '']'' # CHR '':'' # port) = Some (length host + 1)"
    by (subst index_append) (use assms in auto)
  ultimately show ?thesis using True assms by (auto simp: split_host_port_def join_host_port_def)
next
  case False
  have "last_index_byte (CHR '':'') (host @ CHR '':'' # port) = Some (length host)"
    by (rule last_index_append) (use assms in auto)
  moreover have "(host @ CHR '':'' # port) ! 0 \<noteq> CHR ''[''"
    using assms(1) by (cases host) auto
  ultimately show ?thesis using False assms by (auto simp: split_host_port_def join_host_port_def)
qed

subsection \<open>itoa and atoi\<close>

lemma digit_chars:
  "digit_char 0 = CHR ''0''" "digit_char (Suc 0) = CHR ''1''" "digit_char 1 = CHR ''1''" "digit_char 2 = CHR ''2''" "digit_char 3 = CHR ''3''"
  "digit_char 4 = CHR ''4''" "digit_char 5 = CHR ''5''" "digit_char 6 = CHR ''6''" "digit_char 7 = CHR ''7''"
  "digit_char 8 = CHR ''8''" "digit_char 9 = CHR ''9''"
  by code_simp+

lemma of_char_digit: "d < 10 \<Longrightarrow> of_char (digit_char d) = (48 + d :: nat)"
  by (simp add: digit_char_def)

lemma digits_value_snoc: "digits_value (s @ [c]) = digits_value s * 10 + (of_char c - 48)"
  by (simp add: digits_value_def)

lemma show_nat_not_Nil [simp]: "show_nat n \<noteq> []"
  by (subst show_nat.simps) simp

lemma is_digit_digit_char: "d < 10 \<Longrightarrow> is_digit (digit_char d)"
  by (simp add: is_digit_def of_char_digit)

lemma show_nat_digits: "list_all is_digit (show_nat n)"
proof (induction n rule: show_nat.induct)
  case (1 n)
  then show ?case
    by (subst show_nat.simps) (auto simp: is_digit_digit_char)
qed

lemma digits_value_show_nat [simp]: "digits_value (show_nat n) = n"
proof (induction n rule: show_nat.induct)
  case (1 n)
  then show ?case
    by (subst show_nat.simps)
      (auto simp: digits_value_snoc of_char_digit, simp add: digits_value_def of_char_digit)
qed

lemma show_nat_no_sign: "\<not> prefix ''-'' (show_nat n)" "\<not> prefix ''+'' (show_nat n)"
proof -
  obtain c cs where s: "show_nat n = c # cs" by (cases "show_nat n") auto
  with show_nat_digits[of n] have "is_digit c" by simp
  then show "\<not> prefix ''-'' (show_nat n)" "\<not> prefix ''+'' (show_nat n)"
    by (auto simp: s is_digit_def)
qed

lemma atoi_itoa: "min_int64 \<le> i \<Longrightarrow> i \<le> max_int64 \<Longrightarrow> atoi (itoa i) = Some i"
  using show_nat_digits[of "nat i"] show_nat_digits[of "nat (- i)"] show_nat_no_sign[of "nat i"]
  by (auto simp: atoi_def itoa_def Let_def)

lemma itoa_inj: "itoa i = itoa j \<Longrightarrow> i = j"
proof -
  have hd: "\<And>n. hd (show_nat n) \<noteq> CHR ''-''"
    using show_nat_no_sign(1) by (metis list.collapse Cons_prefix_Cons Nil_prefix show_nat_not_Nil)
  assume eq: "itoa i = itoa j"
  consider "i < 0" "j < 0" | "i \<ge> 0" "j \<ge> 0" | "i < 0" "j \<ge> 0" | "i \<ge> 0" "j < 0" by linarith
  then show "i = j"
  proof cases
    case 1
    with eq have "show_nat (nat (- i)) = show_nat (nat (- j))" by (simp add: itoa_def)
    with 1 show ?thesis by (metis digits_value_show_nat minus_equation_iff nat_0_le neg_0_le_iff_le order_less_imp_le)
  next
    case 2
    with eq have "show_nat (nat i) = show_nat (nat j)" by (simp add: itoa_def)
    with 2 show ?thesis by (metis digits_value_show_nat nat_0_le)
  next
    case 3
    with eq hd[of "nat j"] show ?thesis by (metis itoa_def append_Cons leD list.sel(1))
  next
    case 4
    with eq hd[of "nat i"] show ?thesis by (metis itoa_def append_Cons leD list.sel(1))
  qed
qed

end
