(* ===== verification/Effects.thy ===== *)
theory Effects
  imports Prelude "HOL-Library.State_Monad"
begin

text \<open>
  Stateful Go code is written in the state monad of the library, with its \<open>do\<close> blocks. This
  theory adds what the components share: reading a part of the state, early return on an
  error value, and Hoare triples with one rule per construct, collected in \<open>hoare_rules\<close>, so
  that an invariant of a whole handler is proved by following its text.
\<close>

named_theorems hoare_rules "structural rules of Hoare triples"
named_theorems hoare_ops "triples of operations"

definition gets :: "('s \<Rightarrow> 'a) \<Rightarrow> ('s, 'a) state" where
  "gets f = State (\<lambda>s. (f s, s))"

definition modify :: "('s \<Rightarrow> 's) \<Rightarrow> ('s, unit) state" where
  "modify f = State (\<lambda>s. ((), f s))"

definition return_st :: "'a \<Rightarrow> ('s, 'a) state" where
  "return_st x = State (\<lambda>s. (x, s))"

text \<open>Go's \<open>if err != nil { return err }\<close>.\<close>

definition try_bind :: "('s, 'e + 'a) state \<Rightarrow> ('a \<Rightarrow> ('s, 'e + 'b) state) \<Rightarrow> ('s, 'e + 'b) state" where
  "try_bind m k = do { r \<leftarrow> m; case r of Inl e \<Rightarrow> return_st (Inl e) | Inr x \<Rightarrow> k x }"

lemma run_gets [simp]: "run_state (gets f) s = (f s, s)" by (simp add: gets_def)
lemma run_modify [simp]: "run_state (modify f) s = ((), f s)" by (simp add: modify_def)
lemma run_return_st [simp]: "run_state (return_st x) s = (x, s)" by (simp add: return_st_def)

lemma run_try_bind:
  "run_state (try_bind m k) s =
     (case run_state m s of (Inl e, s') \<Rightarrow> (Inl e, s') | (Inr x, s') \<Rightarrow> run_state (k x) s')"
  by (simp add: try_bind_def split: prod.split sum.split)

section \<open>Triples\<close>

definition hoare :: "('s \<Rightarrow> bool) \<Rightarrow> ('s, 'a) state \<Rightarrow> ('a \<Rightarrow> 's \<Rightarrow> bool) \<Rightarrow> bool" where
  "hoare P m Q \<longleftrightarrow> (\<forall>s. P s \<longrightarrow> (case run_state m s of (a, s') \<Rightarrow> Q a s'))"

abbreviation keeps :: "('s \<Rightarrow> bool) \<Rightarrow> ('s, 'a) state \<Rightarrow> bool" where
  "keeps I m \<equiv> hoare I m (\<lambda>_. I)"

lemma hoareD: "hoare P m Q \<Longrightarrow> P s \<Longrightarrow> run_state m s = (a, s') \<Longrightarrow> Q a s'"
  by (auto simp: hoare_def)

lemma hoareI: "(\<And>s a s'. P s \<Longrightarrow> run_state m s = (a, s') \<Longrightarrow> Q a s') \<Longrightarrow> hoare P m Q"
  by (auto simp: hoare_def)

lemma hoare_weaken_pre: "hoare P m Q \<Longrightarrow> (\<And>s. P' s \<Longrightarrow> P s) \<Longrightarrow> hoare P' m Q"
  by (auto simp: hoare_def)

lemma hoare_strengthen_post: "hoare P m Q \<Longrightarrow> (\<And>a s. Q a s \<Longrightarrow> Q' a s) \<Longrightarrow> hoare P m Q'"
  by (fastforce simp: hoare_def split: prod.splits)

lemma hoare_return_st: "(\<And>s. P s \<Longrightarrow> Q x s) \<Longrightarrow> hoare P (return_st x) Q"
  by (simp add: hoare_def)

lemma hoare_gets: "(\<And>s. P s \<Longrightarrow> Q (f s) s) \<Longrightarrow> hoare P (gets f) Q"
  by (simp add: hoare_def)

lemma hoare_modify: "(\<And>s. P s \<Longrightarrow> Q () (f s)) \<Longrightarrow> hoare P (modify f) Q"
  by (simp add: hoare_def)

lemma hoare_bind: "hoare P m R \<Longrightarrow> (\<And>a. hoare (R a) (k a) Q) \<Longrightarrow> hoare P (do { a \<leftarrow> m; k a }) Q"
  by (fastforce simp: hoare_def split: prod.splits)

lemma hoare_try_bind:
  "hoare P m R \<Longrightarrow> (\<And>e s. R (Inl e) s \<Longrightarrow> Q (Inl e) s) \<Longrightarrow> (\<And>x. hoare (R (Inr x)) (k x) Q) \<Longrightarrow>
   hoare P (try_bind m k) Q"
  unfolding try_bind_def
  by (rule hoare_bind) (auto split: sum.split intro: hoare_return_st)

lemma hoare_if: "(c \<Longrightarrow> hoare P m Q) \<Longrightarrow> (\<not> c \<Longrightarrow> hoare P n Q) \<Longrightarrow> hoare P (if c then m else n) Q"
  by simp

lemma hoare_sum:
  "(\<And>e. r = Inl e \<Longrightarrow> hoare P (f e) Q) \<Longrightarrow> (\<And>x. r = Inr x \<Longrightarrow> hoare P (g x) Q) \<Longrightarrow>
   hoare P (case r of Inl e \<Rightarrow> f e | Inr x \<Rightarrow> g x) Q"
  by (cases r) auto

lemma hoare_option:
  "(r = None \<Longrightarrow> hoare P f Q) \<Longrightarrow> (\<And>x. r = Some x \<Longrightarrow> hoare P (g x) Q) \<Longrightarrow>
   hoare P (case r of None \<Rightarrow> f | Some x \<Rightarrow> g x) Q"
  by (cases r) auto

lemma hoare_prod: "(\<And>a b. r = (a, b) \<Longrightarrow> hoare P (f a b) Q) \<Longrightarrow> hoare P (case r of (a, b) \<Rightarrow> f a b) Q"
  by (cases r) auto

lemma hoare_list:
  "(xs = [] \<Longrightarrow> hoare P f Q) \<Longrightarrow> (\<And>y ys. xs = y # ys \<Longrightarrow> hoare P (g y ys) Q) \<Longrightarrow>
   hoare P (case xs of [] \<Rightarrow> f | y # ys \<Rightarrow> g y ys) Q"
  by (cases xs) auto

lemma hoare_conj: "hoare P m Q \<Longrightarrow> hoare P' m Q' \<Longrightarrow> hoare (\<lambda>s. P s \<and> P' s) m (\<lambda>a s. Q a s \<and> Q' a s)"
  by (fastforce simp: hoare_def split: prod.splits)

subsection \<open>Invariants\<close>

lemma keeps_return: "keeps I (return_st x)" by (simp add: hoare_def)
lemma keeps_gets: "keeps I (gets f)" by (simp add: hoare_def)
lemma keeps_modify: "(\<And>s. I s \<Longrightarrow> I (f s)) \<Longrightarrow> keeps I (modify f)" by (simp add: hoare_def)

lemma keeps_bind: "keeps I m \<Longrightarrow> (\<And>a. keeps I (k a)) \<Longrightarrow> keeps I (do { a \<leftarrow> m; k a })"
  by (rule hoare_bind)

lemma keeps_try_bind: "keeps I m \<Longrightarrow> (\<And>a. keeps I (k a)) \<Longrightarrow> keeps I (try_bind m k)"
  by (rule hoare_try_bind) auto

lemma keeps_let: "(\<And>x. x = a \<Longrightarrow> keeps I (f x)) \<Longrightarrow> keeps I (let x = a in f x)"
  by simp

lemmas keeps_rules = keeps_return keeps_gets keeps_bind keeps_try_bind keeps_let
  hoare_if hoare_sum hoare_option hoare_prod hoare_list

lemma keeps_result: "keeps I m \<Longrightarrow> I s \<Longrightarrow> I (snd (run_state m s))"
  by (cases "run_state m s") (auto simp: hoare_def split: prod.splits)

subsection \<open>Running a component inside a larger state\<close>

definition zoom :: "('w \<Rightarrow> 's) \<Rightarrow> ('s \<Rightarrow> 'w \<Rightarrow> 'w) \<Rightarrow> ('s, 'a) state \<Rightarrow> ('w, 'a) state" where
  "zoom rd wr m = State (\<lambda>w. case run_state m (rd w) of (a, s') \<Rightarrow> (a, wr s' w))"

lemma run_zoom: "run_state (zoom rd wr m) w = (case run_state m (rd w) of (a, s') \<Rightarrow> (a, wr s' w))"
  by (simp add: zoom_def)

lemma hoare_zoom:
  "hoare P m Q \<Longrightarrow> (\<And>w. P' w \<Longrightarrow> P (rd w)) \<Longrightarrow> (\<And>a s w. P' w \<Longrightarrow> Q a s \<Longrightarrow> Q' a (wr s w)) \<Longrightarrow>
   hoare P' (zoom rd wr m) Q'"
  by (fastforce simp: hoare_def run_zoom split: prod.splits)

end
