(* ===== verification/Sysconfig.thy ===== *)
theory Sysconfig
  imports Prelude
begin

text \<open>
  The catalog of runtime system parameters, internal/sysconfig/catalog.go: the keys, the
  defaults, the normalizers and the validators. A validator returns the message shown to the
  administrator, the empty string when the value is acceptable.
\<close>

record sys_entry =
  se_Key :: string
  se_Label :: string
  se_Default :: string
  se_Length :: int
  se_Normalize :: "(string \<Rightarrow> string) option" \<comment> \<open>\<open>None\<close> is nil: identity\<close>
  se_Validate :: "string \<Rightarrow> string"

definition KeyMOTDFile :: string where "KeyMOTDFile = ''MOTD_FILE''"
definition KeyBrandingFile :: string where "KeyBrandingFile = ''BRANDING_FILE''"
definition KeyMFAIssuer :: string where "KeyMFAIssuer = ''MFA_ISSUER''"
definition KeySystemID :: string where "KeySystemID = ''SYSTEM_ID''"
definition KeyAuthDelayBaseSecs :: string where "KeyAuthDelayBaseSecs = ''AUTH_DELAY_BASE_SECS''"
definition KeyAuthMaxTries :: string where "KeyAuthMaxTries = ''AUTH_MAX_TRIES''"
definition KeyAuthFailWindowMins :: string where "KeyAuthFailWindowMins = ''AUTH_FAIL_WINDOW_MINS''"
definition DefaultAuthDelayBaseSecs :: int where "DefaultAuthDelayBaseSecs = 2"
definition DefaultAuthMaxTries :: int where "DefaultAuthMaxTries = 5"
definition DefaultAuthFailWindowMins :: int where "DefaultAuthFailWindowMins = 15"
definition KeyAuditMaxRows :: string where "KeyAuditMaxRows = ''AUDIT_MAX_ROWS''"
definition DefaultAuditMaxRows :: int where "DefaultAuditMaxRows = 1000"
definition KeyAuditReverseDNS :: string where "KeyAuditReverseDNS = ''AUDIT_REVERSE_DNS''"
definition DefaultAuditReverseDNS :: string where "DefaultAuditReverseDNS = ''Y''"

definition intInRange :: "int \<Rightarrow> int \<Rightarrow> string \<Rightarrow> string" where
  "intInRange lo hi v =
     (case atoi (trim_space v) of
        Some n \<Rightarrow> if n < lo \<or> hi < n then ''MUST BE AN INTEGER FROM '' @ itoa lo @ '' TO '' @ itoa hi else []
      | None \<Rightarrow> ''MUST BE AN INTEGER FROM '' @ itoa lo @ '' TO '' @ itoa hi)"

definition yesNo :: "string \<Rightarrow> string" where
  "yesNo v = (if to_upper (trim_space v) \<in> {''Y'', ''N''} then [] else ''MUST BE Y OR N'')"

definition nonNegativeInt :: "string \<Rightarrow> string" where
  "nonNegativeInt v =
     (case atoi (trim_space v) of
        Some n \<Rightarrow> if n < 0 then ''MUST BE A NON-NEGATIVE INTEGER'' else []
      | None \<Rightarrow> ''MUST BE A NON-NEGATIVE INTEGER'')"

definition positiveInt :: "string \<Rightarrow> string" where
  "positiveInt v =
     (case atoi (trim_space v) of
        Some n \<Rightarrow> if n < 1 then ''MUST BE A POSITIVE INTEGER'' else []
      | None \<Rightarrow> ''MUST BE A POSITIVE INTEGER'')"

definition is_upper_alnum :: "char \<Rightarrow> bool" where
  "is_upper_alnum c \<longleftrightarrow> ((65 :: nat) \<le> of_char c \<and> of_char c \<le> (90 :: nat)) \<or> is_digit c"

text \<open>On ASCII text the rune count is the length.\<close>

definition validateSystemID :: "string \<Rightarrow> string" where
  "validateSystemID v0 =
     (let v = to_upper (trim_space v0)
      in if v = [] then ''SYSTEM ID REQUIRED''
         else if 7 < length v then ''SYSTEM ID TOO LONG (MAX 7)''
         else if hd v = CHR ''-'' then ''SYSTEM ID MUST NOT START WITH A DASH''
         else if \<not> list_all (\<lambda>c. is_upper_alnum c \<or> c = CHR ''-'') v then ''SYSTEM ID: USE A-Z 0-9 AND DASH''
         else [])"

definition validateMFAIssuer :: "string \<Rightarrow> string" where
  "validateMFAIssuer v0 =
     (let v = trim_space v0
      in if v = [] then ''MFA ISSUER REQUIRED''
         else if CHR '':'' \<in> set v then ''MFA ISSUER MUST NOT CONTAIN A COLON''
         else if 40 < length v then ''MFA ISSUER TOO LONG (MAX 40)''
         else [])"

definition Catalog :: "sys_entry list" where
  "Catalog =
     [\<lparr>se_Key = KeySystemID, se_Label = ''System ID:'', se_Default = ''PROXY'', se_Length = 7,
        se_Normalize = Some (\<lambda>v. to_upper (trim_space v)), se_Validate = validateSystemID\<rparr>,
      \<lparr>se_Key = KeyMOTDFile, se_Label = ''MOTD Import Path:'', se_Default = [], se_Length = 0,
        se_Normalize = None, se_Validate = (\<lambda>_. [])\<rparr>,
      \<lparr>se_Key = KeyBrandingFile, se_Label = ''Branding Import Path:'', se_Default = [], se_Length = 0,
        se_Normalize = None, se_Validate = (\<lambda>_. [])\<rparr>,
      \<lparr>se_Key = KeyAuthDelayBaseSecs, se_Label = ''Auth Delay Base (sec):'',
        se_Default = itoa DefaultAuthDelayBaseSecs, se_Length = 0, se_Normalize = None, se_Validate = nonNegativeInt\<rparr>,
      \<lparr>se_Key = KeyAuthMaxTries, se_Label = ''Max Auth Tries:'',
        se_Default = itoa DefaultAuthMaxTries, se_Length = 0, se_Normalize = None, se_Validate = nonNegativeInt\<rparr>,
      \<lparr>se_Key = KeyAuthFailWindowMins, se_Label = ''Auth Fail Window (min):'',
        se_Default = itoa DefaultAuthFailWindowMins, se_Length = 0, se_Normalize = None, se_Validate = positiveInt\<rparr>,
      \<lparr>se_Key = KeyMFAIssuer, se_Label = ''MFA Issuer:'', se_Default = ''TN3270PROXY'', se_Length = 0,
        se_Normalize = None, se_Validate = validateMFAIssuer\<rparr>,
      \<lparr>se_Key = KeyAuditMaxRows, se_Label = ''Audit View Max Rows:'',
        se_Default = itoa DefaultAuditMaxRows, se_Length = 0, se_Normalize = None, se_Validate = intInRange 1 10000\<rparr>,
      \<lparr>se_Key = KeyAuditReverseDNS, se_Label = ''Audit Reverse DNS:'', se_Default = DefaultAuditReverseDNS, se_Length = 1,
        se_Normalize = Some (\<lambda>v. to_upper (trim_space v)), se_Validate = yesNo\<rparr>]"

definition normalize_entry :: "sys_entry \<Rightarrow> string \<Rightarrow> string" where
  "normalize_entry e v = (case se_Normalize e of None \<Rightarrow> v | Some f \<Rightarrow> f v)"

section \<open>Lemmas\<close>

lemmas key_defs = KeyMOTDFile_def KeyBrandingFile_def KeyMFAIssuer_def KeySystemID_def KeyAuthDelayBaseSecs_def
  KeyAuthMaxTries_def KeyAuthFailWindowMins_def KeyAuditMaxRows_def KeyAuditReverseDNS_def

lemma catalog_keys:
  "map se_Key Catalog = [KeySystemID, KeyMOTDFile, KeyBrandingFile, KeyAuthDelayBaseSecs, KeyAuthMaxTries,
     KeyAuthFailWindowMins, KeyMFAIssuer, KeyAuditMaxRows, KeyAuditReverseDNS]"
  by (simp add: Catalog_def)

lemma catalog_keys_distinct: "distinct (map se_Key Catalog)"
  by (simp add: catalog_keys key_defs)

text \<open>A value that passed a numeric validator is one the reader of the parameter accepts.\<close>

lemma nonNegativeInt_ok: "nonNegativeInt v = [] \<longleftrightarrow> (\<exists>n. atoi (trim_space v) = Some n \<and> 0 \<le> n)"
  by (auto simp: nonNegativeInt_def split: option.splits)

lemma positiveInt_ok: "positiveInt v = [] \<longleftrightarrow> (\<exists>n. atoi (trim_space v) = Some n \<and> 1 \<le> n)"
  by (auto simp: positiveInt_def split: option.splits)

lemma intInRange_ok: "intInRange lo hi v = [] \<longleftrightarrow> (\<exists>n. atoi (trim_space v) = Some n \<and> lo \<le> n \<and> n \<le> hi)"
  by (auto simp: intInRange_def split: option.splits)

lemma defaults_validate: "\<forall>e\<in>set Catalog. se_Validate e (se_Default e) = []"
proof -
  have "nonNegativeInt (itoa DefaultAuthDelayBaseSecs) = []" "nonNegativeInt (itoa DefaultAuthMaxTries) = []"
    "positiveInt (itoa DefaultAuthFailWindowMins) = []" "intInRange 1 10000 (itoa DefaultAuditMaxRows) = []"
    "yesNo DefaultAuditReverseDNS = []" "validateSystemID ''PROXY'' = []" "validateMFAIssuer ''TN3270PROXY'' = []"
    by code_simp+
  then show ?thesis by (simp add: Catalog_def)
qed

end
