(* ===== verification/Netip.thy ===== *)
theory Netip
  imports Prelude
begin

text \<open>
  What the sources use of Go's net/netip: parsing addresses and prefixes (IPv4, IPv6 with
  "::", embedded IPv4 and zones), masking, containment, unmapping and printing.
  An IPv4 address is a 32-bit word, an IPv6 address a 128-bit word with its zone.
\<close>

unbundle bit_operations_syntax

datatype ip_addr = IPv4 "32 word" | IPv6 "128 word" string

record ip_prefix =
  px_addr :: ip_addr
  px_bits :: nat

section \<open>Parsing\<close>

definition octet :: "string \<Rightarrow> nat option" where
  "octet s =
     (if s = [] \<or> \<not> list_all is_digit s then None
      else if 1 < length s \<and> hd s = CHR ''0'' then None
      else if 255 < digits_value s then None
      else Some (digits_value s))"

definition octets_value :: "nat list \<Rightarrow> nat" where
  "octets_value = foldl (\<lambda>acc o8. acc * 256 + o8) 0"

definition parse_ipv4_fields :: "string \<Rightarrow> nat list option" where
  "parse_ipv4_fields s =
     (let ps = map octet (split_on (CHR ''.'') s)
      in if length ps = 4 \<and> None \<notin> set ps then Some (map the ps) else None)"

definition hex_digit :: "char \<Rightarrow> nat option" where
  "hex_digit c =
     (if is_digit c then Some (of_char c - 48)
      else if (97 :: nat) \<le> of_char c \<and> of_char c \<le> (102 :: nat) then Some (of_char c - 87)
      else if (65 :: nat) \<le> of_char c \<and> of_char c \<le> (70 :: nat) then Some (of_char c - 55)
      else None)"

definition hex_value :: "string \<Rightarrow> nat" where
  "hex_value = foldl (\<lambda>acc c. acc * 16 + (case hex_digit c of None \<Rightarrow> 0 | Some d \<Rightarrow> d)) 0"

text \<open>
  The loop of \<open>parseIPv6\<close>: \<open>gs\<close> the 16-bit groups read so far, \<open>ell\<close> the position of "::",
  \<open>s\<close> the rest of the text. The result is the groups and the position.
\<close>

function parse_ipv6_loop :: "nat list \<Rightarrow> nat option \<Rightarrow> string \<Rightarrow> (nat list \<times> nat option) option" where
  "parse_ipv6_loop gs ell s =
     (if 8 \<le> length gs then (if s = [] then Some (gs, ell) else None)
      else
        let h = takeWhile (\<lambda>c. hex_digit c \<noteq> None) s;
            r = dropWhile (\<lambda>c. hex_digit c \<noteq> None) s
        in if h = [] \<or> 4 < length h then None
           else if r \<noteq> [] \<and> hd r = CHR ''.'' then
             (if ell = None \<and> length gs \<noteq> 6 then None
              else if 6 < length gs then None
              else case parse_ipv4_fields s of
                     None \<Rightarrow> None
                   | Some q \<Rightarrow> Some (gs @ [q ! 0 * 256 + q ! 1, q ! 2 * 256 + q ! 3], ell))
           else if r = [] then Some (gs @ [hex_value h], ell)
           else if hd r \<noteq> CHR '':'' \<or> length r = 1 then None
           else let r1 = tl r; gs1 = gs @ [hex_value h]
                in if hd r1 = CHR '':'' then
                     (if ell \<noteq> None then None
                      else if length r1 = 1 then Some (gs1, Some (length gs1))
                      else parse_ipv6_loop gs1 (Some (length gs1)) (tl r1))
                   else parse_ipv6_loop gs1 ell r1)"
  by pat_completeness auto
termination by (relation "measure (\<lambda>(gs, _, _). 8 - length gs)") auto

declare parse_ipv6_loop.simps [simp del]

definition groups_value :: "nat list \<Rightarrow> nat" where
  "groups_value = foldl (\<lambda>acc g. acc * 65536 + g) 0"

definition expand_groups :: "nat list \<Rightarrow> nat option \<Rightarrow> nat list option" where
  "expand_groups gs ell =
     (case ell of
        None \<Rightarrow> if length gs = 8 then Some gs else None
      | Some e \<Rightarrow> if length gs = 8 then None
                 else Some (take e gs @ replicate (8 - length gs) 0 @ drop e gs))"

definition parse_ipv6 :: "string \<Rightarrow> ip_addr option" where
  "parse_ipv6 s0 =
     (let s = (case index_byte (CHR ''%'') s0 of None \<Rightarrow> s0 | Some i \<Rightarrow> take i s0);
          zone = (case index_byte (CHR ''%'') s0 of None \<Rightarrow> [] | Some i \<Rightarrow> drop (i + 1) s0)
      in if index_byte (CHR ''%'') s0 \<noteq> None \<and> zone = [] then None
         else if s = ''::'' then Some (IPv6 0 zone)
         else case (if prefix ''::'' s then parse_ipv6_loop [] (Some 0) (drop 2 s) else parse_ipv6_loop [] None s) of
                None \<Rightarrow> None
              | Some (gs, ell) \<Rightarrow>
                  map_option (\<lambda>g. IPv6 (of_nat (groups_value g)) zone) (expand_groups gs ell))"

definition ParseAddr :: "string \<Rightarrow> ip_addr option" where
  "ParseAddr s =
     (case dropWhile (\<lambda>c. c \<noteq> CHR ''.'' \<and> c \<noteq> CHR '':'' \<and> c \<noteq> CHR ''%'') s of
        [] \<Rightarrow> None
      | c # _ \<Rightarrow>
          if c = CHR ''.'' then map_option (\<lambda>q. IPv4 (of_nat (octets_value q))) (parse_ipv4_fields s)
          else if c = CHR '':'' then parse_ipv6 s
          else None)"

definition BitLen :: "ip_addr \<Rightarrow> nat" where
  "BitLen a = (case a of IPv4 _ \<Rightarrow> 32 | IPv6 _ _ \<Rightarrow> 128)"

definition hasZone :: "ip_addr \<Rightarrow> bool" where
  "hasZone a = (case a of IPv4 _ \<Rightarrow> False | IPv6 _ z \<Rightarrow> z \<noteq> [])"

definition withoutZone :: "ip_addr \<Rightarrow> ip_addr" where
  "withoutZone a = (case a of IPv4 w \<Rightarrow> IPv4 w | IPv6 w _ \<Rightarrow> IPv6 w [])"

definition ParsePrefix :: "string \<Rightarrow> ip_prefix option" where
  "ParsePrefix s =
     (case last_index_byte (CHR ''/'') s of
        None \<Rightarrow> None
      | Some i \<Rightarrow>
          (case ParseAddr (take i s) of
             None \<Rightarrow> None
           | Some a \<Rightarrow>
               let bs = drop (i + 1) s
               in if hasZone a then None
                  else if 1 < length bs \<and> \<not> (is_digit (hd bs) \<and> hd bs \<noteq> CHR ''0'') then None
                  else case atoi bs of
                         None \<Rightarrow> None
                       | Some b \<Rightarrow> if b < 0 \<or> int (BitLen a) < b then None
                                  else Some \<lparr>px_addr = a, px_bits = nat b\<rparr>))"

section \<open>Masking and containment\<close>

definition Masked :: "ip_prefix \<Rightarrow> ip_prefix" where
  "Masked p =
     p\<lparr>px_addr := (case px_addr p of
                     IPv4 w \<Rightarrow> IPv4 (push_bit (32 - px_bits p) (drop_bit (32 - px_bits p) w))
                   | IPv6 w z \<Rightarrow> IPv6 (push_bit (128 - px_bits p) (drop_bit (128 - px_bits p) w)) z)\<rparr>"

definition prefix_Contains :: "ip_prefix \<Rightarrow> ip_addr \<Rightarrow> bool" where
  "prefix_Contains p ip \<longleftrightarrow>
     (if hasZone ip then False
      else case (px_addr p, ip) of
             (IPv4 v, IPv4 w) \<Rightarrow> drop_bit (32 - px_bits p) (v XOR w) = 0
           | (IPv6 v _, IPv6 w _) \<Rightarrow> drop_bit (128 - px_bits p) (v XOR w) = 0
           | _ \<Rightarrow> False)"

text \<open>An IPv4-mapped IPv6 address (::ffff:a.b.c.d) becomes the IPv4 address, dropping the zone.\<close>

definition Unmap :: "ip_addr \<Rightarrow> ip_addr" where
  "Unmap a =
     (case a of
        IPv4 w \<Rightarrow> IPv4 w
      | IPv6 w z \<Rightarrow> if drop_bit 32 w = 0xFFFF then IPv4 (ucast w) else IPv6 w z)"

section \<open>Printing\<close>

definition ipv4_octets :: "32 word \<Rightarrow> nat list" where
  "ipv4_octets w =
     (let n = unat w in [n div 16777216 mod 256, n div 65536 mod 256, n div 256 mod 256, n mod 256])"

definition ipv4_string :: "32 word \<Rightarrow> string" where
  "ipv4_string w = join_with ''.'' (map show_nat (ipv4_octets w))"

definition hex_char :: "nat \<Rightarrow> char" where
  "hex_char d = (if d < 10 then char_of (48 + d) else char_of (87 + d))"

fun show_hex :: "nat \<Rightarrow> string" where
  "show_hex n = (if n < 16 then [hex_char n] else show_hex (n div 16) @ [hex_char (n mod 16)])"

declare show_hex.simps [simp del]

definition ipv6_groups :: "128 word \<Rightarrow> nat list" where
  "ipv6_groups w = map (\<lambda>i. unat (drop_bit (16 * (7 - i)) w) mod 65536) [0..<8]"

text \<open>The first longest run of at least two zero groups.\<close>

definition zero_run :: "nat list \<Rightarrow> nat \<times> nat" where
  "zero_run gs =
     foldl (\<lambda>(a, b) i. let l = length (takeWhile (\<lambda>g. g = 0) (drop i gs))
                       in if 2 \<le> l \<and> b - a < l then (i, i + l) else (a, b)) (255, 255) [0..<8]"

definition ipv6_string :: "128 word \<Rightarrow> string" where
  "ipv6_string w =
     (if drop_bit 32 w = 0xFFFF then ''::ffff:'' @ ipv4_string (ucast w)
      else let gs = ipv6_groups w
           in case zero_run gs of
                (a, b) \<Rightarrow>
                  if a = 255 then join_with '':'' (map show_hex gs)
                  else join_with '':'' (map show_hex (take a gs)) @ ''::'' @ join_with '':'' (map show_hex (drop b gs)))"

definition addr_string :: "ip_addr \<Rightarrow> string" where
  "addr_string a =
     (case a of IPv4 w \<Rightarrow> ipv4_string w
      | IPv6 w z \<Rightarrow> ipv6_string w @ (if z = [] then [] else ''%'' @ z))"

definition prefix_string :: "ip_prefix \<Rightarrow> string" where
  "prefix_string p = addr_string (withoutZone (px_addr p)) @ ''/'' @ show_nat (px_bits p)"

section \<open>Containment lemmas\<close>

lemma drop_push_drop [simp]: "drop_bit n (push_bit n (drop_bit n v)) = drop_bit n (v :: 'a::len word)"
  by (rule bit_word_eqI) (auto simp: bit_simps dest: bit_imp_le_length)

lemma xor_0_iff: "v XOR w = 0 \<longleftrightarrow> v = (w :: 'a::len word)"
  by (metis xor.assoc xor.left_neutral xor_self_eq xor.commute)

lemma masked_contains [simp]: "prefix_Contains (Masked p) ip = prefix_Contains p ip"
  by (auto simp: prefix_Contains_def Masked_def drop_bit_xor split: ip_addr.splits)

lemma host_route_contains:
  "prefix_Contains \<lparr>px_addr = withoutZone a, px_bits = BitLen a\<rparr> ip \<longleftrightarrow> \<not> hasZone ip \<and> ip = withoutZone a"
  by (auto simp: prefix_Contains_def withoutZone_def BitLen_def hasZone_def xor_0_iff split: ip_addr.splits)

section \<open>Round trip of IPv4 prefixes\<close>

lemma digits_no_char: "list_all is_digit s \<Longrightarrow> \<not> is_digit c \<Longrightarrow> c \<notin> set s"
  by (auto simp: list_all_iff)

lemma show_nat_hd: "1 < length (show_nat n) \<Longrightarrow> hd (show_nat n) \<noteq> CHR ''0''"
proof (induction n rule: show_nat.induct)
  case (1 n)
  show ?case
  proof (cases "n < 10")
    case True
    then show ?thesis using 1 by (subst show_nat.simps) (simp add: show_nat.simps[of n])
  next
    case False
    have *: "show_nat n = show_nat (n div 10) @ [digit_char (n mod 10)]" using False by (subst show_nat.simps) simp
    have hd: "hd (show_nat n) = hd (show_nat (n div 10))" by (simp add: *)
    show ?thesis
    proof (cases "n div 10 < 10")
      case True
      then have "show_nat (n div 10) = [digit_char (n div 10)]" by (subst show_nat.simps) simp
      moreover have "0 < n div 10" using False by simp
      moreover have "of_char (digit_char (n div 10)) = 48 + n div 10" using True by (rule of_char_digit)
      moreover have "of_char (CHR ''0'') = (48 :: nat)" by simp
      ultimately show ?thesis using hd by (metis add_cancel_left_right less_numeral_extra(3) list.sel(1))
    next
      case deep: False
      then have "1 < length (show_nat (n div 10))" by (subst show_nat.simps) simp
      with 1(1)[OF False] hd show ?thesis by simp
    qed
  qed
qed

lemma octet_show: "n < 256 \<Longrightarrow> octet (show_nat n) = Some n"
  using show_nat_digits[of n] show_nat_hd[of n] by (auto simp: octet_def)

lemma not_digit_sep [simp]: "\<not> is_digit (CHR ''.'')" "\<not> is_digit (CHR '':'')" "\<not> is_digit (CHR ''/'')" "\<not> is_digit (CHR ''%'')"
  by (simp_all add: is_digit_def)

lemma show_nat_no_sep [simp]:
  "CHR ''.'' \<notin> set (show_nat n)" "CHR '':'' \<notin> set (show_nat n)" "CHR ''/'' \<notin> set (show_nat n)" "CHR ''%'' \<notin> set (show_nat n)"
  using digits_no_char[OF show_nat_digits[of n]] by simp_all

lemma parse_ipv4_show:
  "parse_ipv4_fields (ipv4_string w) = Some (ipv4_octets w)"
proof -
  have "split_on (CHR ''.'') (ipv4_string w) = map show_nat (ipv4_octets w)"
    unfolding ipv4_string_def by (rule split_join) (auto simp: ipv4_octets_def Let_def)
  then show ?thesis by (simp add: parse_ipv4_fields_def ipv4_octets_def Let_def octet_show)
qed

lemma octets_value_split: "octets_value (ipv4_octets w) = unat w"
proof -
  define n where "n = unat w"
  define q where "q = n div 256"
  define r where "r = q div 256"
  define t where "t = r div 256"
  have "n < 2 ^ 32" using unsigned_less[of w] by (simp add: n_def)
  then have "t < 256" by (simp add: t_def r_def q_def)
  have 1: "n div 65536 = r" "n div 16777216 = t"
    by (simp_all add: r_def q_def t_def flip: div_mult2_eq)
  have "octets_value (ipv4_octets w) = (((t mod 256) * 256 + r mod 256) * 256 + q mod 256) * 256 + n mod 256"
    by (simp add: octets_value_def ipv4_octets_def Let_def 1 q_def flip: n_def)
  also have "t mod 256 = t" using \<open>t < 256\<close> by simp
  also have "t * 256 + r mod 256 = r" by (simp add: t_def)
  also have "r * 256 + q mod 256 = q" by (simp add: r_def)
  also have "q * 256 + n mod 256 = n" by (simp add: q_def)
  finally show ?thesis by (simp add: n_def)
qed

lemma ParseAddr_ipv4_string: "ParseAddr (ipv4_string w) = Some (IPv4 w)"
proof -
  let ?P = "\<lambda>c. c \<noteq> CHR ''.'' \<and> c \<noteq> CHR '':'' \<and> c \<noteq> CHR ''%''"
  obtain a b c d where o: "ipv4_octets w = [a, b, c, d]" by (simp add: ipv4_octets_def Let_def)
  then have s: "ipv4_string w = show_nat a @ CHR ''.'' # (show_nat b @ ''.'' @ show_nat c @ ''.'' @ show_nat d)"
    by (simp add: ipv4_string_def)
  have pre: "x \<in> set (show_nat a) \<Longrightarrow> ?P x" for x using show_nat_no_sep[of a] by auto
  have "dropWhile ?P (ipv4_string w) = CHR ''.'' # (show_nat b @ ''.'' @ show_nat c @ ''.'' @ show_nat d)"
    unfolding s by (subst dropWhile_append2[OF pre]) simp_all
  then show ?thesis by (simp add: ParseAddr_def parse_ipv4_show octets_value_split)
qed

lemma parse_ipv4_prefix:
  assumes "b \<le> 32"
  shows "ParsePrefix (prefix_string \<lparr>px_addr = IPv4 w, px_bits = b\<rparr>) = Some \<lparr>px_addr = IPv4 w, px_bits = b\<rparr>"
proof -
  have li: "last_index_byte (CHR ''/'') (ipv4_string w @ CHR ''/'' # show_nat b) = Some (length (ipv4_string w))"
    by (rule last_index_append) simp
  have at: "atoi (show_nat b) = Some (int b)"
    using atoi_itoa[of "int b"] assms by (simp add: itoa_def min_int64_def max_int64_def)
  have hd: "is_digit (hd (show_nat b))"
    using show_nat_digits[of b] by (cases "show_nat b") auto
  from li at hd show_nat_hd[of b] assms show ?thesis
    by (auto simp: ParsePrefix_def prefix_string_def addr_string_def withoutZone_def ParseAddr_ipv4_string
        hasZone_def BitLen_def Let_def)
qed

end
