(* ===== verification/Clock.thy ===== *)
theory Clock
  imports Prelude
begin

text \<open>
  Formatting of times as the sources do it: \<open>time.RFC3339\<close> in UTC for stored stamps, the
  HH:MM:SS clock of durations, and the calendar date behind both (the proleptic Gregorian
  calendar, years from 1).
\<close>

definition days_civil :: "int \<Rightarrow> int \<times> int \<times> int" where
  "days_civil days =
     (let z = days + 306;
          era = z div 146097;
          doe = z mod 146097;
          yoe = (doe - doe div 1460 + doe div 36524 - doe div 146096) div 365;
          doy = doe - (365 * yoe + yoe div 4 - yoe div 100);
          mp = (5 * doy + 2) div 153;
          d = doy - (153 * mp + 2) div 5 + 1;
          m = (if mp < 10 then mp + 3 else mp - 9)
      in (yoe + era * 400 + (if m \<le> 2 then 1 else 0), m, d))"

definition pad_left :: "char \<Rightarrow> nat \<Rightarrow> string \<Rightarrow> string" where
  "pad_left c w s = replicate (w - length s) c @ s"

definition pad_right :: "nat \<Rightarrow> string \<Rightarrow> string" where
  "pad_right w s = s @ replicate (w - length s) (CHR '' '')"

definition zpad :: "nat \<Rightarrow> int \<Rightarrow> string" where
  "zpad w i = pad_left (CHR ''0'') w (itoa i)"

definition day_of :: "go_time \<Rightarrow> int" where
  "day_of t = t div (86400 * second)"

definition sec_of_day :: "go_time \<Rightarrow> int" where
  "sec_of_day t = (t div second) mod 86400"

definition date_string :: "go_time \<Rightarrow> string" where \<comment> \<open>format 2006-01-02\<close>
  "date_string t = (case days_civil (day_of t) of (y, m, d) \<Rightarrow> zpad 4 y @ ''-'' @ zpad 2 m @ ''-'' @ zpad 2 d)"

definition clock_string :: "go_time \<Rightarrow> string" where \<comment> \<open>format 15:04:05\<close>
  "clock_string t =
     (let s = sec_of_day t
      in zpad 2 (s div 3600) @ '':'' @ zpad 2 (s div 60 mod 60) @ '':'' @ zpad 2 (s mod 60))"

definition rfc3339 :: "go_time \<Rightarrow> string" where \<comment> \<open>\<open>t.UTC().Format(time.RFC3339)\<close>\<close>
  "rfc3339 t = date_string t @ ''T'' @ clock_string t @ ''Z''"

lemma days_civil_examples:
  "days_civil 0 = (1, 1, 1)" "days_civil 719162 = (1970, 1, 1)"
  "days_civil 738885 = (2024, 1, 1)" "days_civil 738944 = (2024, 2, 29)" "days_civil 738945 = (2024, 3, 1)"
  by code_simp+

end
