(* ===== verification/Store.thy ===== *)
theory Store
  imports Sysconfig Effects Netip Clock
begin

text \<open>
  The database of internal/store: one table per record type below, and one definition per
  method of \<open>*Store\<close>, in the state monad over the database. The SQL text of a method is
  translated with SQLite's meaning of it (rowids, UNIQUE and COLLATE NOCASE, OR IGNORE,
  foreign keys, transactions). \<open>db_faults\<close> says which of the next statements the database
  engine fails (busy, disk full, I/O error), so every error branch of the callers is live.

  The audit column \<open>at\<close> is kept in whole seconds: the RFC3339 UTC text the code stores and
  compares has second resolution and, for four-digit years, the order of the instants.
\<close>

record user =
  u_ID :: int
  u_Username :: string
  u_PasswordHash :: string
  u_FullName :: string
  u_Email :: string
  u_MFARequired :: bool
  u_MFASecret :: string
  u_MFAEnrolledAt :: string
  u_MFALastStep :: int
  u_UserSettingsLocked :: bool

record group =
  g_ID :: int
  g_Name :: string

record service =
  s_ID :: int
  s_Name :: string
  s_Description :: string
  s_Host :: string
  s_Port :: int
  s_TLS :: bool
  s_TLSVerify :: bool

record trusted_network =
  tn_ID :: int
  tn_CIDR :: string
  tn_Comment :: string

record document =
  d_Name :: string
  d_Content :: string
  d_UpdatedAt :: string
  d_UpdatedBy :: string

record audit_event =
  ae_ID :: int
  ae_At :: int
  ae_SessionID :: string
  ae_Kind :: string
  ae_Username :: string
  ae_Actor :: string
  ae_RemoteAddr :: string
  ae_Service :: string
  ae_Detail :: string

record db =
  db_users :: "user list"
  db_groups :: "group list"
  db_user_groups :: "(int \<times> int) list"
  db_services :: "service list"
  db_group_services :: "(int \<times> int) list"
  db_audit :: "audit_event list"
  db_audit_seq :: int
  db_config :: "(string \<times> string) list"
  db_networks :: "trusted_network list"
  db_networks_seq :: int
  db_documents :: "document list"
  db_faults :: "bool list"

datatype store_error =
    ErrNotFound
  | ErrDocumentTooLarge
  | ErrInvalid string   \<comment> \<open>a validation error, with its text\<close>
  | ErrConstraint       \<comment> \<open>a UNIQUE or FOREIGN KEY constraint failed\<close>
  | ErrDB               \<comment> \<open>the database engine failed the statement\<close>

type_synonym 'a st = "(db, store_error + 'a) state"

section \<open>Statements\<close>

definition run_stmt :: "(db \<Rightarrow> (store_error + 'a) \<times> db) \<Rightarrow> 'a st" where
  "run_stmt f = State (\<lambda>d.
     case db_faults d of
       [] \<Rightarrow> f d
     | b # fs \<Rightarrow> if b then (Inl ErrDB, d\<lparr>db_faults := fs\<rparr>) else f (d\<lparr>db_faults := fs\<rparr>))"

definition query :: "(db \<Rightarrow> 'a) \<Rightarrow> 'a st" where
  "query f = run_stmt (\<lambda>d. (Inr (f d), d))"

text \<open>A statement that fails with a constraint error leaves the tables alone.\<close>

definition exec :: "(db \<Rightarrow> bool) \<Rightarrow> (db \<Rightarrow> 'a) \<Rightarrow> (db \<Rightarrow> db) \<Rightarrow> 'a st" where
  "exec ok res upd = run_stmt (\<lambda>d. if ok d then (Inr (res d), upd d) else (Inl ErrConstraint, d))"

definition fail_st :: "store_error \<Rightarrow> 'a st" where
  "fail_st e = return_st (Inl e)"

text \<open>
  \<open>BeginTx\<close>, the body, \<open>Commit\<close>, with the deferred \<open>Rollback\<close>: any failure restores the tables.
\<close>

definition in_transaction :: "unit st \<Rightarrow> unit st" where
  "in_transaction body = State (\<lambda>d0.
     case run_state (query (\<lambda>_. ())) d0 of
       (Inl e, d1) \<Rightarrow> (Inl e, d1)
     | (Inr _, d1) \<Rightarrow>
         (case run_state (try_bind body (\<lambda>_. query (\<lambda>_. ()))) d1 of
            (Inl e, d2) \<Rightarrow> (Inl e, d1\<lparr>db_faults := db_faults d2\<rparr>)
          | (Inr _, d2) \<Rightarrow> (Inr (), d2)))"

text \<open>COLLATE NOCASE compares ASCII text after folding it to lower case.\<close>

definition nocase :: "string \<Rightarrow> string \<Rightarrow> bool" where
  "nocase a b \<longleftrightarrow> to_lower a = to_lower b"

definition next_rowid :: "int list \<Rightarrow> int" where \<comment> \<open>INTEGER PRIMARY KEY\<close>
  "next_rowid ids = (if ids = [] then 1 else Max (set ids) + 1)"

definition order_by :: "('a \<Rightarrow> string) \<Rightarrow> 'a list \<Rightarrow> 'a list" where
  "order_by f xs = sort_key (\<lambda>x. to_lower (f x)) xs"

text \<open>\<open>execExpectingRow\<close> for an UPDATE of the row with the given id.\<close>

definition execExpectingRow :: "(db \<Rightarrow> bool) \<Rightarrow> (db \<Rightarrow> bool) \<Rightarrow> (db \<Rightarrow> db) \<Rightarrow> unit st" where
  "execExpectingRow ok hit upd =
     try_bind (exec (\<lambda>d. hit d \<longrightarrow> ok d) hit upd) (\<lambda>n. if n then return_st (Inr ()) else fail_st ErrNotFound)"

text \<open>
  \<open>insertOrGet\<close>: INSERT OR IGNORE, then the id of the new row or of the row already there.
\<close>

definition insertOrGet :: "(db \<Rightarrow> bool) \<Rightarrow> (db \<Rightarrow> int) \<Rightarrow> (db \<Rightarrow> db) \<Rightarrow> (db \<Rightarrow> int option) \<Rightarrow> int st" where
  "insertOrGet dup newid ins sel =
     try_bind (exec (\<lambda>_. True) (\<lambda>d. if dup d then None else Some (newid d)) (\<lambda>d. if dup d then d else ins d))
       (\<lambda>r. case r of
              Some i \<Rightarrow> return_st (Inr i)
            | None \<Rightarrow> try_bind (query sel) (\<lambda>o1. case o1 of Some i \<Rightarrow> return_st (Inr i) | None \<Rightarrow> fail_st ErrDB))"

section \<open>Users\<close>

definition new_user :: "int \<Rightarrow> string \<Rightarrow> string \<Rightarrow> user" where
  "new_user i name hash =
     \<lparr>u_ID = i, u_Username = name, u_PasswordHash = hash, u_FullName = [], u_Email = [],
      u_MFARequired = False, u_MFASecret = [], u_MFAEnrolledAt = [], u_MFALastStep = 0,
      u_UserSettingsLocked = False\<rparr>"

definition find_user :: "string \<Rightarrow> db \<Rightarrow> user option" where \<comment> \<open>WHERE username = ?\<close>
  "find_user name d = find (\<lambda>u. nocase (u_Username u) name) (db_users d)"

definition user_by_id :: "int \<Rightarrow> db \<Rightarrow> user option" where
  "user_by_id i d = find (\<lambda>u. u_ID u = i) (db_users d)"

definition has_user :: "int \<Rightarrow> db \<Rightarrow> bool" where
  "has_user i d \<longleftrightarrow> i \<in> u_ID ` set (db_users d)"

definition has_group :: "int \<Rightarrow> db \<Rightarrow> bool" where
  "has_group i d \<longleftrightarrow> i \<in> g_ID ` set (db_groups d)"

definition has_service :: "int \<Rightarrow> db \<Rightarrow> bool" where
  "has_service i d \<longleftrightarrow> i \<in> s_ID ` set (db_services d)"

definition CreateUser :: "string \<Rightarrow> string \<Rightarrow> int st" where
  "CreateUser username0 passwordHash =
     (let username = to_upper username0
      in insertOrGet (\<lambda>d. find_user username d \<noteq> None)
           (\<lambda>d. next_rowid (map u_ID (db_users d)))
           (\<lambda>d. d\<lparr>db_users := db_users d @ [new_user (next_rowid (map u_ID (db_users d))) username passwordHash]\<rparr>)
           (\<lambda>d. map_option u_ID (find_user username d)))"

definition GetUserByUsername :: "string \<Rightarrow> user st" where
  "GetUserByUsername username0 =
     (let username = to_upper username0
      in try_bind (query (find_user username))
           (\<lambda>r. case r of None \<Rightarrow> fail_st ErrNotFound | Some u \<Rightarrow> return_st (Inr u)))"

definition ListUsers :: "user list st" where
  "ListUsers = query (\<lambda>d. order_by u_Username (db_users d))"

definition ListUsersInGroup :: "int \<Rightarrow> user list st" where
  "ListUsersInGroup groupID =
     query (\<lambda>d. order_by u_Username
       [u. u \<leftarrow> db_users d, ug \<leftarrow> db_user_groups d, fst ug = u_ID u, snd ug = groupID])"

definition update_user :: "int \<Rightarrow> (user \<Rightarrow> user) \<Rightarrow> unit st" where
  "update_user i f =
     execExpectingRow (\<lambda>_. True) (has_user i)
       (\<lambda>d. d\<lparr>db_users := map (\<lambda>u. if u_ID u = i then f u else u) (db_users d)\<rparr>)"

definition SetPassword :: "int \<Rightarrow> string \<Rightarrow> unit st" where
  "SetPassword userID passwordHash = update_user userID (\<lambda>u. u\<lparr>u_PasswordHash := passwordHash\<rparr>)"

definition SetUserSettingsLocked :: "int \<Rightarrow> bool \<Rightarrow> unit st" where
  "SetUserSettingsLocked userID locked = update_user userID (\<lambda>u. u\<lparr>u_UserSettingsLocked := locked\<rparr>)"

definition MaxDescriptionLen :: nat where "MaxDescriptionLen = 40"
definition MaxServiceNameLen :: nat where "MaxServiceNameLen = 8"

definition ValidateFullName :: "string \<Rightarrow> string option" where \<comment> \<open>\<open>None\<close> is a nil error\<close>
  "ValidateFullName name =
     (if MaxDescriptionLen < length name then Some ''full name must be 40 characters or fewer'' else None)"

definition NormalizeEmail :: "string \<Rightarrow> string" where
  "NormalizeEmail email = to_lower (trim_space email)"

definition ValidateEmail :: "string \<Rightarrow> string option" where
  "ValidateEmail email =
     (if email = [] then None
      else if CHR '' '' \<in> set email \<or> char_of (9 :: nat) \<in> set email then Some ''email must not contain spaces''
      else case index_byte (CHR ''@'') email of
             None \<Rightarrow> Some ''email must contain exactly one @''
           | Some i \<Rightarrow>
               let loc = take i email; domain = drop (i + 1) email
               in if CHR ''@'' \<in> set domain then Some ''email must contain exactly one @''
                  else if loc = [] \<or> domain = [] then Some ''email must have text before and after the @''
                  else if CHR ''.'' \<notin> set domain then Some ''email domain must contain a .''
                  else None)"

definition UpdateUserDetails :: "int \<Rightarrow> string \<Rightarrow> string \<Rightarrow> unit st" where
  "UpdateUserDetails userID fullName email0 =
     (case ValidateFullName fullName of
        Some m \<Rightarrow> fail_st (ErrInvalid m)
      | None \<Rightarrow>
          let email = NormalizeEmail email0
          in case ValidateEmail email of
               Some m \<Rightarrow> fail_st (ErrInvalid m)
             | None \<Rightarrow> update_user userID (\<lambda>u. u\<lparr>u_FullName := fullName, u_Email := email\<rparr>))"

definition SetMFARequired :: "int \<Rightarrow> bool \<Rightarrow> unit st" where
  "SetMFARequired userID required = update_user userID (\<lambda>u. u\<lparr>u_MFARequired := required\<rparr>)"

definition StoreMFAEnrollment :: "int \<Rightarrow> string \<Rightarrow> string \<Rightarrow> int \<Rightarrow> unit st" where
  "StoreMFAEnrollment userID encSecret enrolledAt step =
     update_user userID (\<lambda>u. u\<lparr>u_MFASecret := encSecret, u_MFAEnrolledAt := enrolledAt, u_MFALastStep := step\<rparr>)"

definition UpdateMFAStep :: "int \<Rightarrow> int \<Rightarrow> unit st" where
  "UpdateMFAStep userID step = update_user userID (\<lambda>u. u\<lparr>u_MFALastStep := step\<rparr>)"

definition clear_mfa :: "user \<Rightarrow> user" where
  "clear_mfa u = u\<lparr>u_MFASecret := [], u_MFAEnrolledAt := [], u_MFALastStep := 0\<rparr>"

definition ClearMFA :: "int \<Rightarrow> unit st" where
  "ClearMFA userID = update_user userID clear_mfa"

definition CountEnrolledUsers :: "nat st" where
  "CountEnrolledUsers = query (\<lambda>d. length (filter (\<lambda>u. u_MFASecret u \<noteq> []) (db_users d)))"

definition ResetAllMFA :: "nat st" where
  "ResetAllMFA =
     exec (\<lambda>_. True) (\<lambda>d. length (filter (\<lambda>u. u_MFASecret u \<noteq> []) (db_users d)))
       (\<lambda>d. d\<lparr>db_users := map (\<lambda>u. if u_MFASecret u \<noteq> [] then clear_mfa u else u) (db_users d)\<rparr>)"

section \<open>Groups and memberships\<close>

definition AdminGroup :: string where "AdminGroup = ''ZZADMIN''"
definition ReservedGroupPrefix :: string where "ReservedGroupPrefix = ''ZZ''"

definition find_group :: "string \<Rightarrow> db \<Rightarrow> group option" where
  "find_group name d = find (\<lambda>g. nocase (g_Name g) name) (db_groups d)"

definition insert_group :: "string \<Rightarrow> db \<Rightarrow> db" where
  "insert_group name d =
     (if find_group name d \<noteq> None then d
      else d\<lparr>db_groups := db_groups d @ [\<lparr>g_ID = next_rowid (map g_ID (db_groups d)), g_Name = name\<rparr>]\<rparr>)"

definition CreateGroup :: "string \<Rightarrow> int st" where
  "CreateGroup name0 =
     (let name = to_upper name0
      in insertOrGet (\<lambda>d. find_group name d \<noteq> None) (\<lambda>d. next_rowid (map g_ID (db_groups d)))
           (insert_group name) (\<lambda>d. map_option g_ID (find_group name d)))"

text \<open>OR IGNORE skips a duplicate key, but not a missing parent row.\<close>

definition AddUserToGroup :: "int \<Rightarrow> int \<Rightarrow> unit st" where
  "AddUserToGroup userID groupID =
     exec (\<lambda>d. (userID, groupID) \<in> set (db_user_groups d) \<or> has_user userID d \<and> has_group groupID d)
       (\<lambda>_. ())
       (\<lambda>d. if (userID, groupID) \<in> set (db_user_groups d) then d
            else d\<lparr>db_user_groups := db_user_groups d @ [(userID, groupID)]\<rparr>)"

definition RemoveUserFromGroup :: "int \<Rightarrow> int \<Rightarrow> unit st" where
  "RemoveUserFromGroup userID groupID =
     exec (\<lambda>_. True) (\<lambda>_. ())
       (\<lambda>d. d\<lparr>db_user_groups := filter (\<lambda>ug. ug \<noteq> (userID, groupID)) (db_user_groups d)\<rparr>)"

definition user_group_names :: "int \<Rightarrow> db \<Rightarrow> string list" where
  "user_group_names userID d =
     map g_Name (order_by g_Name
       [g. g \<leftarrow> db_groups d, ug \<leftarrow> db_user_groups d, snd ug = g_ID g, fst ug = userID])"

definition GetUserGroups :: "int \<Rightarrow> string list st" where
  "GetUserGroups userID = query (user_group_names userID)"

definition ListGroups :: "group list st" where
  "ListGroups = query (\<lambda>d. order_by g_Name (db_groups d))"

definition ListGroupsForService :: "int \<Rightarrow> group list st" where
  "ListGroupsForService serviceID =
     query (\<lambda>d. order_by g_Name
       [g. g \<leftarrow> db_groups d, gs \<leftarrow> db_group_services d, fst gs = g_ID g, snd gs = serviceID])"

definition CountAdminMembers :: "nat st" where
  "CountAdminMembers =
     query (\<lambda>d. length [ug. ug \<leftarrow> db_user_groups d, g \<leftarrow> db_groups d, g_ID g = snd ug, nocase (g_Name g) AdminGroup])"

definition CountGroupMembers :: "int \<Rightarrow> nat st" where
  "CountGroupMembers groupID = query (\<lambda>d. length (filter (\<lambda>ug. snd ug = groupID) (db_user_groups d)))"

definition CountGroupServices :: "int \<Rightarrow> nat st" where
  "CountGroupServices groupID = query (\<lambda>d. length (filter (\<lambda>gs. fst gs = groupID) (db_group_services d)))"

section \<open>Services\<close>

definition NormalizeServiceName :: "string \<Rightarrow> string + string" where
  "NormalizeServiceName name =
     (let n = to_upper (trim_space name)
      in if n = [] then Inl ''service name is required''
         else if MaxServiceNameLen < length n then Inl ''service name must be 8 characters or fewer''
         else if \<not> list_all is_upper_alnum n then Inl ''service name may contain only letters A-Z and digits 0-9''
         else Inr n)"

definition ValidateDescription :: "string \<Rightarrow> string option" where
  "ValidateDescription desc =
     (if desc = [] then Some ''description is required''
      else if MaxDescriptionLen < length desc then Some ''description must be 40 characters or fewer''
      else None)"

definition find_service :: "string \<Rightarrow> db \<Rightarrow> service option" where
  "find_service name d = find (\<lambda>s. nocase (s_Name s) name) (db_services d)"

definition CreateService :: "string \<Rightarrow> string \<Rightarrow> string \<Rightarrow> int \<Rightarrow> bool \<Rightarrow> bool \<Rightarrow> int st" where
  "CreateService name0 description host port tls verify =
     (case NormalizeServiceName name0 of
        Inl m \<Rightarrow> fail_st (ErrInvalid m)
      | Inr name \<Rightarrow>
          (case ValidateDescription description of
             Some m \<Rightarrow> fail_st (ErrInvalid m)
           | None \<Rightarrow>
               insertOrGet (\<lambda>d. find_service name d \<noteq> None) (\<lambda>d. next_rowid (map s_ID (db_services d)))
                 (\<lambda>d. d\<lparr>db_services := db_services d @
                     [\<lparr>s_ID = next_rowid (map s_ID (db_services d)), s_Name = name, s_Description = description,
                       s_Host = host, s_Port = port, s_TLS = tls, s_TLSVerify = verify\<rparr>]\<rparr>)
                 (\<lambda>d. map_option s_ID (find_service name d))))"

definition UpdateService :: "int \<Rightarrow> string \<Rightarrow> string \<Rightarrow> string \<Rightarrow> int \<Rightarrow> bool \<Rightarrow> bool \<Rightarrow> unit st" where
  "UpdateService i name0 description host port tls verify =
     (case NormalizeServiceName name0 of
        Inl m \<Rightarrow> fail_st (ErrInvalid m)
      | Inr name \<Rightarrow>
          (case ValidateDescription description of
             Some m \<Rightarrow> fail_st (ErrInvalid m)
           | None \<Rightarrow>
               execExpectingRow (\<lambda>d. \<forall>s\<in>set (db_services d). s_ID s = i \<or> \<not> nocase (s_Name s) name)
                 (has_service i)
                 (\<lambda>d. d\<lparr>db_services := map (\<lambda>s. if s_ID s = i
                     then s\<lparr>s_Name := name, s_Description := description, s_Host := host, s_Port := port,
                            s_TLS := tls, s_TLSVerify := verify\<rparr> else s) (db_services d)\<rparr>)))"

definition LinkGroupService :: "int \<Rightarrow> int \<Rightarrow> unit st" where
  "LinkGroupService groupID serviceID =
     exec (\<lambda>d. (groupID, serviceID) \<in> set (db_group_services d) \<or> has_group groupID d \<and> has_service serviceID d)
       (\<lambda>_. ())
       (\<lambda>d. if (groupID, serviceID) \<in> set (db_group_services d) then d
            else d\<lparr>db_group_services := db_group_services d @ [(groupID, serviceID)]\<rparr>)"

definition UnlinkGroupService :: "int \<Rightarrow> int \<Rightarrow> unit st" where
  "UnlinkGroupService groupID serviceID =
     exec (\<lambda>_. True) (\<lambda>_. ())
       (\<lambda>d. d\<lparr>db_group_services := filter (\<lambda>gs. gs \<noteq> (groupID, serviceID)) (db_group_services d)\<rparr>)"

definition services_for_groups :: "string list \<Rightarrow> db \<Rightarrow> service list" where
  "services_for_groups names d =
     order_by s_Name (remdups
       [s. s \<leftarrow> db_services d, gs \<leftarrow> db_group_services d, snd gs = s_ID s,
           g \<leftarrow> db_groups d, g_ID g = fst gs, list_ex (nocase (g_Name g)) names])"

definition ListServicesForGroups :: "string list \<Rightarrow> service list st" where
  "ListServicesForGroups names =
     (if names = [] then return_st (Inr []) else query (services_for_groups names))"

definition ListAllServices :: "service list st" where
  "ListAllServices = query (\<lambda>d. order_by s_Name (db_services d))"

definition first_service :: "service list st \<Rightarrow> service st" where
  "first_service m =
     try_bind m (\<lambda>ss. case ss of [] \<Rightarrow> fail_st ErrNotFound | s # _ \<Rightarrow> return_st (Inr s))"

definition GetService :: "int \<Rightarrow> service st" where
  "GetService i = first_service (query (\<lambda>d. filter (\<lambda>s. s_ID s = i) (db_services d)))"

definition GetServiceByName :: "string \<Rightarrow> service st" where
  "GetServiceByName name0 =
     (case NormalizeServiceName name0 of
        Inl m \<Rightarrow> fail_st (ErrInvalid m)
      | Inr name \<Rightarrow> first_service (query (\<lambda>d. filter (\<lambda>s. nocase (s_Name s) name) (db_services d))))"

section \<open>Cascading deletes\<close>

text \<open>
  A DELETE of a parent row fails while a child row refers to it, so the order of the
  statements in each cascade matters.
\<close>

definition DeleteUser :: "int \<Rightarrow> unit st" where
  "DeleteUser userID = in_transaction
     (try_bind (exec (\<lambda>_. True) (\<lambda>_. ())
                  (\<lambda>d. d\<lparr>db_user_groups := filter (\<lambda>ug. fst ug \<noteq> userID) (db_user_groups d)\<rparr>))
       (\<lambda>_. exec (\<lambda>d. userID \<notin> fst ` set (db_user_groups d)) (\<lambda>_. ())
              (\<lambda>d. d\<lparr>db_users := filter (\<lambda>u. u_ID u \<noteq> userID) (db_users d)\<rparr>)))"

definition DeleteGroup :: "int \<Rightarrow> unit st" where
  "DeleteGroup groupID = in_transaction
     (try_bind (exec (\<lambda>_. True) (\<lambda>_. ())
                  (\<lambda>d. d\<lparr>db_user_groups := filter (\<lambda>ug. snd ug \<noteq> groupID) (db_user_groups d)\<rparr>))
       (\<lambda>_. try_bind (exec (\<lambda>_. True) (\<lambda>_. ())
                        (\<lambda>d. d\<lparr>db_group_services := filter (\<lambda>gs. fst gs \<noteq> groupID) (db_group_services d)\<rparr>))
         (\<lambda>_. exec (\<lambda>d. groupID \<notin> snd ` set (db_user_groups d) \<and> groupID \<notin> fst ` set (db_group_services d)) (\<lambda>_. ())
                (\<lambda>d. d\<lparr>db_groups := filter (\<lambda>g. g_ID g \<noteq> groupID) (db_groups d)\<rparr>))))"

definition DeleteService :: "int \<Rightarrow> unit st" where
  "DeleteService serviceID = in_transaction
     (try_bind (exec (\<lambda>_. True) (\<lambda>_. ())
                  (\<lambda>d. d\<lparr>db_group_services := filter (\<lambda>gs. snd gs \<noteq> serviceID) (db_group_services d)\<rparr>))
       (\<lambda>_. exec (\<lambda>d. serviceID \<notin> snd ` set (db_group_services d)) (\<lambda>_. ())
              (\<lambda>d. d\<lparr>db_services := filter (\<lambda>s. s_ID s \<noteq> serviceID) (db_services d)\<rparr>)))"

section \<open>Configuration\<close>

definition find_config :: "string \<Rightarrow> db \<Rightarrow> string option" where
  "find_config key d = map_option snd (find (\<lambda>kv. nocase (fst kv) key) (db_config d))"

definition GetConfig :: "string \<Rightarrow> string st" where
  "GetConfig key =
     try_bind (query (find_config key))
       (\<lambda>r. case r of None \<Rightarrow> fail_st ErrNotFound | Some v \<Rightarrow> return_st (Inr v))"

definition SetConfig :: "string \<Rightarrow> string \<Rightarrow> unit st" where
  "SetConfig key v =
     execExpectingRow (\<lambda>_. True) (\<lambda>d. find_config key d \<noteq> None)
       (\<lambda>d. d\<lparr>db_config := map (\<lambda>kv. if nocase (fst kv) key then (fst kv, v) else kv) (db_config d)\<rparr>)"

definition mfaSentinelKey :: string where "mfaSentinelKey = ''MFA_KEY_CHECK''"

definition GetMFASentinel :: "string st" where
  "GetMFASentinel =
     try_bind (query (find_config mfaSentinelKey))
       (\<lambda>r. case r of None \<Rightarrow> return_st (Inr []) | Some v \<Rightarrow> return_st (Inr v))"

definition SetMFASentinel :: "string \<Rightarrow> unit st" where \<comment> \<open>INSERT OR REPLACE\<close>
  "SetMFASentinel v =
     exec (\<lambda>_. True) (\<lambda>_. ())
       (\<lambda>d. d\<lparr>db_config := filter (\<lambda>kv. \<not> nocase (fst kv) mfaSentinelKey) (db_config d) @ [(mfaSentinelKey, v)]\<rparr>)"

section \<open>Trusted networks\<close>

definition MaxCommentLen :: nat where "MaxCommentLen = 40"

definition ParseTrustedCIDR :: "string \<Rightarrow> string + ip_prefix" where
  "ParseTrustedCIDR s0 =
     (let s = trim_space s0
      in if s = [] then Inl ''CIDR is required''
         else case ParsePrefix s of
                Some p \<Rightarrow> Inr (Masked p)
              | None \<Rightarrow>
                  (case ParseAddr s of
                     None \<Rightarrow> Inl ''must be a valid IP address or CIDR (e.g. 10.0.0.0/24 or 192.168.1.5)''
                   | Some a \<Rightarrow> Inr \<lparr>px_addr = withoutZone a, px_bits = BitLen a\<rparr>))"

definition ValidateComment :: "string \<Rightarrow> string option" where
  "ValidateComment comment =
     (if comment = [] then Some ''comment is required''
      else if MaxCommentLen < length comment then Some ''comment must be 40 characters or fewer''
      else None)"

definition find_network :: "string \<Rightarrow> db \<Rightarrow> trusted_network option" where
  "find_network cidr d = find (\<lambda>n. tn_CIDR n = cidr) (db_networks d)"

text \<open>AUTOINCREMENT ids are never reused: the sequence only grows.\<close>

definition insert_network :: "string \<Rightarrow> string \<Rightarrow> db \<Rightarrow> db" where
  "insert_network cidr comment d =
     d\<lparr>db_networks := db_networks d @ [\<lparr>tn_ID = db_networks_seq d + 1, tn_CIDR = cidr, tn_Comment = comment\<rparr>],
       db_networks_seq := db_networks_seq d + 1\<rparr>"

definition CreateTrustedNetwork :: "string \<Rightarrow> string \<Rightarrow> int st" where
  "CreateTrustedNetwork cidr comment =
     (case ParseTrustedCIDR cidr of
        Inl m \<Rightarrow> fail_st (ErrInvalid m)
      | Inr p \<Rightarrow>
          (case ValidateComment comment of
             Some m \<Rightarrow> fail_st (ErrInvalid m)
           | None \<Rightarrow>
               let canonical = prefix_string p
               in insertOrGet (\<lambda>d. find_network canonical d \<noteq> None) (\<lambda>d. db_networks_seq d + 1)
                    (insert_network canonical comment) (\<lambda>d. map_option tn_ID (find_network canonical d))))"

definition list_networks :: "db \<Rightarrow> trusted_network list" where \<comment> \<open>ORDER BY cidr, binary collation\<close>
  "list_networks d = sort_key tn_CIDR (db_networks d)"

definition ListTrustedNetworks :: "trusted_network list st" where
  "ListTrustedNetworks = query list_networks"

definition UpdateTrustedNetwork :: "int \<Rightarrow> string \<Rightarrow> string \<Rightarrow> unit st" where
  "UpdateTrustedNetwork i cidr comment =
     (case ParseTrustedCIDR cidr of
        Inl m \<Rightarrow> fail_st (ErrInvalid m)
      | Inr p \<Rightarrow>
          (case ValidateComment comment of
             Some m \<Rightarrow> fail_st (ErrInvalid m)
           | None \<Rightarrow>
               execExpectingRow (\<lambda>d. \<forall>n\<in>set (db_networks d). tn_ID n = i \<or> tn_CIDR n \<noteq> prefix_string p)
                 (\<lambda>d. i \<in> tn_ID ` set (db_networks d))
                 (\<lambda>d. d\<lparr>db_networks := map (\<lambda>n. if tn_ID n = i then n\<lparr>tn_CIDR := prefix_string p, tn_Comment := comment\<rparr> else n)
                                         (db_networks d)\<rparr>)))"

definition DeleteTrustedNetwork :: "int \<Rightarrow> unit st" where
  "DeleteTrustedNetwork i =
     exec (\<lambda>_. True) (\<lambda>_. ()) (\<lambda>d. d\<lparr>db_networks := filter (\<lambda>n. tn_ID n \<noteq> i) (db_networks d)\<rparr>)"

definition LoadTrustedPrefixes :: "ip_prefix list st" where
  "LoadTrustedPrefixes =
     try_bind ListTrustedNetworks (\<lambda>ns. return_st (Inr (List.map_filter (\<lambda>n. ParsePrefix (tn_CIDR n)) ns)))"

section \<open>Audit trail\<close>

definition RecordAudit :: "audit_event \<Rightarrow> unit st" where
  "RecordAudit ev =
     exec (\<lambda>_. True) (\<lambda>_. ())
       (\<lambda>d. d\<lparr>db_audit := db_audit d @ [ev\<lparr>ae_ID := db_audit_seq d + 1\<rparr>], db_audit_seq := db_audit_seq d + 1\<rparr>)"

record audit_filter =
  af_Username :: string
  af_Actor :: string
  af_Kind :: string
  af_Since :: "int option" \<comment> \<open>\<open>None\<close> is the zero time\<close>
  af_Limit :: int

definition audit_matches :: "audit_filter \<Rightarrow> audit_event \<Rightarrow> bool" where
  "audit_matches f ev \<longleftrightarrow>
     (af_Username f = [] \<or> ae_Username ev = af_Username f) \<and>
     (af_Actor f = [] \<or> ae_Actor ev = af_Actor f) \<and>
     (af_Kind f = [] \<or> ae_Kind ev = af_Kind f) \<and>
     (case af_Since f of None \<Rightarrow> True | Some t \<Rightarrow> t \<le> ae_At ev)"

definition list_audit :: "audit_filter \<Rightarrow> db \<Rightarrow> audit_event list" where
  "list_audit f d =
     (let limit = (if af_Limit f \<le> 0 then 100 else af_Limit f)
      in take (nat limit) (sort_key (\<lambda>ev. - ae_ID ev) (filter (audit_matches f) (db_audit d))))"

definition ListAudit :: "audit_filter \<Rightarrow> audit_event list st" where
  "ListAudit f = query (list_audit f)"

definition PruneAudit :: "int \<Rightarrow> nat st" where
  "PruneAudit before =
     exec (\<lambda>_. True) (\<lambda>d. length (filter (\<lambda>ev. ae_At ev < before) (db_audit d)))
       (\<lambda>d. d\<lparr>db_audit := filter (\<lambda>ev. \<not> ae_At ev < before) (db_audit d)\<rparr>)"

section \<open>Documents\<close>

definition MaxDocumentBytes :: nat where "MaxDocumentBytes = 8192"
definition DocMOTD :: string where "DocMOTD = ''MOTD''"
definition DocBranding :: string where "DocBranding = ''BRANDING''"
definition DocHelpMenu :: string where "DocHelpMenu = ''HELP-MENU''"
definition KnownDocuments :: "string list" where "KnownDocuments = [DocMOTD, DocBranding, DocHelpMenu]"
definition newline :: char where "newline = char_of (10 :: nat)"

definition doc_Lines :: "string \<Rightarrow> string list" where \<comment> \<open>\<open>Document.Lines\<close>, of the content\<close>
  "doc_Lines content = (if content = [] then [] else split_on newline (trim_suffix [newline] content))"

definition doc_LineCount :: "string \<Rightarrow> nat" where
  "doc_LineCount content = length (doc_Lines content)"

definition NormalizeDocName :: "string \<Rightarrow> string option" where \<comment> \<open>\<open>None\<close>: unknown document\<close>
  "NormalizeDocName name =
     (let n = to_upper (trim_space name) in if n \<in> set KnownDocuments then Some n else None)"

definition unknown_document :: "string \<Rightarrow> store_error" where
  "unknown_document name = ErrInvalid (''unknown document '' @ name @ '' (want '' @ join_with '' or '' KnownDocuments @ '')'')"

definition find_document :: "string \<Rightarrow> db \<Rightarrow> document option" where
  "find_document name d = find (\<lambda>x. nocase (d_Name x) name) (db_documents d)"

definition GetDocument :: "string \<Rightarrow> document st" where
  "GetDocument name =
     (case NormalizeDocName name of
        None \<Rightarrow> fail_st (unknown_document name)
      | Some n \<Rightarrow>
          try_bind (query (find_document n))
            (\<lambda>r. case r of None \<Rightarrow> fail_st ErrNotFound | Some x \<Rightarrow> return_st (Inr x)))"

definition upsert_document :: "document \<Rightarrow> db \<Rightarrow> db" where
  "upsert_document x d =
     (if find_document (d_Name x) d = None then d\<lparr>db_documents := db_documents d @ [x]\<rparr>
      else d\<lparr>db_documents := map (\<lambda>y. if nocase (d_Name y) (d_Name x) then x\<lparr>d_Name := d_Name y\<rparr> else y) (db_documents d)\<rparr>)"

definition SetDocument :: "string \<Rightarrow> string \<Rightarrow> string \<Rightarrow> go_time \<Rightarrow> unit st" where
  "SetDocument name content actor now =
     (case NormalizeDocName name of
        None \<Rightarrow> fail_st (unknown_document name)
      | Some n \<Rightarrow>
          if MaxDocumentBytes < length content then fail_st ErrDocumentTooLarge
          else exec (\<lambda>_. True) (\<lambda>_. ())
                 (upsert_document \<lparr>d_Name = n, d_Content = content, d_UpdatedAt = rfc3339 now, d_UpdatedBy = actor\<rparr>))"

definition ListDocuments :: "document list st" where
  "ListDocuments = query (\<lambda>d. order_by d_Name (db_documents d))"

text \<open>
  The files of the server: what a path names. \<open>FileData\<close> carries the bytes.
\<close>

datatype file_state = FileMissing string | FileIrregular | FileUnreadable string | FileData string

definition ReadDocumentFile :: "(string \<Rightarrow> file_state) \<Rightarrow> string \<Rightarrow> string + string" where
  "ReadDocumentFile fs path0 =
     (let path = trim_space path0
      in if path = [] then Inl ''path is required''
         else if hd path \<noteq> CHR ''/'' then Inl ''path must be absolute''
         else case fs path of
                FileMissing m \<Rightarrow> Inl m
              | FileIrregular \<Rightarrow> Inl ''not a regular file''
              | FileUnreadable m \<Rightarrow> Inl m
              | FileData bs \<Rightarrow>
                  if MaxDocumentBytes < length (take (MaxDocumentBytes + 1) bs)
                  then Inl ''document too large (max 8 KiB)'' else Inr (take (MaxDocumentBytes + 1) bs))"

end
