(* ===== verification/Store_Facts.thy ===== *)
theory Store_Facts
  imports Store
begin

text \<open>
  The well-formedness of the database (keys, foreign keys, canonical names, sequences), kept
  by every store operation whatever statements fail, and the functional behaviour of the
  operations the rest of the gateway relies on.
\<close>

section \<open>Names\<close>

lemma upper_lower_char [simp]: "upper_char (lower_char c) = upper_char c"
  by (auto simp: upper_char_def lower_char_def)

lemma lower_upper_char [simp]: "lower_char (upper_char c) = lower_char c"
  by (auto simp: upper_char_def lower_char_def)

lemma to_upper_lower [simp]: "to_upper (to_lower s) = to_upper s" by (simp add: to_upper_def to_lower_def)
lemma to_lower_upper [simp]: "to_lower (to_upper s) = to_lower s" by (simp add: to_upper_def to_lower_def)

lemma nocase_iff: "nocase a b \<longleftrightarrow> to_upper a = to_upper b"
  by (metis nocase_def to_upper_lower to_lower_upper)

lemma nocase_canonical: "to_upper a = a \<Longrightarrow> to_upper b = b \<Longrightarrow> nocase a b \<longleftrightarrow> a = b"
  by (simp add: nocase_iff)

lemma nocase_refl [simp]: "nocase a a" by (simp add: nocase_def)
lemma nocase_upper [simp]: "nocase a (to_upper b) = nocase a b" by (simp add: nocase_def)

section \<open>Well-formed databases\<close>

definition table_ok :: "('r \<Rightarrow> int) \<Rightarrow> ('r \<Rightarrow> string) \<Rightarrow> 'r list \<Rightarrow> bool" where
  "table_ok key name rs \<longleftrightarrow>
     distinct (map key rs) \<and> distinct (map (to_lower \<circ> name) rs) \<and> (\<forall>r\<in>set rs. 0 < key r)"

definition seq_ok :: "int \<Rightarrow> int list \<Rightarrow> bool" where
  "seq_ok sq ids \<longleftrightarrow> sorted_wrt (<) ids \<and> (\<forall>i\<in>set ids. 0 < i \<and> i \<le> sq) \<and> 0 \<le> sq"

definition wf_users :: "db \<Rightarrow> bool" where
  "wf_users d \<longleftrightarrow> table_ok u_ID u_Username (db_users d) \<and> (\<forall>u\<in>set (db_users d). to_upper (u_Username u) = u_Username u)"

definition wf_groups :: "db \<Rightarrow> bool" where
  "wf_groups d \<longleftrightarrow> table_ok g_ID g_Name (db_groups d) \<and> (\<forall>g\<in>set (db_groups d). to_upper (g_Name g) = g_Name g)"

definition wf_services :: "db \<Rightarrow> bool" where
  "wf_services d \<longleftrightarrow> table_ok s_ID s_Name (db_services d) \<and>
     (\<forall>s\<in>set (db_services d). NormalizeServiceName (s_Name s) = Inr (s_Name s) \<and> ValidateDescription (s_Description s) = None)"

definition wf_links :: "db \<Rightarrow> bool" where
  "wf_links d \<longleftrightarrow>
     distinct (db_user_groups d) \<and> (\<forall>(u, g)\<in>set (db_user_groups d). has_user u d \<and> has_group g d) \<and>
     distinct (db_group_services d) \<and> (\<forall>(g, s)\<in>set (db_group_services d). has_group g d \<and> has_service s d)"

definition wf_rest :: "db \<Rightarrow> bool" where
  "wf_rest d \<longleftrightarrow>
     seq_ok (db_audit_seq d) (map ae_ID (db_audit d)) \<and>
     seq_ok (db_networks_seq d) (map tn_ID (db_networks d)) \<and> distinct (map tn_CIDR (db_networks d)) \<and>
     distinct (map (to_lower \<circ> fst) (db_config d)) \<and>
     distinct (map (to_lower \<circ> d_Name) (db_documents d)) \<and>
     (\<forall>x\<in>set (db_documents d). d_Name x \<in> set KnownDocuments \<and> length (d_Content x) \<le> MaxDocumentBytes)"

definition wf_db :: "db \<Rightarrow> bool" where
  "wf_db d \<longleftrightarrow> wf_users d \<and> wf_groups d \<and> wf_services d \<and> wf_links d \<and> wf_rest d"

lemmas wf_defs = wf_db_def wf_users_def wf_groups_def wf_services_def wf_links_def wf_rest_def

section \<open>Rules for statements\<close>

definition faultless :: "(db \<Rightarrow> bool) \<Rightarrow> bool" where \<comment> \<open>does not look at the fault script\<close>
  "faultless P \<longleftrightarrow> (\<forall>d fs. P (d\<lparr>db_faults := fs\<rparr>) = P d)"

lemma faultlessD: "faultless P \<Longrightarrow> P d \<Longrightarrow> P (d\<lparr>db_faults := fs\<rparr>)"
  by (simp add: faultless_def)

lemma has_faults [simp]: "has_user i (d\<lparr>db_faults := fs\<rparr>) = has_user i d" "has_group i (d\<lparr>db_faults := fs\<rparr>) = has_group i d"
  "has_service i (d\<lparr>db_faults := fs\<rparr>) = has_service i d"
  by (simp_all add: has_user_def has_group_def has_service_def)

lemma faultless_wf [simp]: "faultless wf_db"
  by (simp add: faultless_def wf_defs)

lemma hoare_run_stmt:
  assumes "faultless P" "\<And>d. P d \<Longrightarrow> case f d of (r, d') \<Rightarrow> Q r d'" "\<And>d. P d \<Longrightarrow> Q (Inl ErrDB) d"
  shows "hoare P (run_stmt f) Q"
  unfolding hoare_def run_stmt_def
proof (intro allI impI)
  fix d assume "P d"
  show "case run_state (State (\<lambda>d. case db_faults d of [] \<Rightarrow> f d
      | b # fs \<Rightarrow> if b then (Inl ErrDB, d\<lparr>db_faults := fs\<rparr>) else f (d\<lparr>db_faults := fs\<rparr>))) d of (a, s') \<Rightarrow> Q a s'"
    using assms(2)[OF \<open>P d\<close>] assms(2,3)[OF faultlessD[OF assms(1) \<open>P d\<close>]]
    by (simp split: list.split)
qed

lemma hoare_query:
  assumes "faultless P" "\<And>d. P d \<Longrightarrow> Q (Inr (f d)) d" "\<And>d. P d \<Longrightarrow> Q (Inl ErrDB) d"
  shows "hoare P (query f) Q"
  unfolding query_def by (rule hoare_run_stmt) (use assms in auto)

lemma hoare_exec:
  assumes "faultless P" "\<And>d. P d \<Longrightarrow> ok d \<Longrightarrow> Q (Inr (res d)) (upd d)"
    "\<And>d. P d \<Longrightarrow> Q (Inl ErrDB) d" "\<And>d. P d \<Longrightarrow> \<not> ok d \<Longrightarrow> Q (Inl ErrConstraint) d"
  shows "hoare P (exec ok res upd) Q"
  unfolding exec_def by (rule hoare_run_stmt) (use assms in auto)

lemma keeps_query: "faultless P \<Longrightarrow> keeps P (query f)"
  by (rule hoare_query)

lemma keeps_fail_st: "keeps P (fail_st e)" by (simp add: fail_st_def keeps_return)

lemma keeps_exec: "faultless P \<Longrightarrow> (\<And>d. P d \<Longrightarrow> ok d \<Longrightarrow> P (upd d)) \<Longrightarrow> keeps P (exec ok res upd)"
  by (rule hoare_exec)

lemma keeps_execExpectingRow:
  "faultless P \<Longrightarrow> (\<And>d. P d \<Longrightarrow> (hit d \<Longrightarrow> ok d) \<Longrightarrow> P (upd d)) \<Longrightarrow> keeps P (execExpectingRow ok hit upd)"
  unfolding execExpectingRow_def by (intro keeps_try_bind keeps_exec hoare_if keeps_return keeps_fail_st) auto

lemma keeps_insertOrGet:
  "faultless P \<Longrightarrow> (\<And>d. P d \<Longrightarrow> \<not> dup d \<Longrightarrow> P (ins d)) \<Longrightarrow> keeps P (insertOrGet dup newid ins sel)"
  unfolding insertOrGet_def
  by (intro keeps_try_bind keeps_exec keeps_query hoare_option keeps_return keeps_fail_st) auto

lemma keeps_in_transaction:
  assumes "faultless P" "keeps P body"
  shows "keeps P (in_transaction body)"
proof (rule hoareI)
  fix d0 r d' assume "P d0" and run: "run_state (in_transaction body) d0 = (r, d')"
  obtain r1 d1 where q: "run_state (query (\<lambda>_. ())) d0 = (r1, d1)" by (cases "run_state (query (\<lambda>_. ())) d0")
  have "P d1" using hoareD[OF keeps_query[OF assms(1)] \<open>P d0\<close> q] .
  obtain r2 d2 where b: "run_state (try_bind body (\<lambda>_. query (\<lambda>_. ()))) d1 = (r2, d2)"
    by (cases "run_state (try_bind body (\<lambda>_. query (\<lambda>_. ()))) d1")
  have "keeps P (try_bind body (\<lambda>_. query (\<lambda>_. ())))" by (intro keeps_try_bind assms keeps_query)
  from hoareD[OF this \<open>P d1\<close> b] have "P d2" .
  then show "P d'" using run \<open>P d1\<close> assms(1)
    by (auto simp: in_transaction_def q b faultless_def split: sum.splits)
qed

lemmas keeps_store_rules = keeps_rules keeps_query keeps_fail_st

section \<open>Every operation keeps the database well formed\<close>

lemma next_rowid_fresh: "next_rowid ids \<notin> set ids"
  unfolding next_rowid_def by (auto dest: Max_ge[OF finite_set])

lemma next_rowid_pos: "(\<And>i. i \<in> set ids \<Longrightarrow> 0 < i) \<Longrightarrow> 0 < next_rowid ids"
proof (cases "ids = []")
  case False
  assume pos: "\<And>i. i \<in> set ids \<Longrightarrow> 0 < i"
  have "Max (set ids) \<in> set ids" using False by (intro Max_in) auto
  with pos[OF this] False show ?thesis by (simp add: next_rowid_def)
qed (simp add: next_rowid_def)

lemma table_ok_snoc:
  assumes "table_ok key name rs" "find (\<lambda>r. nocase (name r) n) rs = None" "key r = next_rowid (map key rs)" "name r = n"
  shows "table_ok key name (rs @ [r])"
proof -
  have "key r \<notin> key ` set rs" using assms(3) next_rowid_fresh[of "map key rs"] by simp
  moreover have "0 < key r" unfolding assms(3) by (rule next_rowid_pos) (use assms(1) in \<open>auto simp: table_ok_def\<close>)
  moreover have "to_lower n \<notin> (to_lower \<circ> name) ` set rs" using assms(2) by (auto simp: find_None_iff nocase_def)
  ultimately show ?thesis using assms(1,4) by (simp add: table_ok_def comp_def)
qed

lemma table_ok_map:
  assumes "table_ok key name rs" "\<And>r. key (f r) = key r" "\<And>r. name (f r) = name r"
  shows "table_ok key name (map f rs)"
  using assms by (simp add: table_ok_def comp_def)

lemma table_ok_filter: "table_ok key name rs \<Longrightarrow> table_ok key name (filter P rs)"
  by (auto simp: table_ok_def distinct_map_filter)

lemma wf_update_users:
  assumes "wf_db d" "\<And>u. u_ID (f u) = u_ID u" "\<And>u. u_Username (f u) = u_Username u"
  shows "wf_db (d\<lparr>db_users := map f (db_users d)\<rparr>)"
proof -
  have "has_user i (d\<lparr>db_users := map f (db_users d)\<rparr>) = has_user i d" for i
    by (force simp: has_user_def assms(2) image_iff)
  moreover have "has_group i (d\<lparr>db_users := map f (db_users d)\<rparr>) = has_group i d" for i by (simp add: has_group_def)
  moreover have "has_service i (d\<lparr>db_users := map f (db_users d)\<rparr>) = has_service i d" for i by (simp add: has_service_def)
  moreover have "table_ok u_ID u_Username (map f (db_users d))"
    using assms(1) by (intro table_ok_map assms(2,3)) (simp add: wf_defs)
  ultimately show ?thesis using assms by (auto simp: wf_defs)
qed

lemma keeps_update_user:
  assumes "\<And>u. u_ID (f u) = u_ID u" "\<And>u. u_Username (f u) = u_Username u"
  shows "keeps wf_db (update_user i f)"
  unfolding update_user_def
  by (rule keeps_execExpectingRow) (use assms in \<open>auto intro!: wf_update_users\<close>)

lemma has_other [simp]:
  "has_group i (d\<lparr>db_users := us\<rparr>) = has_group i d" "has_service i (d\<lparr>db_users := us\<rparr>) = has_service i d"
  "has_user i (d\<lparr>db_groups := gs\<rparr>) = has_user i d" "has_service i (d\<lparr>db_groups := gs\<rparr>) = has_service i d"
  "has_user i (d\<lparr>db_services := ss\<rparr>) = has_user i d" "has_group i (d\<lparr>db_services := ss\<rparr>) = has_group i d"
  "has_user i (d\<lparr>db_user_groups := x\<rparr>) = has_user i d" "has_group i (d\<lparr>db_user_groups := x\<rparr>) = has_group i d"
  "has_service i (d\<lparr>db_user_groups := x\<rparr>) = has_service i d"
  "has_user i (d\<lparr>db_group_services := x\<rparr>) = has_user i d" "has_group i (d\<lparr>db_group_services := x\<rparr>) = has_group i d"
  "has_service i (d\<lparr>db_group_services := x\<rparr>) = has_service i d"
  "has_user i (d\<lparr>db_config := c\<rparr>) = has_user i d" "has_group i (d\<lparr>db_config := c\<rparr>) = has_group i d" "has_service i (d\<lparr>db_config := c\<rparr>) = has_service i d"
  "has_user i (d\<lparr>db_networks := n\<rparr>) = has_user i d" "has_group i (d\<lparr>db_networks := n\<rparr>) = has_group i d" "has_service i (d\<lparr>db_networks := n\<rparr>) = has_service i d"
  "has_user i (d\<lparr>db_networks_seq := q\<rparr>) = has_user i d" "has_group i (d\<lparr>db_networks_seq := q\<rparr>) = has_group i d" "has_service i (d\<lparr>db_networks_seq := q\<rparr>) = has_service i d"
  "has_user i (d\<lparr>db_audit := a\<rparr>) = has_user i d" "has_group i (d\<lparr>db_audit := a\<rparr>) = has_group i d" "has_service i (d\<lparr>db_audit := a\<rparr>) = has_service i d"
  "has_user i (d\<lparr>db_audit_seq := q\<rparr>) = has_user i d" "has_group i (d\<lparr>db_audit_seq := q\<rparr>) = has_group i d" "has_service i (d\<lparr>db_audit_seq := q\<rparr>) = has_service i d"
  "has_user i (d\<lparr>db_documents := x2\<rparr>) = has_user i d" "has_group i (d\<lparr>db_documents := x2\<rparr>) = has_group i d" "has_service i (d\<lparr>db_documents := x2\<rparr>) = has_service i d"
  by (simp_all add: has_user_def has_group_def has_service_def)

lemma has_rows [simp]:
  "has_user i (d\<lparr>db_users := us\<rparr>) \<longleftrightarrow> i \<in> u_ID ` set us"
  "has_group i (d\<lparr>db_groups := gs\<rparr>) \<longleftrightarrow> i \<in> g_ID ` set gs"
  "has_service i (d\<lparr>db_services := ss\<rparr>) \<longleftrightarrow> i \<in> s_ID ` set ss"
  by (simp_all add: has_user_def has_group_def has_service_def)

lemma wf_set_config: "wf_db d \<Longrightarrow> distinct (map (to_lower \<circ> fst) c) \<Longrightarrow> wf_db (d\<lparr>db_config := c\<rparr>)"
  by (simp add: wf_defs)

lemma wf_set_networks:
  "wf_db d \<Longrightarrow> seq_ok (db_networks_seq d) (map tn_ID n) \<Longrightarrow> distinct (map tn_CIDR n) \<Longrightarrow> wf_db (d\<lparr>db_networks := n\<rparr>)"
  by (simp add: wf_defs)

lemma wf_set_documents:
  "wf_db d \<Longrightarrow> distinct (map (to_lower \<circ> d_Name) x) \<Longrightarrow>
   \<forall>y\<in>set x. d_Name y \<in> set KnownDocuments \<and> length (d_Content y) \<le> MaxDocumentBytes \<Longrightarrow> wf_db (d\<lparr>db_documents := x\<rparr>)"
  by (simp add: wf_defs)

lemma wf_filter_user_groups: "wf_db d \<Longrightarrow> wf_db (d\<lparr>db_user_groups := filter P (db_user_groups d)\<rparr>)"
  by (auto simp: wf_defs)

lemma wf_filter_group_services: "wf_db d \<Longrightarrow> wf_db (d\<lparr>db_group_services := filter P (db_group_services d)\<rparr>)"
  by (auto simp: wf_defs)

lemma wf_user_link: "wf_db d \<Longrightarrow> (u, g) \<in> set (db_user_groups d) \<Longrightarrow> has_user u d \<and> has_group g d"
  by (auto simp: wf_db_def wf_links_def)

lemma wf_service_link: "wf_db d \<Longrightarrow> (g, s) \<in> set (db_group_services d) \<Longrightarrow> has_group g d \<and> has_service s d"
  by (auto simp: wf_db_def wf_links_def)

lemma wf_linksI:
  assumes "wf_db d" "\<And>u g. (u, g) \<in> set (db_user_groups d) \<Longrightarrow> has_user u e \<and> has_group g e"
    "\<And>g s. (g, s) \<in> set (db_group_services d) \<Longrightarrow> has_group g e \<and> has_service s e"
    "db_user_groups e = db_user_groups d" "db_group_services e = db_group_services d"
  shows "wf_links e"
  using assms by (auto simp: wf_db_def wf_links_def)

lemma wf_remove_user:
  assumes "wf_db d" "i \<notin> fst ` set (db_user_groups d)"
  shows "wf_db (d\<lparr>db_users := filter (\<lambda>u. u_ID u \<noteq> i) (db_users d)\<rparr>)" (is "wf_db ?d")
proof -
  have "has_user u ?d" if "(u, g) \<in> set (db_user_groups d)" for u g
    using wf_user_link[OF assms(1) that] assms(2) that by (force simp: has_user_def)
  then have "wf_links ?d"
    by (intro wf_linksI[OF assms(1)]) (use wf_user_link[OF assms(1)] wf_service_link[OF assms(1)] in simp_all)
  moreover have "wf_users ?d" using assms(1) by (simp add: wf_db_def wf_users_def table_ok_filter)
  ultimately show ?thesis using assms(1) by (simp add: wf_db_def wf_groups_def wf_services_def wf_rest_def)
qed

lemma wf_remove_group:
  assumes "wf_db d" "i \<notin> snd ` set (db_user_groups d)" "i \<notin> fst ` set (db_group_services d)"
  shows "wf_db (d\<lparr>db_groups := filter (\<lambda>g. g_ID g \<noteq> i) (db_groups d)\<rparr>)" (is "wf_db ?d")
proof -
  have 1: "has_group g ?d" if "(u, g) \<in> set (db_user_groups d)" for u g
    using wf_user_link[OF assms(1) that] assms(2) that by (force simp: has_group_def)
  have 2: "has_group g ?d" if "(g, s) \<in> set (db_group_services d)" for g s
    using wf_service_link[OF assms(1) that] assms(3) that by (force simp: has_group_def)
  have "wf_links ?d"
    by (intro wf_linksI[OF assms(1)]) (use 1 2 wf_user_link[OF assms(1)] wf_service_link[OF assms(1)] in simp_all)
  moreover have "wf_groups ?d" using assms(1) by (simp add: wf_db_def wf_groups_def table_ok_filter)
  ultimately show ?thesis using assms(1) by (simp add: wf_db_def wf_users_def wf_services_def wf_rest_def)
qed

lemma wf_remove_service:
  assumes "wf_db d" "i \<notin> snd ` set (db_group_services d)"
  shows "wf_db (d\<lparr>db_services := filter (\<lambda>s. s_ID s \<noteq> i) (db_services d)\<rparr>)" (is "wf_db ?d")
proof -
  have "has_service s ?d" if "(g, s) \<in> set (db_group_services d)" for g s
    using wf_service_link[OF assms(1) that] assms(2) that by (force simp: has_service_def)
  then have "wf_links ?d"
    by (intro wf_linksI[OF assms(1)]) (use wf_user_link[OF assms(1)] wf_service_link[OF assms(1)] in simp_all)
  moreover have "wf_services ?d" using assms(1) by (simp add: wf_db_def wf_services_def table_ok_filter)
  ultimately show ?thesis using assms(1) by (simp add: wf_db_def wf_users_def wf_groups_def wf_rest_def)
qed

text \<open>Renaming one row to a name no other row has keeps the names distinct.\<close>

lemma distinct_rename:
  assumes "distinct (map key rs)" "distinct (map nm rs)" "\<And>r. r \<in> set rs \<Longrightarrow> key r \<noteq> i \<Longrightarrow> f r = r"
    "\<And>r s. r \<in> set rs \<Longrightarrow> key r = i \<Longrightarrow> s \<in> set rs \<Longrightarrow> key s \<noteq> i \<Longrightarrow> nm s \<noteq> nm (f r)"
  shows "distinct (map (nm \<circ> f) rs)"
proof (subst distinct_map, intro conjI inj_onI)
  show "distinct rs" using assms(1) by (simp add: distinct_map)
  fix a b assume ab: "a \<in> set rs" "b \<in> set rs" "(nm \<circ> f) a = (nm \<circ> f) b"
  have inj: "inj_on key (set rs)" "inj_on nm (set rs)" using assms(1,2) by (simp_all add: distinct_map)
  consider "key a = i" "key b = i" | "key a = i" "key b \<noteq> i" | "key a \<noteq> i" "key b = i" | "key a \<noteq> i" "key b \<noteq> i" by blast
  then show "a = b"
  proof cases
    case 1 with ab inj(1) show ?thesis by (auto dest: inj_onD)
  next
    case 2 with ab assms(3)[of b] assms(4)[of a b] show ?thesis by simp
  next
    case 3 with ab assms(3)[of a] assms(4)[of b a] show ?thesis by simp
  next
    case 4 with ab assms(3)[of a] assms(3)[of b] inj(2) show ?thesis by (auto dest: inj_onD)
  qed
qed

lemma keeps_CreateUser: "keeps wf_db (CreateUser name hash)"
  unfolding CreateUser_def Let_def
proof (rule keeps_insertOrGet)
  fix d assume wf: "wf_db d" and new: "\<not> find_user (to_upper name) d \<noteq> None"
  let ?u = "new_user (next_rowid (map u_ID (db_users d))) (to_upper name) hash"
  have "table_ok u_ID u_Username (db_users d @ [?u])"
    by (rule table_ok_snoc[where n = "to_upper name"]) (use wf new in \<open>auto simp: wf_defs find_user_def new_user_def\<close>)
  then show "wf_db (d\<lparr>db_users := db_users d @ [?u]\<rparr>)"
    using wf by (auto simp: wf_defs new_user_def has_user_def)
qed simp

lemma wf_insert_group: "wf_db d \<Longrightarrow> to_upper name = name \<Longrightarrow> wf_db (insert_group name d)"
proof (cases "find_group name d")
  case None
  assume wf: "wf_db d" and up: "to_upper name = name"
  let ?g = "\<lparr>g_ID = next_rowid (map g_ID (db_groups d)), g_Name = name\<rparr>"
  have "table_ok g_ID g_Name (db_groups d @ [?g])"
    by (rule table_ok_snoc[where n = name]) (use wf None in \<open>auto simp: wf_defs find_group_def\<close>)
  then have "wf_db (d\<lparr>db_groups := db_groups d @ [?g]\<rparr>)"
    using wf up by (auto simp: wf_defs has_group_def)
  then show ?thesis using None by (simp add: insert_group_def)
qed (simp add: insert_group_def)

lemma keeps_CreateGroup: "keeps wf_db (CreateGroup name)"
  unfolding CreateGroup_def Let_def by (rule keeps_insertOrGet) (auto intro: wf_insert_group)

lemma keeps_AddUserToGroup: "keeps wf_db (AddUserToGroup u g)"
  unfolding AddUserToGroup_def by (rule keeps_exec) (auto simp: wf_defs)

lemma keeps_RemoveUserFromGroup: "keeps wf_db (RemoveUserFromGroup u g)"
  unfolding RemoveUserFromGroup_def by (rule keeps_exec) (auto simp: wf_defs)

lemma keeps_LinkGroupService: "keeps wf_db (LinkGroupService g s)"
  unfolding LinkGroupService_def by (rule keeps_exec) (auto simp: wf_defs)

lemma keeps_UnlinkGroupService: "keeps wf_db (UnlinkGroupService g s)"
  unfolding UnlinkGroupService_def by (rule keeps_exec) (auto simp: wf_defs)

lemma wf_update_services:
  assumes "wf_db d" "\<And>s. s_ID (f s) = s_ID s" "table_ok s_ID s_Name (map f (db_services d))"
    "\<And>s. s \<in> set (db_services d) \<Longrightarrow> NormalizeServiceName (s_Name (f s)) = Inr (s_Name (f s)) \<and> ValidateDescription (s_Description (f s)) = None"
  shows "wf_db (d\<lparr>db_services := map f (db_services d)\<rparr>)"
proof -
  have "has_service i (d\<lparr>db_services := map f (db_services d)\<rparr>) = has_service i d" for i
    by (force simp: has_service_def assms(2) image_iff)
  with assms show ?thesis by (auto simp: wf_defs)
qed

lemma to_upper_alnum: "list_all is_upper_alnum n \<Longrightarrow> to_upper n = n"
proof -
  have "upper_char c = c" if "is_upper_alnum c" for c
    using that by (auto simp: is_upper_alnum_def is_digit_def upper_char_def)
  then show "list_all is_upper_alnum n \<Longrightarrow> to_upper n = n" by (induction n) (auto simp: to_upper_def)
qed

lemma alnum_no_space: "is_upper_alnum c \<Longrightarrow> \<not> is_space c"
  by (auto simp: is_upper_alnum_def is_digit_def is_space_def)

lemma trim_space_id: "list_all (\<lambda>c. \<not> is_space c) n \<Longrightarrow> trim_space n = n"
proof -
  have *: "dropWhile is_space xs = xs" if "list_all (\<lambda>c. \<not> is_space c) xs" for xs
    using that by (cases xs) auto
  assume n: "list_all (\<lambda>c. \<not> is_space c) n"
  then have "list_all (\<lambda>c. \<not> is_space c) (rev n)" by (simp add: list_all_iff)
  then show ?thesis by (simp add: trim_space_def trim_left_def trim_right_def * n)
qed

lemma NormalizeServiceName_canonical: "NormalizeServiceName name = Inr n \<Longrightarrow> NormalizeServiceName n = Inr n \<and> to_upper n = n"
proof -
  assume "NormalizeServiceName name = Inr n"
  then have n: "n \<noteq> []" "\<not> MaxServiceNameLen < length n" "list_all is_upper_alnum n"
    by (auto simp: NormalizeServiceName_def Let_def split: if_splits)
  moreover have "trim_space n = n"
    by (rule trim_space_id) (use n(3) alnum_no_space in \<open>auto simp: list_all_iff\<close>)
  ultimately show ?thesis by (simp add: NormalizeServiceName_def to_upper_alnum)
qed

lemma keeps_CreateService: "keeps wf_db (CreateService name desc host port tls verify)"
  unfolding CreateService_def
proof (intro hoare_sum hoare_option keeps_fail_st keeps_insertOrGet)
  fix n d assume norm: "NormalizeServiceName name = Inr n" "ValidateDescription desc = None"
    and wf: "wf_db d" and new: "\<not> find_service n d \<noteq> None"
  let ?s = "\<lparr>s_ID = next_rowid (map s_ID (db_services d)), s_Name = n, s_Description = desc, s_Host = host,
      s_Port = port, s_TLS = tls, s_TLSVerify = verify\<rparr>"
  have "table_ok s_ID s_Name (db_services d @ [?s])"
    by (rule table_ok_snoc[where n = n]) (use wf new in \<open>auto simp: wf_defs find_service_def\<close>)
  then show "wf_db (d\<lparr>db_services := db_services d @ [?s]\<rparr>)"
    using wf norm NormalizeServiceName_canonical[OF norm(1)] by (auto simp: wf_defs has_service_def)
qed simp

lemma keeps_UpdateService: "keeps wf_db (UpdateService i name desc host port tls verify)"
  unfolding UpdateService_def
proof (intro hoare_sum hoare_option keeps_fail_st keeps_execExpectingRow)
  fix n d assume norm: "NormalizeServiceName name = Inr n" "ValidateDescription desc = None" and wf: "wf_db d"
    and ok: "has_service i d \<Longrightarrow> \<forall>s\<in>set (db_services d). s_ID s = i \<or> \<not> nocase (s_Name s) n"
  let ?f = "\<lambda>s. if s_ID s = i then s\<lparr>s_Name := n, s_Description := desc, s_Host := host, s_Port := port,
      s_TLS := tls, s_TLSVerify := verify\<rparr> else s"
  have ids: "s_ID (?f s) = s_ID s" for s by simp
  have t: "table_ok s_ID s_Name (db_services d)" using wf by (simp add: wf_defs)
  have "distinct (map ((to_lower \<circ> s_Name) \<circ> ?f) (db_services d))"
    by (rule distinct_rename[where key = s_ID and i = i])
      (use t ok in \<open>auto simp: table_ok_def has_service_def nocase_def\<close>)
  moreover have ids': "map s_ID (map ?f (db_services d)) = map s_ID (db_services d)" by simp
  moreover have "\<forall>s\<in>set (map ?f (db_services d)). 0 < s_ID s" using t by (auto simp: table_ok_def)
  ultimately have "table_ok s_ID s_Name (map ?f (db_services d))"
    using t unfolding table_ok_def map_map ids'[unfolded map_map] by blast
  then show "wf_db (d\<lparr>db_services := map ?f (db_services d)\<rparr>)"
    by (intro wf_update_services[OF wf])
      (use wf norm NormalizeServiceName_canonical[OF norm(1)] in \<open>auto simp: wf_defs\<close>)
qed simp

lemma keeps_SetPassword: "keeps wf_db (SetPassword i h)" unfolding SetPassword_def by (rule keeps_update_user) simp_all
lemma keeps_SetUserSettingsLocked: "keeps wf_db (SetUserSettingsLocked i b)" unfolding SetUserSettingsLocked_def by (rule keeps_update_user) simp_all
lemma keeps_SetMFARequired: "keeps wf_db (SetMFARequired i b)" unfolding SetMFARequired_def by (rule keeps_update_user) simp_all
lemma keeps_StoreMFAEnrollment: "keeps wf_db (StoreMFAEnrollment i e t n)" unfolding StoreMFAEnrollment_def by (rule keeps_update_user) simp_all
lemma keeps_UpdateMFAStep: "keeps wf_db (UpdateMFAStep i n)" unfolding UpdateMFAStep_def by (rule keeps_update_user) simp_all
lemma keeps_ClearMFA: "keeps wf_db (ClearMFA i)" unfolding ClearMFA_def by (rule keeps_update_user) (simp_all add: clear_mfa_def)

lemma keeps_UpdateUserDetails: "keeps wf_db (UpdateUserDetails i n e)"
  unfolding UpdateUserDetails_def Let_def
  by (intro hoare_option keeps_fail_st keeps_update_user) simp_all

lemma keeps_ResetAllMFA: "keeps wf_db ResetAllMFA"
  unfolding ResetAllMFA_def by (rule keeps_exec) (auto intro!: wf_update_users simp: clear_mfa_def)

lemma keeps_DeleteUser: "keeps wf_db (DeleteUser i)"
  unfolding DeleteUser_def
  by (intro keeps_in_transaction keeps_try_bind keeps_exec wf_filter_user_groups wf_remove_user) simp_all

lemma keeps_DeleteGroup: "keeps wf_db (DeleteGroup i)"
  unfolding DeleteGroup_def
  by (intro keeps_in_transaction keeps_try_bind keeps_exec wf_filter_user_groups wf_filter_group_services wf_remove_group) simp_all

lemma keeps_DeleteService: "keeps wf_db (DeleteService i)"
  unfolding DeleteService_def
  by (intro keeps_in_transaction keeps_try_bind keeps_exec wf_filter_group_services wf_remove_service) simp_all

lemma fst_update_pairs: "map (to_lower \<circ> fst) (map (\<lambda>kv. if P kv then (fst kv, v) else kv) xs) = map (to_lower \<circ> fst) xs"
  by simp

lemma keeps_SetConfig: "keeps wf_db (SetConfig k v)"
  unfolding SetConfig_def
proof (rule keeps_execExpectingRow)
  fix d assume wf: "wf_db d"
  then show "wf_db (d\<lparr>db_config := map (\<lambda>kv. if nocase (fst kv) k then (fst kv, v) else kv) (db_config d)\<rparr>)"
    by (rule wf_set_config) (subst fst_update_pairs, use wf in \<open>simp add: wf_defs\<close>)
qed simp

lemma keeps_SetMFASentinel: "keeps wf_db (SetMFASentinel v)"
  unfolding SetMFASentinel_def
  by (rule keeps_exec) (auto simp: wf_defs distinct_map_filter nocase_def)

lemma seq_ok_snoc: "seq_ok sq ids \<Longrightarrow> seq_ok (sq + 1) (ids @ [sq + 1])"
  by (fastforce simp: seq_ok_def sorted_wrt_append)

lemma seq_ok_filter: "seq_ok sq (map key xs) \<Longrightarrow> seq_ok sq (map key (filter P xs))"
  by (auto simp: seq_ok_def sorted_wrt_map intro: sorted_wrt_filter)

lemma keeps_CreateTrustedNetwork: "keeps wf_db (CreateTrustedNetwork c m)"
  unfolding CreateTrustedNetwork_def Let_def
proof (intro hoare_sum hoare_option keeps_fail_st keeps_insertOrGet)
  fix p d assume "wf_db d" "\<not> find_network (prefix_string p) d \<noteq> None"
  then show "wf_db (insert_network (prefix_string p) m d)"
    by (auto simp: wf_defs insert_network_def find_network_def find_None_iff seq_ok_snoc)
qed simp

lemma keeps_UpdateTrustedNetwork: "keeps wf_db (UpdateTrustedNetwork i c m)"
  unfolding UpdateTrustedNetwork_def
proof (intro hoare_sum hoare_option keeps_fail_st keeps_execExpectingRow)
  fix p d assume wf: "wf_db d"
    and ok: "i \<in> tn_ID ` set (db_networks d) \<Longrightarrow> \<forall>n\<in>set (db_networks d). tn_ID n = i \<or> tn_CIDR n \<noteq> prefix_string p"
  let ?f = "\<lambda>n. if tn_ID n = i then n\<lparr>tn_CIDR := prefix_string p, tn_Comment := m\<rparr> else n"
  have ids: "map tn_ID (map ?f (db_networks d)) = map tn_ID (db_networks d)" by simp
  have sq: "seq_ok (db_networks_seq d) (map tn_ID (db_networks d))" "distinct (map tn_CIDR (db_networks d))"
    using wf by (simp_all add: wf_defs)
  then have dist: "distinct (map tn_ID (db_networks d))"
    by (simp add: seq_ok_def strict_sorted_iff)
  then have "distinct (map (tn_CIDR \<circ> ?f) (db_networks d))"
    by (intro distinct_rename[where key = tn_ID and i = i]) (use sq(2) ok in auto)
  then have "distinct (map tn_CIDR (map ?f (db_networks d)))" by (simp only: map_map)
  with ids sq(1) show "wf_db (d\<lparr>db_networks := map ?f (db_networks d)\<rparr>)"
    by (intro wf_set_networks wf) (simp_all only:)
qed simp

lemma keeps_DeleteTrustedNetwork: "keeps wf_db (DeleteTrustedNetwork i)"
  unfolding DeleteTrustedNetwork_def
  by (rule keeps_exec) (auto simp: wf_defs distinct_map_filter seq_ok_filter)

lemma keeps_RecordAudit: "keeps wf_db (RecordAudit ev)"
  unfolding RecordAudit_def by (rule keeps_exec) (auto simp: wf_defs seq_ok_snoc)

lemma keeps_PruneAudit: "keeps wf_db (PruneAudit t)"
  unfolding PruneAudit_def by (rule keeps_exec) (auto simp: wf_defs seq_ok_filter)

lemma keeps_SetDocument: "keeps wf_db (SetDocument name content actor now)"
  unfolding SetDocument_def
proof (intro hoare_option keeps_fail_st hoare_if keeps_exec)
  fix n d assume n: "NormalizeDocName name = Some n" "\<not> MaxDocumentBytes < length content" and wf: "wf_db d"
  let ?x = "\<lparr>d_Name = n, d_Content = content, d_UpdatedAt = rfc3339 now, d_UpdatedBy = actor\<rparr>"
  have kn: "n \<in> set KnownDocuments" using n by (auto simp: NormalizeDocName_def Let_def split: if_splits)
  show "wf_db (upsert_document ?x d)"
  proof (cases "find_document n d")
    case None
    then have "to_lower n \<notin> (to_lower \<circ> d_Name) ` set (db_documents d)"
      by (auto simp: find_document_def find_None_iff nocase_def)
    then show ?thesis using wf kn n(2) None by (auto simp: upsert_document_def wf_defs)
  next
    case (Some y)
    let ?f = "\<lambda>y. if nocase (d_Name y) n then ?x\<lparr>d_Name := d_Name y\<rparr> else y"
    have "map (to_lower \<circ> d_Name) (map ?f (db_documents d)) = map (to_lower \<circ> d_Name) (db_documents d)" by simp
    moreover have "\<forall>x\<in>set (map ?f (db_documents d)). d_Name x \<in> set KnownDocuments \<and> length (d_Content x) \<le> MaxDocumentBytes"
      using wf n(2) by (auto simp: wf_defs)
    moreover have "distinct (map (to_lower \<circ> d_Name) (db_documents d))" using wf by (simp add: wf_defs)
    ultimately have "wf_db (d\<lparr>db_documents := map ?f (db_documents d)\<rparr>)"
      by (intro wf_set_documents wf) (simp_all only:)
    then show ?thesis using Some by (simp add: upsert_document_def)
  qed
qed simp

lemmas keeps_all = keeps_CreateUser keeps_CreateGroup keeps_AddUserToGroup keeps_RemoveUserFromGroup keeps_LinkGroupService
  keeps_UnlinkGroupService keeps_CreateService keeps_UpdateService keeps_SetPassword keeps_SetUserSettingsLocked
  keeps_SetMFARequired keeps_StoreMFAEnrollment keeps_UpdateMFAStep keeps_ClearMFA keeps_UpdateUserDetails
  keeps_ResetAllMFA keeps_DeleteUser keeps_DeleteGroup keeps_DeleteService keeps_SetConfig keeps_SetMFASentinel
  keeps_CreateTrustedNetwork keeps_UpdateTrustedNetwork keeps_DeleteTrustedNetwork keeps_RecordAudit keeps_PruneAudit
  keeps_SetDocument

section \<open>Histories of the database\<close>

text \<open>
  Any method call on the store, by any caller, with any arguments and any statement failures.
\<close>

inductive store_step :: "db \<Rightarrow> db \<Rightarrow> bool" where
  "store_step d (snd (run_state (CreateUser n h) d))"
| "store_step d (snd (run_state (CreateGroup n) d))"
| "store_step d (snd (run_state (AddUserToGroup i j) d))"
| "store_step d (snd (run_state (RemoveUserFromGroup i j) d))"
| "store_step d (snd (run_state (LinkGroupService i j) d))"
| "store_step d (snd (run_state (UnlinkGroupService i j) d))"
| "store_step d (snd (run_state (CreateService n desc host port t v) d))"
| "store_step d (snd (run_state (UpdateService i n desc host port t v) d))"
| "store_step d (snd (run_state (SetPassword i h) d))"
| "store_step d (snd (run_state (SetUserSettingsLocked i b) d))"
| "store_step d (snd (run_state (SetMFARequired i b) d))"
| "store_step d (snd (run_state (StoreMFAEnrollment i h n k) d))"
| "store_step d (snd (run_state (UpdateMFAStep i k) d))"
| "store_step d (snd (run_state (ClearMFA i) d))"
| "store_step d (snd (run_state (UpdateUserDetails i n h) d))"
| "store_step d (snd (run_state ResetAllMFA d))"
| "store_step d (snd (run_state (DeleteUser i) d))"
| "store_step d (snd (run_state (DeleteGroup i) d))"
| "store_step d (snd (run_state (DeleteService i) d))"
| "store_step d (snd (run_state (SetConfig n h) d))"
| "store_step d (snd (run_state (SetMFASentinel n) d))"
| "store_step d (snd (run_state (CreateTrustedNetwork n h) d))"
| "store_step d (snd (run_state (UpdateTrustedNetwork i n h) d))"
| "store_step d (snd (run_state (DeleteTrustedNetwork i) d))"
| "store_step d (snd (run_state (RecordAudit ev) d))"
| "store_step d (snd (run_state (PruneAudit k) d))"
| "store_step d (snd (run_state (SetDocument n h actor now) d))"
| "store_step d (snd (run_state (query (f :: db \<Rightarrow> unit)) d))"

inductive store_history :: "db \<Rightarrow> db \<Rightarrow> bool" for d0 where
  start: "store_history d0 d0"
| step: "store_history d0 d \<Longrightarrow> store_step d d' \<Longrightarrow> store_history d0 d'"

lemma store_step_wf: "store_step d d' \<Longrightarrow> wf_db d \<Longrightarrow> wf_db d'"
  by (induction rule: store_step.induct) (rule keeps_result, rule keeps_all keeps_query[OF faultless_wf], assumption)+

section \<open>What the operations do\<close>

definition tables :: "db \<Rightarrow> db" where \<comment> \<open>the database without the fault script\<close>
  "tables d = d\<lparr>db_faults := []\<rparr>"

lemma tables_faults [simp]: "tables (d\<lparr>db_faults := fs\<rparr>) = tables d"
  by (simp add: tables_def)

lemma tables_eq: "tables d = tables e \<longleftrightarrow> (\<exists>fs. d = e\<lparr>db_faults := fs\<rparr>)"
  by (cases d; cases e) (auto simp: tables_def)

lemma exec_cases:
  assumes "run_state (exec ok res upd) d = (r, d')"
  obtains fs where "r = Inl ErrDB" "d' = d\<lparr>db_faults := fs\<rparr>"
  | fs where "r = Inl ErrConstraint" "d' = d\<lparr>db_faults := fs\<rparr>" "\<not> ok d'"
  | fs where "r = Inr (res (d\<lparr>db_faults := fs\<rparr>))" "d' = upd (d\<lparr>db_faults := fs\<rparr>)" "ok (d\<lparr>db_faults := fs\<rparr>)"
proof -
  have self [simp]: "d\<lparr>db_faults := db_faults d\<rparr> = d" by (cases d) simp
  show thesis
  proof (cases "db_faults d")
    case Nil
    then have run: "(r, d') = (if ok d then (Inr (res d), upd d) else (Inl ErrConstraint, d))"
      using assms by (simp add: exec_def run_stmt_def)
    show ?thesis
      using run that(2)[of "db_faults d"] that(3)[of "db_faults d"] by (cases "ok d") simp_all
  next
    case (Cons b fs)
    let ?d = "d\<lparr>db_faults := fs\<rparr>"
    have run: "(r, d') = (if b then (Inl ErrDB, ?d) else if ok ?d then (Inr (res ?d), upd ?d) else (Inl ErrConstraint, ?d))"
      using assms Cons by (simp add: exec_def run_stmt_def)
    show ?thesis
      using run that(1)[of fs] that(2)[of fs] that(3)[of fs] by (cases b; cases "ok ?d") simp_all
  qed
qed

lemma query_cases:
  assumes "run_state (query f) d = (r, d')"
  obtains fs where "r = Inl ErrDB" "d' = d\<lparr>db_faults := fs\<rparr>"
  | fs where "r = Inr (f (d\<lparr>db_faults := fs\<rparr>))" "d' = d\<lparr>db_faults := fs\<rparr>"
proof -
  have "query f = exec (\<lambda>_. True) f (\<lambda>d. d)" by (simp add: query_def exec_def)
  then show thesis using assms that by (auto elim!: exec_cases)
qed

lemma in_transaction_error:
  assumes "run_state (in_transaction body) d = (Inl e, d')"
  shows "tables d' = tables d"
proof -
  obtain r1 d1 where q: "run_state (query (\<lambda>_. ())) d = (r1, d1)" by (cases "run_state (query (\<lambda>_. ())) d")
  then have "tables d1 = tables d" by (auto elim!: query_cases)
  with assms q show ?thesis
    by (auto simp: in_transaction_def split: sum.splits prod.splits)
qed

lemma in_transaction_ok:
  assumes "run_state (in_transaction body) d = (Inr u, d')"
  obtains fs d1 where "run_state body (d\<lparr>db_faults := fs\<rparr>) = (Inr (), d1)" "tables d' = tables d1"
proof -
  obtain r1 d1 where q: "run_state (query (\<lambda>_. ())) d = (r1, d1)" by (cases "run_state (query (\<lambda>_. ())) d")
  from assms obtain x where r1: "r1 = Inr x" by (cases r1) (auto simp: in_transaction_def q)
  with q obtain fs where d1: "d1 = d\<lparr>db_faults := fs\<rparr>" by (auto elim!: query_cases)
  obtain r2 d2 where b: "run_state body d1 = (r2, d2)" by (cases "run_state body d1")
  from assms obtain y where r2: "r2 = Inr y" by (cases r2) (auto simp: in_transaction_def q r1 run_try_bind b)
  obtain r3 d3 where c: "run_state (query (\<lambda>_. ())) d2 = (r3, d3)" by (cases "run_state (query (\<lambda>_. ())) d2")
  then have "tables d3 = tables d2" by (auto elim!: query_cases)
  moreover have "d' = d3" using assms by (cases r3) (auto simp: in_transaction_def q r1 run_try_bind b r2 c)
  ultimately show thesis using that[of fs d2] b r2 d1 by simp
qed

definition cascade_outcome :: "(db \<Rightarrow> db) \<Rightarrow> unit st \<Rightarrow> db \<Rightarrow> bool" where
  "cascade_outcome f m d \<longleftrightarrow>
     (case run_state m d of (Inr _, d') \<Rightarrow> tables d' = f (tables d) | (Inl _, d') \<Rightarrow> tables d' = tables d)"

definition without_user :: "int \<Rightarrow> db \<Rightarrow> db" where
  "without_user i d =
     d\<lparr>db_users := filter (\<lambda>u. u_ID u \<noteq> i) (db_users d), db_user_groups := filter (\<lambda>l. fst l \<noteq> i) (db_user_groups d)\<rparr>"

definition without_group :: "int \<Rightarrow> db \<Rightarrow> db" where
  "without_group i d =
     d\<lparr>db_groups := filter (\<lambda>g. g_ID g \<noteq> i) (db_groups d), db_user_groups := filter (\<lambda>l. snd l \<noteq> i) (db_user_groups d),
       db_group_services := filter (\<lambda>l. fst l \<noteq> i) (db_group_services d)\<rparr>"

definition without_service :: "int \<Rightarrow> db \<Rightarrow> db" where
  "without_service i d =
     d\<lparr>db_services := filter (\<lambda>s. s_ID s \<noteq> i) (db_services d), db_group_services := filter (\<lambda>l. snd l \<noteq> i) (db_group_services d)\<rparr>"

lemma DeleteUser_outcome: "cascade_outcome (without_user i) (DeleteUser i) d"
proof (cases "run_state (DeleteUser i) d")
  case (Pair r d')
  then show ?thesis
  proof (cases r)
    case (Inl e)
    with Pair show ?thesis by (simp add: cascade_outcome_def DeleteUser_def in_transaction_error)
  next
    case (Inr u)
    with Pair show ?thesis unfolding DeleteUser_def cascade_outcome_def
      by (auto elim!: in_transaction_ok exec_cases simp: run_try_bind without_user_def tables_def split: prod.splits sum.splits)
  qed
qed

lemma DeleteGroup_outcome: "cascade_outcome (without_group i) (DeleteGroup i) d"
proof (cases "run_state (DeleteGroup i) d")
  case (Pair r d')
  then show ?thesis
  proof (cases r)
    case (Inl e)
    with Pair show ?thesis by (simp add: cascade_outcome_def DeleteGroup_def in_transaction_error)
  next
    case (Inr u)
    with Pair show ?thesis unfolding DeleteGroup_def cascade_outcome_def
      by (auto elim!: in_transaction_ok exec_cases simp: run_try_bind without_group_def tables_def split: prod.splits sum.splits)
  qed
qed

lemma DeleteService_outcome: "cascade_outcome (without_service i) (DeleteService i) d"
proof (cases "run_state (DeleteService i) d")
  case (Pair r d')
  then show ?thesis
  proof (cases r)
    case (Inl e)
    with Pair show ?thesis by (simp add: cascade_outcome_def DeleteService_def in_transaction_error)
  next
    case (Inr u)
    with Pair show ?thesis unfolding DeleteService_def cascade_outcome_def
      by (auto elim!: in_transaction_ok exec_cases simp: run_try_bind without_service_def tables_def split: prod.splits sum.splits)
  qed
qed

lemma set_services_for_groups:
  "set (services_for_groups names d) =
     {s \<in> set (db_services d). \<exists>g\<in>set (db_groups d). (g_ID g, s_ID s) \<in> set (db_group_services d) \<and> (\<exists>n\<in>set names. nocase (g_Name g) n)}"
  by (auto simp: services_for_groups_def order_by_def list_ex_iff) force+

lemma services_for_groups_sorted:
  "distinct (services_for_groups names d)" "sorted (map (to_lower \<circ> s_Name) (services_for_groups names d))"
  by (simp_all add: services_for_groups_def order_by_def comp_def)

lemma CreateUser_existing:
  assumes "find_user (to_upper name) d = Some u" "run_state (CreateUser name hash) d = (r, d')"
  shows "tables d' = tables d \<and> r \<in> {Inr (u_ID u), Inl ErrDB}"
proof -
  have f: "find_user (to_upper name) (d\<lparr>db_faults := fs\<rparr>) = Some u" for fs
    using assms(1) by (simp add: find_user_def)
  show ?thesis
    using assms(2) unfolding CreateUser_def Let_def insertOrGet_def
    by (auto simp: run_try_bind f fail_st_def split: prod.splits sum.splits option.splits elim!: exec_cases query_cases)
qed

section \<open>Properties\<close>

definition sample_db :: db where
  "sample_db =
     \<lparr>db_users = [new_user 1 ''ALICE'' ''hash-a'', new_user 2 ''BOB'' ''hash-b''],
      db_groups = [\<lparr>g_ID = 1, g_Name = AdminGroup\<rparr>, \<lparr>g_ID = 2, g_Name = ''OPS''\<rparr>],
      db_user_groups = [(1, 1), (2, 2)],
      db_services = [\<lparr>s_ID = 1, s_Name = ''TSO'', s_Description = ''Time sharing'', s_Host = ''mvs'', s_Port = 23,
                      s_TLS = False, s_TLSVerify = True\<rparr>],
      db_group_services = [(2, 1)],
      db_audit = [], db_audit_seq = 0,
      db_config = [(KeySystemID, ''PROXY'')], db_networks = [], db_networks_seq = 0,
      db_documents = [], db_faults = []\<rparr>"

lemma sample_db_wf: "wf_db sample_db"
  by code_simp

text \<open>
  C18. The database stays well formed for ever: after any sequence of store calls, with any
  arguments and any pattern of failing statements, ids and names are unique (names in their
  canonical upper-case form), every membership and every grant refers to existing rows, audit
  and network ids strictly increase and stay below their sequences, and documents are known
  ones within the size cap.
\<close>

theorem store_wf_forever:
  assumes "wf_db d0" "store_history d0 d"
  shows "wf_db d"
  using assms(2,1) by (induction rule: store_history.induct) (auto intro: store_step_wf)

theorem store_wf_forever_witness:
  "wf_db (snd (run_state (DeleteUser 2) sample_db)) \<and> map u_ID (db_users (snd (run_state (DeleteUser 2) sample_db))) = [1]"
proof
  show "wf_db (snd (run_state (DeleteUser 2) sample_db))"
    by (rule store_wf_forever[OF sample_db_wf store_history.step[OF store_history.start store_step.intros(17)]])
  show "map u_ID (db_users (snd (run_state (DeleteUser 2) sample_db))) = [1]" by code_simp
qed

text \<open>
  Deletes are all or nothing: deleting a user, a group or a service removes the row and
  every membership and grant that mentions it and touches nothing else, or, whichever
  statement of the transaction fails, changes nothing at all. The order of the statements
  satisfies the foreign keys in every state.
\<close>

theorem deletes_all_or_nothing:
  "cascade_outcome (without_user i) (DeleteUser i) d \<and> cascade_outcome (without_group i) (DeleteGroup i) d \<and>
   cascade_outcome (without_service i) (DeleteService i) d"
  by (simp add: DeleteUser_outcome DeleteGroup_outcome DeleteService_outcome)

text \<open>
  C19. The menu's query is exact: it lists, once each and in name order, precisely the services
  granted to at least one of the user's groups.
\<close>

theorem menu_services_exact:
  assumes "run_state (ListServicesForGroups names) d = (Inr ss, d')"
  shows "set ss = {s \<in> set (db_services d). \<exists>g\<in>set (db_groups d). (g_ID g, s_ID s) \<in> set (db_group_services d) \<and>
             (\<exists>n\<in>set names. nocase (g_Name g) n)} \<and> distinct ss \<and> sorted (map (to_lower \<circ> s_Name) ss)"
proof (cases "names = []")
  case True
  with assms show ?thesis by (simp add: ListServicesForGroups_def)
next
  case False
  with assms have "run_state (query (services_for_groups names)) d = (Inr ss, d')" by (simp add: ListServicesForGroups_def)
  then obtain fs where "ss = services_for_groups names (d\<lparr>db_faults := fs\<rparr>)" by (auto elim!: query_cases)
  then have ss: "ss = services_for_groups names d" by (simp add: services_for_groups_def cong: if_cong)
  show ?thesis unfolding ss by (simp only: set_services_for_groups services_for_groups_sorted simp_thms)
qed

theorem menu_services_exact_witness:
  "run_state (ListServicesForGroups [''OPS'']) sample_db = (Inr (db_services sample_db), sample_db) \<and>
   distinct (db_services sample_db)"
proof -
  have r: "run_state (ListServicesForGroups [''OPS'']) sample_db = (Inr (db_services sample_db), sample_db)" by code_simp
  from r menu_services_exact[OF r] show ?thesis by simp
qed

end
