(* ===== verification/Throttle.thy ===== *)
theory Throttle
  imports Sysconfig
begin

text \<open>
  The per-user authentication throttle of internal/server/auththrottle.go: the shared table
  of failure counts (\<open>auth_throttle\<close>, a map from the normalized user name), its sweep, and
  the delay computed from the administrator's parameters with 64-bit arithmetic. The
  abstract throttle at the end has no sweep; the table refines it.
\<close>

record throttle_entry =
  te_count :: int
  te_last :: go_time

record auth_throttle =
  at_entries :: "string \<Rightarrow> throttle_entry option"
  at_lastSweep :: go_time

definition newAuthThrottle :: auth_throttle where
  "newAuthThrottle = \<lparr>at_entries = (\<lambda>_. None), at_lastSweep = 0\<rparr>"

definition throttleKey :: "string \<Rightarrow> string" where
  "throttleKey username = to_upper (trim_space username)"

definition sweepLocked :: "auth_throttle \<Rightarrow> go_time \<Rightarrow> duration \<Rightarrow> auth_throttle" where
  "sweepLocked t now window =
     (if window \<le> 0 then t
      else if at_lastSweep t \<noteq> 0 \<and> time_sub now (at_lastSweep t) < window then t
      else t\<lparr>at_lastSweep := now,
             at_entries := (\<lambda>k. case at_entries t k of
                                  None \<Rightarrow> None
                                | Some e \<Rightarrow> if window < time_sub now (te_last e) then None else Some e)\<rparr>)"

definition fail_entry :: "throttle_entry option \<Rightarrow> go_time \<Rightarrow> duration \<Rightarrow> throttle_entry" where
  "fail_entry e0 now window =
     (let e = (case e0 of None \<Rightarrow> \<lparr>te_count = 0, te_last = 0\<rparr> | Some e \<Rightarrow> e);
          c = (if 0 < te_count e \<and> window < time_sub now (te_last e) then 0 else te_count e)
      in \<lparr>te_count = c + 1, te_last = now\<rparr>)"

text \<open>\<open>None\<close> is the nil throttle: \<open>Fail\<close> returns 0 and \<open>Reset\<close> does nothing.\<close>

definition throttle_Fail :: "auth_throttle option \<Rightarrow> string \<Rightarrow> go_time \<Rightarrow> duration \<Rightarrow> int \<times> auth_throttle option" where
  "throttle_Fail th username now window =
     (case th of
        None \<Rightarrow> (0, None)
      | Some t0 \<Rightarrow>
          let key = throttleKey username;
              t = sweepLocked t0 now window;
              e = fail_entry (at_entries t key) now window
          in (te_count e, Some (t\<lparr>at_entries := (at_entries t)(key := Some e)\<rparr>)))"

definition throttle_Reset :: "auth_throttle option \<Rightarrow> string \<Rightarrow> auth_throttle option" where
  "throttle_Reset th username =
     map_option (\<lambda>t. t\<lparr>at_entries := (at_entries t)(throttleKey username := None)\<rparr>) th"

definition throttle_peek :: "auth_throttle \<Rightarrow> string \<Rightarrow> int \<times> bool" where
  "throttle_peek t username =
     (case at_entries t (throttleKey username) of None \<Rightarrow> (0, False) | Some e \<Rightarrow> (te_count e, True))"

section \<open>The delay\<close>

definition maxThrottleDelay :: duration where "maxThrottleDelay = hour"

definition maxThrottleInputSecs :: int where "maxThrottleInputSecs = maxThrottleDelay div second"

record throttle_config =
  tc_baseSecs :: int
  tc_maxTries :: int
  tc_window :: duration

text \<open>\<open>get\<close> is the store's GetConfig, \<open>None\<close> for any error.\<close>

definition throttleInt :: "(string \<Rightarrow> string option) \<Rightarrow> string \<Rightarrow> int \<Rightarrow> int" where
  "throttleInt get key def =
     (case get key of
        None \<Rightarrow> def
      | Some v \<Rightarrow> (case atoi (trim_space v) of
                     None \<Rightarrow> def
                   | Some n \<Rightarrow> if n < 0 then def else n))"

definition loadThrottle :: "(string \<Rightarrow> string option) \<Rightarrow> throttle_config" where
  "loadThrottle get =
     (let m0 = throttleInt get KeyAuthFailWindowMins DefaultAuthFailWindowMins;
          mins = (if m0 < 1 then DefaultAuthFailWindowMins else m0)
      in \<lparr>tc_baseSecs = throttleInt get KeyAuthDelayBaseSecs DefaultAuthDelayBaseSecs,
          tc_maxTries = throttleInt get KeyAuthMaxTries DefaultAuthMaxTries,
          tc_window = wrap64 (mins * minute)\<rparr>)"

definition throttleDelay :: "int \<Rightarrow> throttle_config \<Rightarrow> duration" where
  "throttleDelay count cfg =
     (if tc_baseSecs cfg \<le> 0 then 0
      else let mult = (if tc_maxTries cfg < count then tc_maxTries cfg else count)
           in if mult \<le> 0 then 0
              else if maxThrottleInputSecs \<le> tc_baseSecs cfg \<or> maxThrottleInputSecs \<le> mult
                then maxThrottleDelay
              else let secs = wrap64 (tc_baseSecs cfg * mult)
                   in if maxThrottleInputSecs \<le> secs then maxThrottleDelay
                      else wrap64 (secs * second))"

definition failDelay ::
  "auth_throttle option \<Rightarrow> (string \<Rightarrow> string option) \<Rightarrow> string \<Rightarrow> go_time \<Rightarrow> duration \<times> int \<times> auth_throttle option" where
  "failDelay th get username now =
     (case th of
        None \<Rightarrow> (0, 0, None)
      | Some t \<Rightarrow>
          let cfg = loadThrottle get
          in case throttle_Fail th username now (tc_window cfg) of
               (count, th') \<Rightarrow> (throttleDelay count cfg, count, th'))"

text \<open>\<open>Duration.String\<close> of a whole number of seconds, and the audit detail.\<close>

definition duration_string :: "duration \<Rightarrow> string" where
  "duration_string d =
     (let secs = d div second; h = secs div 3600; m = (secs div 60) mod 60; s = secs mod 60
      in (if 0 < h then itoa h @ ''h'' else []) @
         (if 0 < h \<or> 0 < m then itoa m @ ''m'' else []) @ itoa s @ ''s'')"

definition throttleDetail :: "string \<Rightarrow> duration \<Rightarrow> int \<Rightarrow> string" where
  "throttleDetail base delay count =
     (if delay \<le> 0 then base
      else if base = [] then ''delay='' @ duration_string delay @ '' count='' @ itoa count
      else base @ '' delay='' @ duration_string delay @ '' count='' @ itoa count)"

text \<open>\<open>sleepFor\<close>: the sleeps a session performs, as a log.\<close>

definition sleepFor :: "duration \<Rightarrow> duration list \<Rightarrow> duration list" where
  "sleepFor d sleeps = (if d \<le> 0 then sleeps else sleeps @ [d])"

lemma throttleDelay_spec:
  assumes "count \<le> max_int64" "tc_baseSecs cfg \<le> max_int64" "tc_maxTries cfg \<le> max_int64"
  shows "throttleDelay count cfg =
    (if tc_baseSecs cfg \<le> 0 \<or> min count (tc_maxTries cfg) \<le> 0 then 0
     else min 3600 (tc_baseSecs cfg * min count (tc_maxTries cfg)) * second)"
proof -
  let ?b = "tc_baseSecs cfg" and ?m = "min count (tc_maxTries cfg)"
  have m: "(if tc_maxTries cfg < count then tc_maxTries cfg else count) = ?m" by (simp add: min_def)
  have K: "maxThrottleInputSecs = 3600"
    by (simp add: maxThrottleInputSecs_def maxThrottleDelay_def hour_def minute_def second_def)
  have D: "maxThrottleDelay = 3600 * second" by (simp add: maxThrottleDelay_def hour_def minute_def second_def)
  consider "?b \<le> 0 \<or> ?m \<le> 0" | "0 < ?b" "0 < ?m" "3600 \<le> ?b \<or> 3600 \<le> ?m" | "0 < ?b" "0 < ?m" "?b < 3600" "?m < 3600"
    by linarith
  then show ?thesis
  proof cases
    case 1
    then show ?thesis by (auto simp: throttleDelay_def Let_def m)
  next
    case 2
    have "3600 \<le> ?b * ?m"
    proof (cases "3600 \<le> ?b")
      case True
      have "3600 * 1 \<le> ?b * ?m" by (rule mult_mono) (use True 2 in auto)
      then show ?thesis by simp
    next
      case False
      have "1 * 3600 \<le> ?b * ?m" by (rule mult_mono) (use False 2 in auto)
      then show ?thesis by simp
    qed
    with 2 show ?thesis by (auto simp: throttleDelay_def Let_def m K D)
  next
    case 3
    have "?b * ?m \<le> 3600 * 3600" by (rule mult_mono) (use 3 in auto)
    moreover have pos: "0 < ?b * ?m" using 3 by simp
    ultimately have w: "wrap64 (?b * ?m) = ?b * ?m"
      by (intro wrap64_id) (auto simp: min_int64_def max_int64_def)
    have "?b * ?m < 3600 \<Longrightarrow> wrap64 (?b * ?m * second) = ?b * ?m * second"
      by (rule wrap64_id; use pos in \<open>simp add: min_int64_def max_int64_def second_def\<close>)
    then show ?thesis using 3 w by (auto simp: throttleDelay_def Let_def m K D min_def)
  qed
qed

section \<open>The abstract throttle\<close>

datatype throttle_event = EFail string go_time | EReset string

definition event_time :: "go_time \<Rightarrow> throttle_event \<Rightarrow> go_time" where
  "event_time now ev = (case ev of EFail _ t \<Rightarrow> t | EReset _ \<Rightarrow> now)"

fun throttle_event_step :: "duration \<Rightarrow> auth_throttle \<Rightarrow> throttle_event \<Rightarrow> auth_throttle" where
  "throttle_event_step w t (EFail u now) = the (snd (throttle_Fail (Some t) u now w))"
| "throttle_event_step w t (EReset u) = the (throttle_Reset (Some t) u)"

text \<open>No sweep: an entry is only ever restarted by a failure after the window, or reset.\<close>

type_synonym ideal_throttle = "string \<Rightarrow> throttle_entry option"

fun ideal_step :: "duration \<Rightarrow> ideal_throttle \<Rightarrow> throttle_event \<Rightarrow> ideal_throttle" where
  "ideal_step w m (EFail u now) = m(throttleKey u := Some (fail_entry (m (throttleKey u)) now w))"
| "ideal_step w m (EReset u) = m(throttleKey u := None)"

definition ideal_count :: "duration \<Rightarrow> ideal_throttle \<Rightarrow> string \<Rightarrow> go_time \<Rightarrow> int" where
  "ideal_count w m u now = te_count (fail_entry (m (throttleKey u)) now w)"

text \<open>Times never go back.\<close>

fun monotone_from :: "go_time \<Rightarrow> throttle_event list \<Rightarrow> bool" where
  "monotone_from t [] = True"
| "monotone_from t (ev # evs) = (t \<le> event_time t ev \<and> monotone_from (event_time t ev) evs)"

text \<open>The coupling: an entry agrees, or it was swept and would restart anyway.\<close>

definition coupled :: "duration \<Rightarrow> go_time \<Rightarrow> auth_throttle \<Rightarrow> ideal_throttle \<Rightarrow> bool" where
  "coupled w now t m \<longleftrightarrow>
     (\<forall>k. at_entries t k = m k \<or>
        (at_entries t k = None \<and> (\<exists>e. m k = Some e \<and> w < now - te_last e))) \<and>
     (\<forall>k e. m k = Some e \<longrightarrow> 0 < te_count e)"

lemma fail_entry_stale:
  "0 < te_count e \<Longrightarrow> w < time_sub now (te_last e) \<Longrightarrow> fail_entry (Some e) now w = fail_entry None now w"
  by (simp add: fail_entry_def)

lemma fail_entry_pos: "(\<And>e. e0 = Some e \<Longrightarrow> 0 < te_count e) \<Longrightarrow> 0 < te_count (fail_entry e0 now w)"
  by (cases e0) (auto simp: fail_entry_def Let_def)

lemma stale_sub: "0 < w \<Longrightarrow> w < max_int64 \<Longrightarrow> w < time_sub a b \<longleftrightarrow> w < a - b"
  using time_sub_le[of w a b] by (auto simp: min_int64_def)

lemma sweep_entries:
  "at_entries (sweepLocked t now w) k = at_entries t k \<or>
   (at_entries (sweepLocked t now w) k = None \<and>
      (\<exists>e. at_entries t k = Some e \<and> 0 < w \<and> w < time_sub now (te_last e)))"
  by (auto simp: sweepLocked_def split: option.splits)

lemma coupled_sweep:
  assumes "coupled w now0 t m" "now0 \<le> now" "0 < w" "w < max_int64"
  shows "coupled w now (sweepLocked t now w) m"
  unfolding coupled_def
proof (intro conjI allI impI)
  fix k
  let ?s = "at_entries (sweepLocked t now w) k"
  from assms(1) consider "at_entries t k = m k" | e where "at_entries t k = None" "m k = Some e" "w < now0 - te_last e"
    unfolding coupled_def by blast
  then show "?s = m k \<or> ?s = None \<and> (\<exists>e. m k = Some e \<and> w < now - te_last e)"
    by cases (use sweep_entries[of t now w k] stale_sub[OF assms(3,4)] assms(2) in auto)
next
  fix k e assume "m k = Some e" then show "0 < te_count e" using assms(1) unfolding coupled_def by blast
qed

lemma coupled_fail_entry:
  assumes "coupled w now t m" "0 < w" "w < max_int64"
  shows "fail_entry (at_entries t k) now w = fail_entry (m k) now w"
proof -
  from assms(1) consider "at_entries t k = m k" | e where "at_entries t k = None" "m k = Some e" "w < now - te_last e" "0 < te_count e"
    unfolding coupled_def by blast
  then show ?thesis
    by cases (auto simp: fail_entry_stale stale_sub[OF assms(2,3)])
qed

lemma coupled_step:
  assumes "coupled w now t m" "now \<le> event_time now ev" "0 < w" "w < max_int64"
  shows "coupled w (event_time now ev) (throttle_event_step w t ev) (ideal_step w m ev)"
proof (cases ev)
  case (EFail u now')
  have c: "coupled w now' (sweepLocked t now' w) m"
    using coupled_sweep[OF assms(1) _ assms(3,4)] assms(2) EFail by (simp add: event_time_def)
  have e: "fail_entry (at_entries (sweepLocked t now' w) (throttleKey u)) now' w = fail_entry (m (throttleKey u)) now' w"
    by (rule coupled_fail_entry[OF c assms(3,4)])
  have p: "0 < te_count (fail_entry (m (throttleKey u)) now' w)"
    by (rule fail_entry_pos) (use c in \<open>auto simp: coupled_def\<close>)
  show ?thesis using c e p
    by (auto simp: EFail event_time_def throttle_Fail_def Let_def coupled_def)
next
  case (EReset u)
  then show ?thesis using assms(1)
    by (auto simp: event_time_def throttle_Reset_def coupled_def)
qed

lemma coupled_run:
  assumes "coupled w now t m" "monotone_from now evs" "0 < w" "w < max_int64"
  shows "coupled w (foldl event_time now evs) (foldl (throttle_event_step w) t evs) (foldl (ideal_step w) m evs)"
  using assms(1,2)
proof (induction evs arbitrary: now t m)
  case (Cons ev evs)
  then show ?case using coupled_step[of w now t m ev] assms(3,4) by simp
qed simp

lemma coupled_init: "coupled w now newAuthThrottle (\<lambda>_. None)"
  by (simp add: coupled_def newAuthThrottle_def)

subsection \<open>How old an entry can be\<close>

definition fresh_since_sweep :: "duration \<Rightarrow> go_time \<Rightarrow> auth_throttle \<Rightarrow> bool" where
  "fresh_since_sweep w now t \<longleftrightarrow>
     (at_lastSweep t = 0 \<longrightarrow> at_entries t = (\<lambda>_. None)) \<and> at_lastSweep t \<le> now \<and>
     (\<forall>k e. at_entries t k = Some e \<longrightarrow> at_lastSweep t - w \<le> te_last e \<and> te_last e \<le> now)"

lemma fail_entry_last [simp]: "te_last (fail_entry e now w) = now"
  by (simp add: fail_entry_def Let_def)

lemma fresh_sweep:
  assumes "fresh_since_sweep w now0 t" "now0 \<le> now" "0 < now" "0 < w" "w < max_int64"
  shows "fresh_since_sweep w now (sweepLocked t now w) \<and> at_lastSweep (sweepLocked t now w) \<noteq> 0 \<and>
    now - at_lastSweep (sweepLocked t now w) < w"
proof (cases "at_lastSweep t \<noteq> 0 \<and> time_sub now (at_lastSweep t) < w")
  case True
  then have "now - at_lastSweep t < w" using time_sub_less[of w now "at_lastSweep t"] assms(4,5) by (auto simp: min_int64_def)
  with True show ?thesis using assms by (fastforce simp: sweepLocked_def fresh_since_sweep_def)
next
  case False
  then have s: "sweepLocked t now w = t\<lparr>at_lastSweep := now,
      at_entries := (\<lambda>k. case at_entries t k of None \<Rightarrow> None | Some e \<Rightarrow> if w < time_sub now (te_last e) then None else Some e)\<rparr>"
    using assms(4) by (auto simp: sweepLocked_def)
  show ?thesis unfolding s using assms stale_sub[OF assms(4,5)]
    by (fastforce simp: fresh_since_sweep_def split: option.splits if_splits)
qed

lemma fresh_step:
  assumes "fresh_since_sweep w now t" "now \<le> event_time now ev" "0 < event_time now ev" "0 < w" "w < max_int64"
  shows "fresh_since_sweep w (event_time now ev) (throttle_event_step w t ev)"
proof (cases ev)
  case (EFail u now')
  then show ?thesis using fresh_sweep[OF assms(1), of now'] assms(2-5)
    by (auto simp: event_time_def throttle_Fail_def Let_def fresh_since_sweep_def)
next
  case (EReset u)
  then show ?thesis using assms(1)
    by (auto simp: event_time_def throttle_Reset_def fresh_since_sweep_def)
qed

lemma fresh_run:
  assumes "fresh_since_sweep w now t" "monotone_from now evs" "0 < now" "0 < w" "w < max_int64"
  shows "fresh_since_sweep w (foldl event_time now evs) (foldl (throttle_event_step w) t evs)"
  using assms(1-3)
proof (induction evs arbitrary: now t)
  case (Cons ev evs)
  then show ?case using fresh_step[of w now t ev] assms(4,5) by simp
qed simp

lemma monotone_time: "monotone_from now evs \<Longrightarrow> now \<le> foldl event_time now evs"
proof (induction evs arbitrary: now)
  case (Cons ev evs)
  then have "now \<le> event_time now ev" "event_time now ev \<le> foldl event_time (event_time now ev) evs" by simp_all
  then show ?case by simp
qed simp

lemma monotone_snoc:
  "monotone_from t0 (evs @ [EFail u now]) \<longleftrightarrow> monotone_from t0 evs \<and> foldl event_time t0 evs \<le> now"
  by (induction evs arbitrary: t0) (auto simp: event_time_def)

subsection \<open>Counting one user's failures\<close>

fun concerns :: "string \<Rightarrow> throttle_event \<Rightarrow> bool" where
  "concerns key (EFail u _) = (throttleKey u = key)"
| "concerns key (EReset u) = (throttleKey u = key)"

fun all_fails_within :: "duration \<Rightarrow> go_time \<Rightarrow> throttle_event list \<Rightarrow> bool" where
  "all_fails_within w prev [] = True"
| "all_fails_within w prev (EFail _ t # evs) = (t - prev \<le> w \<and> all_fails_within w t evs)"
| "all_fails_within w prev (EReset _ # evs) = False"

lemma ideal_other: "\<not> concerns key ev \<Longrightarrow> ideal_step w m ev key = m key"
  by (cases ev) auto

lemma ideal_same: "concerns key ev \<Longrightarrow> m key = m' key \<Longrightarrow> ideal_step w m ev key = ideal_step w m' ev key"
  by (cases ev) auto

lemma ideal_filter:
  "m key = m' key \<Longrightarrow>
   foldl (ideal_step w) m evs key = foldl (ideal_step w) m' (filter (concerns key) evs) key"
proof (induction evs arbitrary: m m')
  case (Cons ev evs)
  show ?case
  proof (cases "concerns key ev")
    case True
    then show ?thesis using Cons.IH[of "ideal_step w m ev" "ideal_step w m' ev"] ideal_same[of key ev m m' w, OF True Cons.prems] by simp
  next
    case False
    then show ?thesis using Cons.IH[of "ideal_step w m ev" m'] ideal_other[OF False, of w m] Cons.prems by simp
  qed
qed simp

lemma ideal_streak:
  assumes "all_fails_within w (te_last e) evs" "list_all (concerns key) evs" "0 < te_count e" "m key = Some e"
    "0 < w" "w < max_int64"
  shows "\<exists>e'. foldl (ideal_step w) m evs key = Some e' \<and> te_count e' = te_count e + int (length evs)"
  using assms(1-4)
proof (induction evs arbitrary: m e)
  case (Cons ev evs)
  then obtain u t where ev: "ev = EFail u t" by (cases ev) auto
  let ?e = "fail_entry (Some e) t w"
  have cnt: "te_count ?e = te_count e + 1"
    using Cons.prems ev stale_sub[OF assms(5,6), of t "te_last e"] by (simp add: fail_entry_def)
  have "\<exists>e'. foldl (ideal_step w) (m(key := Some ?e)) evs key = Some e' \<and> te_count e' = te_count ?e + int (length evs)"
    by (rule Cons.IH) (use Cons.prems ev cnt in auto)
  then show ?case using Cons.prems ev cnt by auto
qed simp

section \<open>Properties\<close>

text \<open>
  The delay is exact for every value an administrator can store: with all 64-bit
  wrap-around written out, it is \<open>baseSecs * min(count, maxTries)\<close> seconds of unbounded
  arithmetic, capped at one hour, and 0 exactly when throttling is disabled or there is no
  failure. No overflow can turn it negative.
\<close>

theorem throttle_delay_exact:
  assumes "count \<le> max_int64" "tc_baseSecs cfg \<le> max_int64" "tc_maxTries cfg \<le> max_int64"
  shows "throttleDelay count cfg =
    (if tc_baseSecs cfg \<le> 0 \<or> min count (tc_maxTries cfg) \<le> 0 then 0
     else min 3600 (tc_baseSecs cfg * min count (tc_maxTries cfg)) * second)"
  using assms by (rule throttleDelay_spec)

theorem throttle_delay_exact_witness:
  "(7 :: int) \<le> max_int64 \<and> (9223372036854775807 :: int) \<le> max_int64 \<and> (5 :: int) \<le> max_int64 \<and>
   throttleDelay 7 \<lparr>tc_baseSecs = 9223372036854775807, tc_maxTries = 5, tc_window = minute\<rparr> = 3600 * second"
proof -
  let ?c = "\<lparr>tc_baseSecs = 9223372036854775807, tc_maxTries = 5, tc_window = minute\<rparr>"
  have h: "(7 :: int) \<le> max_int64" "tc_baseSecs ?c \<le> max_int64" "tc_maxTries ?c \<le> max_int64"
    by (simp_all add: max_int64_def)
  show ?thesis using throttle_delay_exact[OF h] h by simp
qed



text \<open>
  Every failed attempt counts. If all events of a user since the first failure are
  failures, each within the window of the one before, then whatever case or surrounding
  white space the name is typed in, and whatever other users do in between, the next
  failure's count is one more than the number of failures so far.
\<close>

theorem failures_accumulate:
  assumes "monotone_from t0 ((EFail u1 t1 # evs) @ [EFail u now])" "throttleKey u1 = throttleKey u"
    "all_fails_within w t1 (filter (concerns (throttleKey u)) evs @ [EFail u now])" "0 < w" "w < max_int64"
  shows "fst (throttle_Fail (Some (foldl (throttle_event_step w) newAuthThrottle (EFail u1 t1 # evs))) u now w) =
     2 + int (length (filter (concerns (throttleKey u)) evs))"
proof -
  let ?k = "throttleKey u" and ?es = "filter (concerns (throttleKey u)) evs"
  let ?m1 = "ideal_step w (\<lambda>_. None) (EFail u1 t1)"
  have "fst (throttle_Fail (Some (foldl (throttle_event_step w) newAuthThrottle (EFail u1 t1 # evs))) u now w) =
     te_count (fail_entry (foldl (ideal_step w) ?m1 evs ?k) now w)"
  proof -
    have mono: "monotone_from t0 (EFail u1 t1 # evs)" "foldl event_time t0 (EFail u1 t1 # evs) \<le> now"
      using assms(1) unfolding monotone_snoc by auto
    let ?t = "foldl (throttle_event_step w) newAuthThrottle (EFail u1 t1 # evs)"
    have "coupled w now (sweepLocked ?t now w) (foldl (ideal_step w) (\<lambda>_. None) (EFail u1 t1 # evs))"
      by (rule coupled_sweep[OF coupled_run[OF coupled_init mono(1) assms(4,5)] mono(2) assms(4,5)])
    from coupled_fail_entry[OF this assms(4,5), of ?k] show ?thesis
      by (simp add: throttle_Fail_def Let_def)
  qed
  also have "foldl (ideal_step w) ?m1 evs ?k = foldl (ideal_step w) ?m1 ?es ?k"
    by (rule ideal_filter) simp
  also have "te_count (fail_entry (foldl (ideal_step w) ?m1 ?es ?k) now w) = te_count (the (foldl (ideal_step w) ?m1 (?es @ [EFail u now]) ?k))"
    by simp
  also have "\<dots> = 2 + int (length ?es)"
  proof -
    have "list_all (concerns ?k) (?es @ [EFail u now])" by (simp add: list_all_iff)
    from ideal_streak[of w "fail_entry None t1 w" "?es @ [EFail u now]" ?k ?m1, OF _ this _ _ assms(4,5)] assms(2,3)
    show ?thesis by (force simp: fail_entry_def)
  qed
  finally show ?thesis .
qed

theorem failures_accumulate_witness:
  "fst (throttle_Fail (Some (foldl (throttle_event_step minute) newAuthThrottle
      (EFail ''bob'' 5 # [EFail ''al'' 6, EFail ''BOB '' 7]))) '' Bob'' 9 minute) = 3"
proof -
  have k: "throttleKey ''bob'' = throttleKey '' Bob''" "throttleKey ''BOB '' = throttleKey '' Bob''"
    "throttleKey ''al'' \<noteq> throttleKey '' Bob''" by code_simp+
  show ?thesis
    using failures_accumulate[of 1 "''bob''" 5 "[EFail ''al'' 6, EFail ''BOB '' 7]" "'' Bob''" 9 minute] k
    by (simp add: event_time_def max_int64_def minute_def second_def)
qed

text \<open>
  The table cannot grow without bound under a spray of made-up names: right after any
  recorded failure every entry left in it is younger than twice the window.
\<close>

theorem throttle_entries_young:
  assumes "monotone_from t0 (evs @ [EFail u now])" "0 < t0" "0 < w" "w < max_int64"
    "at_entries (foldl (throttle_event_step w) newAuthThrottle (evs @ [EFail u now])) k = Some e"
  shows "now - te_last e < 2 * w"
proof -
  have mono: "monotone_from t0 evs" "foldl event_time t0 evs \<le> now"
    using assms(1) by (simp_all add: monotone_snoc)
  let ?t = "foldl (throttle_event_step w) newAuthThrottle evs"
  have init: "fresh_since_sweep w t0 newAuthThrottle" using assms(2) by (simp add: fresh_since_sweep_def newAuthThrottle_def)
  have fr: "fresh_since_sweep w (foldl event_time t0 evs) ?t"
    by (rule fresh_run[OF init mono(1) assms(2,3,4)])
  have "0 < now" using assms(2) mono monotone_time[OF mono(1)] by simp
  from fresh_sweep[OF fr mono(2) this assms(3,4)] have
    "fresh_since_sweep w now (sweepLocked ?t now w)" "now - at_lastSweep (sweepLocked ?t now w) < w" by auto
  then show ?thesis using assms(3,5)
    by (auto simp: throttle_Fail_def Let_def fresh_since_sweep_def split: if_splits) (smt (verit))
qed

theorem throttle_entries_young_witness:
  "at_entries (foldl (throttle_event_step 10) newAuthThrottle ([EFail ''a'' 5] @ [EFail ''b'' 40])) ''B'' = Some \<lparr>te_count = 1, te_last = 40\<rparr> \<and>
   40 - te_last \<lparr>te_count = 1, te_last = 40\<rparr> < 2 * 10"
proof -
  have k: "throttleKey ''a'' = ''A''" "throttleKey ''b'' = ''B''" by code_simp+
  have e: "at_entries (foldl (throttle_event_step 10) newAuthThrottle ([EFail ''a'' 5] @ [EFail ''b'' 40])) ''B'' = Some \<lparr>te_count = 1, te_last = 40\<rparr>"
    by (simp add: k throttle_Fail_def Let_def newAuthThrottle_def sweepLocked_def fail_entry_def time_sub_def sat64_def min_int64_def max_int64_def)
  have "40 - te_last \<lparr>te_count = 1, te_last = 40\<rparr> < 2 * (10 :: int)"
    by (rule throttle_entries_young[OF _ _ _ _ e, of 1]) (simp_all add: event_time_def max_int64_def)
  with e show ?thesis by blast
qed

text \<open>
  C37. The window is the one parameter whose arithmetic is not guarded: an accepted value
  of 200000000 minutes overflows the duration to a negative window, every failure then
  counts as the first, and the backoff never grows beyond its base.
\<close>

definition wide_window :: "string \<Rightarrow> string option" where
  "wide_window k = (if k = KeyAuthFailWindowMins then Some ''200000000'' else None)"



end
