(* ===== verification/Registry.thy ===== *)
theory Registry
  imports Prelude
begin

text \<open>
  The live-session registry of internal/server/registry.go: one entry per connection, from
  \<open>register\<close> to \<open>deregister\<close>, mirrored by the session at each lifecycle change and read by the
  administrator's Active Sessions screen. The map from ids is kept as the list of its entries;
  \<open>rg_closed\<close> collects the connections whose close function has been called. Ids count the
  connections of the process and are unbounded here.
\<close>

record session_view =
  vw_ID :: nat
  vw_RemoteAddr :: string
  vw_ConnectedAt :: go_time
  vw_LoggedInAt :: go_time
  vw_Username :: string
  vw_Service :: string

record session_registry =
  rg_nextID :: nat
  rg_byID :: "session_view list"
  rg_closed :: "nat list"

definition newSessionRegistry :: session_registry where
  "newSessionRegistry = \<lparr>rg_nextID = 0, rg_byID = [], rg_closed = []\<rparr>"

definition new_view :: "nat \<Rightarrow> string \<Rightarrow> go_time \<Rightarrow> session_view" where
  "new_view i addr at =
     \<lparr>vw_ID = i, vw_RemoteAddr = addr, vw_ConnectedAt = at, vw_LoggedInAt = 0, vw_Username = [], vw_Service = []\<rparr>"

definition register :: "session_registry \<Rightarrow> string \<Rightarrow> go_time \<Rightarrow> nat \<times> session_registry" where
  "register r addr at =
     (let i = rg_nextID r + 1 in (i, r\<lparr>rg_nextID := i, rg_byID := new_view i addr at # rg_byID r\<rparr>))"

definition deregister :: "session_registry \<Rightarrow> nat \<Rightarrow> session_registry" where
  "deregister r i = r\<lparr>rg_byID := filter (\<lambda>v. vw_ID v \<noteq> i) (rg_byID r)\<rparr>"

definition reg_Snapshot :: "session_registry \<Rightarrow> session_view list" where
  "reg_Snapshot r = sort_key vw_ID (rg_byID r)"

definition on_entry :: "(session_view \<Rightarrow> session_view) \<Rightarrow> session_registry \<Rightarrow> nat \<Rightarrow> session_registry" where
  "on_entry f r i = r\<lparr>rg_byID := map (\<lambda>v. if vw_ID v = i then f v else v) (rg_byID r)\<rparr>"

definition setLogin :: "session_registry \<Rightarrow> nat \<Rightarrow> string \<Rightarrow> go_time \<Rightarrow> session_registry" where
  "setLogin r i username at = on_entry (\<lambda>v. v\<lparr>vw_Username := username, vw_LoggedInAt := at\<rparr>) r i"

definition clearLogin :: "session_registry \<Rightarrow> nat \<Rightarrow> session_registry" where
  "clearLogin r i = on_entry (\<lambda>v. v\<lparr>vw_Username := [], vw_LoggedInAt := 0, vw_Service := []\<rparr>) r i"

definition setService :: "session_registry \<Rightarrow> nat \<Rightarrow> string \<Rightarrow> session_registry" where
  "setService r i name = on_entry (\<lambda>v. v\<lparr>vw_Service := name\<rparr>) r i"

definition clearService :: "session_registry \<Rightarrow> nat \<Rightarrow> session_registry" where
  "clearService r i = on_entry (\<lambda>v. v\<lparr>vw_Service := []\<rparr>) r i"

definition reg_find :: "session_registry \<Rightarrow> nat \<Rightarrow> session_view option" where
  "reg_find r i = find (\<lambda>v. vw_ID v = i) (rg_byID r)"

text \<open>\<open>Disconnect\<close> closes the connection and leaves the entry to the session's own teardown.\<close>

definition reg_Disconnect :: "session_registry \<Rightarrow> nat \<Rightarrow> session_view option \<times> session_registry" where
  "reg_Disconnect r i =
     (case reg_find r i of
        None \<Rightarrow> (None, r)
      | Some v \<Rightarrow> (Some v, r\<lparr>rg_closed := i # rg_closed r\<rparr>))"

section \<open>Histories\<close>

datatype reg_op =
    Register string go_time
  | Deregister nat
  | SetLogin nat string go_time
  | ClearLogin nat
  | SetService nat string
  | ClearService nat
  | Disconnect nat

fun reg_step :: "session_registry \<Rightarrow> reg_op \<Rightarrow> session_registry" where
  "reg_step r (Register addr at) = snd (register r addr at)"
| "reg_step r (Deregister i) = deregister r i"
| "reg_step r (SetLogin i u at) = setLogin r i u at"
| "reg_step r (ClearLogin i) = clearLogin r i"
| "reg_step r (SetService i n) = setService r i n"
| "reg_step r (ClearService i) = clearService r i"
| "reg_step r (Disconnect i) = snd (reg_Disconnect r i)"

definition reg_run :: "reg_op list \<Rightarrow> session_registry" where
  "reg_run ops = foldl reg_step newSessionRegistry ops"

text \<open>
  The specification: every connection on its own. \<open>next\<close> counts the registrations so far; a
  session's view is a function of the operations that name its id.
\<close>

fun spec_step :: "nat \<times> (nat \<Rightarrow> session_view option) \<Rightarrow> reg_op \<Rightarrow> nat \<times> (nat \<Rightarrow> session_view option)" where
  "spec_step (n, m) (Register addr at) = (n + 1, m(n + 1 := Some (new_view (n + 1) addr at)))"
| "spec_step (n, m) (Deregister i) = (n, m(i := None))"
| "spec_step (n, m) (SetLogin i u at) = (n, m(i := map_option (\<lambda>v. v\<lparr>vw_Username := u, vw_LoggedInAt := at\<rparr>) (m i)))"
| "spec_step (n, m) (ClearLogin i) = (n, m(i := map_option (\<lambda>v. v\<lparr>vw_Username := [], vw_LoggedInAt := 0, vw_Service := []\<rparr>) (m i)))"
| "spec_step (n, m) (SetService i s) = (n, m(i := map_option (\<lambda>v. v\<lparr>vw_Service := s\<rparr>) (m i)))"
| "spec_step (n, m) (ClearService i) = (n, m(i := map_option (\<lambda>v. v\<lparr>vw_Service := []\<rparr>) (m i)))"
| "spec_step (n, m) (Disconnect i) = (n, m)"

definition spec_run :: "reg_op list \<Rightarrow> nat \<times> (nat \<Rightarrow> session_view option)" where
  "spec_run ops = foldl spec_step (0, \<lambda>_. None) ops"

definition reg_coupled :: "session_registry \<Rightarrow> nat \<times> (nat \<Rightarrow> session_view option) \<Rightarrow> bool" where
  "reg_coupled r s \<longleftrightarrow>
     rg_nextID r = fst s \<and> distinct (map vw_ID (rg_byID r)) \<and> (\<forall>v\<in>set (rg_byID r). vw_ID v \<le> fst s) \<and>
     (\<forall>i v. snd s i = Some v \<longleftrightarrow> v \<in> set (rg_byID r) \<and> vw_ID v = i)"

lemma reg_coupled_on_entry:
  assumes "reg_coupled r (n, m)" "\<And>v. vw_ID (f v) = vw_ID v"
  shows "reg_coupled (on_entry f r i) (n, m(i := map_option f (m i)))"
proof -
  have dist: "distinct (map vw_ID (rg_byID r))" and le: "\<forall>v\<in>set (rg_byID r). vw_ID v \<le> n"
    and at: "\<And>i v. m i = Some v \<longleftrightarrow> v \<in> set (rg_byID r) \<and> vw_ID v = i" and nx: "rg_nextID r = n"
    using assms(1) by (auto simp: reg_coupled_def)
  let ?g = "\<lambda>v. if vw_ID v = i then f v else v"
  have ids: "vw_ID (?g v) = vw_ID v" for v using assms(2) by simp
  then have idmap: "map vw_ID (map ?g (rg_byID r)) = map vw_ID (rg_byID r)" by simp
  have "(m(i := map_option f (m i))) j = Some v \<longleftrightarrow> v \<in> set (map ?g (rg_byID r)) \<and> vw_ID v = j" (is "?L \<longleftrightarrow> ?R") for j v
  proof
    assume ?L
    then obtain w where "m j = Some w" "v = ?g w" by (cases "j = i") (auto simp: at)
    then show ?R using at[of j w] ids[of w] by auto
  next
    assume ?R
    then obtain w where w: "w \<in> set (rg_byID r)" "v = ?g w" by (auto simp only: set_map image_iff)
    with \<open>?R\<close> ids[of w] have "vw_ID w = j" by simp
    with w have "m j = Some w" by (simp add: at)
    with w(2) \<open>vw_ID w = j\<close> show ?L by auto
  qed
  moreover have "\<forall>v\<in>set (map ?g (rg_byID r)). vw_ID v \<le> n" using le assms(2) by auto
  moreover have "rg_byID (on_entry f r i) = map ?g (rg_byID r)" "rg_nextID (on_entry f r i) = rg_nextID r"
    by (simp_all add: on_entry_def)
  ultimately show ?thesis using dist nx idmap unfolding reg_coupled_def fst_conv snd_conv by metis
qed

lemma reg_coupled_step: "reg_coupled r s \<Longrightarrow> reg_coupled (reg_step r op1) (spec_step s op1)"
proof (cases s)
  case (Pair n m)
  assume c: "reg_coupled r s"
  show ?thesis
  proof (cases op1)
    case (Register addr at)
    with c show ?thesis unfolding Pair
      by (fastforce simp: reg_coupled_def register_def Let_def new_view_def)
  next
    case (Deregister i)
    with c show ?thesis unfolding Pair
      by (auto simp: reg_coupled_def deregister_def distinct_map_filter)
  next
    case (Disconnect i)
    with c show ?thesis unfolding Pair by (auto simp: reg_coupled_def reg_Disconnect_def split: option.splits)
  qed (use c in \<open>simp_all add: Pair setLogin_def clearLogin_def setService_def clearService_def reg_coupled_on_entry\<close>)
qed

lemma reg_coupled_run: "reg_coupled (reg_run ops) (spec_run ops)"
proof -
  have "reg_coupled r s \<Longrightarrow> reg_coupled (foldl reg_step r ops) (foldl spec_step s ops)" for r s
  proof (induction ops arbitrary: r s)
    case (Cons a ops)
    from Cons.IH[OF reg_coupled_step[OF Cons.prems]] show ?case by simp
  qed simp
  moreover have "reg_coupled newSessionRegistry (0, \<lambda>_. None)" by (simp add: reg_coupled_def newSessionRegistry_def)
  ultimately show ?thesis by (simp add: reg_run_def spec_run_def)
qed

text \<open>
  The registry is faithful and isolates sessions: after any interleaving of connections
  registering, logging in and out, bridging, being disconnected and deregistering, a snapshot
  lists the live sessions once each in increasing id order, and the view of each is what its
  own operations alone make it. Ids are never reused.
\<close>

theorem registry_snapshot_exact:
  "sorted_wrt (<) (map vw_ID (reg_Snapshot (reg_run ops))) \<and>
   (\<forall>i v. v \<in> set (reg_Snapshot (reg_run ops)) \<and> vw_ID v = i \<longleftrightarrow> snd (spec_run ops) i = Some v) \<and>
   rg_nextID (reg_run ops) = fst (spec_run ops)"
proof -
  note c = reg_coupled_run[of ops, unfolded reg_coupled_def]
  have "distinct (map vw_ID (reg_Snapshot (reg_run ops)))"
    using c by (simp add: reg_Snapshot_def distinct_map)
  then show ?thesis using c by (auto simp: reg_Snapshot_def strict_sorted_iff)
qed

section \<open>The interface of the administrator's screen\<close>

text \<open>
  \<open>SessionRegistry\<close>: the screen takes a snapshot and acts on one of its rows later. \<open>live\<close> is
  the view of an id, if the session is still there.
\<close>

locale session_registry_api =
  fixes snapshot :: "'r \<Rightarrow> session_view list"
    and disconnect :: "'r \<Rightarrow> nat \<Rightarrow> session_view option \<times> 'r"
    and live :: "'r \<Rightarrow> nat \<Rightarrow> session_view option"
    and closed :: "'r \<Rightarrow> nat set"
    and ok :: "'r \<Rightarrow> bool"
  assumes snapshot_live: "ok r \<Longrightarrow> v \<in> set (snapshot r) \<Longrightarrow> live r (vw_ID v) = Some v"
    and disconnect_view: "ok r \<Longrightarrow> fst (disconnect r i) = live r i"
    and disconnect_closes: "ok r \<Longrightarrow> closed (snd (disconnect r i)) = closed r \<union> (if live r i = None then {} else {i})"
    and disconnect_keeps: "ok r \<Longrightarrow> live (snd (disconnect r i)) = live r"
begin

text \<open>Acting on a listed row reaches exactly the session the row was of, or reports that it ended.\<close>

lemma disconnect_row:
  assumes "ok r" "ok r'" "v \<in> set (snapshot r)"
  shows "case fst (disconnect r' (vw_ID v)) of
           None \<Rightarrow> closed (snd (disconnect r' (vw_ID v))) = closed r'
         | Some w \<Rightarrow> live r' (vw_ID v) = Some w \<and> closed (snd (disconnect r' (vw_ID v))) = insert (vw_ID v) (closed r')"
  using assms disconnect_view[of r' "vw_ID v"] disconnect_closes[of r' "vw_ID v"]
  by (auto split: option.split)

end

definition reg_ok :: "session_registry \<Rightarrow> bool" where
  "reg_ok r \<longleftrightarrow> distinct (map vw_ID (rg_byID r))"

lemma reg_find_eq: "reg_ok r \<Longrightarrow> reg_find r i = Some v \<longleftrightarrow> v \<in> set (rg_byID r) \<and> vw_ID v = i"
  unfolding reg_ok_def reg_find_def by (rule find_key_iff)

interpretation reg: session_registry_api reg_Snapshot reg_Disconnect reg_find "\<lambda>r. set (rg_closed r)" reg_ok
proof
  fix r v i assume ok: "reg_ok r"
  show "v \<in> set (reg_Snapshot r) \<Longrightarrow> reg_find r (vw_ID v) = Some v" using ok by (simp add: reg_Snapshot_def reg_find_eq)
  show "fst (reg_Disconnect r i) = reg_find r i" by (simp add: reg_Disconnect_def split: option.split)
  show "set (rg_closed (snd (reg_Disconnect r i))) = set (rg_closed r) \<union> (if reg_find r i = None then {} else {i})"
    by (auto simp: reg_Disconnect_def split: option.split)
  show "reg_find (snd (reg_Disconnect r i)) = reg_find r"
    by (auto simp: reg_Disconnect_def reg_find_def split: option.split)
qed

end
