(* ===== verification/IdleConn.thy ===== *)
theory IdleConn
  imports Prelude
begin

text \<open>
  The idle-deadline wrapper of internal/server/idleconn.go and the three regimes the session
  arms it in (session.go: armPreAuth, armPostAuth, armBridge). A deadline of 0 (Go's zero
  time) means none; \<open>ic_deadline\<close> is the deadline of the wrapped connection.
\<close>

record idle_conn =
  ic_idle :: duration
  ic_hard :: go_time
  ic_manual :: bool
  ic_deadline :: go_time

definition newIdleConn :: "duration \<Rightarrow> idle_conn" where
  "newIdleConn idle = \<lparr>ic_idle = idle, ic_hard = 0, ic_manual = False, ic_deadline = 0\<rparr>"

definition idle_arm :: "go_time \<Rightarrow> idle_conn \<Rightarrow> idle_conn" where
  "idle_arm now c =
     (if ic_manual c then c
      else let d0 = (if 0 < ic_idle c then now + ic_idle c else 0);
               d = (if ic_hard c \<noteq> 0 \<and> (d0 = 0 \<or> ic_hard c < d0) then ic_hard c else d0)
           in c\<lparr>ic_deadline := d\<rparr>)"

definition setPreAuth :: "go_time \<Rightarrow> duration \<Rightarrow> duration \<Rightarrow> idle_conn \<Rightarrow> idle_conn" where
  "setPreAuth now idle mx c = c\<lparr>ic_idle := idle, ic_hard := now + mx\<rparr>"

definition setWindow :: "duration \<Rightarrow> idle_conn \<Rightarrow> idle_conn" where
  "setWindow idle c = c\<lparr>ic_idle := idle, ic_hard := 0\<rparr>"

definition SetDeadline :: "go_time \<Rightarrow> idle_conn \<Rightarrow> idle_conn" where
  "SetDeadline t c = c\<lparr>ic_manual := (t \<noteq> 0), ic_deadline := t\<rparr>"

text \<open>\<open>Read\<close> and \<open>Write\<close> arm, then use the connection.\<close>

datatype conn_use = UseRead go_time | UseWrite go_time

fun use_time :: "conn_use \<Rightarrow> go_time" where
  "use_time (UseRead t) = t"
| "use_time (UseWrite t) = t"

definition idle_use :: "idle_conn \<Rightarrow> conn_use \<Rightarrow> idle_conn" where
  "idle_use c u = idle_arm (use_time u) c"

section \<open>The session's regimes\<close>

record idle_limits =
  il_PreAuthIdle :: duration
  il_PreAuthMax :: duration
  il_Idle :: duration
  il_Trusted :: bool
  il_BridgeIdleExempt :: bool

text \<open>\<open>None\<close>: the connection is not wrapped, and nothing is armed.\<close>

definition wrapIdle :: "duration \<Rightarrow> idle_conn option" where
  "wrapIdle preAuthIdle = (if preAuthIdle \<le> 0 then None else Some (newIdleConn preAuthIdle))"

definition armPreAuth :: "idle_limits \<Rightarrow> go_time \<Rightarrow> idle_conn option \<Rightarrow> idle_conn option" where
  "armPreAuth l now c =
     map_option (\<lambda>c. if il_Trusted l then setWindow 0 c
                     else if il_PreAuthIdle l \<le> 0 then c
                     else if 0 < il_PreAuthMax l then setPreAuth now (il_PreAuthIdle l) (il_PreAuthMax l) c
                     else setWindow (il_PreAuthIdle l) c) c"

definition armPostAuth :: "idle_limits \<Rightarrow> idle_conn option \<Rightarrow> idle_conn option" where
  "armPostAuth l c = (if il_Idle l \<le> 0 then c else map_option (setWindow (il_Idle l)) c)"

definition armBridge :: "idle_limits \<Rightarrow> idle_conn option \<Rightarrow> idle_conn option" where
  "armBridge l c =
     map_option (\<lambda>c. if il_BridgeIdleExempt l then setWindow 0 c
                     else if il_Idle l \<le> 0 then c
                     else setWindow (il_Idle l) c) c"

lemma idle_use_regime [simp]:
  "ic_idle (idle_use c u) = ic_idle c" "ic_hard (idle_use c u) = ic_hard c" "ic_manual (idle_use c u) = ic_manual c"
  by (simp_all add: idle_use_def idle_arm_def Let_def)

lemma foldl_use_regime [simp]:
  "ic_idle (foldl idle_use c us) = ic_idle c" "ic_hard (foldl idle_use c us) = ic_hard c"
  "ic_manual (foldl idle_use c us) = ic_manual c"
  by (induction us arbitrary: c) simp_all

lemma idle_use_deadline:
  "\<not> ic_manual c \<Longrightarrow> 0 < ic_hard c \<Longrightarrow> 0 \<le> use_time u \<Longrightarrow> 0 < ic_idle c \<Longrightarrow>
   ic_deadline (idle_use c u) = min (ic_hard c) (use_time u + ic_idle c)"
  by (simp add: idle_use_def idle_arm_def Let_def)

text \<open>
  C31. The pre-authentication ceiling never slides: from the moment the session (re-)enters the
  login regime, however often an untrusted client reads or writes, every deadline in force is
  a real one, at most \<open>PreAuthMax\<close> after that moment and at most the idle window after the
  last use. A client trickling bytes cannot hold the connection.
\<close>

theorem preauth_ceiling_never_slides:
  assumes "armPreAuth l t0 (Some c) = Some c'" "\<not> il_Trusted l" "0 < il_PreAuthIdle l" "0 < il_PreAuthMax l"
    "\<not> ic_manual c" "0 \<le> t0" "0 \<le> use_time u"
  shows "ic_deadline (foldl idle_use c' (us @ [u])) = min (t0 + il_PreAuthMax l) (use_time u + il_PreAuthIdle l)"
proof -
  have c': "ic_idle c' = il_PreAuthIdle l" "ic_hard c' = t0 + il_PreAuthMax l" "\<not> ic_manual c'"
    using assms by (auto simp: armPreAuth_def setPreAuth_def)
  have "ic_deadline (idle_use (foldl idle_use c' us) u) = min (ic_hard (foldl idle_use c' us)) (use_time u + ic_idle (foldl idle_use c' us))"
    by (rule idle_use_deadline) (use assms c' in simp_all)
  with c' show ?thesis by simp
qed

theorem preauth_ceiling_never_slides_witness:
  "ic_deadline (foldl idle_use (the (armPreAuth \<lparr>il_PreAuthIdle = 60, il_PreAuthMax = 100, il_Idle = 0, il_Trusted = False,
       il_BridgeIdleExempt = False\<rparr> 1000 (Some (newIdleConn 60)))) ([UseRead 1030, UseWrite 1060] @ [UseRead 1090])) = 1100"
  using preauth_ceiling_never_slides[of "\<lparr>il_PreAuthIdle = 60, il_PreAuthMax = 100, il_Idle = 0, il_Trusted = False,
       il_BridgeIdleExempt = False\<rparr>" 1000 "newIdleConn 60" _ "UseRead 1090" "[UseRead 1030, UseWrite 1060]"]
  by (simp add: armPreAuth_def newIdleConn_def)

text \<open>
  The bridge's teardown interrupt works through the wrapper: after the bridge sets a past
  deadline, reads and writes cannot push it away, and after the bridge clears it the next use
  re-arms the idle window of the current regime, so the menu is neither dead nor unguarded.
\<close>

theorem bridge_interrupt_then_rearm:
  assumes "p \<noteq> 0" "0 < ic_idle c" "ic_hard c = 0"
  shows "ic_deadline (foldl idle_use (SetDeadline p c) us) = p \<and>
    ic_deadline (idle_use (SetDeadline 0 (foldl idle_use (SetDeadline p c) us)) u) = use_time u + ic_idle c"
proof -
  have stuck: "ic_manual e \<Longrightarrow> ic_deadline (foldl idle_use e us) = ic_deadline e" for e
    by (induction us arbitrary: e) (simp_all add: idle_use_def idle_arm_def)
  show ?thesis using assms by (simp add: SetDeadline_def stuck idle_use_def idle_arm_def Let_def)
qed

theorem bridge_interrupt_then_rearm_witness:
  "ic_deadline (foldl idle_use (SetDeadline 1 (newIdleConn 60)) [UseRead 500, UseWrite 501]) = 1"
  using bridge_interrupt_then_rearm[of 1 "newIdleConn 60" "[UseRead 500, UseWrite 501]"] by (simp add: newIdleConn_def)

end
