(* ===== verification/Mfa.thy ===== *)
theory Mfa
  imports Prelude
begin

text \<open>
  Package internal/mfa: TOTP validation with the replay floor (totp.go) and the sealing of
  secrets at rest (cipher.go). The HOTP code generator and AES-256-GCM are libraries and are
  arguments of the definitions; base64 is written out. Steps are 64-bit unsigned words.
\<close>

section \<open>totp.go\<close>

definition secretBytes :: nat where "secretBytes = 10"
definition periodSecs :: int where "periodSecs = 30"

text \<open>\<open>hotp\<close> is GenerateCodeCustom: secret and counter to code, \<open>None\<close> for an invalid secret.\<close>

type_synonym hotp_fun = "string \<Rightarrow> 64 word \<Rightarrow> string option"

definition totp_step :: "go_time \<Rightarrow> 64 word" where \<comment> \<open>Go's integer division truncates\<close>
  "totp_step now =
     (let u = time_unix now
      in word_of_int (if 0 \<le> u then u div periodSecs else - ((- u) div periodSecs)))"

fun validate_loop :: "hotp_fun \<Rightarrow> string \<Rightarrow> string \<Rightarrow> 64 word \<Rightarrow> 64 word \<Rightarrow> int list \<Rightarrow> unit + (bool \<times> 64 word)" where
  "validate_loop hotp secret code lastStep current [] = Inr (False, 0)"
| "validate_loop hotp secret code lastStep current (d # ds) =
     (if d < 0 \<and> current = 0 then validate_loop hotp secret code lastStep current ds
      else let cand = (if 0 < d then current + word_of_int d
                       else if d < 0 then current - word_of_int (- d) else current)
           in case hotp secret cand of
                None \<Rightarrow> Inl ()
              | Some want \<Rightarrow>
                  if want = code then (if cand \<le> lastStep then Inr (False, 0) else Inr (True, cand))
                  else validate_loop hotp secret code lastStep current ds)"

definition Validate :: "hotp_fun \<Rightarrow> string \<Rightarrow> string \<Rightarrow> 64 word \<Rightarrow> go_time \<Rightarrow> unit + (bool \<times> 64 word)" where
  "Validate hotp secret code lastStep now =
     validate_loop hotp secret (trim_space code) lastStep (totp_step now) [1, 0, -1]"

text \<open>\<open>Chunk\<close>: a blank before every fourth character but the first.\<close>

fun chunk_from :: "nat \<Rightarrow> string \<Rightarrow> string" where
  "chunk_from i [] = []"
| "chunk_from i (c # cs) = (if 0 < i \<and> i mod 4 = 0 then [CHR '' '', c] else [c]) @ chunk_from (i + 1) cs"

definition Chunk :: "string \<Rightarrow> string" where
  "Chunk secret = chunk_from 0 secret"

lemma validate_accepts:
  assumes "Validate hotp secret code lastStep now = Inr (True, step)"
  shows "lastStep < step \<and> hotp secret step = Some (trim_space code) \<and>
    (step = totp_step now + 1 \<or> step = totp_step now \<or> (totp_step now \<noteq> 0 \<and> step = totp_step now - 1))"
  using assms by (auto simp: Validate_def Let_def not_le split: option.splits if_splits)

lemma chunk_from_remove: "CHR '' '' \<notin> set s \<Longrightarrow> filter (\<lambda>c. c \<noteq> CHR '' '') (chunk_from i s) = s"
  by (induction s arbitrary: i) auto

section \<open>cipher.go\<close>

definition KeyLen :: nat where "KeyLen = 32"

subsection \<open>base64.StdEncoding\<close>

definition b64_char :: "nat \<Rightarrow> char" where
  "b64_char n =
     (if n < 26 then char_of (65 + n) else if n < 52 then char_of (71 + n)
      else if n < 62 then char_of (n - 4) else if n = 62 then CHR ''+'' else CHR ''/'')"

definition b64_value :: "char \<Rightarrow> nat option" where
  "b64_value c =
     (let n = of_char c
      in if 65 \<le> n \<and> n \<le> 90 then Some (n - 65)
         else if 97 \<le> n \<and> n \<le> 122 then Some (n - 71)
         else if 48 \<le> n \<and> n \<le> 57 then Some (n + 4)
         else if n = 43 then Some 62 else if n = 47 then Some 63 else None)"

definition sextets :: "nat \<Rightarrow> nat \<Rightarrow> nat \<Rightarrow> nat list" where
  "sextets a b c = [a div 4, a mod 4 * 16 + b div 16, b mod 16 * 4 + c div 64, c mod 64]"

fun b64_encode :: "string \<Rightarrow> string" where
  "b64_encode [] = []"
| "b64_encode [a] = map b64_char (take 2 (sextets (of_char a) 0 0)) @ ''==''"
| "b64_encode [a, b] = map b64_char (take 3 (sextets (of_char a) (of_char b) 0)) @ ''=''"
| "b64_encode (a # b # c # s) = map b64_char (sextets (of_char a) (of_char b) (of_char c)) @ b64_encode s"

text \<open>The decoder skips line breaks and accepts padding at the end only.\<close>

fun b64_quads :: "string \<Rightarrow> string option" where
  "b64_quads [] = Some []"
| "b64_quads [w, x, y, z] =
     (case (b64_value w, b64_value x) of
        (Some p, Some q) \<Rightarrow>
          (if y = CHR ''='' \<and> z = CHR ''='' then Some [char_of (p * 4 + q div 16)]
           else case b64_value y of
                  None \<Rightarrow> None
                | Some r \<Rightarrow>
                    if z = CHR ''='' then Some [char_of (p * 4 + q div 16), char_of (q mod 16 * 16 + r div 4)]
                    else (case b64_value z of
                            None \<Rightarrow> None
                          | Some s \<Rightarrow> Some [char_of (p * 4 + q div 16), char_of (q mod 16 * 16 + r div 4),
                                            char_of (r mod 4 * 64 + s)]))
      | _ \<Rightarrow> None)"
| "b64_quads (w # x # y # z # rest) =
     (case (b64_value w, b64_value x, b64_value y, b64_value z) of
        (Some p, Some q, Some r, Some s) \<Rightarrow>
          map_option (\<lambda>t. char_of (p * 4 + q div 16) # char_of (q mod 16 * 16 + r div 4) # char_of (r mod 4 * 64 + s) # t)
            (b64_quads rest)
      | _ \<Rightarrow> None)"
| "b64_quads _ = None"

definition b64_decode :: "string \<Rightarrow> string option" where
  "b64_decode s = b64_quads (filter (\<lambda>c. of_char c \<noteq> (10 :: nat) \<and> of_char c \<noteq> (13 :: nat)) s)"

subsection \<open>Seal and Open\<close>

text \<open>
  The AEAD of a key: its nonce size, and Seal and Open on (nonce, text); \<open>None\<close> is an
  authentication failure.
\<close>

record aead =
  NonceSize :: nat
  aead_Seal :: "string \<Rightarrow> string \<Rightarrow> string"
  aead_Open :: "string \<Rightarrow> string \<Rightarrow> string option"

text \<open>\<open>newGCM\<close> builds the AEAD of a key; \<open>None\<close> is an error of the constructor.\<close>

definition NewCipher :: "(string \<Rightarrow> aead option) \<Rightarrow> string \<Rightarrow> aead option" where
  "NewCipher newGCM key = (if length key \<noteq> KeyLen then None else newGCM key)"

text \<open>\<open>nonce\<close> is what the random source returned: \<open>None\<close> when it failed.\<close>

definition Seal :: "aead \<Rightarrow> string option \<Rightarrow> string \<Rightarrow> string option" where
  "Seal c nonce plaintext =
     (case nonce of
        None \<Rightarrow> None
      | Some n \<Rightarrow> Some (b64_encode (n @ aead_Seal c n plaintext)))"

definition Open :: "aead \<Rightarrow> string \<Rightarrow> string option" where \<comment> \<open>\<open>None\<close> is ErrDecrypt\<close>
  "Open c s =
     (case b64_decode s of
        None \<Rightarrow> None
      | Some raw \<Rightarrow>
          if length raw < NonceSize c then None
          else aead_Open c (take (NonceSize c) raw) (drop (NonceSize c) raw))"

subsection \<open>Round trip\<close>

lemma of_char_less: "of_char c < (256 :: nat)"
  by (simp add: of_char_def)

lemma b64_value_char: "n < 64 \<Longrightarrow> b64_value (b64_char n) = Some n"
proof -
  assume n: "n < 64"
  consider "n < 26" | "26 \<le> n" "n < 52" | "52 \<le> n" "n < 62" | "n = 62" | "n = 63" using n by linarith
  then show ?thesis
  proof cases
    case 3
    from 3(1) obtain k where "n = 52 + k" by (metis le_Suc_ex)
    with 3 show ?thesis by (simp add: b64_char_def b64_value_def Let_def)
  qed (simp_all add: b64_char_def b64_value_def Let_def)
qed

lemma b64_char_neq:
  assumes "n < 64"
  shows "b64_char n \<noteq> CHR ''=''" "of_char (b64_char n) \<noteq> (10 :: nat)" "of_char (b64_char n) \<noteq> (13 :: nat)"
  using b64_value_char[OF assms] by (auto simp: b64_value_def)

lemma sextets_less: "a < 256 \<Longrightarrow> b < 256 \<Longrightarrow> c < 256 \<Longrightarrow> x \<in> set (sextets a b c) \<Longrightarrow> x < 64"
  by (auto simp: sextets_def)

lemma sextets_join:
  assumes "a < 256" "b < 256" "c < 256"
  shows "sextets a b c ! 0 * 4 + sextets a b c ! 1 div 16 = a"
    "sextets a b c ! 1 mod 16 * 16 + sextets a b c ! 2 div 4 = b"
    "sextets a b c ! 2 mod 4 * 64 + sextets a b c ! 3 = c"
  using assms by (simp_all add: sextets_def)

lemma b64_encode_chars: "x \<in> set (b64_encode s) \<Longrightarrow> x = CHR ''='' \<or> (\<exists>n<64. x = b64_char n)"
proof (induction s rule: b64_encode.induct)
  case (2 a)
  then show ?case using sextets_less[of "of_char a" 0 0] of_char_less[of a] by (auto dest!: in_set_takeD)
next
  case (3 a b)
  then show ?case using sextets_less[of "of_char a" "of_char b" 0] of_char_less[of a] of_char_less[of b]
    by (auto dest!: in_set_takeD)
next
  case (4 a b c s)
  then show ?case
    using sextets_less[of "of_char a" "of_char b" "of_char c"] of_char_less[of a] of_char_less[of b] of_char_less[of c] by auto
qed simp

lemma b64_encode_no_breaks: "filter (\<lambda>c. of_char c \<noteq> (10 :: nat) \<and> of_char c \<noteq> (13 :: nat)) (b64_encode s) = b64_encode s"
  by (intro filter_True) (use b64_encode_chars[of _ s] b64_char_neq in fastforce)

lemma b64_quads_append:
  assumes "w < 64" "x < 64" "y < 64" "z < 64"
  shows "b64_quads (map b64_char [w, x, y, z] @ rest) =
    map_option (\<lambda>t. char_of (w * 4 + x div 16) # char_of (x mod 16 * 16 + y div 4) # char_of (y mod 4 * 64 + z) # t) (b64_quads rest)"
  using assms by (cases rest) (auto simp: b64_value_char b64_char_neq split: option.split)

lemma char_of_char [simp]: "char_of (of_char c :: nat) = c" by simp

lemma b64_round: "b64_quads (b64_encode s) = Some s"
proof (induction s rule: b64_encode.induct)
  case (2 a)
  have "of_char a div 4 < (64 :: nat)" using of_char_less[of a] by linarith
  then show ?case by (simp add: sextets_def b64_value_char b64_char_neq)
next
  case (3 a b)
  have "of_char a div 4 < (64 :: nat)" "of_char a mod 4 * 16 + of_char b div 16 < (64 :: nat)" "of_char b div 16 < (16 :: nat)"
    using of_char_less[of a] of_char_less[of b] by linarith+
  then show ?case by (simp add: sextets_def b64_value_char b64_char_neq)
next
  case (4 a b c s)
  let ?l = "sextets (of_char a) (of_char b) (of_char c)"
  have lt: "of_char a < (256 :: nat)" "of_char b < (256 :: nat)" "of_char c < (256 :: nat)" by (rule of_char_less)+
  have l: "?l = [?l ! 0, ?l ! 1, ?l ! 2, ?l ! 3]" by (simp add: sextets_def)
  have "?l ! 0 < 64" "?l ! 1 < 64" "?l ! 2 < 64" "?l ! 3 < 64" using lt sextets_less[OF lt] l by (metis list.set_intros)+
  from b64_quads_append[OF this, of "b64_encode s"]
  have "b64_quads (map b64_char ?l @ b64_encode s) = map_option (\<lambda>t. a # b # c # t) (b64_quads (b64_encode s))"
    unfolding sextets_join[OF lt] l[symmetric] by simp
  with 4 show ?case by simp
qed simp

lemma b64_decode_encode: "b64_decode (b64_encode s) = Some s"
  by (simp add: b64_decode_def b64_encode_no_breaks b64_round)

text \<open>A sealed secret opens to itself, whatever the nonce, if the AEAD decrypts what it encrypts.\<close>

lemma Open_Seal:
  assumes "\<And>m. aead_Open c n (aead_Seal c n m) = Some m" "length n = NonceSize c" "Seal c (Some n) plaintext = Some sealed"
  shows "Open c sealed = Some plaintext"
  using assms by (auto simp: Seal_def Open_def b64_decode_encode)

section \<open>Properties\<close>

text \<open>
  The accepted steps of a history of validations of one user: each accepted step becomes the
  floor of the next validation, as the session persists it.
\<close>

fun accepted_steps :: "hotp_fun \<Rightarrow> string \<Rightarrow> 64 word \<Rightarrow> (string \<times> go_time) list \<Rightarrow> 64 word list" where
  "accepted_steps hotp secret floor [] = []"
| "accepted_steps hotp secret floor ((code, now) # es) =
     (case Validate hotp secret code floor now of
        Inr (True, step) \<Rightarrow> step # accepted_steps hotp secret step es
      | _ \<Rightarrow> accepted_steps hotp secret floor es)"

lemma accepted_above: "s \<in> set (accepted_steps hotp secret floor es) \<Longrightarrow> floor < s"
proof (induction es arbitrary: floor)
  case (Cons e es)
  then show ?case
    by (cases e) (auto split: sum.splits bool.splits dest: validate_accepts order.strict_trans)
qed simp

text \<open>
  Exactly which codes are accepted: a code is accepted for a step if and only if it is the
  secret's code of the newest of the steps current+1, current, current-1 it is a code of, and
  that step lies strictly above the floor. (For a time at which the step counter does not wrap
  and a valid secret.)
\<close>

theorem totp_accepts_iff:
  assumes "0 < totp_step now" "totp_step now < - 1" "\<And>n. hotp secret n \<noteq> None"
  shows "Validate hotp secret code floor now = Inr (True, s) \<longleftrightarrow>
    floor < s \<and> hotp secret s = Some (trim_space code) \<and>
    (s = totp_step now + 1 \<or>
     s = totp_step now \<and> hotp secret (totp_step now + 1) \<noteq> Some (trim_space code) \<or>
     s = totp_step now - 1 \<and> hotp secret (totp_step now + 1) \<noteq> Some (trim_space code) \<and>
       hotp secret (totp_step now) \<noteq> Some (trim_space code))"
proof -
  obtain a b c where "hotp secret (totp_step now + 1) = Some a" "hotp secret (totp_step now) = Some b"
    "hotp secret (totp_step now - 1) = Some c" using assms(3) by (metis option.exhaust)
  moreover have "totp_step now \<noteq> 0" using assms(1) by auto
  ultimately show ?thesis by (auto simp: Validate_def not_le Let_def)
qed

definition toy_hotp :: hotp_fun where \<comment> \<open>the step's parity as a code\<close>
  "toy_hotp secret n = Some (if even (unat n) then ''222222'' else ''111111'')"

theorem totp_accepts_iff_witness:
  "Validate toy_hotp ''KEY'' '' 111111 '' 5 (unix_time 300) = Inr (True, 11)"
proof -
  have st: "totp_step (unix_time 300) = 10" by (simp add: totp_step_def time_unix_def unix_time_def second_def periodSecs_def)
  have tr: "trim_space '' 111111 '' = ''111111''" by code_simp
  show ?thesis
    using totp_accepts_iff[of "unix_time 300" toy_hotp "''KEY''" "'' 111111 ''" 5 11]
    by (simp add: st tr toy_hotp_def)
qed


text \<open>
  C21. Secrets survive storage: what \<open>Open\<close> returns for a sealed secret is the secret, for
  every nonce and every byte string, if the AEAD decrypts what it encrypted under the same
  nonce; the base64 layer is written out and lossless.
\<close>

theorem sealed_secret_opens:
  assumes "\<And>n m. aead_Open c n (aead_Seal c n m) = Some m" "length nonce = NonceSize c"
  shows "\<exists>sealed. Seal c (Some nonce) secret = Some sealed \<and> Open c sealed = Some secret"
  using Open_Seal[OF assms(1) assms(2)] by (simp add: Seal_def)

theorem sealed_secret_opens_witness:
  "\<exists>sealed. Seal \<lparr>NonceSize = 2, aead_Seal = (\<lambda>n m. rev m), aead_Open = (\<lambda>n s. Some (rev s))\<rparr> (Some ''ab'') ''JBSWY3DP'' = Some sealed \<and>
     Open \<lparr>NonceSize = 2, aead_Seal = (\<lambda>n m. rev m), aead_Open = (\<lambda>n s. Some (rev s))\<rparr> sealed = Some ''JBSWY3DP''"
  by (rule sealed_secret_opens) simp_all

end
