(* ===== verification/Auth.thy ===== *)
theory Auth
  imports Store_Facts
begin

text \<open>
  Package internal/auth: credential verification against a user store. The store is an
  interface (\<open>UserStore\<close>, two methods) and so it is a locale here; bcrypt is a library and its
  comparison and hashing are arguments.
\<close>

datatype auth_error = ErrInvalidCredentials | ErrStore store_error

definition MaxPasswordLen :: nat where "MaxPasswordLen = 72"

definition ValidatePassword :: "string \<Rightarrow> bool" where \<comment> \<open>\<open>False\<close> is ErrPasswordTooLong\<close>
  "ValidatePassword password \<longleftrightarrow> \<not> MaxPasswordLen < length password"

record identity =
  id_UserID :: int
  id_Username :: string
  id_Groups :: "string list"

text \<open>
  \<open>cmp hash password\<close> is CompareHashAndPassword succeeding. The comparison with the dummy
  hash for an unknown user only takes time; its result is dropped.
\<close>

definition authenticate_with ::
  "(string \<Rightarrow> ('s, store_error + user) state) \<Rightarrow> (int \<Rightarrow> ('s, store_error + string list) state) \<Rightarrow>
   (string \<Rightarrow> string \<Rightarrow> bool) \<Rightarrow> string \<Rightarrow> string \<Rightarrow> ('s, auth_error + identity) state" where
  "authenticate_with get_user get_groups cmp username password = do {
     r \<leftarrow> get_user username;
     (case r of
        Inl ErrNotFound \<Rightarrow> return_st (Inl ErrInvalidCredentials)
      | Inl e \<Rightarrow> return_st (Inl (ErrStore e))
      | Inr u \<Rightarrow>
          if \<not> cmp (u_PasswordHash u) password then return_st (Inl ErrInvalidCredentials)
          else do {
            g \<leftarrow> get_groups (u_ID u);
            (case g of
               Inl e \<Rightarrow> return_st (Inl (ErrStore e))
             | Inr gs \<Rightarrow> return_st (Inr \<lparr>id_UserID = u_ID u, id_Username = u_Username u, id_Groups = gs\<rparr>)) })
   }"

definition Authenticate :: "(string \<Rightarrow> string \<Rightarrow> bool) \<Rightarrow> string \<Rightarrow> string \<Rightarrow> (db, auth_error + identity) state" where
  "Authenticate = authenticate_with GetUserByUsername GetUserGroups"

text \<open>\<open>gen seed password\<close> is GenerateFromPassword with the salt drawn from \<open>seed\<close>.\<close>

definition HashPassword :: "(nat \<Rightarrow> string \<Rightarrow> string option) \<Rightarrow> nat \<Rightarrow> string \<Rightarrow> string option" where
  "HashPassword gen seed password = gen seed password"

section \<open>The UserStore interface\<close>

text \<open>
  What authentication relies on: reads leave the data (\<open>view\<close>) alone, a lookup returns the
  account registered under the name, and "not found" means there is none.
\<close>

locale user_store =
  fixes get_user :: "string \<Rightarrow> ('s, store_error + user) state"
    and get_groups :: "int \<Rightarrow> ('s, store_error + string list) state"
    and view :: "'s \<Rightarrow> 'v"
    and account :: "string \<Rightarrow> 'v \<Rightarrow> user option"
    and groups_of :: "int \<Rightarrow> 'v \<Rightarrow> string list"
  assumes get_user_reads: "run_state (get_user n) s = (r, s') \<Longrightarrow> view s' = view s"
    and get_groups_reads: "run_state (get_groups i) s = (g, s') \<Longrightarrow> view s' = view s"
    and get_user_ok: "run_state (get_user n) s = (Inr u, s') \<Longrightarrow> account n (view s) = Some u"
    and get_user_none: "run_state (get_user n) s = (Inl ErrNotFound, s') \<Longrightarrow> account n (view s) = None"
    and get_groups_ok: "run_state (get_groups i) s = (Inr gs, s') \<Longrightarrow> gs = groups_of i (view s)"
begin

lemma authenticate_reads:
  "run_state (authenticate_with get_user get_groups cmp n p) s = (r, s') \<Longrightarrow> view s' = view s"
  by (auto simp: authenticate_with_def split: prod.splits sum.splits store_error.splits if_splits)
    (metis get_user_reads get_groups_reads)+

lemma authenticate_ok:
  assumes "run_state (authenticate_with get_user get_groups cmp n p) s = (Inr i, s')"
  shows "\<exists>u. account n (view s) = Some u \<and> cmp (u_PasswordHash u) p \<and>
     i = \<lparr>id_UserID = u_ID u, id_Username = u_Username u, id_Groups = groups_of (u_ID u) (view s)\<rparr>"
  using assms
  by (auto simp: authenticate_with_def split: prod.splits sum.splits store_error.splits if_splits)
    (metis get_user_ok get_user_reads get_groups_ok)

lemma authenticate_invalid:
  assumes "run_state (authenticate_with get_user get_groups cmp n p) s = (Inl ErrInvalidCredentials, s')"
  shows "\<forall>u. account n (view s) = Some u \<longrightarrow> \<not> cmp (u_PasswordHash u) p"
  using assms
  by (auto simp: authenticate_with_def split: prod.splits sum.splits store_error.splits if_splits
      dest: get_user_ok get_user_none)

end

section \<open>The gateway's store is one\<close>

lemma GetUserByUsername_cases:
  assumes "run_state (GetUserByUsername n) d = (r, d')"
  shows "tables d' = tables d \<and>
    r \<in> {Inl ErrDB, (case find_user (to_upper n) d of None \<Rightarrow> Inl ErrNotFound | Some u \<Rightarrow> Inr u)}"
proof -
  have f: "find_user m (e\<lparr>db_faults := fs\<rparr>) = find_user m e" for m e fs by (simp add: find_user_def)
  show ?thesis using assms unfolding GetUserByUsername_def Let_def
    by (auto simp: run_try_bind fail_st_def f split: prod.splits sum.splits option.splits elim!: query_cases)
qed

lemma find_user_tables [simp]: "find_user n (tables d) = find_user n d"
  by (simp add: find_user_def tables_def)

lemma user_group_names_faults [simp]: "user_group_names i (d\<lparr>db_faults := fs\<rparr>) = user_group_names i d"
  by (simp add: user_group_names_def cong: if_cong)

lemma user_group_names_tables [simp]: "user_group_names i (tables d) = user_group_names i d"
  by (simp add: tables_def)

interpretation st: user_store GetUserByUsername GetUserGroups tables "\<lambda>n d. find_user (to_upper n) d" user_group_names
proof
  fix n i d r u s' g gs
  show "run_state (GetUserByUsername n) d = (r, s') \<Longrightarrow> tables s' = tables d"
    using GetUserByUsername_cases by blast
  show "run_state (GetUserGroups i) d = (g, s') \<Longrightarrow> tables s' = tables d"
    by (auto simp: GetUserGroups_def elim!: query_cases)
  show "run_state (GetUserByUsername n) d = (Inr u, s') \<Longrightarrow> find_user (to_upper n) (tables d) = Some u"
    by (auto dest!: GetUserByUsername_cases split: option.splits)
  show "run_state (GetUserByUsername n) d = (Inl ErrNotFound, s') \<Longrightarrow> find_user (to_upper n) (tables d) = None"
    by (auto dest!: GetUserByUsername_cases split: option.splits)
  show "run_state (GetUserGroups i) d = (Inr gs, s') \<Longrightarrow> gs = user_group_names i (tables d)"
    by (auto simp: GetUserGroups_def elim!: query_cases)
qed

lemma keeps_GetUserByUsername: "faultless P \<Longrightarrow> keeps P (GetUserByUsername n)"
  unfolding GetUserByUsername_def Let_def by (intro keeps_store_rules)

lemma keeps_GetUserGroups: "faultless P \<Longrightarrow> keeps P (GetUserGroups i)"
  unfolding GetUserGroups_def by (rule keeps_query)

lemma keeps_Authenticate: "faultless P \<Longrightarrow> keeps P (Authenticate cmp n p)"
  unfolding Authenticate_def authenticate_with_def
  by (intro keeps_rules keeps_GetUserByUsername keeps_GetUserGroups) (auto split: store_error.split intro: keeps_return)

text \<open>
  Who gets in: authentication changes nothing; it succeeds only for an existing account,
  found whatever the case of the typed name, whose stored hash the password matches, and the
  identity carries that account's id, canonical name and exactly its current groups; the
  failure it reports for credentials is one and the same for an unknown name and for a wrong
  password, and only a failing database gives any other error.
\<close>

theorem authenticate_exact:
  assumes "run_state (Authenticate cmp name password) d = (r, d')"
  shows "tables d' = tables d \<and>
    (case r of
       Inr i \<Rightarrow> \<exists>u\<in>set (db_users d). nocase (u_Username u) name \<and> cmp (u_PasswordHash u) password \<and>
                  i = \<lparr>id_UserID = u_ID u, id_Username = u_Username u, id_Groups = user_group_names (u_ID u) d\<rparr>
     | Inl ErrInvalidCredentials \<Rightarrow>
         (case find_user (to_upper name) d of None \<Rightarrow> True | Some u \<Rightarrow> \<not> cmp (u_PasswordHash u) password)
     | Inl (ErrStore e) \<Rightarrow> e = ErrDB)"
proof (intro conjI)
  show "tables d' = tables d"
    using st.authenticate_reads assms unfolding Authenticate_def by blast
  have find: "u \<in> set (db_users d) \<and> nocase (u_Username u) name" if "find_user (to_upper name) d = Some u" for u
    using that by (auto simp: find_user_def find_Some_iff)
  show "case r of
       Inr i \<Rightarrow> \<exists>u\<in>set (db_users d). nocase (u_Username u) name \<and> cmp (u_PasswordHash u) password \<and>
                  i = \<lparr>id_UserID = u_ID u, id_Username = u_Username u, id_Groups = user_group_names (u_ID u) d\<rparr>
     | Inl ErrInvalidCredentials \<Rightarrow>
         (case find_user (to_upper name) d of None \<Rightarrow> True | Some u \<Rightarrow> \<not> cmp (u_PasswordHash u) password)
     | Inl (ErrStore e) \<Rightarrow> e = ErrDB"
  proof (cases r)
    case (Inr i)
    then obtain u where u: "find_user (to_upper name) d = Some u" "cmp (u_PasswordHash u) password"
      "i = \<lparr>id_UserID = u_ID u, id_Username = u_Username u, id_Groups = user_group_names (u_ID u) d\<rparr>"
      using st.authenticate_ok assms unfolding Authenticate_def by fastforce
    show ?thesis unfolding Inr sum.case using find[OF u(1)] u(2,3) by blast
  next
    case (Inl e)
    show ?thesis
    proof (cases e)
      case ErrInvalidCredentials
      with st.authenticate_invalid assms Inl show ?thesis
        unfolding Authenticate_def by (fastforce split: option.split)
    next
      case (ErrStore se)
      have "se = ErrDB"
        using assms unfolding Inl ErrStore Authenticate_def authenticate_with_def
        by (auto split: prod.splits sum.splits store_error.splits if_splits option.splits dest!: GetUserByUsername_cases
            simp: GetUserGroups_def elim!: query_cases)
      with Inl ErrStore show ?thesis by simp
    qed
  qed
qed

theorem authenticate_exact_witness:
  "run_state (Authenticate (\<lambda>h p. h = ''hash-'' @ p) ''bob'' ''b'') sample_db =
     (Inr \<lparr>id_UserID = 2, id_Username = ''BOB'', id_Groups = [''OPS'']\<rparr>, sample_db) \<and>
   (\<exists>u\<in>set (db_users sample_db). nocase (u_Username u) ''bob'' \<and> u_PasswordHash u = ''hash-'' @ ''b'' \<and> u_ID u = 2)"
proof -
  have r: "run_state (Authenticate (\<lambda>h p. h = ''hash-'' @ p) ''bob'' ''b'') sample_db =
     (Inr \<lparr>id_UserID = 2, id_Username = ''BOB'', id_Groups = [''OPS'']\<rparr>, sample_db)" by code_simp
  from authenticate_exact[OF r] r show ?thesis by fastforce
qed

end
