(* ===== verification/Layout.thy ===== *)
theory Layout
  imports Prelude
begin

text \<open>
  Layout arithmetic: internal/ui3270/layout.go and dotleader.go, the text wrapper of
  snapshotscreen.go, and internal/screens/geometry.go with the pagers of menu.go, help.go and
  news.go. Rows, columns and page numbers are Go ints (no overflow at these sizes).
\<close>

section \<open>ui3270/layout.go\<close>

definition normRows :: "int \<Rightarrow> int" where "normRows rows = (if rows < 24 then 24 else rows)"
definition helpRow :: "int \<Rightarrow> int" where "helpRow rows = normRows rows - 1"
definition legendRow :: "int \<Rightarrow> int" where "legendRow rows = normRows rows - 4"
definition messageRow :: int where "messageRow = 2"
definition bodyTopRow :: int where "bodyTopRow = 3"
definition centerCol :: "int \<Rightarrow> int" where "centerCol n = (let c = (80 - n) div 2 in if c < 0 then 0 else c)"
definition listPageSize :: "int \<Rightarrow> int" where "listPageSize rows = normRows rows - 10"
definition formMaxFields :: "int \<Rightarrow> int" where "formMaxFields rows = (normRows rows - 8) div 2 + 1"

definition labelAttrCol :: int where "labelAttrCol = 2"
definition labelGutter :: int where "labelGutter = 1"
definition minInputCol :: int where "minInputCol = 16"
definition minInputWidth :: int where "minInputWidth = 16"

definition formInputCol :: "int \<Rightarrow> int" where
  "formInputCol maxLabel = min (max (labelAttrCol + 1 + maxLabel + labelGutter) minInputCol) (79 - minInputWidth)"

definition formLabelMax :: "int \<Rightarrow> int" where
  "formLabelMax inputCol = inputCol - labelGutter - labelAttrCol - 1"

definition truncRunes :: "string \<Rightarrow> int \<Rightarrow> string" where
  "truncRunes s n = take (nat n) s"

text \<open>The window arithmetic the pagers share: clamp the page, then the slice it shows.\<close>

definition page_window :: "int \<Rightarrow> int \<Rightarrow> int \<Rightarrow> int \<times> int \<times> int" where
  "page_window sz page tot =
     (if tot = 0 then (0, 0, 0)
      else let maxPage = (tot - 1) div sz;
               p1 = (if maxPage < page then maxPage else page);
               p = (if p1 < 0 then 0 else p1)
           in (p, p * sz, min (p * sz + sz) tot))"

definition pageBounds :: "int \<Rightarrow> int \<Rightarrow> int \<Rightarrow> int \<times> int \<times> int \<times> string" where
  "pageBounds page tot rows =
     (case page_window (listPageSize rows) page tot of
        (p, st, en) \<Rightarrow> (p, st, en, if tot = 0 then ''ROW 0 OF 0''
                             else ''ROW '' @ itoa (st + 1) @ '' TO '' @ itoa en @ '' OF '' @ itoa tot))"

definition compactBodyTopRow :: int where "compactBodyTopRow = 2"
definition sameRowLabelCol :: int where "sameRowLabelCol = 40"
definition sameRowInputCol :: int where "sameRowInputCol = 54"
definition sameRowLabelMax :: int where "sameRowLabelMax = 12"
definition sectionBannerWidth :: int where "sectionBannerWidth = 77"
definition compactMessageRow :: "int \<Rightarrow> int" where "compactMessageRow rows = helpRow rows - 1"

definition sectionBanner :: "string \<Rightarrow> string" where
  "sectionBanner name =
     (let pre = ''--- '' @ name @ '' '';
          w = nat sectionBannerWidth
      in if w \<le> length pre then take w pre else pre @ replicate (w - length pre) (CHR ''-''))"

definition dotLeaderLabel :: "string \<Rightarrow> int \<Rightarrow> string" where
  "dotLeaderLabel label width =
     (if width < 1 then []
      else let base = trim_right (\<lambda>c. c = CHR '' '' \<or> c = CHR '':'') label; w = nat width
           in if w \<le> length base then take w base
              else base @ map (\<lambda>c. if c = w - 1 then CHR '':''
                                    else if length base + 1 \<le> c \<and> even (w - 1 - c) then CHR ''.'' else CHR '' '')
                              [length base..<w])"

section \<open>Wrapping free text\<close>

text \<open>\<open>strings.Fields\<close>\<close>

function fields_of :: "string \<Rightarrow> string list" where
  "fields_of s =
     (let t = dropWhile is_space s
      in if t = [] then [] else takeWhile (\<lambda>c. \<not> is_space c) t # fields_of (dropWhile (\<lambda>c. \<not> is_space c) t))"
  by pat_completeness auto
termination
proof (relation "measure length", goal_cases)
  case (2 s t)
  have "length (dropWhile (\<lambda>c. \<not> is_space c) t) < length t"
  proof (cases t)
    case (Cons x xs)
    with 2(1) have "\<not> is_space x" by (metis dropWhile_eq_Cons_conv)
    then have "dropWhile (\<lambda>c. \<not> is_space c) t = dropWhile (\<lambda>c. \<not> is_space c) xs" using Cons by simp
    moreover have "length (dropWhile (\<lambda>c. \<not> is_space c) xs) \<le> length xs" by (rule length_dropWhile_le)
    ultimately show ?thesis using Cons by simp
  qed (use 2 in simp)
  moreover have "length t \<le> length s" using 2(1) length_dropWhile_le by blast
  ultimately show ?case by simp
qed simp

declare fields_of.simps [simp del]

text \<open>One word placed on the current line; a word longer than the width is split hard first.\<close>

function split_word :: "nat \<Rightarrow> string list \<times> string \<Rightarrow> string \<Rightarrow> (string list \<times> string) \<times> string" where
  "split_word width (ls, cur) word =
     (if 0 < width \<and> width < length word then
        split_word width ((if cur = [] then ls else ls @ [cur]) @ [take width word], []) (drop width word)
      else ((ls, cur), word))"
  by pat_completeness auto
termination by (relation "measure (\<lambda>(_, _, w). length w)") auto

declare split_word.simps [simp del]

definition wrap_word :: "nat \<Rightarrow> string list \<times> string \<Rightarrow> string \<Rightarrow> string list \<times> string" where
  "wrap_word width st word0 =
     (case split_word width st word0 of
        ((ls, cur), word) \<Rightarrow>
          if cur = [] then (ls, word)
          else if length cur + 1 + length word \<le> width then (ls, cur @ '' '' @ word)
          else (ls @ [cur], word))"

definition wrapText :: "string \<Rightarrow> int \<Rightarrow> string list" where
  "wrapText s width0 =
     (if s = [] then []
      else let width = (if width0 < 1 then 1 else nat width0)
           in case foldl (wrap_word width) ([], []) (fields_of s) of
                (ls, cur) \<Rightarrow> if cur = [] then ls else ls @ [cur])"

section \<open>screens/geometry.go\<close>

record geometry =
  geo_Rows :: int
  geo_Cols :: int

definition DefaultGeometry :: geometry where "DefaultGeometry = \<lparr>geo_Rows = 24, geo_Cols = 80\<rparr>"

definition geo_norm :: "geometry \<Rightarrow> geometry" where
  "geo_norm g = (if geo_Rows g < 24 \<or> geo_Cols g < 80 then DefaultGeometry else g)"

definition geo_HelpRow :: "geometry \<Rightarrow> int" where "geo_HelpRow g = geo_Rows (geo_norm g) - 1"
definition geo_LegendRow :: "geometry \<Rightarrow> int" where "geo_LegendRow g = geo_Rows (geo_norm g) - 4"
definition geo_ListPageSize :: "geometry \<Rightarrow> int" where "geo_ListPageSize g = geo_Rows (geo_norm g) - 10"
definition geo_FormMaxFields :: "geometry \<Rightarrow> int" where "geo_FormMaxFields g = (geo_Rows (geo_norm g) - 8) div 2 + 1"
definition BodyTopRow :: int where "BodyTopRow = 3"
definition BodyBottomRow :: "geometry \<Rightarrow> int" where "BodyBottomRow g = geo_Rows (geo_norm g) - 2"
definition menuBottomRow :: "geometry \<Rightarrow> int" where "menuBottomRow g = BodyBottomRow g - 1"

definition MenuCapacity :: "geometry \<Rightarrow> bool \<Rightarrow> int" where
  "MenuCapacity g admin = (let n = menuBottomRow g - BodyTopRow + 1 - 1 in if admin then n - 1 else n)"

definition NewsLinesPerPage :: "geometry \<Rightarrow> int" where "NewsLinesPerPage g = geo_Rows (geo_norm g) - 2"
definition HelpPageSize :: "geometry \<Rightarrow> int" where "HelpPageSize g = BodyBottomRow g - BodyTopRow + 1"

definition geo_CenterCol :: "geometry \<Rightarrow> int \<Rightarrow> int" where
  "geo_CenterCol g n = (let c = (geo_Cols (geo_norm g) - n) div 2 in if c < 0 then 0 else c)"

definition StatusBlockCol :: int where "StatusBlockCol = 60"
definition LoginBrandingTop :: int where "LoginBrandingTop = 4"
definition LoginBrandingHeight :: "geometry \<Rightarrow> int" where "LoginBrandingHeight g = BodyBottomRow g - LoginBrandingTop"

definition MenuPageBounds :: "geometry \<Rightarrow> int \<Rightarrow> bool \<Rightarrow> int \<Rightarrow> int \<times> int \<times> int \<times> string" where
  "MenuPageBounds geom tot admin page =
     (case page_window (MenuCapacity geom admin) page tot of
        (p, st, en) \<Rightarrow> (p, st, en, if tot = 0 then ''ITEMS 0 OF 0''
                             else ''ITEMS '' @ itoa (st + 1) @ '' TO '' @ itoa en @ '' OF '' @ itoa tot))"

definition HelpPageBounds :: "geometry \<Rightarrow> int \<Rightarrow> int \<Rightarrow> int \<times> int \<times> int \<times> string" where
  "HelpPageBounds geom tot page =
     (case page_window (HelpPageSize geom) page tot of
        (p, st, en) \<Rightarrow> (p, st, en, if tot = 0 then ''PAGE 1 OF 1''
                             else ''PAGE '' @ itoa (p + 1) @ '' OF '' @ itoa ((tot - 1) div HelpPageSize geom + 1)))"

section \<open>screens/news.go\<close>

definition newsMaxCols :: nat where "newsMaxCols = 79"

definition news_line :: "string \<Rightarrow> string" where
  "news_line ln = take newsMaxCols (trim_suffix [char_of (13 :: nat)] ln)"

definition drop_blank_tail :: "string list \<Rightarrow> string list" where
  "drop_blank_tail ls = rev (dropWhile (\<lambda>l. trim_space l = []) (rev ls))"

definition SplitBranding :: "string \<Rightarrow> string list" where
  "SplitBranding raw = drop_blank_tail (map news_line (split_on (char_of (10 :: nat)) raw))"

fun chunks :: "nat \<Rightarrow> 'a list \<Rightarrow> 'a list list" where
  "chunks per [] = []"
| "chunks per (x # xs) = (if per = 0 then [] else take per (x # xs) # chunks per (drop (per - 1) xs))"

definition PaginateNews :: "geometry \<Rightarrow> string \<Rightarrow> string list list" where
  "PaginateNews geom raw =
     chunks (nat (NewsLinesPerPage geom)) (drop_blank_tail (map news_line (split_on (char_of (10 :: nat)) raw)))"

definition news_gate_row :: "string list \<Rightarrow> int" where \<comment> \<open>the row of the "***" gate in NewsScreen\<close>
  "news_gate_row page = int (length page) + 1"

section \<open>Windows\<close>

definition slice :: "'a list \<Rightarrow> int \<Rightarrow> int \<Rightarrow> 'a list" where \<comment> \<open>\<open>xs[a:b]\<close>\<close>
  "slice xs a b = take (nat (b - a)) (drop (nat a) xs)"

lemma page_window_ok:
  assumes "0 < sz" "0 < tot" "page_window sz page tot = (p, st, en)"
  shows "0 \<le> p" "p \<le> (tot - 1) div sz" "st = p * sz" "0 \<le> st" "st < en" "en \<le> tot" "en - st \<le> sz"
    "en = min (st + sz) tot"
proof -
  have le: "p \<le> (tot - 1) div sz" "0 \<le> p" "st = p * sz" "en = min (st + sz) tot"
    using assms by (auto simp: page_window_def Let_def pos_imp_zdiv_nonneg_iff split: if_splits)
  have "p * sz \<le> (tot - 1) div sz * sz" using le(1) assms(1) by (simp add: mult_right_mono)
  also have "\<dots> \<le> tot - 1" using pos_mod_sign[OF assms(1), of "tot - 1"] by (simp add: minus_mod_eq_div_mult[symmetric])
  finally have "p * sz \<le> tot - 1" .
  then show "0 \<le> p" "p \<le> (tot - 1) div sz" "st = p * sz" "0 \<le> st" "st < en" "en \<le> tot" "en - st \<le> sz"
    "en = min (st + sz) tot"
    using le assms by auto
qed

lemma page_window_in_range:
  "0 < sz \<Longrightarrow> 0 < tot \<Longrightarrow> 0 \<le> page \<Longrightarrow> page \<le> (tot - 1) div sz \<Longrightarrow>
   page_window sz page tot = (page, page * sz, min (page * sz + sz) tot)"
  by (simp add: page_window_def)

lemma window_width: "nat (min (int k + int m) (int l) - int k) = min m (l - k)"
  by linarith

lemma slices_prefix:
  assumes "0 < sz" "xs \<noteq> []" "int n \<le> (int (length xs) - 1) div sz + 1"
  shows "concat (map (\<lambda>p. case page_window sz (int p) (int (length xs)) of (_, st, en) \<Rightarrow> slice xs st en) [0..<n]) =
    take (n * nat sz) xs"
  using assms(3)
proof (induction n)
  case (Suc n)
  let ?t = "int (length xs)"
  have n: "int n \<le> (?t - 1) div sz" using Suc.prems by simp
  have w: "page_window sz (int n) ?t = (int n, int n * sz, min (int n * sz + sz) ?t)"
    by (rule page_window_in_range) (use assms n in auto)
  have k: "nat (int n * sz) = n * nat sz" using assms(1) by (simp add: nat_mult_distrib)
  obtain m where m: "sz = int m" using assms(1) by (metis zero_le_imp_eq_int order_less_imp_le)
  have "nat (min (int n * sz + sz) ?t - int n * sz) = min (nat sz) (length xs - n * nat sz)"
    using window_width[of "n * m" m "length xs"] by (simp add: m)
  then have "slice xs (int n * sz) (min (int n * sz + sz) ?t) = take (nat sz) (drop (n * nat sz) xs)"
    by (simp add: slice_def k min_def)
  with Suc w show ?case by (simp add: take_add[symmetric] add.commute)
qed simp

text \<open>The pages of a window of a list: page numbers as long as they change.\<close>

definition all_pages :: "int \<Rightarrow> 'a list \<Rightarrow> 'a list list" where
  "all_pages sz xs =
     map (\<lambda>p. case page_window sz (int p) (int (length xs)) of (_, st, en) \<Rightarrow> slice xs st en)
       [0..<(if xs = [] then 1 else nat ((int (length xs) - 1) div sz + 1))]"

lemma all_pages_concat: "0 < sz \<Longrightarrow> concat (all_pages sz xs) = xs"
proof (cases "xs = []")
  case False
  assume sz: "0 < sz"
  let ?t = "int (length xs)"
  let ?n = "nat ((?t - 1) div sz + 1)"
  have nn: "0 \<le> (?t - 1) div sz" using sz False by (simp add: pos_imp_zdiv_nonneg_iff)
  have "concat (all_pages sz xs) = take (?n * nat sz) xs"
    using slices_prefix[OF sz False, of ?n] nn False by (simp add: all_pages_def)
  moreover have "length xs \<le> ?n * nat sz"
  proof -
    have "?t - 1 = (?t - 1) div sz * sz + (?t - 1) mod sz" by simp
    also have "\<dots> < (?t - 1) div sz * sz + sz" using pos_mod_bound[OF sz, of "?t - 1"] by linarith
    finally have "?t - 1 < ((?t - 1) div sz + 1) * sz" by (simp only: distrib_right mult_1)
    then have "?t \<le> ((?t - 1) div sz + 1) * sz" by simp
    then have "nat ?t \<le> nat (((?t - 1) div sz + 1) * sz)" by (rule nat_mono)
    then show ?thesis using sz nn by (simp add: nat_mult_distrib)
  qed
  ultimately show ?thesis by simp
qed (simp add: all_pages_def page_window_def slice_def)

lemma page_sizes_pos: "0 < listPageSize rows" "0 < MenuCapacity g admin" "0 < HelpPageSize g" "0 < NewsLinesPerPage g"
  by (auto simp: listPageSize_def normRows_def MenuCapacity_def menuBottomRow_def BodyBottomRow_def BodyTopRow_def
      geo_norm_def DefaultGeometry_def HelpPageSize_def NewsLinesPerPage_def Let_def)

section \<open>Wrapping keeps every word\<close>

lemma split_word_spec:
  assumes "0 < w" "\<forall>l\<in>set (fst st). length l \<le> w" "length (snd st) \<le> w"
  shows "\<exists>ls' cur' word'. split_word w st word = ((ls', cur'), word') \<and> (\<forall>l\<in>set ls'. length l \<le> w) \<and>
    length cur' \<le> w \<and> length word' \<le> w \<and> concat ls' @ cur' @ word' = concat (fst st) @ snd st @ word"
  using assms
proof (induction w st word rule: split_word.induct)
  case (1 width ls cur word)
  show ?case
  proof (cases "width < length word")
    case True
    let ?ls = "(if cur = [] then ls else ls @ [cur]) @ [take width word]"
    have "\<exists>ls' cur' word'. split_word width (?ls, []) (drop width word) = ((ls', cur'), word') \<and> (\<forall>l\<in>set ls'. length l \<le> width) \<and>
      length cur' \<le> width \<and> length word' \<le> width \<and> concat ls' @ cur' @ word' = concat ?ls @ [] @ drop width word"
      using 1(1) True 1(2-4) by auto
    moreover have "concat ?ls @ [] @ drop width word = concat ls @ cur @ word" by simp
    ultimately show ?thesis using True 1(2) by (subst split_word.simps) simp
  next
    case False
    then show ?thesis using 1 by (subst split_word.simps) simp
  qed
qed

definition no_spaces :: "string \<Rightarrow> string" where
  "no_spaces s = filter (\<lambda>c. \<not> is_space c) s"

lemma wrap_word_spec:
  assumes "0 < w" "\<forall>l\<in>set ls. length l \<le> w" "length cur \<le> w"
  shows "\<exists>ls' cur'. wrap_word w (ls, cur) word = (ls', cur') \<and> (\<forall>l\<in>set ls'. length l \<le> w) \<and> length cur' \<le> w \<and>
    no_spaces (concat ls' @ cur') = no_spaces (concat ls @ cur @ word)"
proof -
  obtain ls1 cur1 word1 where s: "split_word w (ls, cur) word = ((ls1, cur1), word1)" "\<forall>l\<in>set ls1. length l \<le> w"
    "length cur1 \<le> w" "length word1 \<le> w" "concat ls1 @ cur1 @ word1 = concat ls @ cur @ word"
    using split_word_spec[of w "(ls, cur)" word] assms by auto
  have sp: "is_space (CHR '' '')" by (simp add: is_space_def)
  show ?thesis using s(2-4) sp by (auto simp: wrap_word_def s(1) no_spaces_def simp flip: s(5))
qed

lemma fields_of_no_spaces: "concat (fields_of s) = no_spaces s"
proof (induction s rule: fields_of.induct)
  case (1 s)
  let ?t = "dropWhile is_space s"
  have nt: "no_spaces ?t = no_spaces s"
    by (metis (mono_tags, lifting) no_spaces_def append_Nil filter_False filter_append set_takeWhileD takeWhile_dropWhile_id)
  show ?case
  proof (cases "?t = []")
    case True
    then show ?thesis using nt by (subst fields_of.simps) (simp add: no_spaces_def)
  next
    case False
    have "no_spaces (takeWhile (\<lambda>c. \<not> is_space c) ?t) = takeWhile (\<lambda>c. \<not> is_space c) ?t"
      unfolding no_spaces_def by (rule filter_True) (metis set_takeWhileD)
    moreover have "no_spaces ?t = no_spaces (takeWhile (\<lambda>c. \<not> is_space c) ?t) @ no_spaces (dropWhile (\<lambda>c. \<not> is_space c) ?t)"
      by (metis no_spaces_def filter_append takeWhile_dropWhile_id)
    ultimately show ?thesis using 1[OF refl False] False nt by (subst fields_of.simps) (auto simp: Let_def)
  qed
qed

lemma wrap_fold:
  assumes "0 < w" "\<forall>l\<in>set ls. length l \<le> w" "length cur \<le> w"
  shows "\<exists>ls' cur'. foldl (wrap_word w) (ls, cur) ws = (ls', cur') \<and> (\<forall>l\<in>set ls'. length l \<le> w) \<and> length cur' \<le> w \<and>
    no_spaces (concat ls' @ cur') = no_spaces (concat ls @ cur @ concat ws)"
  using assms
proof (induction ws arbitrary: ls cur)
  case (Cons word ws)
  obtain ls1 cur1 where a: "wrap_word w (ls, cur) word = (ls1, cur1)" "\<forall>l\<in>set ls1. length l \<le> w" "length cur1 \<le> w"
    "no_spaces (concat ls1 @ cur1) = no_spaces (concat ls @ cur @ word)"
    using wrap_word_spec[OF Cons.prems] by blast
  from Cons.IH[OF assms(1) a(2,3)] a(1,4) show ?case by (simp add: no_spaces_def) (metis append.assoc)
qed simp

lemma wrapText_spec: "(\<forall>l\<in>set (wrapText s w). int (length l) \<le> max 1 w) \<and> no_spaces (concat (wrapText s w)) = no_spaces s"
proof (cases "s = []")
  case False
  let ?w = "if w < 1 then 1 else nat w"
  have "0 < ?w" by simp
  from wrap_fold[OF this, of "[]" "[]" "fields_of s"]
  obtain ls cur where f: "foldl (wrap_word ?w) ([], []) (fields_of s) = (ls, cur)" "\<forall>l\<in>set ls. length l \<le> ?w" "length cur \<le> ?w"
    "no_spaces (concat ls @ cur) = no_spaces (concat (fields_of s))"
    by (simp only: list.set ball_simps list.size le0 concat.simps append_Nil simp_thms) blast
  have "no_spaces (no_spaces s) = no_spaces s" by (simp add: no_spaces_def)
  then have k: "no_spaces (concat ls @ cur) = no_spaces s" using f(4) by (simp add: fields_of_no_spaces)
  have w: "int n \<le> max 1 w" if "n \<le> ?w" for n using that by (auto split: if_splits)
  have "wrapText s w = (if cur = [] then ls else ls @ [cur])"
    using False by (simp only: wrapText_def Let_def f(1) prod.case if_False)
  then show ?thesis using k f(2,3) w by auto
qed (simp add: wrapText_def)

lemma chunks_concat: "0 < per \<Longrightarrow> concat (chunks per xs) = xs"
  by (induction per xs rule: chunks.induct) (auto simp: take_Cons' drop_Cons' split: if_splits)

lemma chunks_bound: "0 < per \<Longrightarrow> pg \<in> set (chunks per xs) \<Longrightarrow> pg \<noteq> [] \<and> length pg \<le> per"
  by (induction per xs rule: chunks.induct) (auto split: if_splits)

lemma chunks_subset: "pg \<in> set (chunks per xs) \<Longrightarrow> set pg \<subseteq> set xs"
  by (induction per xs rule: chunks.induct) (auto split: if_splits dest: in_set_takeD in_set_dropD)

lemma drop_blank_tail_subset: "set (drop_blank_tail ls) \<subseteq> set ls"
  unfolding drop_blank_tail_def by (metis set_dropWhileD set_rev subsetI)

text \<open>C23. The pagers of the list screens, the service menu and the help viewer: whatever page number is asked for
(a stale one, a negative one), the window they return lies inside the list, is not empty when the list is not,
and is no longer than the screen; and the pages 0, 1, ... up to the last one show the whole list, each entry
once and in order.\<close>

theorem paging_shows_everything:
  assumes "bounds = (\<lambda>tot page. pageBounds page tot rows) \<and> cap = listPageSize rows \<or>
    bounds = (\<lambda>tot page. MenuPageBounds g tot admin page) \<and> cap = MenuCapacity g admin \<or>
    bounds = HelpPageBounds g \<and> cap = HelpPageSize g"
    and "xs \<noteq> []"
  shows "(case bounds (int (length xs)) page of (p, st, en, _) \<Rightarrow>
      0 \<le> p \<and> p \<le> (int (length xs) - 1) div cap \<and> 0 \<le> st \<and> st < en \<and> en \<le> int (length xs) \<and> en - st \<le> cap)
    \<and> concat (map (\<lambda>p. case bounds (int (length xs)) (int p) of (_, st, en, _) \<Rightarrow> slice xs st en)
        [0..<nat ((int (length xs) - 1) div cap + 1)]) = xs"
proof -
  have cap: "0 < cap" using assms(1) page_sizes_pos by auto
  have b: "\<exists>lbl. bounds tot q = (case page_window cap q tot of (p, st, en) \<Rightarrow> (p, st, en, lbl))" for tot q
    using assms(1) by (cases "page_window cap q tot") (auto simp: pageBounds_def MenuPageBounds_def HelpPageBounds_def)
  have 1: "case bounds (int (length xs)) page of (p, st, en, _) \<Rightarrow>
      0 \<le> p \<and> p \<le> (int (length xs) - 1) div cap \<and> 0 \<le> st \<and> st < en \<and> en \<le> int (length xs) \<and> en - st \<le> cap"
    using b[of "int (length xs)" page] page_window_ok[OF cap, of "int (length xs)" page] assms(2)
    by (cases "page_window cap page (int (length xs))") auto
  have "(\<lambda>p. case bounds (int (length xs)) (int p) of (_, st, en, _) \<Rightarrow> slice xs st en) =
    (\<lambda>p. case page_window cap (int p) (int (length xs)) of (_, st, en) \<Rightarrow> slice xs st en)"
  proof
    fix p show "(case bounds (int (length xs)) (int p) of (_, st, en, _) \<Rightarrow> slice xs st en) =
      (case page_window cap (int p) (int (length xs)) of (_, st, en) \<Rightarrow> slice xs st en)"
      using b[of "int (length xs)" "int p"] by (cases "page_window cap (int p) (int (length xs))") auto
  qed
  with all_pages_concat[OF cap, of xs] assms(2) 1 show ?thesis by (simp add: all_pages_def)
qed

theorem paging_shows_everything_witness:
  "case pageBounds 7 3 24 of (p, st, en, _) \<Rightarrow> p = 0 \<and> st = 0 \<and> en \<le> 3"
  using paging_shows_everything[of "\<lambda>tot page. pageBounds page tot 24" 24 "listPageSize 24" DefaultGeometry False "[1::nat, 2, 3]" 7]
  by (simp add: listPageSize_def normRows_def split: prod.splits) (simp add: pageBounds_def page_window_def listPageSize_def normRows_def)

lemma news_line_len: "length (news_line r) \<le> newsMaxCols"
  by (simp add: news_line_def)

text \<open>Free text on a fixed screen: wrapText never makes a line longer than the width (hard-splitting a longer
word) and loses no character but white space; the news pager's pages are the news text's lines in order
(trailing blank lines apart), no page is empty or longer than the screen, every line fits 79 columns, and
the continue gate below the page stays on the screen.\<close>

theorem free_text_fits:
  "(\<forall>l\<in>set (wrapText s w). int (length l) \<le> max 1 w) \<and> no_spaces (concat (wrapText s w)) = no_spaces s
   \<and> concat (PaginateNews g raw) = drop_blank_tail (map news_line (split_on (char_of (10 :: nat)) raw))
   \<and> (\<forall>pg\<in>set (PaginateNews g raw). pg \<noteq> [] \<and> (\<forall>l\<in>set pg. length l \<le> newsMaxCols) \<and>
        news_gate_row pg \<le> geo_Rows (geo_norm g) - 1)"
proof -
  have n: "0 < NewsLinesPerPage g" by (rule page_sizes_pos)
  have "pg \<noteq> [] \<and> (\<forall>l\<in>set pg. length l \<le> newsMaxCols) \<and> news_gate_row pg \<le> geo_Rows (geo_norm g) - 1"
    if "pg \<in> set (PaginateNews g raw)" for pg
  proof -
    have "0 < nat (NewsLinesPerPage g)" using n by simp
    from chunks_bound[OF this that[unfolded PaginateNews_def]]
    have "length pg \<le> nat (NewsLinesPerPage g)" "pg \<noteq> []" by blast+
    moreover have "set pg \<subseteq> set (map news_line (split_on (char_of (10 :: nat)) raw))"
      using that chunks_subset drop_blank_tail_subset unfolding PaginateNews_def by blast
    then have "\<forall>l\<in>set pg. \<exists>r. l = news_line r" by auto
    then have "\<forall>l\<in>set pg. length l \<le> newsMaxCols" by (metis news_line_len)
    ultimately show ?thesis using n by (simp add: news_gate_row_def NewsLinesPerPage_def)
  qed
  then have "\<forall>pg\<in>set (PaginateNews g raw). pg \<noteq> [] \<and> (\<forall>l\<in>set pg. length l \<le> newsMaxCols) \<and>
      news_gate_row pg \<le> geo_Rows (geo_norm g) - 1" by blast
  moreover have "concat (PaginateNews g raw) = drop_blank_tail (map news_line (split_on (char_of (10 :: nat)) raw))"
    unfolding PaginateNews_def by (rule chunks_concat) (use n in simp)
  ultimately show ?thesis using wrapText_spec[of s w] by blast
qed

theorem free_text_fits_witness:
  "concat (PaginateNews \<lparr>geo_Rows = 24, geo_Cols = 80\<rparr> ''hello'') = [''hello''] \<and>
   list_all (\<lambda>l. int (length l) \<le> max 1 3) (wrapText ''ab cdef'' 3)"
proof -
  note f = free_text_fits[of "''ab cdef''" 3 "\<lparr>geo_Rows = 24, geo_Cols = 80\<rparr>" "''hello''"]
  have "drop_blank_tail (map news_line (split_on (char_of (10 :: nat)) ''hello'')) = [''hello'']" by code_simp
  then show ?thesis unfolding list_all_iff by (intro conjI f[THEN conjunct1]) (simp only: f[THEN conjunct2, THEN conjunct2, THEN conjunct1])
qed

end
