(* ===== verification/Telnet.thy ===== *)
theory Telnet
  imports Prelude
begin

text \<open>
  The Telnet/TN3270 stream processor of internal/bridge/telnet.go, one record
  \<open>telnet_processor\<close> per direction. \<open>process_byte\<close> is one turn of the loop of
  \<open>process\<close>; the early return on the escape AID is its fourth result. Bytes are
  8-bit words. The abstract view of a stream is a list of \<open>token\<close>s.
\<close>

type_synonym byte = "8 word"

abbreviation cIAC :: byte where "cIAC \<equiv> 255"
abbreviation cDONT :: byte where "cDONT \<equiv> 254"
abbreviation cDO :: byte where "cDO \<equiv> 253"
abbreviation cWONT :: byte where "cWONT \<equiv> 252"
abbreviation cWILL :: byte where "cWILL \<equiv> 251"
abbreviation cSB :: byte where "cSB \<equiv> 250"
abbreviation cSE :: byte where "cSE \<equiv> 240"
abbreviation cEOR :: byte where "cEOR \<equiv> 239"
abbreviation optBINARY :: byte where "optBINARY \<equiv> 0"
abbreviation optSGA :: byte where "optSGA \<equiv> 3"
abbreviation optTERMTYPE :: byte where "optTERMTYPE \<equiv> 24"
abbreviation optEOR :: byte where "optEOR \<equiv> 25"
abbreviation ttIS :: byte where "ttIS \<equiv> 0"
abbreviation ttSEND :: byte where "ttSEND \<equiv> 1"

definition aidPA3 :: byte where "aidPA3 = 0x6B"

definition maxSubnegLen :: nat where "maxSubnegLen = 1024"

datatype role = RoleClient | RoleServer

datatype pstate = StData | StIAC | StOption | StSubData | StSubIAC

record telnet_processor =
  tp_role :: role
  tp_termType :: "byte list"
  tp_escapeAID :: byte
  tp_state :: pstate
  tp_optCmd :: byte
  tp_subneg :: "byte list"
  tp_overflow :: bool
  tp_atRecStart :: bool

definition newProcessor :: "role \<Rightarrow> byte list \<Rightarrow> byte \<Rightarrow> telnet_processor" where
  "newProcessor r termType escapeAID =
     \<lparr>tp_role = r, tp_termType = termType, tp_escapeAID = escapeAID, tp_state = StData,
      tp_optCmd = 0, tp_subneg = [], tp_overflow = False, tp_atRecStart = True\<rparr>"

definition agreeable :: "role \<Rightarrow> byte \<Rightarrow> bool" where
  "agreeable r opt =
     (if opt = optBINARY \<or> opt = optEOR \<or> opt = optSGA then True
      else if opt = optTERMTYPE then r = RoleClient
      else False)"

definition negotiate :: "role \<Rightarrow> byte \<Rightarrow> byte \<Rightarrow> byte list" where
  "negotiate r cmd opt =
     (if cmd = cDO then (if agreeable r opt then [cIAC, cWILL, opt] else [cIAC, cWONT, opt])
      else if cmd = cWILL then (if agreeable r opt then [cIAC, cDO, opt] else [cIAC, cDONT, opt])
      else [])"

definition subnegReply :: "byte list \<Rightarrow> byte list \<Rightarrow> byte list" where
  "subnegReply termType sub =
     (if 2 \<le> length sub \<and> sub ! 0 = optTERMTYPE \<and> sub ! 1 = ttSEND
      then [cIAC, cSB, optTERMTYPE, ttIS] @ termType @ [cIAC, cSE]
      else [])"

text \<open>Appending one payload byte, with the cap on the buffer.\<close>

definition collect :: "telnet_processor \<Rightarrow> byte \<Rightarrow> telnet_processor" where
  "collect p b =
     (if tp_overflow p then p
      else if length (tp_subneg p) < maxSubnegLen then p\<lparr>tp_subneg := tp_subneg p @ [b]\<rparr>
      else p\<lparr>tp_overflow := True\<rparr>)"

definition process_byte :: "telnet_processor \<Rightarrow> byte \<Rightarrow> telnet_processor \<times> byte list \<times> byte list \<times> bool" where
  "process_byte p b =
     (case tp_state p of
        StData \<Rightarrow>
          if b = cIAC then (p\<lparr>tp_state := StIAC\<rparr>, [], [], False)
          else if tp_atRecStart p \<and> tp_escapeAID p \<noteq> 0 \<and> b = tp_escapeAID p
            then (p\<lparr>tp_atRecStart := False\<rparr>, [], [], True)
          else (p\<lparr>tp_atRecStart := False\<rparr>, [b], [], False)
      | StIAC \<Rightarrow>
          if b = cIAC then (p\<lparr>tp_atRecStart := False, tp_state := StData\<rparr>, [cIAC, cIAC], [], False)
          else if b = cEOR then (p\<lparr>tp_atRecStart := True, tp_state := StData\<rparr>, [cIAC, cEOR], [], False)
          else if b = cWILL \<or> b = cWONT \<or> b = cDO \<or> b = cDONT
            then (p\<lparr>tp_optCmd := b, tp_state := StOption\<rparr>, [], [], False)
          else if b = cSB then (p\<lparr>tp_subneg := [], tp_overflow := False, tp_state := StSubData\<rparr>, [], [], False)
          else (p\<lparr>tp_state := StData\<rparr>, [], [], False)
      | StOption \<Rightarrow> (p\<lparr>tp_state := StData\<rparr>, [], negotiate (tp_role p) (tp_optCmd p) b, False)
      | StSubData \<Rightarrow>
          if b = cIAC then (p\<lparr>tp_state := StSubIAC\<rparr>, [], [], False)
          else (collect p b, [], [], False)
      | StSubIAC \<Rightarrow>
          if b = cSE
            then (p\<lparr>tp_state := StData\<rparr>, [],
                  if tp_overflow p then [] else subnegReply (tp_termType p) (tp_subneg p), False)
          else if b = cIAC then ((collect p cIAC)\<lparr>tp_state := StSubData\<rparr>, [], [], False)
          else (p\<lparr>tp_state := StData\<rparr>, [], [], False))"

fun process :: "telnet_processor \<Rightarrow> byte list \<Rightarrow> telnet_processor \<times> byte list \<times> byte list \<times> bool" where
  "process p [] = (p, [], [], False)"
| "process p (b # bs) =
     (case process_byte p b of (p1, f1, r1, e1) \<Rightarrow>
        if e1 then (p1, f1, r1, True)
        else (case process p1 bs of (p2, f2, r2, e2) \<Rightarrow> (p2, f1 @ f2, r1 @ r2, e2)))"

section \<open>The byte-level view: chunking, framing, bounds\<close>

text \<open>What a chunk leaves behind for the next one: nothing is carried but the processor.\<close>

fun process_chunks :: "telnet_processor \<Rightarrow> byte list list \<Rightarrow> telnet_processor \<times> byte list \<times> byte list \<times> bool" where
  "process_chunks p [] = (p, [], [], False)"
| "process_chunks p (c # cs) =
     (case process p c of (p1, f1, r1, e1) \<Rightarrow>
        if e1 then (p1, f1, r1, True)
        else (case process_chunks p1 cs of (p2, f2, r2, e2) \<Rightarrow> (p2, f1 @ f2, r1 @ r2, e2)))"

lemma process_append:
  "process p (a @ b) =
     (case process p a of (p1, f1, r1, e1) \<Rightarrow>
        if e1 then (p1, f1, r1, True)
        else (case process p1 b of (p2, f2, r2, e2) \<Rightarrow> (p2, f1 @ f2, r1 @ r2, e2)))"
  by (induction a arbitrary: p) (auto split: prod.splits if_splits)

lemma process_chunks_concat: "process_chunks p cs = process p (concat cs)"
  by (induction cs arbitrary: p) (auto simp: process_append split: prod.splits)

text \<open>Complete framing units: a plain byte, \<open>IAC IAC\<close> or \<open>IAC EOR\<close>.\<close>

fun framed :: "byte list \<Rightarrow> bool" where
  "framed [] = True"
| "framed [b] = (b \<noteq> cIAC)"
| "framed (b # c # bs) = (if b = cIAC then (c = cIAC \<or> c = cEOR) \<and> framed bs else framed (c # bs))"

lemma framed_Cons: "b \<noteq> cIAC \<Longrightarrow> framed (b # bs) = framed bs"
  by (cases bs) auto

lemma framed_append: "framed a \<Longrightarrow> framed b \<Longrightarrow> framed (a @ b)"
  by (induction a rule: framed.induct) (auto simp: framed_Cons)

lemma process_byte_framed: "process_byte p b = (p', f, r, e) \<Longrightarrow> framed f"
  by (auto simp: process_byte_def split: pstate.splits if_splits)

lemma process_framed: "process p bs = (p', f, r, e) \<Longrightarrow> framed f"
  by (induction bs arbitrary: p p' f r e)
    (auto split: prod.splits if_splits intro!: framed_append dest: process_byte_framed)

lemma collect_bound: "length (tp_subneg p) \<le> maxSubnegLen \<Longrightarrow> length (tp_subneg (collect p b)) \<le> maxSubnegLen"
  by (auto simp: collect_def)

lemma process_byte_bound:
  "process_byte p b = (p', f, r, e) \<Longrightarrow> length (tp_subneg p) \<le> maxSubnegLen \<Longrightarrow> length (tp_subneg p') \<le> maxSubnegLen"
  by (auto simp: process_byte_def collect_bound split: pstate.splits if_splits)

lemma process_bound:
  "process p bs = (p', f, r, e) \<Longrightarrow> length (tp_subneg p) \<le> maxSubnegLen \<Longrightarrow> length (tp_subneg p') \<le> maxSubnegLen"
  by (induction bs arbitrary: p p' f r e)
    (auto split: prod.splits if_splits dest: process_byte_bound)

lemma process_byte_frame:
  "process_byte p b = (p', f, r, e) \<Longrightarrow>
     tp_role p' = tp_role p \<and> tp_termType p' = tp_termType p \<and> tp_escapeAID p' = tp_escapeAID p"
  by (auto simp: process_byte_def collect_def split: pstate.splits if_splits)

lemma process_frame:
  "process p bs = (p', f, r, e) \<Longrightarrow>
     tp_role p' = tp_role p \<and> tp_termType p' = tp_termType p \<and> tp_escapeAID p' = tp_escapeAID p"
  by (induction bs arbitrary: p p' f r e)
    (auto split: prod.splits if_splits dest: process_byte_frame)

section \<open>The token-level view\<close>

datatype token =
    TData byte              \<comment> \<open>one data byte of a 3270 record\<close>
  | TEor                    \<comment> \<open>end of record\<close>
  | TNeg byte byte          \<comment> \<open>WILL/WONT/DO/DONT and its option\<close>
  | TSub "byte list"        \<comment> \<open>a subnegotiation with its (unescaped) payload\<close>
  | TCmd byte               \<comment> \<open>any other command\<close>

definition escape_iac :: "byte list \<Rightarrow> byte list" where
  "escape_iac bs = concat (map (\<lambda>b. if b = cIAC then [cIAC, cIAC] else [b]) bs)"

fun token_ok :: "token \<Rightarrow> bool" where
  "token_ok (TNeg c opt) = (c = cWILL \<or> c = cWONT \<or> c = cDO \<or> c = cDONT)"
| "token_ok (TCmd c) = (c \<notin> {cIAC, cEOR, cWILL, cWONT, cDO, cDONT, cSB})"
| "token_ok _ = True"

fun render :: "token \<Rightarrow> byte list" where
  "render (TData b) = (if b = cIAC then [cIAC, cIAC] else [b])"
| "render TEor = [cIAC, cEOR]"
| "render (TNeg c opt) = [cIAC, c, opt]"
| "render (TSub pl) = [cIAC, cSB] @ escape_iac pl @ [cIAC, cSE]"
| "render (TCmd c) = [cIAC, c]"

text \<open>
  What the bridge promises of one stream: data and record ends go to the peer as they
  came, a negotiation is answered locally, everything else disappears, and a record whose
  first byte is the escape AID stops the stream before that byte.
\<close>

fun token_forward :: "token \<Rightarrow> byte list" where
  "token_forward (TData b) = render (TData b)"
| "token_forward TEor = render TEor"
| "token_forward _ = []"

fun token_reply :: "role \<Rightarrow> byte list \<Rightarrow> token \<Rightarrow> byte list" where
  "token_reply r tt (TNeg c opt) = negotiate r c opt"
| "token_reply r tt (TSub pl) = (if length pl \<le> maxSubnegLen then subnegReply tt pl else [])"
| "token_reply r tt _ = []"

fun next_rec_start :: "bool \<Rightarrow> token \<Rightarrow> bool" where
  "next_rec_start start (TData b) = False"
| "next_rec_start start TEor = True"
| "next_rec_start start _ = start"

fun is_escape :: "byte \<Rightarrow> bool \<Rightarrow> token \<Rightarrow> bool" where
  "is_escape aid start (TData b) = (start \<and> aid \<noteq> 0 \<and> b = aid \<and> b \<noteq> cIAC)"
| "is_escape aid start _ = False"

fun stream_spec :: "role \<Rightarrow> byte list \<Rightarrow> byte \<Rightarrow> bool \<Rightarrow> token list \<Rightarrow> byte list \<times> byte list \<times> bool" where
  "stream_spec r tt aid start [] = ([], [], False)"
| "stream_spec r tt aid start (t # ts) =
     (if is_escape aid start t then ([], [], True)
      else (case stream_spec r tt aid (next_rec_start start t) ts of (f, rp, e) \<Rightarrow>
              (token_forward t @ f, token_reply r tt t @ rp, e)))"

lemma tp_state_same: "tp_state p = st \<Longrightarrow> p\<lparr>tp_state := st\<rparr> = p"
  by (cases p) simp

lemma collect_state: "(collect (p\<lparr>tp_state := StSubIAC\<rparr>) b)\<lparr>tp_state := st\<rparr> = (collect p b)\<lparr>tp_state := st\<rparr>"
  by (simp add: collect_def)

lemma process_sub_payload:
  assumes "tp_state p = StSubData"
  shows "\<exists>p'. process p (escape_iac pl) = (p', [], [], False) \<and> tp_state p' = StSubData \<and>
     tp_role p' = tp_role p \<and> tp_termType p' = tp_termType p \<and> tp_escapeAID p' = tp_escapeAID p \<and>
     tp_atRecStart p' = tp_atRecStart p \<and>
     (\<not> tp_overflow p \<and> length (tp_subneg p) + length pl \<le> maxSubnegLen \<longrightarrow>
        \<not> tp_overflow p' \<and> tp_subneg p' = tp_subneg p @ pl) \<and>
     (tp_overflow p \<or> (length (tp_subneg p) \<le> maxSubnegLen \<and> maxSubnegLen < length (tp_subneg p) + length pl) \<longrightarrow>
        tp_overflow p')"
  using assms
proof (induction pl arbitrary: p)
  case Nil
  then show ?case by (auto simp: escape_iac_def)
next
  case (Cons b pl)
  let ?q = "collect p b"
  have q: "tp_state ?q = StSubData" using Cons.prems by (simp add: collect_def)
  have step: "process p (escape_iac (b # pl)) = process ?q (escape_iac pl)"
    using Cons.prems q
    by (auto simp: escape_iac_def process_byte_def collect_state tp_state_same split: prod.splits)
  from Cons.IH[OF q] show ?case
    unfolding step by (auto simp: collect_def split: if_splits)
qed

text \<open>One token, from a processor between tokens.\<close>

lemma process_token:
  assumes "tp_state p = StData" "token_ok t" "\<not> is_escape (tp_escapeAID p) (tp_atRecStart p) t"
  shows "\<exists>p'. process p (render t) =
       (p', token_forward t, token_reply (tp_role p) (tp_termType p) t, False) \<and>
     tp_state p' = StData \<and> tp_role p' = tp_role p \<and> tp_termType p' = tp_termType p \<and>
     tp_escapeAID p' = tp_escapeAID p \<and> tp_atRecStart p' = next_rec_start (tp_atRecStart p) t"
proof (cases t)
  case (TSub pl)
  let ?q = "p\<lparr>tp_subneg := [], tp_overflow := False, tp_state := StSubData\<rparr>"
  have q: "tp_state ?q = StSubData" by simp
  from process_sub_payload[OF q, of pl] obtain p' where p':
    "process ?q (escape_iac pl) = (p', [], [], False)" "tp_state p' = StSubData"
    "tp_role p' = tp_role p" "tp_termType p' = tp_termType p" "tp_escapeAID p' = tp_escapeAID p"
    "tp_atRecStart p' = tp_atRecStart p"
    "length pl \<le> maxSubnegLen \<longrightarrow> \<not> tp_overflow p' \<and> tp_subneg p' = pl"
    "maxSubnegLen < length pl \<longrightarrow> tp_overflow p'"
    by auto
  have "process p (render t) = process ?q (escape_iac pl @ [cIAC, cSE])"
    using assms(1) TSub by (simp add: process_byte_def split: prod.splits)
  then show ?thesis
    using p' TSub by (auto simp: process_append process_byte_def)
qed (use assms in \<open>auto simp: process_byte_def split: if_splits\<close>)

lemma process_escape_token:
  assumes "tp_state p = StData" "is_escape (tp_escapeAID p) (tp_atRecStart p) t"
  shows "process p (render t) = (p\<lparr>tp_atRecStart := False\<rparr>, [], [], True)"
  using assms by (cases t) (auto simp: process_byte_def)

lemma process_tokens:
  assumes "tp_state p = StData" "list_all token_ok ts"
  shows "snd (process p (concat (map render ts))) =
     stream_spec (tp_role p) (tp_termType p) (tp_escapeAID p) (tp_atRecStart p) ts"
  using assms
proof (induction ts arbitrary: p)
  case Nil
  then show ?case by simp
next
  case (Cons t ts)
  show ?case
  proof (cases "is_escape (tp_escapeAID p) (tp_atRecStart p) t")
    case True
    then show ?thesis using Cons.prems by (simp add: process_append process_escape_token)
  next
    case False
    then obtain p' where p': "process p (render t) =
       (p', token_forward t, token_reply (tp_role p) (tp_termType p) t, False)"
      "tp_state p' = StData" "tp_role p' = tp_role p" "tp_termType p' = tp_termType p"
      "tp_escapeAID p' = tp_escapeAID p" "tp_atRecStart p' = next_rec_start (tp_atRecStart p) t"
      using process_token[of p t] Cons.prems by auto
    have "snd (process p' (concat (map render ts))) =
        stream_spec (tp_role p) (tp_termType p) (tp_escapeAID p) (next_rec_start (tp_atRecStart p) t) ts"
      using Cons.IH[of p'] Cons.prems(2) p' by simp
    then show ?thesis using False p'(1)
      by (auto simp: process_append split: prod.splits)
  qed
qed

lemma forwarded_framed_pair: "framed (fst (snd (process p bs)))"
  by (cases "process p bs") (auto dest: process_framed)

section \<open>Properties\<close>

text \<open>
  C38. The stream processor meets its specification. For any well-formed Telnet stream
  (any interleaving of data bytes, record ends, option negotiations, subnegotiations and
  other commands) a fresh processor forwards exactly the 3270 data and record ends, in
  order and in their wire form, answers exactly the negotiations, on this leg, in order,
  and reports the escape exactly when a record begins with the escape AID, dropping that
  byte and everything after it.
\<close>

theorem process_meets_spec:
  assumes "list_all token_ok ts"
  shows "snd (process (newProcessor r tt aid) (concat (map render ts))) = stream_spec r tt aid True ts"
  using process_tokens[of "newProcessor r tt aid" ts] assms by (simp add: newProcessor_def)

theorem process_meets_spec_witness:
  "list_all token_ok [TNeg cDO optEOR, TData 5, TData 255, TEor, TData aidPA3, TData 9] \<and>
   snd (process (newProcessor RoleServer [] aidPA3)
     (concat (map render [TNeg cDO optEOR, TData 5, TData 255, TEor, TData aidPA3, TData 9]))) =
   ([5, 255, 255, 255, 239], [255, 251, 25], True)"
proof -
  have ok: "list_all token_ok [TNeg cDO optEOR, TData 5, TData 255, TEor, TData aidPA3, TData 9]" by simp
  show ?thesis
    using process_meets_spec[OF ok, of RoleServer "[]" aidPA3] ok
    by (simp add: aidPA3_def negotiate_def agreeable_def)
qed



text \<open>
  No Telnet negotiation ever crosses the gateway: whatever bytes arrive (malformed
  streams included) and in whatever state, the forwarded bytes consist of complete units
  only, plain data bytes, \<open>IAC IAC\<close> and \<open>IAC EOR\<close>.
\<close>

theorem forwarded_is_framed: "framed (fst (snd (process p bs)))"
  by (cases "process p bs") (auto dest: process_framed)

text \<open>
  The subnegotiation buffer of a fresh processor never holds more than
  \<open>maxSubnegLen\<close> (1024) bytes, whatever a peer sends, over any number of reads.
\<close>

theorem subneg_bounded: "length (tp_subneg (fst (process_chunks (newProcessor r tt aid) cs))) \<le> 1024"
proof -
  obtain p' f rp e where p: "process (newProcessor r tt aid) (concat cs) = (p', f, rp, e)"
    by (cases "process (newProcessor r tt aid) (concat cs)") auto
  have "length (tp_subneg (newProcessor r tt aid)) \<le> maxSubnegLen" by (simp add: newProcessor_def)
  from process_bound[OF p this] show ?thesis by (simp add: process_chunks_concat p maxSubnegLen_def)
qed

text \<open>
  Option negotiation keeps no memory of what was agreed. The client processor of one
  gateway facing the server processor of another answers DO with WILL and the other
  answers WILL with DO, without end.
\<close>

fun ping_pong :: "nat \<Rightarrow> byte \<Rightarrow> byte list \<Rightarrow> byte list" where
  "ping_pong 0 opt msg = msg"
| "ping_pong (Suc n) opt msg =
     (let answer = fst (snd (snd (process (newProcessor RoleServer [] aidPA3) msg)))
      in ping_pong n opt (fst (snd (snd (process (newProcessor RoleClient [] 0) answer)))))"


text \<open>
  The server processor never agrees to TERMINAL-TYPE when it is negotiated, but it does
  answer an unrequested TERMINAL-TYPE SEND subnegotiation, with an empty terminal type.
\<close>

theorem server_leg_termtype:
  "process (newProcessor RoleServer [] aid) [cIAC, cDO, optTERMTYPE] =
     (newProcessor RoleServer [] aid\<lparr>tp_optCmd := cDO\<rparr>, [], [cIAC, cWONT, optTERMTYPE], False) \<and>
   fst (snd (snd (process (newProcessor RoleServer [] aid) [cIAC, cSB, optTERMTYPE, ttSEND, cIAC, cSE]))) =
     [cIAC, cSB, optTERMTYPE, ttIS, cIAC, cSE]"
  by (simp_all add: newProcessor_def process_byte_def negotiate_def agreeable_def collect_def
      subnegReply_def maxSubnegLen_def)

end
