(* ===== verification/Bridge.thy ===== *)
theory Bridge
  imports Telnet
begin

text \<open>
  The bridge of internal/bridge/bridge.go: \<open>relay\<close> copies one direction through a
  processor, \<open>bridge\<close> dials the backend, runs both directions and tears them down. The
  network is a script: what each Read returned, and for each Write whether it failed (after
  how many bytes). Dialing and TLS are the network's; their outcome is an argument.
\<close>

datatype cause = CauseError | CauseBackendClosed | CauseClientClosed | CauseUserEscaped

text \<open>
  One Read of at most 4096 bytes: the bytes it delivered and whether it reported an error,
  with the fate of the writes that follow it (\<open>Some k\<close>: the write fails after k bytes).
\<close>

record read_event =
  re_data :: "byte list"
  re_err :: bool
  re_src_fail :: "nat option"
  re_dst_fail :: "nat option"

definition relay_buf :: nat where "relay_buf = 4096"

type_synonym relay_result = "cause option \<times> byte list \<times> byte list"

text \<open>
  The loop of \<open>relay\<close>: the cause it returned (\<open>None\<close> while it is blocked in Read at the
  end of the script), the bytes written back to \<open>src\<close>, the bytes written to \<open>dst\<close>.
\<close>

fun relay :: "telnet_processor \<Rightarrow> cause \<Rightarrow> read_event list \<Rightarrow> relay_result" where
  "relay p closeCause [] = (None, [], [])"
| "relay p closeCause (e # es) =
     (if re_data e = []
      then (if re_err e then (Some closeCause, [], []) else relay p closeCause es)
      else
        (case process p (re_data e) of (p1, fwd, reply, escaped) \<Rightarrow>
           (case (if reply = [] then None else re_src_fail e) of
              Some k \<Rightarrow> (Some CauseError, take k reply, [])
            | None \<Rightarrow>
                (case (if fwd = [] then None else re_dst_fail e) of
                   Some k \<Rightarrow> (Some CauseError, reply, take k fwd)
                 | None \<Rightarrow>
                     if escaped then (Some CauseUserEscaped, reply, fwd)
                     else if re_err e then (Some closeCause, reply, fwd)
                     else (case relay p1 closeCause es of (c, s, d) \<Rightarrow> (c, reply @ s, fwd @ d))))))"

text \<open>
  \<open>Bridge\<close>: the dial outcome, then the two directions, of which the network decides
  which returns first (\<open>backend_first\<close>). The other direction is interrupted after the part
  of its script it had run. \<open>br_client_deadlines\<close> are the SetDeadline calls on the client.
\<close>

definition pastDeadline :: go_time where
  "pastDeadline = unix_time 1"

record bridge_result =
  br_cause :: cause
  br_err :: "string option"
  br_to_client :: "byte list"
  br_to_backend :: "byte list"
  br_client_deadlines :: "go_time list"

definition bridge ::
  "string option \<Rightarrow> byte list \<Rightarrow> byte \<Rightarrow> read_event list \<Rightarrow> read_event list \<Rightarrow> bool \<Rightarrow> bridge_result option" where
  "bridge dial_err termType escapeAID backend_reads client_reads backend_first =
     (case dial_err of
        Some e \<Rightarrow> Some \<lparr>br_cause = CauseError, br_err = Some e, br_to_client = [], br_to_backend = [],
                        br_client_deadlines = []\<rparr>
      | None \<Rightarrow>
          (case (relay (newProcessor RoleClient termType 0) CauseBackendClosed backend_reads,
                 relay (newProcessor RoleServer [] escapeAID) CauseClientClosed client_reads) of
             ((bc, to_backend1, to_client1), (cc, to_client2, to_backend2)) \<Rightarrow>
               (case (if backend_first then bc else cc) of
                  None \<Rightarrow> None
                | Some first \<Rightarrow>
                    Some \<lparr>br_cause = first, br_err = None,
                          br_to_client = to_client2 @ to_client1,
                          br_to_backend = to_backend1 @ to_backend2,
                          br_client_deadlines = [pastDeadline, 0]\<rparr>)))"

section \<open>Lemmas\<close>

definition quiet :: "read_event \<Rightarrow> bool" where
  "quiet e \<longleftrightarrow> re_src_fail e = None \<and> re_dst_fail e = None \<and> \<not> re_err e"

lemma process_Nil_case: "process p [] = (p, [], [], False)"
  by simp

text \<open>Without write failures the direction is the processor run over what was read.\<close>

lemma relay_process:
  "list_all quiet es \<Longrightarrow>
   relay p cc es = (case process p (concat (map re_data es)) of (p', f, r, e) \<Rightarrow>
     (if e then Some CauseUserEscaped else None, r, f))"
proof (induction es arbitrary: p)
  case Nil
  then show ?case by simp
next
  case (Cons e es)
  then show ?case
    by (auto simp: quiet_def process_append split: prod.splits if_splits)
qed

lemma process_no_escape: "tp_escapeAID p = 0 \<Longrightarrow> process p bs = (p', f, r, e) \<Longrightarrow> \<not> e"
proof (induction bs arbitrary: p p' f r e)
  case (Cons b bs)
  obtain p1 f1 r1 e1 where b: "process_byte p b = (p1, f1, r1, e1)" by (cases "process_byte p b") auto
  have "\<not> e1" using b Cons.prems(1) by (auto simp: process_byte_def split: pstate.splits if_splits)
  moreover have "tp_escapeAID p1 = 0" using process_byte_frame[OF b] Cons.prems(1) by simp
  ultimately show ?case using Cons.prems(2) Cons.IH[of p1]
    by (auto simp: b split: prod.splits)
qed simp

lemma relay_no_escape:
  "tp_escapeAID p = 0 \<Longrightarrow> cc \<noteq> CauseUserEscaped \<Longrightarrow> fst (relay p cc es) \<noteq> Some CauseUserEscaped"
proof (induction es arbitrary: p)
  case (Cons e es)
  obtain p1 f1 r1 e1 where pr: "process p (re_data e) = (p1, f1, r1, e1)" by (cases "process p (re_data e)") auto
  have "\<not> e1" using process_no_escape[OF Cons.prems(1) pr] .
  moreover have "tp_escapeAID p1 = 0" using process_frame[OF pr] Cons.prems(1) by simp
  ultimately show ?case using Cons.IH[of p1] Cons.IH[of p] Cons.prems
    by (cases "re_data e = []") (auto simp: pr split: prod.splits option.splits if_splits)
qed simp

lemma prefix_take_append: "prefix (take k xs) (xs @ ys)"
  by (rule prefix_order.trans[OF take_is_prefix]) simp

text \<open>What a direction may ever write to its destination, whatever fails: a prefix of the
  processor's output over the whole script.\<close>

lemma relay_dst_prefix:
  "prefix (snd (snd (relay p cc es))) (fst (snd (process p (concat (map re_data es)))))"
proof (induction es arbitrary: p)
  case Nil
  then show ?case by simp
next
  case (Cons e es)
  obtain p1 f1 r1 e1 where pr: "process p (re_data e) = (p1, f1, r1, e1)" by (cases "process p (re_data e)") auto
  show ?case
  proof (cases "re_data e = []")
    case True
    then show ?thesis using Cons.IH[of p] by simp
  next
    case False
    then show ?thesis using Cons.IH[of p1]
      by (auto simp: pr process_append take_is_prefix prefix_take_append
          split: prod.splits option.splits if_splits)
  qed
qed

section \<open>Properties\<close>

text \<open>
  C33. A direction of the bridge loses nothing and adds nothing: as long as no write fails
  and the source has not closed, what it has written to the peer and back to the source is
  the processor's output over the bytes read so far, however they were cut into reads, and
  it has returned exactly when the user pressed the escape key.
\<close>

theorem relay_lossless:
  assumes "list_all quiet es"
  shows "relay p cc es =
    (case process p (concat (map re_data es)) of (p', f, r, e) \<Rightarrow> (if e then Some CauseUserEscaped else None, r, f))"
  using assms by (rule relay_process)

theorem relay_lossless_witness:
  "list_all quiet [\<lparr>re_data = [7], re_err = False, re_src_fail = None, re_dst_fail = None\<rparr>] \<and>
   relay (newProcessor RoleServer [] 9) CauseClientClosed
     [\<lparr>re_data = [7], re_err = False, re_src_fail = None, re_dst_fail = None\<rparr>] = (None, [], [7])"
proof -
  let ?es = "[\<lparr>re_data = [7 :: byte], re_err = False, re_src_fail = None, re_dst_fail = None\<rparr>]"
  have q: "list_all quiet ?es" by (simp add: quiet_def)
  show ?thesis using relay_lossless[OF q, of "newProcessor RoleServer [] 9" CauseClientClosed] q
    by (simp add: newProcessor_def process_byte_def)
qed



text \<open>
  Nothing but 3270 data reaches the backend from the user, whatever the user's terminal
  sends and even when a write fails half way: what the client direction wrote is a prefix of
  a sequence of complete framing units.
\<close>

theorem client_direction_framed:
  "\<exists>f. framed f \<and> prefix (snd (snd (relay (newProcessor RoleServer [] aid) CauseClientClosed es))) f"
  using relay_dst_prefix forwarded_framed_pair by blast

end
