(* ===== verification/World.thy ===== *)
theory World
  imports Effects Store_Facts Throttle Registry IdleConn Mfa Auth Layout Bridge
begin

text \<open>
  What one connection's session runs in: the state shared by the process (database, throttle,
  session registry), the connection with its idle deadline, the clock, and the script of what
  the terminal sends. Screens are written to a log as views (the structures of
  internal/ui3270/types.go and the arguments of internal/screens), which is also where audit
  records, failed-authentication lines and bridges are noted.

  The terminal's script is a list of inputs with their arrival time. Waiting arms the idle
  deadline and either times out at the deadline or consumes the next input; while the session
  waits, the rest of the process may change the shared state (\<open>in_env\<close>). Every loop of the
  session code that waits for input consumes some of the script in each round, so its fuel is
  the length of the script.
\<close>

named_theorems world_keeps "operations keep the invariants of the world"
named_theorems world_progress "operations consume input and never run out of fuel"

section \<open>Views\<close>

text \<open>internal/ui3270/types.go\<close>

record list_view =
  lv_Title :: string
  lv_RowInfo :: string
  lv_Header :: string
  lv_Rows :: "string list"
  lv_Legend :: string
  lv_ErrMsg :: string
  lv_PFHelp :: string

record form_field =
  ff_Name :: string
  ff_Label :: string
  ff_Value :: string
  ff_Hidden :: bool
  ff_ReadOnly :: bool
  ff_Length :: int
  ff_Section :: string
  ff_GapBefore :: bool
  ff_Suffix :: string
  ff_SameRow :: bool

definition form_input :: "string \<Rightarrow> string \<Rightarrow> string \<Rightarrow> int \<Rightarrow> form_field" where
  "form_input name label v len =
     \<lparr>ff_Name = name, ff_Label = label, ff_Value = v, ff_Hidden = False, ff_ReadOnly = False, ff_Length = len,
      ff_Section = [], ff_GapBefore = False, ff_Suffix = [], ff_SameRow = False\<rparr>"

record form_view =
  fv_Title :: string
  fv_ErrMsg :: string
  fv_Fields :: "form_field list"
  fv_Intro :: string
  fv_PFHelp :: string
  fv_DotLeader :: bool
  fv_Compact :: bool

datatype color = DefaultColor | Red | Yellow | Green | Blue | Turquoise | White

record snapshot_row =
  sr_Left :: string
  sr_Mid :: string
  sr_Right :: string
  sr_MidColor :: color

record snapshot_view =
  sv_Title :: string
  sv_RowInfo :: string
  sv_AsOf :: string
  sv_Legend :: string
  sv_ErrMsg :: string
  sv_PFHelp :: string
  sv_Empty :: string
  sv_Head :: snapshot_row
  sv_Rows :: "snapshot_row list"
  sv_Wide :: bool

record detail_field =
  df_Label :: string
  df_Value :: string
  df_Color :: color

record detail_view =
  dv_Title :: string
  dv_BodyLabel :: string
  dv_Body :: string
  dv_PFHelp :: string
  dv_Message :: string
  dv_Fields :: "detail_field list"
  dv_DotLeader :: bool

record editor_view =
  ev_Title :: string
  ev_RowInfo :: string
  ev_ErrMsg :: string
  ev_PFHelp :: string
  ev_Lines :: "(string \<times> bool) list" \<comment> \<open>text and whether the line is protected\<close>

record menu_status =
  ms_Username :: string
  ms_TermType :: string
  ms_SystemID :: string
  ms_Release :: string
  ms_Now :: go_time

datatype view =
    VLogin menu_status "string list" string
  | VMenu "service list" bool bool menu_status string int
  | VHelp string "string list" int
  | VUserSettings string "(string \<times> string \<times> string) list" string
  | VNews "string list"
  | VEnroll string string string string
  | VVerify string
  | VAdminMenu string
  | VList list_view
  | VForm form_view
  | VSnapshot snapshot_view
  | VDetail detail_view
  | VEditor editor_view

section \<open>Inputs\<close>

datatype aid = AIDEnter | AIDPF nat | AIDPA nat | AIDClear | AIDOther nat

record response =
  rs_AID :: aid
  rs_Values :: "(string \<times> string) list"

definition resp_value :: "response \<Rightarrow> string \<Rightarrow> string" where \<comment> \<open>\<open>resp.Values[name]\<close>\<close>
  "resp_value r name = (case map_of (rs_Values r) name of None \<Rightarrow> [] | Some v \<Rightarrow> v)"

datatype session_event =
    EvResponse response
  | EvTerm string int int                  \<comment> \<open>telnet negotiation: type, rows, columns\<close>
  | EvBridge cause "string option"         \<comment> \<open>a bridge ended: cause, error text\<close>
  | EvLost                                 \<comment> \<open>the connection broke\<close>

record shared =
  sh_db :: db
  sh_throttle :: "auth_throttle option"
  sh_registry :: "session_registry option"

record input =
  in_at :: go_time
  in_env :: "shared \<Rightarrow> shared"
  in_event :: session_event

definition key_at :: "go_time \<Rightarrow> aid \<Rightarrow> (string \<times> string) list \<Rightarrow> input" where
  "key_at t a vs = \<lparr>in_at = t, in_env = id, in_event = EvResponse \<lparr>rs_AID = a, rs_Values = vs\<rparr>\<rparr>"

datatype io_err =
    IoTimeout   \<comment> \<open>\<open>net.Error\<close> with \<open>Timeout()\<close>: the idle deadline\<close>
  | IoDead      \<comment> \<open>any other error of the connection\<close>
  | IoFatal     \<comment> \<open>an error that is not of the connection\<close>
  | IoFuel      \<comment> \<open>a loop ran out of fuel; never returned (see the progress lemmas)\<close>

definition isTimeoutErr :: "io_err \<Rightarrow> bool" where
  "isTimeoutErr e \<longleftrightarrow> e = IoTimeout"

datatype observation =
    OView view
  | OAudit audit_event
  | OAuthFailed string string              \<comment> \<open>the fail2ban line: user, reason\<close>
  | OBridge service string                 \<comment> \<open>a backend was dialled: service, terminal type\<close>
  | OSleep duration

record world =
  w_shared :: shared
  w_script :: "input list"
  w_now :: go_time
  w_idle :: "idle_conn option"
  w_actor :: string        \<comment> \<open>\<open>auditTrail.actor\<close>\<close>
  w_draws :: nat           \<comment> \<open>how often the random source was used\<close>
  w_log :: "observation list"

type_synonym 'a eff = "(world, 'a) state"
type_synonym 'a io = "(world, io_err + 'a) state"

text \<open>
  What is fixed for a session: the connection's data and, as functions, the libraries the code
  calls (bcrypt, HOTP, AES-GCM, the random source, the file system, the resolver).
\<close>

record settings =
  st_Limits :: idle_limits
  st_Release :: string
  st_RemoteAddr :: string
  st_SessionID :: nat                 \<comment> \<open>registry id\<close>
  st_AuditID :: string                \<comment> \<open>\<open>newSessionID\<close>\<close>
  st_AdminPresenter :: bool
  st_Auditor :: bool
  st_MFA :: "aead option"
  lib_compare :: "string \<Rightarrow> string \<Rightarrow> bool"
  lib_hash :: "nat \<Rightarrow> string \<Rightarrow> string option"
  lib_hotp :: hotp_fun
  lib_secret :: "nat \<Rightarrow> string \<Rightarrow> string \<Rightarrow> string option"
  lib_nonce :: "nat \<Rightarrow> string option"
  lib_fs :: "string \<Rightarrow> file_state"
  lib_resolve :: "string \<Rightarrow> string list option"
  lib_errtext :: "store_error \<Rightarrow> string"

section \<open>Effects\<close>

definition io_return :: "'a \<Rightarrow> 'a io" where "io_return x = return_st (Inr x)"
definition io_fail :: "io_err \<Rightarrow> 'a io" where "io_fail e = return_st (Inl e)"

text \<open>An effect that cannot fail, in a block that can.\<close>

definition io_lift :: "'a eff \<Rightarrow> 'a io" where
  "io_lift m = do { x \<leftarrow> m; io_return x }"

definition w_db :: "world \<Rightarrow> db" where "w_db w = sh_db (w_shared w)"

definition set_db :: "db \<Rightarrow> world \<Rightarrow> world" where
  "set_db d w = w\<lparr>w_shared := (w_shared w)\<lparr>sh_db := d\<rparr>\<rparr>"

definition stm :: "(db, 'a) state \<Rightarrow> 'a eff" where \<comment> \<open>a store call\<close>
  "stm m = zoom w_db set_db m"

definition on_throttle :: "(auth_throttle option \<Rightarrow> 'a \<times> auth_throttle option) \<Rightarrow> 'a eff" where
  "on_throttle f = State (\<lambda>w. case f (sh_throttle (w_shared w)) of
     (x, t) \<Rightarrow> (x, w\<lparr>w_shared := (w_shared w)\<lparr>sh_throttle := t\<rparr>\<rparr>))"

definition on_registry :: "(session_registry option \<Rightarrow> 'a \<times> session_registry option) \<Rightarrow> 'a eff" where
  "on_registry f = State (\<lambda>w. case f (sh_registry (w_shared w)) of
     (x, r) \<Rightarrow> (x, w\<lparr>w_shared := (w_shared w)\<lparr>sh_registry := r\<rparr>\<rparr>))"

definition emit :: "observation \<Rightarrow> unit eff" where
  "emit ob = modify (\<lambda>w. w\<lparr>w_log := w_log w @ [ob]\<rparr>)"

definition clock :: "go_time eff" where "clock = gets w_now"

fun map_eff :: "('a \<Rightarrow> 'b eff) \<Rightarrow> 'a list \<Rightarrow> 'b list eff" where
  "map_eff f [] = return_st []"
| "map_eff f (x # xs) = do { y \<leftarrow> f x; ys \<leftarrow> map_eff f xs; return_st (y # ys) }"

definition draw :: "nat eff" where
  "draw = do { n \<leftarrow> gets w_draws; modify (\<lambda>w. w\<lparr>w_draws := n + 1\<rparr>); return_st n }"

section \<open>Audit trail (auditor.go)\<close>

definition AuditConnect :: string where "AuditConnect = ''connect''"
definition AuditAuthOK :: string where "AuditAuthOK = ''auth_ok''"
definition AuditAuthFail :: string where "AuditAuthFail = ''auth_fail''"
definition AuditAuthError :: string where "AuditAuthError = ''auth_error''"
definition AuditBridgeStart :: string where "AuditBridgeStart = ''bridge_start''"
definition AuditBridgeEnd :: string where "AuditBridgeEnd = ''bridge_end''"
definition AuditAdmin :: string where "AuditAdmin = ''admin''"
definition AuditLogout :: string where "AuditLogout = ''logout''"
definition AuditDisconnect :: string where "AuditDisconnect = ''disconnect''"
definition AuditMFAEnrolled :: string where "AuditMFAEnrolled = ''mfa_enrolled''"
definition AuditMFASuccess :: string where "AuditMFASuccess = ''mfa_success''"
definition AuditMFAFailed :: string where "AuditMFAFailed = ''mfa_failed''"
definition AuditMFACleared :: string where "AuditMFACleared = ''mfa_cleared''"
definition AuditMFAEnforced :: string where "AuditMFAEnforced = ''mfa_enforced''"
definition AuditPasswordSelf :: string where "AuditPasswordSelf = ''password_self''"
definition AuditSettingsLocked :: string where "AuditSettingsLocked = ''settings_locked''"
definition AuditSettingsUnlocked :: string where "AuditSettingsUnlocked = ''settings_unlocked''"
definition AuditSessionDisconnect :: string where "AuditSessionDisconnect = ''session_disconnect''"
definition AuditDocUpdate :: string where "AuditDocUpdate = ''doc_update''"
definition AuditDocImport :: string where "AuditDocImport = ''doc_import''"

definition audit_event_of :: "string \<Rightarrow> audit_event" where \<comment> \<open>\<open>AuditEvent{Kind: k}\<close>\<close>
  "audit_event_of k =
     \<lparr>ae_ID = 0, ae_At = 0, ae_SessionID = [], ae_Kind = k, ae_Username = [], ae_Actor = [], ae_RemoteAddr = [],
      ae_Service = [], ae_Detail = []\<rparr>"

text \<open>\<open>storeAuditor.Record\<close>: stamps the time; a failure is logged and dropped.\<close>

definition auditor_Record :: "audit_event \<Rightarrow> unit eff" where
  "auditor_Record ev = do {
     now \<leftarrow> clock;
     let ev' = ev\<lparr>ae_At := time_unix now\<rparr>;
     _ \<leftarrow> stm (RecordAudit ev');
     emit (OAudit ev')
   }"

definition setActor :: "string \<Rightarrow> unit eff" where
  "setActor name = modify (\<lambda>w. w\<lparr>w_actor := name\<rparr>)"

definition audit_record :: "settings \<Rightarrow> audit_event \<Rightarrow> unit eff" where
  "audit_record cfg ev =
     (if \<not> st_Auditor cfg then return_st ()
      else do {
        actor \<leftarrow> gets w_actor;
        auditor_Record (ev\<lparr>ae_SessionID := st_AuditID cfg, ae_RemoteAddr := st_RemoteAddr cfg,
          ae_Actor := (if ae_Actor ev = [] then actor else ae_Actor ev)\<rparr>)
      })"

section \<open>Waiting for the terminal\<close>

text \<open>
  One wait: the connection's deadline is armed by the write and the reads; the terminal's next
  input is consumed if it arrives in time. A connection closed by an administrator fails. A
  terminal that sends nothing more either meets the deadline or is gone.
\<close>

definition conn_closed :: "settings \<Rightarrow> shared \<Rightarrow> bool" where
  "conn_closed cfg sh = (case sh_registry sh of None \<Rightarrow> False | Some r \<Rightarrow> st_SessionID cfg \<in> set (rg_closed r))"

definition deadline_of :: "idle_conn option \<Rightarrow> go_time" where
  "deadline_of c = (case c of None \<Rightarrow> 0 | Some i \<Rightarrow> ic_deadline i)"

definition await :: "settings \<Rightarrow> session_event io" where
  "await cfg = State (\<lambda>w0.
     let w = w0\<lparr>w_idle := map_option (idle_arm (w_now w0)) (w_idle w0)\<rparr>;
         dl = deadline_of (w_idle w)
     in if conn_closed cfg (w_shared w) then (Inl IoDead, w)
        else case w_script w of
          [] \<Rightarrow> if dl = 0 then (Inl IoDead, w) else (Inl IoTimeout, w\<lparr>w_now := max (w_now w) dl\<rparr>)
        | i # rest \<Rightarrow>
            let t = max (w_now w) (in_at i)
            in if dl \<noteq> 0 \<and> dl \<le> t then (Inl IoTimeout, w\<lparr>w_now := max (w_now w) dl\<rparr>)
               else let w' = w\<lparr>w_now := t, w_script := rest, w_shared := in_env i (w_shared w)\<rparr>
                    in if conn_closed cfg (w_shared w') then (Inl IoDead, w') else (Inr (in_event i), w'))"

text \<open>The time the session spends asleep is not spent waiting.\<close>

definition io_sleep :: "duration \<Rightarrow> unit eff" where
  "io_sleep d =
     (if d \<le> 0 then return_st ()
      else do { emit (OSleep d); modify (\<lambda>w. w\<lparr>w_now := w_now w + d\<rparr>) })"

subsection \<open>Loops\<close>

fun loop_with :: "nat \<Rightarrow> ('x \<Rightarrow> ('x + 'r) io) \<Rightarrow> 'x \<Rightarrow> 'r io" where
  "loop_with 0 body x = io_fail IoFuel"
| "loop_with (Suc n) body x =
     try_bind (body x) (\<lambda>r. case r of Inl x' \<Rightarrow> loop_with n body x' | Inr y \<Rightarrow> io_return y)"

text \<open>\<open>for { ... }\<close>: \<open>Inl\<close> goes round again, \<open>Inr\<close> leaves.\<close>

definition io_loop :: "('x \<Rightarrow> ('x + 'r) io) \<Rightarrow> 'x \<Rightarrow> 'r io" where
  "io_loop body x = do { n \<leftarrow> gets (\<lambda>w. Suc (length (w_script w))); loop_with n body x }"

definition again :: "'x \<Rightarrow> ('x + 'r) io" where "again x = io_return (Inl x)"
definition leave :: "'r \<Rightarrow> ('x + 'r) io" where "leave y = io_return (Inr y)"

subsection \<open>Screens (handle_screen.go, renderer.go)\<close>

definition silentAIDList :: "aid list" where
  "silentAIDList = [AIDPA 1, AIDPA 2, AIDPA 3, AIDClear]"

definition isSilentAID :: "aid \<Rightarrow> bool" where
  "isSilentAID a \<longleftrightarrow> a \<in> set silentAIDList"

definition withSilentExits :: "aid list \<Rightarrow> aid list" where
  "withSilentExits exitkeys = exitkeys @ silentAIDList"

text \<open>
  The library call \<open>HandleScreenAlt\<close>, as documented: it returns only for Enter or one of the
  exit keys, and re-presents the screen itself for any other key.
\<close>

definition HandleScreenAlt :: "settings \<Rightarrow> view \<Rightarrow> aid list \<Rightarrow> response io" where
  "HandleScreenAlt cfg v exitkeys = io_loop (\<lambda>_. do {
     emit (OView v);
     try_bind (await cfg) (\<lambda>e. case e of
        EvResponse resp \<Rightarrow> if rs_AID resp \<in> set (AIDEnter # exitkeys) then leave resp else again ()
      | _ \<Rightarrow> io_fail IoDead)
   }) ()"

definition handleScreen :: "settings \<Rightarrow> view \<Rightarrow> aid list \<Rightarrow> response io" where
  "handleScreen cfg v exitkeys = io_loop (\<lambda>_.
     try_bind (HandleScreenAlt cfg v (withSilentExits exitkeys)) (\<lambda>resp.
       if isSilentAID (rs_AID resp) then again () else leave resp)) ()"

end
