(* ===== verification/Presenter.thy ===== *)
theory Presenter
  imports World
begin

text \<open>
  The screens of the proxy itself, internal/server/presenter.go, presenter_mfa.go and term.go:
  each function paints a view, waits, and classifies the key. The log keeps the view; the
  fields it is drawn with are \<open>paint\<close> (theory Panels). The selection mapping of the menu
  (internal/screens/menu.go) is here because the presenter acts on it.
\<close>

text \<open>\<open>Term\<close>: the negotiated type and the size screens are laid out for.\<close>

record term_info =
  tm_Type :: string
  tm_Geometry :: geometry

definition normalizeTerm :: "string \<Rightarrow> int \<Rightarrow> int \<Rightarrow> term_info" where
  "normalizeTerm ty rows cols =
     \<lparr>tm_Type = ty, tm_Geometry = (if rows < 24 \<or> cols < 80 then \<lparr>geo_Rows = 24, geo_Cols = 80\<rparr>
                                   else \<lparr>geo_Rows = rows, geo_Cols = cols\<rparr>)\<rparr>"

text \<open>Field names of login.go, menu.go, mfa.go and usersettings.go.\<close>

definition LoginUsername :: string where "LoginUsername = ''username''"
definition LoginPassword :: string where "LoginPassword = ''password''"
definition FieldSelection :: string where "FieldSelection = ''selection''"
definition FieldMFACode :: string where "FieldMFACode = ''mfacode''"
definition FieldUSOption :: string where "FieldUSOption = ''usoption''"
definition FieldCurrentPassword :: string where "FieldCurrentPassword = ''currentpassword''"

definition Negotiate :: "settings \<Rightarrow> term_info io" where
  "Negotiate cfg = try_bind (await cfg) (\<lambda>e. case e of
     EvTerm ty rows cols \<Rightarrow> io_return (normalizeTerm ty rows cols)
   | _ \<Rightarrow> io_fail IoDead)"

text \<open>\<open>None\<close>: the user quit.\<close>

definition p_Login :: "settings \<Rightarrow> menu_status \<Rightarrow> string list \<Rightarrow> string \<Rightarrow> (string \<times> string) option io" where
  "p_Login cfg status branding errMsg = do {
     now \<leftarrow> clock;
     try_bind (handleScreen cfg (VLogin (status\<lparr>ms_Now := now\<rparr>) branding errMsg) [AIDPF 3]) (\<lambda>resp.
       io_return (if rs_AID resp = AIDPF 3 then None
                  else Some (trim_space (resp_value resp LoginUsername), resp_value resp LoginPassword)))
   }"

section \<open>The service menu\<close>

datatype menu_choice = MenuReprompt | MenuRequery | MenuAdmin | MenuService service | MenuUserSettings | MenuQuit

definition menu_mapping :: "service list \<Rightarrow> (string \<times> service) list" where
  "menu_mapping svcs = map (\<lambda>(i, s). (itoa (int i + 1), s)) (zip [0..<length svcs] svcs)"

definition classifyMenuSubmit :: "string \<Rightarrow> (string \<times> service) list \<Rightarrow> bool \<Rightarrow> bool \<Rightarrow> menu_choice" where
  "classifyMenuSubmit key mapping admin settingsLocked =
     (if admin \<and> key = ''A'' then MenuAdmin
      else if \<not> settingsLocked \<and> key = ''0'' then MenuUserSettings
      else case map_of mapping key of
        Some svc \<Rightarrow> MenuService svc
      | None \<Rightarrow> if mapping = [] then MenuRequery else MenuReprompt)"

definition helpMenuTitle :: string where "helpMenuTitle = ''SERVICE MENU HELP''"

definition runHelpViewer :: "settings \<Rightarrow> term_info \<Rightarrow> string \<Rightarrow> string list \<Rightarrow> unit io" where
  "runHelpViewer cfg tm title ls = io_loop (\<lambda>page0.
     let page = fst (HelpPageBounds (tm_Geometry tm) (int (length ls)) page0)
     in try_bind (handleScreen cfg (VHelp title ls page) [AIDPF 3, AIDPF 7, AIDPF 8]) (\<lambda>resp.
          if rs_AID resp = AIDPF 7 then again (page - 1)
          else if rs_AID resp = AIDPF 8 then again (page + 1)
          else leave ())) 0"

definition menu_screen ::
  "settings \<Rightarrow> term_info \<Rightarrow> service list \<Rightarrow> bool \<Rightarrow> bool \<Rightarrow> menu_status \<Rightarrow> (store_error + string list) eff \<Rightarrow>
   int \<times> string \<Rightarrow> ((int \<times> string) + menu_choice) io" where
  "menu_screen cfg tm svcs admin settingsLocked status help st =
     (let page = fst (MenuPageBounds (tm_Geometry tm) (int (length svcs)) admin (fst st)); errMsg = snd st
      in do {
        now \<leftarrow> clock;
        try_bind (handleScreen cfg (VMenu svcs admin settingsLocked (status\<lparr>ms_TermType := tm_Type tm, ms_Now := now\<rparr>) errMsg page)
            [AIDPF 1, AIDPF 3, AIDPF 7, AIDPF 8]) (\<lambda>resp.
          if rs_AID resp = AIDPF 3 then leave MenuQuit
          else if rs_AID resp = AIDPF 7 then again (page - 1, errMsg)
          else if rs_AID resp = AIDPF 8 then again (page + 1, errMsg)
          else if rs_AID resp = AIDPF 1 then
            try_bind (io_lift help) (\<lambda>h.
              if (case h of Inl _ \<Rightarrow> True | Inr ls \<Rightarrow> ls = []) then again (page, ''NO HELP AVAILABLE'')
              else try_bind (runHelpViewer cfg tm helpMenuTitle (case h of Inl _ \<Rightarrow> [] | Inr ls \<Rightarrow> ls)) (\<lambda>_. again (page, [])))
          else let key = to_upper (trim_space (resp_value resp FieldSelection));
                   choice = classifyMenuSubmit key (menu_mapping svcs) admin settingsLocked
               in if choice = MenuReprompt then again (page, ''Invalid selection: '' @ key) else leave choice)
      })"

definition p_Menu ::
  "settings \<Rightarrow> term_info \<Rightarrow> service list \<Rightarrow> bool \<Rightarrow> bool \<Rightarrow> menu_status \<Rightarrow> string \<Rightarrow> (store_error + string list) eff \<Rightarrow>
   menu_choice io" where
  "p_Menu cfg tm svcs admin settingsLocked status errMsg help =
     io_loop (menu_screen cfg tm svcs admin settingsLocked status help) (0, errMsg)"

section \<open>Settings, news, second factor\<close>

text \<open>\<open>None\<close>: back.\<close>

definition p_UserSettings :: "settings \<Rightarrow> string \<Rightarrow> (string \<times> string \<times> string) list \<Rightarrow> string \<Rightarrow> string option io" where
  "p_UserSettings cfg username rows errMsg0 = io_loop (\<lambda>errMsg.
     try_bind (handleScreen cfg (VUserSettings username rows errMsg) [AIDPF 3]) (\<lambda>resp.
       if rs_AID resp = AIDPF 3 then leave None
       else let key = trim_space (resp_value resp FieldUSOption)
            in if key \<in> set (map fst rows) then leave (Some key)
               else again (''Invalid selection: '' @ key))) errMsg0"

definition p_News :: "settings \<Rightarrow> string list list \<Rightarrow> unit io" where
  "p_News cfg pages = io_loop (\<lambda>i.
     if length pages \<le> i then leave ()
     else try_bind (handleScreen cfg (VNews (pages ! i)) [AIDPF 3]) (\<lambda>resp.
       again (if rs_AID resp = AIDEnter then i + 1 else i))) 0"

definition p_EnrollMFA :: "settings \<Rightarrow> string \<Rightarrow> string \<Rightarrow> string \<Rightarrow> string \<Rightarrow> string option io" where
  "p_EnrollMFA cfg issuer account chunked errMsg =
     try_bind (handleScreen cfg (VEnroll issuer account chunked errMsg) [AIDPF 3]) (\<lambda>resp.
       io_return (if rs_AID resp = AIDPF 3 then None else Some (trim_space (resp_value resp FieldMFACode))))"

definition p_VerifyMFA :: "settings \<Rightarrow> string \<Rightarrow> string option io" where
  "p_VerifyMFA cfg errMsg =
     try_bind (handleScreen cfg (VVerify errMsg) [AIDPF 3]) (\<lambda>resp.
       io_return (if rs_AID resp = AIDPF 3 then None else Some (trim_space (resp_value resp FieldMFACode))))"

text \<open>
  The bridge, seen from the session: the relay (theory Bridge) runs until one side ends it, and
  the session learns the cause. The idle deadline during a bridge is part of the relay's reads,
  so it is an outcome here, not a wait.
\<close>

definition p_Bridge :: "settings \<Rightarrow> service \<Rightarrow> string \<Rightarrow> (cause \<times> string option) eff" where
  "p_Bridge cfg svc termType = do {
     emit (OBridge svc termType);
     State (\<lambda>w. if conn_closed cfg (w_shared w) then ((CauseClientClosed, None), w)
       else case w_script w of
         [] \<Rightarrow> ((CauseClientClosed, None), w)
       | i # rest \<Rightarrow>
           let w' = w\<lparr>w_now := max (w_now w) (in_at i), w_script := rest, w_shared := in_env i (w_shared w)\<rparr>
           in if conn_closed cfg (w_shared w') then ((CauseClientClosed, None), w')
              else case in_event i of EvBridge c e \<Rightarrow> ((c, e), w') | _ \<Rightarrow> ((CauseClientClosed, None), w'))
   }"

end
