(* ===== verification/World_Facts.thy ===== *)
theory World_Facts
  imports World
begin

text \<open>
  Two families of facts about session code. \<open>progress Q m\<close>: \<open>m\<close> never runs out of fuel, never
  adds input to the script, and has consumed some of it when it returns a value satisfying \<open>Q\<close>;
  a loop whose every further round consumes input makes progress, so its fuel suffices. And
  \<open>keeps (world_inv J) m\<close>: a property of the shared state that the rest of the process
  maintains is maintained by \<open>m\<close>.
\<close>

section \<open>Progress\<close>

abbreviation script_len :: "world \<Rightarrow> nat" where "script_len w \<equiv> length (w_script w)"

definition progress :: "('a \<Rightarrow> bool) \<Rightarrow> 'a io \<Rightarrow> bool" where
  "progress Q m \<longleftrightarrow> (\<forall>n. hoare (\<lambda>w. script_len w \<le> n) m
     (\<lambda>r w. script_len w \<le> n \<and> (case r of Inl e \<Rightarrow> e \<noteq> IoFuel | Inr x \<Rightarrow> Q x \<longrightarrow> script_len w < n)))"

abbreviation steady :: "'a io \<Rightarrow> bool" where "steady m \<equiv> progress (\<lambda>_. False) m"
abbreviation consumes :: "'a io \<Rightarrow> bool" where "consumes m \<equiv> progress (\<lambda>_. True) m"

definition script_kept :: "'a eff \<Rightarrow> bool" where
  "script_kept m \<longleftrightarrow> (\<forall>w. w_script (snd (run_state m w)) = w_script w)"

lemma progressI:
  assumes "\<And>w r w'. run_state m w = (r, w') \<Longrightarrow> script_len w' \<le> script_len w \<and> r \<noteq> Inl IoFuel \<and>
     (\<forall>x. r = Inr x \<longrightarrow> Q x \<longrightarrow> script_len w' < script_len w)"
  shows "progress Q m"
  unfolding progress_def
proof (intro allI hoareI)
  fix n w r w' assume "script_len w \<le> n" "run_state m w = (r, w')"
  with assms[of w r w'] show "script_len w' \<le> n \<and> (case r of Inl e \<Rightarrow> e \<noteq> IoFuel | Inr x \<Rightarrow> Q x \<longrightarrow> script_len w' < n)"
    by (auto split: sum.split)
qed

lemma progressD:
  assumes "progress Q m" "run_state m w = (r, w')"
  shows "script_len w' \<le> script_len w" "r \<noteq> Inl IoFuel" "r = Inr x \<Longrightarrow> Q x \<Longrightarrow> script_len w' < script_len w"
  using hoareD[OF assms(1)[unfolded progress_def, rule_format, of "script_len w"] order_refl assms(2)]
  by (auto split: sum.splits)

lemma progress_weaken: "progress Q m \<Longrightarrow> (\<And>x. R x \<Longrightarrow> Q x) \<Longrightarrow> progress R m"
  by (rule progressI) (meson progressD)

lemma consumes_steady: "consumes m \<Longrightarrow> progress Q m"
  by (erule progress_weaken) simp

lemma progress_return: "\<not> Q x \<Longrightarrow> progress Q (io_return x)"
  by (rule progressI) (auto simp: io_return_def)

lemma steady_return: "steady (io_return x)" by (rule progress_return) simp
lemma progress_leave: "progress isl (leave y)" by (simp add: leave_def progress_return)
lemma steady_leave: "steady (leave y)" by (simp add: leave_def progress_return)
lemma steady_again: "steady (again y)" by (simp add: again_def progress_return)

lemma progress_fail: "e \<noteq> IoFuel \<Longrightarrow> progress Q (io_fail e)"
  by (rule progressI) (auto simp: io_fail_def)

lemma progress_bind_cond:
  assumes "progress P m" "\<And>x. P x \<Longrightarrow> steady (k x)" "\<And>x. \<not> P x \<Longrightarrow> progress Q (k x)"
  shows "progress Q (try_bind m k)"
proof (rule progressI)
  fix w r w' assume "run_state (try_bind m k) w = (r, w')"
  then show "script_len w' \<le> script_len w \<and> r \<noteq> Inl IoFuel \<and> (\<forall>x. r = Inr x \<longrightarrow> Q x \<longrightarrow> script_len w' < script_len w)"
  proof (cases "run_state m w")
    case (Pair r1 w1)
    note p = progressD[OF assms(1) Pair]
    show ?thesis
    proof (cases r1)
      case (Inl e)
      then show ?thesis using \<open>run_state (try_bind m k) w = (r, w')\<close> Pair p by (auto simp: run_try_bind)
    next
      case (Inr x)
      then have k: "run_state (k x) w1 = (r, w')"
        using \<open>run_state (try_bind m k) w = (r, w')\<close> Pair by (simp add: run_try_bind)
      show ?thesis
      proof (cases "P x")
        case True
        from progressD[OF assms(2)[OF True] k] p(1) p(3)[OF Inr True] show ?thesis by linarith
      next
        case False
        from progressD[OF assms(3)[OF False] k] p(1) show ?thesis by (metis le_trans less_le_trans)
      qed
    qed
  qed
qed

lemma progress_bind: "steady m \<Longrightarrow> (\<And>x. progress Q (k x)) \<Longrightarrow> progress Q (try_bind m k)"
  by (rule progress_bind_cond[where P = "\<lambda>_. False"]) auto

lemma progress_bind_use: "consumes m \<Longrightarrow> (\<And>x. steady (k x)) \<Longrightarrow> progress Q (try_bind m k)"
  by (rule progress_bind_cond[where P = "\<lambda>_. True"]) auto

lemma progress_eff:
  assumes "script_kept m" "\<And>x. progress Q (k x)"
  shows "progress Q (do { x \<leftarrow> m; k x })"
proof (rule progressI)
  fix w r w' assume r: "run_state (do { x \<leftarrow> m; k x }) w = (r, w')"
  obtain x w1 where m: "run_state m w = (x, w1)" by fastforce
  with assms(1) have e: "w_script w1 = w_script w" unfolding script_kept_def by (metis snd_conv)
  from r m have k: "run_state (k x) w1 = (r, w')" by simp
  show "script_len w' \<le> script_len w \<and> r \<noteq> Inl IoFuel \<and> (\<forall>x. r = Inr x \<longrightarrow> Q x \<longrightarrow> script_len w' < script_len w)"
    using progressD[OF assms(2) k] e by auto
qed

lemma progress_lift: "script_kept m \<Longrightarrow> steady (io_lift m)"
  unfolding io_lift_def by (rule progress_eff) (simp_all add: steady_return)

lemma progress_if: "(c \<Longrightarrow> progress Q m) \<Longrightarrow> (\<not> c \<Longrightarrow> progress Q n) \<Longrightarrow> progress Q (if c then m else n)"
  by simp
lemma progress_sum:
  "(\<And>e. r = Inl e \<Longrightarrow> progress Q (f e)) \<Longrightarrow> (\<And>x. r = Inr x \<Longrightarrow> progress Q (g x)) \<Longrightarrow> progress Q (case r of Inl e \<Rightarrow> f e | Inr x \<Rightarrow> g x)"
  by (cases r) auto
lemma progress_option:
  "(r = None \<Longrightarrow> progress Q f) \<Longrightarrow> (\<And>x. r = Some x \<Longrightarrow> progress Q (g x)) \<Longrightarrow> progress Q (case r of None \<Rightarrow> f | Some x \<Rightarrow> g x)"
  by (cases r) auto
lemma progress_prod: "(\<And>a b. r = (a, b) \<Longrightarrow> progress Q (f a b)) \<Longrightarrow> progress Q (case r of (a, b) \<Rightarrow> f a b)"
  by (cases r) auto
lemma progress_list:
  "progress Q f \<Longrightarrow> (\<And>y ys. progress Q (g y ys)) \<Longrightarrow> progress Q (case xs of [] \<Rightarrow> f | y # ys \<Rightarrow> g y ys)"
  by (cases xs) auto
lemma progress_let: "(\<And>x. x = a \<Longrightarrow> progress Q (f x)) \<Longrightarrow> progress Q (let x = a in f x)"
  by simp

lemmas progress_cases = progress_if progress_sum progress_option progress_prod progress_list progress_let

subsection \<open>Effects leave the script alone\<close>

lemma script_kept_return [world_progress]: "script_kept (return_st x)" by (simp add: script_kept_def)
lemma script_kept_gets [world_progress]: "script_kept (gets f)" by (simp add: script_kept_def)
lemma script_kept_modify: "(\<And>w. w_script (f w) = w_script w) \<Longrightarrow> script_kept (modify f)" by (simp add: script_kept_def)
lemma script_kept_bind: "script_kept m \<Longrightarrow> (\<And>x. script_kept (k x)) \<Longrightarrow> script_kept (do { x \<leftarrow> m; k x })"
  by (auto simp: script_kept_def split: prod.splits) (metis fst_conv snd_conv surj_pair)
lemma script_kept_if: "(c \<Longrightarrow> script_kept m) \<Longrightarrow> (\<not> c \<Longrightarrow> script_kept n) \<Longrightarrow> script_kept (if c then m else n)" by simp
lemma script_kept_sum:
  "(\<And>e. script_kept (f e)) \<Longrightarrow> (\<And>x. script_kept (g x)) \<Longrightarrow> script_kept (case r of Inl e \<Rightarrow> f e | Inr x \<Rightarrow> g x)"
  by (cases r) auto
lemma script_kept_option:
  "script_kept f \<Longrightarrow> (\<And>x. script_kept (g x)) \<Longrightarrow> script_kept (case r of None \<Rightarrow> f | Some x \<Rightarrow> g x)"
  by (cases r) auto
lemma script_kept_prod: "(\<And>a b. script_kept (f a b)) \<Longrightarrow> script_kept (case r of (a, b) \<Rightarrow> f a b)" by (cases r) auto
lemma script_kept_let: "(\<And>x. script_kept (f x)) \<Longrightarrow> script_kept (let x = a in f x)" by simp
lemma script_kept_case_err:
  "(\<And>e. script_kept (f e)) \<Longrightarrow> script_kept (case e of ErrNotFound \<Rightarrow> f ErrNotFound | _ \<Rightarrow> f e)" by (cases e) auto

lemma script_kept_stm [world_progress]: "script_kept (stm m)"
  by (simp add: script_kept_def stm_def run_zoom set_db_def split: prod.split)
lemma script_kept_throttle [world_progress]: "script_kept (on_throttle f)"
  by (simp add: script_kept_def on_throttle_def split: prod.split)
lemma script_kept_registry [world_progress]: "script_kept (on_registry f)"
  by (simp add: script_kept_def on_registry_def split: prod.split)
lemma script_kept_emit [world_progress]: "script_kept (emit ob)" by (simp add: emit_def script_kept_def)
lemma script_kept_clock [world_progress]: "script_kept clock" by (simp add: clock_def script_kept_def)

lemmas script_kept_rules = script_kept_bind script_kept_if script_kept_sum script_kept_option script_kept_prod script_kept_let

lemma script_kept_map_eff: "(\<And>x. script_kept (f x)) \<Longrightarrow> script_kept (map_eff f xs)"
  by (induction xs) (auto intro!: script_kept_bind world_progress)

lemma script_kept_draw [world_progress]: "script_kept draw"
  unfolding draw_def by (intro script_kept_bind world_progress script_kept_modify) simp
lemma script_kept_setActor [world_progress]: "script_kept (setActor n)" by (simp add: setActor_def script_kept_def)
lemma script_kept_auditor [world_progress]: "script_kept (auditor_Record ev)"
  unfolding auditor_Record_def Let_def by (intro script_kept_rules world_progress)
lemma script_kept_audit [world_progress]: "script_kept (audit_record cfg ev)"
  unfolding audit_record_def by (intro script_kept_rules world_progress)
lemma script_kept_sleep [world_progress]: "script_kept (io_sleep d)"
  unfolding io_sleep_def by (intro script_kept_rules world_progress script_kept_modify) simp

subsection \<open>Waiting and looping\<close>

lemma await_consumes: "consumes (await cfg)"
  by (rule progressI) (auto simp: await_def Let_def split: if_splits list.splits)

lemma loop_with_progress:
  assumes "\<And>x. progress isl (body x)" "script_len w < n" "run_state (loop_with n body x) w = (r, w')"
  shows "script_len w' \<le> script_len w \<and> r \<noteq> Inl IoFuel"
  using assms(2,3)
proof (induction n arbitrary: x w)
  case (Suc n)
  obtain r1 w1 where b: "run_state (body x) w = (r1, w1)" by fastforce
  note p = progressD[OF assms(1)[of x] b]
  show ?case
  proof (cases "\<exists>x'. r1 = Inr (Inl x')")
    case True
    then obtain x' where x': "r1 = Inr (Inl x')" by blast
    then have "run_state (loop_with n body x') w1 = (r, w')" using Suc.prems(2) b by (simp add: run_try_bind)
    moreover have "script_len w1 < script_len w" using p(3)[OF x'] by simp
    ultimately show ?thesis using Suc.IH[of w1 x'] Suc.prems(1) by linarith
  next
    case False
    then show ?thesis using Suc.prems(2) b p by (auto simp: run_try_bind io_return_def split: sum.splits)
  qed
qed simp

lemma steady_loop: "(\<And>x. progress isl (body x)) \<Longrightarrow> steady (io_loop body x)"
  by (rule progressI) (use loop_with_progress[of body] in \<open>fastforce simp: io_loop_def\<close>)

lemma loop_with_consumes:
  assumes "\<And>x. consumes (body x)" "run_state (loop_with n body x) w = (Inr r, w')"
  shows "script_len w' < script_len w"
  using assms(2)
proof (induction n arbitrary: x w)
  case 0
  then show ?case by (simp add: io_fail_def)
next
  case (Suc n)
  obtain r1 w1 where b: "run_state (body x) w = (r1, w1)" by fastforce
  have p: "r1 = Inr y \<Longrightarrow> script_len w1 < script_len w" for y using progressD(3)[OF assms(1)[of x] b] by blast
  show ?case
  proof (cases "\<exists>x'. r1 = Inr (Inl x')")
    case True
    then obtain x' where x': "r1 = Inr (Inl x')" by blast
    then have "run_state (loop_with n body x') w1 = (Inr r, w')" using Suc.prems b by (simp add: run_try_bind)
    from Suc.IH[OF this] p[OF x'] show ?thesis by linarith
  next
    case False
    then show ?thesis using Suc.prems b p by (auto simp: run_try_bind io_return_def split: sum.splits)
  qed
qed

lemma consumes_loop: "(\<And>x. consumes (body x)) \<Longrightarrow> consumes (io_loop body x)"
proof (rule progressI)
  fix w r w' assume b: "\<And>x. consumes (body x)" and r: "run_state (io_loop body x) w = (r, w')"
  have "script_len w' \<le> script_len w \<and> r \<noteq> Inl IoFuel"
    by (rule loop_with_progress[where body = body and n = "Suc (script_len w)" and x = x])
      (use b consumes_steady r in \<open>auto simp: io_loop_def\<close>)
  moreover have "r = Inr y \<Longrightarrow> script_len w' < script_len w" for y
    by (rule loop_with_consumes[where body = body and n = "Suc (script_len w)" and x = x and r = y]) (use b r in \<open>auto simp: io_loop_def\<close>)
  ultimately show "script_len w' \<le> script_len w \<and> r \<noteq> Inl IoFuel \<and> (\<forall>x. r = Inr x \<longrightarrow> True \<longrightarrow> script_len w' < script_len w)"
    by blast
qed

text \<open>A loop whose rounds make progress unless they leave with a value outside \<open>R\<close>.\<close>

lemma loop_with_progress_on:
  assumes "\<And>x. progress (\<lambda>r. case r of Inl _ \<Rightarrow> True | Inr y \<Rightarrow> R y) (body x)"
    "run_state (loop_with n body x) w = (Inr r, w')" "R r"
  shows "script_len w' < script_len w"
  using assms(2)
proof (induction n arbitrary: x w)
  case 0
  then show ?case by (simp add: io_fail_def)
next
  case (Suc n)
  obtain r1 w1 where b: "run_state (body x) w = (r1, w1)" by fastforce
  note p = progressD[OF assms(1)[of x] b]
  show ?case
  proof (cases "\<exists>x'. r1 = Inr (Inl x')")
    case True
    then obtain x' where x': "r1 = Inr (Inl x')" by blast
    then have "run_state (loop_with n body x') w1 = (Inr r, w')" using Suc.prems b by (simp add: run_try_bind)
    from Suc.IH[OF this] p(3)[OF x'] show ?thesis by simp
  next
    case False
    then have "r1 = Inr (Inr r)" "w' = w1" using Suc.prems b by (auto simp: run_try_bind io_return_def split: sum.splits)
    then show ?thesis using p(3)[of "Inr r"] assms(3) by simp
  qed
qed

lemma progress_loop:
  assumes "\<And>x. progress (\<lambda>r. case r of Inl _ \<Rightarrow> True | Inr y \<Rightarrow> R y) (body x)"
  shows "progress R (io_loop body x)"
proof (rule progressI)
  fix w r w' assume r: "run_state (io_loop body x) w = (r, w')"
  have "progress isl (body y)" for y by (rule progress_weaken[OF assms]) (auto simp: isl_def)
  then have "script_len w' \<le> script_len w \<and> r \<noteq> Inl IoFuel"
    by (rule loop_with_progress[where n = "Suc (script_len w)"]) (use r in \<open>auto simp: io_loop_def\<close>)
  moreover have "r = Inr y \<Longrightarrow> R y \<Longrightarrow> script_len w' < script_len w" for y
    by (rule loop_with_progress_on[where body = body and n = "Suc (script_len w)" and x = x and r = y, OF assms])
      (use r in \<open>auto simp: io_loop_def\<close>)
  ultimately show "script_len w' \<le> script_len w \<and> r \<noteq> Inl IoFuel \<and> (\<forall>y. r = Inr y \<longrightarrow> R y \<longrightarrow> script_len w' < script_len w)"
    by blast
qed

text \<open>The outcome of \<open>m\<close> is inspected as a value.\<close>

lemma progress_catch:
  assumes "progress P m" "\<And>e. e \<noteq> IoFuel \<Longrightarrow> progress Q (k (Inl e))"
    "\<And>x. P x \<Longrightarrow> steady (k (Inr x))" "\<And>x. \<not> P x \<Longrightarrow> progress Q (k (Inr x))"
  shows "progress Q (do { r \<leftarrow> m; k r })"
proof (rule progressI)
  fix w r w' assume r: "run_state (do { r \<leftarrow> m; k r }) w = (r, w')"
  obtain r1 w1 where m: "run_state m w = (r1, w1)" by fastforce
  then have k: "run_state (k r1) w1 = (r, w')" using r by simp
  note p = progressD[OF assms(1) m]
  show "script_len w' \<le> script_len w \<and> r \<noteq> Inl IoFuel \<and> (\<forall>x. r = Inr x \<longrightarrow> Q x \<longrightarrow> script_len w' < script_len w)"
  proof (cases "\<exists>x. r1 = Inr x \<and> P x")
    case True
    then obtain x where x: "r1 = Inr x" "P x" by blast
    from progressD[OF assms(3)[OF x(2)] k[unfolded x(1)]] p(3)[OF x] show ?thesis by linarith
  next
    case False
    then have "progress Q (k r1)" using assms(2,4) p(2) by (cases r1) auto
    from progressD[OF this k] p(1) show ?thesis by (metis le_trans less_le_trans)
  qed
qed

lemmas progress_catch_use = progress_catch[where P = "\<lambda>_. True", simplified]
lemmas progress_catch_steady = progress_catch[where P = "\<lambda>_. False", simplified]

lemma HandleScreenAlt_consumes: "consumes (HandleScreenAlt cfg v ks)"
  unfolding HandleScreenAlt_def
  by (intro consumes_loop progress_eff world_progress progress_bind_use[OF await_consumes])
    (auto split: session_event.split intro!: progress_if steady_leave steady_again progress_fail)

lemma handleScreen_consumes: "consumes (handleScreen cfg v ks)"
  unfolding handleScreen_def
  by (intro consumes_loop progress_bind_use[OF HandleScreenAlt_consumes] progress_if steady_leave steady_again)

section \<open>Invariants of the shared state\<close>

definition world_inv :: "(shared \<Rightarrow> bool) \<Rightarrow> world \<Rightarrow> bool" where
  "world_inv J w \<longleftrightarrow> J (w_shared w) \<and> (\<forall>i\<in>set (w_script w). \<forall>s. J s \<longrightarrow> J (in_env i s))"

abbreviation db_inv :: "(db \<Rightarrow> bool) \<Rightarrow> world \<Rightarrow> bool" where
  "db_inv I \<equiv> world_inv (\<lambda>s. I (sh_db s))"

lemma keeps_await: "keeps (world_inv J) (await cfg)"
  by (auto simp: hoare_def await_def world_inv_def Let_def split: if_splits list.splits)

lemma keeps_loop_with: "(\<And>x. keeps I (body x)) \<Longrightarrow> keeps I (loop_with n body x)"
  by (induction n arbitrary: x) (auto simp: io_fail_def io_return_def intro!: keeps_rules)

lemma keeps_loop: "(\<And>x. keeps I (body x)) \<Longrightarrow> keeps I (io_loop body x)"
  unfolding io_loop_def by (intro keeps_rules keeps_loop_with)

lemma keeps_io_return: "keeps I (io_return x)" by (simp add: io_return_def keeps_return)
lemma keeps_io_fail: "keeps I (io_fail e)" by (simp add: io_fail_def keeps_return)
lemma keeps_leave: "keeps I (leave y)" by (simp add: leave_def keeps_io_return)
lemma keeps_again: "keeps I (again y)" by (simp add: again_def keeps_io_return)
lemma keeps_lift: "keeps I m \<Longrightarrow> keeps I (io_lift m)" unfolding io_lift_def by (intro keeps_rules keeps_io_return)

lemmas io_keeps = keeps_rules keeps_io_return keeps_io_fail keeps_leave keeps_again keeps_lift keeps_loop

lemma keeps_other [world_keeps]:
  "keeps (world_inv J) (emit ob)" "keeps (world_inv J) (setActor n)" "keeps (world_inv J) clock"
  by (auto simp: emit_def setActor_def clock_def world_inv_def hoare_def)

lemma keeps_draw [world_keeps]: "keeps (world_inv J) draw"
  by (auto simp: draw_def world_inv_def hoare_def)

lemma keeps_map_eff: "(\<And>x. keeps I (f x)) \<Longrightarrow> keeps I (map_eff f xs)"
  by (induction xs) (auto intro!: keeps_rules)

lemma keeps_stm: "keeps I m \<Longrightarrow> keeps (db_inv I) (stm m)"
  unfolding stm_def by (rule hoare_zoom[where P = I and Q = "\<lambda>_. I"]) (auto simp: world_inv_def w_db_def set_db_def)

lemma keeps_throttle [world_keeps]: "keeps (db_inv I) (on_throttle f)"
  by (auto simp: on_throttle_def world_inv_def hoare_def split: prod.split)

lemma keeps_registry [world_keeps]: "keeps (db_inv I) (on_registry f)"
  by (auto simp: on_registry_def world_inv_def hoare_def split: prod.split)

lemma keeps_sleep [world_keeps]: "keeps (world_inv J) (io_sleep d)"
  by (auto simp: io_sleep_def emit_def world_inv_def hoare_def)

lemma keeps_HandleScreenAlt: "keeps (world_inv J) (HandleScreenAlt cfg v ks)"
  unfolding HandleScreenAlt_def
  by (intro io_keeps world_keeps keeps_await) (auto split: session_event.split intro: io_keeps)

lemma keeps_handleScreen [world_keeps]: "keeps (world_inv J) (handleScreen cfg v ks)"
  unfolding handleScreen_def by (intro io_keeps keeps_HandleScreenAlt)

section \<open>Loops with an invariant of their variables\<close>

text \<open>The condition after a round: \<open>I\<close>, and \<open>P\<close> of the variables of the next round.\<close>

definition round :: "(world \<Rightarrow> bool) \<Rightarrow> ('x \<Rightarrow> bool) \<Rightarrow> io_err + ('x + 'r) \<Rightarrow> world \<Rightarrow> bool" where
  "round I P r w \<longleftrightarrow> I w \<and> (\<forall>x. r = Inr (Inl x) \<longrightarrow> P x)"

lemma round_again: "P x \<Longrightarrow> hoare I (again x) (round I P)"
  by (simp add: again_def io_return_def round_def hoare_def)
lemma round_leave: "hoare I (leave y) (round I P)"
  by (simp add: leave_def io_return_def round_def hoare_def)
lemma round_fail: "hoare I (io_fail e) (round I P)"
  by (simp add: io_fail_def round_def hoare_def)
lemma round_try: "keeps I m \<Longrightarrow> (\<And>x. hoare I (k x) (round I P)) \<Longrightarrow> hoare I (try_bind m k) (round I P)"
  by (rule hoare_try_bind[where R = "\<lambda>_. I"]) (auto simp: round_def)
lemma round_bind: "keeps I m \<Longrightarrow> (\<And>x. hoare I (k x) (round I P)) \<Longrightarrow> hoare I (do { x \<leftarrow> m; k x }) (round I P)"
  by (rule hoare_bind)
lemma round_keeps: "hoare I m (round I P) \<Longrightarrow> keeps I m"
  by (erule hoare_strengthen_post) (simp add: round_def)
lemma round_pure:
  "hoare I m (\<lambda>r w. I w \<and> p r) \<Longrightarrow> (\<And>x. p x \<Longrightarrow> hoare I (k x) (round I P)) \<Longrightarrow> hoare I (do { x \<leftarrow> m; k x }) (round I P)"
  by (erule hoare_bind) (simp add: hoare_def)

lemmas round_rules = round_again round_leave round_fail round_try hoare_if hoare_sum hoare_option hoare_prod hoare_list

lemma keeps_loop_inv:
  assumes "\<And>x. P x \<Longrightarrow> hoare I (body x) (round I P)" "P x"
  shows "keeps I (io_loop body x)"
proof -
  have "keeps I (loop_with n body x)" if "P x" for n x
    using that
  proof (induction n arbitrary: x)
    case 0
    show ?case by (simp add: keeps_io_fail)
  next
    case (Suc n)
    have step: "hoare (\<lambda>w. round I P (Inr r) w) (case r of Inl x' \<Rightarrow> loop_with n body x' | Inr y \<Rightarrow> io_return y) (\<lambda>_. I)" for r
    proof (cases r)
      case (Inl x')
      have "hoare (\<lambda>w. round I P (Inr r) w) (loop_with n body x') (\<lambda>_. I)" if "\<not> P x'"
        using that Inl by (simp add: hoare_def round_def)
      moreover have "hoare (\<lambda>w. round I P (Inr r) w) (loop_with n body x') (\<lambda>_. I)" if "P x'"
        by (rule hoare_weaken_pre[OF Suc.IH[OF that]]) (simp add: round_def)
      ultimately show ?thesis using Inl by auto
    next
      case (Inr y)
      then show ?thesis by (auto simp: hoare_def round_def io_return_def)
    qed
    show ?case unfolding loop_with.simps
      by (rule hoare_try_bind[OF assms(1)[OF Suc.prems]]) (simp add: round_def, rule step)
  qed
  with assms(2) show ?thesis unfolding io_loop_def by (intro keeps_rules) auto
qed

text \<open>The same for progress: the variables reached satisfy \<open>P\<close>, and then a round makes progress.\<close>

lemma steady_loop_inv:
  assumes "\<And>x. P x \<Longrightarrow> progress isl (body x)" "\<And>x. P x \<Longrightarrow> hoare (\<lambda>_. True) (body x) (round (\<lambda>_. True) P)" "P x"
  shows "steady (io_loop body x)"
proof -
  have "script_len w' \<le> script_len w \<and> r \<noteq> Inl IoFuel"
    if "P x" "script_len w < n" "run_state (loop_with n body x) w = (r, w')" for x n w r w'
    using that
  proof (induction n arbitrary: x w)
    case (Suc n)
    obtain r1 w1 where b: "run_state (body x) w = (r1, w1)" by fastforce
    note p = progressD[OF assms(1)[OF Suc.prems(1)] b]
    show ?case
    proof (cases "\<exists>x'. r1 = Inr (Inl x')")
      case True
      then obtain x' where x': "r1 = Inr (Inl x')" by blast
      have "P x'" using hoareD[OF assms(2)[OF Suc.prems(1)] _ b] x' by (simp add: round_def)
      moreover have "run_state (loop_with n body x') w1 = (r, w')" using Suc.prems(3) b x' by (simp add: run_try_bind)
      moreover have "script_len w1 < script_len w" using p(3)[OF x'] by simp
      ultimately show ?thesis using Suc.IH[of x' w1] Suc.prems(2) by linarith
    next
      case False
      then show ?thesis using Suc.prems(3) b p by (auto simp: run_try_bind io_return_def split: sum.splits)
    qed
  qed simp
  then show ?thesis using assms(3) by (intro progressI) (fastforce simp: io_loop_def)
qed

section \<open>What is written to the log\<close>

definition log_after :: "observation list \<Rightarrow> (observation \<Rightarrow> bool) \<Rightarrow> world \<Rightarrow> bool" where
  "log_after pre p w \<longleftrightarrow> (\<exists>obs. w_log w = pre @ obs \<and> list_all p obs)"

lemma log_after_same: "w_log w' = w_log w \<Longrightarrow> log_after pre p w \<Longrightarrow> log_after pre p w'"
  by (simp add: log_after_def)

lemma log_after_start: "log_after (w_log w) p w" by (simp add: log_after_def)

lemma keeps_log_eff: "(\<And>w. w_log (snd (run_state m w)) = w_log w) \<Longrightarrow> keeps (log_after pre p) m"
proof (rule hoareI)
  fix w x w' assume "\<And>w. w_log (snd (run_state m w)) = w_log w" "log_after pre p w" "run_state m w = (x, w')"
  then show "log_after pre p w'" by (metis log_after_same snd_conv)
qed

lemma keeps_log_emit: "p ob \<Longrightarrow> keeps (log_after pre p) (emit ob)"
  by (fastforce simp: emit_def hoare_def log_after_def)

lemma keeps_log_ops:
  "keeps (log_after pre p) (stm m)" "keeps (log_after pre p) (on_throttle f)" "keeps (log_after pre p) (on_registry g)"
  "keeps (log_after pre p) (setActor n)" "keeps (log_after pre p) clock" "keeps (log_after pre p) draw"
  "keeps (log_after pre p) (await cfg)"
  by (rule keeps_log_eff,
      auto simp: stm_def run_zoom set_db_def on_throttle_def on_registry_def setActor_def clock_def draw_def await_def Let_def
        split: prod.split if_splits list.splits)+

lemma keeps_log_audit:
  "(\<And>ev'. ae_Kind ev' = ae_Kind ev \<Longrightarrow> p (OAudit ev')) \<Longrightarrow> keeps (log_after pre p) (audit_record cfg ev)"
  unfolding audit_record_def auditor_Record_def Let_def by (intro io_keeps keeps_log_ops keeps_log_emit) auto

lemma keeps_log_sleep:
  assumes "p (OSleep d)" shows "keeps (log_after pre p) (io_sleep d)"
  unfolding io_sleep_def
  by (rule hoare_if, rule keeps_return, rule keeps_bind[OF keeps_log_emit[of p, OF assms] keeps_log_eff]) simp

lemma keeps_log_screen: "p (OView v) \<Longrightarrow> keeps (log_after pre p) (handleScreen cfg v ks)"
  unfolding handleScreen_def HandleScreenAlt_def
  by (intro io_keeps keeps_log_ops keeps_log_emit) (auto split: session_event.split intro: io_keeps)

lemmas keeps_log = io_keeps keeps_log_ops keeps_map_eff

text \<open>\<open>adds p m\<close>: everything \<open>m\<close> writes satisfies \<open>p\<close>.\<close>

definition adds :: "(observation \<Rightarrow> bool) \<Rightarrow> (world, 'a) state \<Rightarrow> bool" where
  "adds p m \<longleftrightarrow> (\<forall>pre. keeps (log_after pre p) m)"

lemma addsI: "(\<And>pre. keeps (log_after pre p) m) \<Longrightarrow> adds p m" by (simp add: adds_def)

lemma adds_keeps: "adds p m \<Longrightarrow> keeps (log_after pre p) m" by (simp add: adds_def)

lemma addsD:
  assumes "adds p m" "run_state m w = (r, w')"
  obtains obs where "w_log w' = w_log w @ obs" "list_all p obs"
proof -
  have "log_after (w_log w) p w'"
    using hoareD[OF assms(1)[unfolded adds_def, rule_format, of "w_log w"] log_after_start assms(2)] .
  then show ?thesis using that by (auto simp: log_after_def)
qed

lemma adds_mono: "adds p m \<Longrightarrow> (\<And>ob. p ob \<Longrightarrow> q ob) \<Longrightarrow> adds q m"
proof (rule addsI, rule hoareI)
  fix pre w r w' assume m: "adds p m" "\<And>ob. p ob \<Longrightarrow> q ob" "log_after pre q w" "run_state m w = (r, w')"
  obtain obs where "w_log w' = w_log w @ obs" "list_all p obs" using addsD[OF m(1,4)] .
  moreover obtain obs0 where "w_log w = pre @ obs0" "list_all q obs0" using m(3) by (auto simp: log_after_def)
  ultimately show "log_after pre q w'" using m(2) by (auto simp: log_after_def list_all_iff)
qed

end
