(* ===== verification/Drivers.thy ===== *)
theory Drivers
  imports World_Facts
begin

text \<open>
  The screen drivers of internal/ui3270: the mapping of responses to actions (action.go,
  editorscreen.go), the renderer (renderer.go), and the loops RunList, RunForm, RunDetail,
  RunSnapshotList and RunEditor. A driver is given the caller's closures in a configuration
  record; variables a closure captures are the state \<open>'s\<close> it returns.
\<close>

section \<open>Actions\<close>

record list_action =
  la_Cmd :: "char option"
  la_Row :: nat
  la_PF :: nat

definition pf_action :: "nat \<Rightarrow> list_action" where
  "pf_action n = \<lparr>la_Cmd = None, la_Row = 0, la_PF = n\<rparr>"

definition plain_enter :: "list_action \<Rightarrow> bool" where
  "plain_enter act \<longleftrightarrow> la_Cmd act = None \<and> la_PF act = 0"

fun first_cmd :: "response \<Rightarrow> nat \<Rightarrow> nat list \<Rightarrow> list_action" where
  "first_cmd resp n [] = pf_action 0"
| "first_cmd resp n (i # is) =
     (case to_upper (trim_space (resp_value resp (''cmd'' @ itoa (int i)))) of
        [] \<Rightarrow> first_cmd resp n is
      | c # _ \<Rightarrow> \<lparr>la_Cmd = Some c, la_Row = i, la_PF = 0\<rparr>)"

definition listAction :: "response \<Rightarrow> nat \<Rightarrow> list_action" where
  "listAction resp nRows =
     (if rs_AID resp = AIDPF 3 then pf_action 3
      else if rs_AID resp = AIDPF 4 then pf_action 4
      else if rs_AID resp = AIDPF 7 then pf_action 7
      else if rs_AID resp = AIDPF 8 then pf_action 8
      else first_cmd resp nRows [0..<nRows])"

definition pfAID :: "nat \<Rightarrow> aid option" where
  "pfAID n = (if n = 11 then Some (AIDPF 11) else None)"

definition detailAction :: "response \<Rightarrow> nat \<Rightarrow> list_action" where
  "detailAction resp actPF =
     (if rs_AID resp = AIDPF 3 then pf_action 3
      else if pfAID actPF = Some (rs_AID resp) then pf_action actPF
      else pf_action 0)"

type_synonym form_values = "string \<Rightarrow> string"

text \<open>\<open>None\<close> is Cancel. Hidden fields are not trimmed.\<close>

definition formAction :: "response \<Rightarrow> form_field list \<Rightarrow> form_values option" where
  "formAction resp ffs =
     (if rs_AID resp = AIDPF 3 then None
      else Some (\<lambda>n. case find (\<lambda>f. ff_Name f = n) (rev ffs) of
                       None \<Rightarrow> []
                     | Some f \<Rightarrow> if ff_Hidden f then resp_value resp n else trim_space (resp_value resp n)))"

record editor_action =
  ea_Prefix :: "(nat \<times> char) list"
  ea_Text :: "(nat \<times> string) list"
  ea_PF :: nat

definition editorAction :: "response \<Rightarrow> nat \<Rightarrow> editor_action" where
  "editorAction resp nLines =
     \<lparr>ea_Prefix = List.map_filter (\<lambda>i. case map_of (rs_Values resp) (''pfx'' @ itoa (int i)) of
          None \<Rightarrow> None
        | Some v \<Rightarrow> (case to_upper (trim_space v) of [] \<Rightarrow> None | c # _ \<Rightarrow> Some (i, c))) [0..<nLines],
      ea_Text = List.map_filter (\<lambda>i. map_option (\<lambda>v. (i, trim_right (\<lambda>c. c = CHR '' '' \<or> c = CHR 0x00) v))
          (map_of (rs_Values resp) (''txt'' @ itoa (int i)))) [0..<nLines],
      ea_PF = (if rs_AID resp = AIDPF 3 then 3 else if rs_AID resp = AIDPF 7 then 7
               else if rs_AID resp = AIDPF 8 then 8 else if rs_AID resp = AIDPF 12 then 12 else 0)\<rparr>"

section \<open>Renderer\<close>

definition listExitKeys :: "aid list" where "listExitKeys = [AIDPF 3, AIDPF 4, AIDPF 7, AIDPF 8]"
definition snapshotExitKeys :: "aid list" where "snapshotExitKeys = [AIDPF 3, AIDPF 7, AIDPF 8]"
definition editorExitKeys :: "aid list" where "editorExitKeys = [AIDPF 3, AIDPF 7, AIDPF 8, AIDPF 12]"

text \<open>\<open>go3270Renderer.call\<close> re-presents on the silent keys exactly like \<open>handleScreen\<close>.\<close>

definition renderer_call :: "settings \<Rightarrow> view \<Rightarrow> aid list \<Rightarrow> response io" where
  "renderer_call cfg v exit = handleScreen cfg v exit"

definition r_List :: "settings \<Rightarrow> list_view \<Rightarrow> list_action io" where
  "r_List cfg v = try_bind (renderer_call cfg (VList v) listExitKeys)
     (\<lambda>resp. io_return (listAction resp (length (lv_Rows v))))"

definition r_Form :: "settings \<Rightarrow> form_view \<Rightarrow> form_values option io" where
  "r_Form cfg v = try_bind (renderer_call cfg (VForm v) [AIDPF 3]) (\<lambda>resp. io_return (formAction resp (fv_Fields v)))"

definition r_Snapshot :: "settings \<Rightarrow> snapshot_view \<Rightarrow> list_action io" where
  "r_Snapshot cfg v = try_bind (renderer_call cfg (VSnapshot v) snapshotExitKeys)
     (\<lambda>resp. io_return (listAction resp (length (sv_Rows v))))"

definition r_Detail :: "settings \<Rightarrow> detail_view \<Rightarrow> unit io" where
  "r_Detail cfg v = try_bind (renderer_call cfg (VDetail v) [AIDPF 3]) (\<lambda>_. io_return ())"

definition r_DetailAct :: "settings \<Rightarrow> detail_view \<Rightarrow> nat \<Rightarrow> list_action io" where
  "r_DetailAct cfg v actPF =
     try_bind (renderer_call cfg (VDetail v) (AIDPF 3 # (case pfAID actPF of None \<Rightarrow> [] | Some a \<Rightarrow> [a])))
       (\<lambda>resp. io_return (detailAction resp actPF))"

definition r_Editor :: "settings \<Rightarrow> editor_view \<Rightarrow> editor_action io" where
  "r_Editor cfg v = try_bind (renderer_call cfg (VEditor v) editorExitKeys)
     (\<lambda>resp. io_return (editorAction resp (length (ev_Lines v))))"

section \<open>RunList (list.go)\<close>

record 'a command =
  cm_Key :: char
  cm_Commit :: "'a \<Rightarrow> string io"
  cm_Confirm :: "('a \<Rightarrow> string \<times> string) option"

record 'a list_config =
  lc_Title :: string
  lc_Header :: string
  lc_Legend :: string
  lc_PFHelp :: string
  lc_Rows :: int
  lc_Fetch :: "((string \<times> 'a) list \<times> string) eff"
  lc_Cmds :: "'a command list"
  lc_Add :: "string io option"

definition findCmd :: "'a command list \<Rightarrow> char \<Rightarrow> 'a command option" where
  "findCmd cmds key = find (\<lambda>c. cm_Key c = key) cmds"

record 'a list_state =
  ls_page :: int
  ls_errMsg :: string
  ls_pending :: "('a command \<times> 'a) option"

definition list_at :: "int \<Rightarrow> string \<Rightarrow> 'a list_state" where
  "list_at page msg = \<lparr>ls_page = page, ls_errMsg = msg, ls_pending = None\<rparr>"

text \<open>What an action does when no confirmation is pending.\<close>

definition list_dispatch ::
  "'a list_config \<Rightarrow> int \<Rightarrow> bool \<Rightarrow> (string \<times> 'a) list \<Rightarrow> list_action \<Rightarrow> ('a list_state + unit) io" where
  "list_dispatch lc page further pageRows act =
     (if la_PF act = 3 then leave ()
      else if la_PF act = 4 then
        (case lc_Add lc of
           None \<Rightarrow> again (list_at page [])
         | Some add \<Rightarrow> try_bind add (\<lambda>msg. again (list_at page msg)))
      else if la_PF act = 7 then again (list_at (page - 1) [])
      else if la_PF act = 8 then again (list_at (if further then page + 1 else page) [])
      else case la_Cmd act of
        None \<Rightarrow> again (list_at page [])
      | Some key \<Rightarrow>
          if length pageRows \<le> la_Row act then again (list_at page [])
          else let item = snd (pageRows ! la_Row act)
               in case findCmd (lc_Cmds lc) key of
                    None \<Rightarrow> again (list_at page (''INVALID COMMAND: '' @ [key]))
                  | Some cmd \<Rightarrow>
                      (case cm_Confirm cmd of
                         None \<Rightarrow> try_bind (cm_Commit cmd item) (\<lambda>msg. again (list_at page msg))
                       | Some confirm \<Rightarrow>
                           (case confirm item of
                              (prompt, blocked) \<Rightarrow>
                                if blocked \<noteq> [] then again (list_at page blocked)
                                else again \<lparr>ls_page = page, ls_errMsg = prompt, ls_pending = Some (cmd, item)\<rparr>)))"

definition list_step :: "settings \<Rightarrow> 'a list_config \<Rightarrow> 'a list_state \<Rightarrow> ('a list_state + unit) io" where
  "list_step cfg lc s = do {
     fetched \<leftarrow> lc_Fetch lc;
     let ferr = snd fetched;
     let rows = (if ferr \<noteq> [] then [] else fst fetched);
     let errMsg = (if ferr \<noteq> [] then ferr else ls_errMsg s);
     let pending = (if ferr \<noteq> [] then None else ls_pending s);
     (case pageBounds (ls_page s) (int (length rows)) (lc_Rows lc) of
        (page, start, end, rowInfo) \<Rightarrow>
          let pageRows = slice rows start end;
              dispatch = list_dispatch lc page (end < int (length rows)) pageRows
          in try_bind (r_List cfg \<lparr>lv_Title = lc_Title lc, lv_RowInfo = rowInfo, lv_Header = lc_Header lc,
                  lv_Rows = map fst pageRows, lv_Legend = lc_Legend lc, lv_ErrMsg = errMsg, lv_PFHelp = lc_PFHelp lc\<rparr>)
               (\<lambda>act. case pending of
                  None \<Rightarrow> dispatch act
                | Some (cmd, target) \<Rightarrow>
                    if plain_enter act then try_bind (cm_Commit cmd target) (\<lambda>msg. again (list_at page msg))
                    else if la_PF act = 3 then again (list_at page [])
                    else dispatch act))
   }"

definition RunList :: "settings \<Rightarrow> 'a list_config \<Rightarrow> unit io" where
  "RunList cfg lc = io_loop (list_step cfg lc) (list_at 0 [])"

section \<open>RunForm (form.go)\<close>

record 's form_config =
  fc_Title :: string
  fc_Intro :: string
  fc_PFHelp :: string
  fc_Fields :: "'s \<Rightarrow> form_field list"
  fc_Submit :: "'s \<Rightarrow> form_values \<Rightarrow> (string \<times> 's) io"
  fc_StayOnSave :: bool
  fc_DotLeader :: bool
  fc_Compact :: bool

definition form_step :: "settings \<Rightarrow> 's form_config \<Rightarrow> string \<times> 's \<Rightarrow> ((string \<times> 's) + 's) io" where
  "form_step cfg fc st =
     (case st of
        (errMsg, s) \<Rightarrow>
          try_bind (r_Form cfg \<lparr>fv_Title = fc_Title fc, fv_ErrMsg = errMsg, fv_Fields = fc_Fields fc s, fv_Intro = fc_Intro fc,
              fv_PFHelp = fc_PFHelp fc, fv_DotLeader = fc_DotLeader fc, fv_Compact = fc_Compact fc\<rparr>)
            (\<lambda>act. case act of
               None \<Rightarrow> leave s
             | Some vals \<Rightarrow>
                 try_bind (fc_Submit fc s vals) (\<lambda>res. case res of
                   (msg, s') \<Rightarrow> if msg \<noteq> [] then again (msg, s')
                                else if fc_StayOnSave fc then again ([], s')
                                else leave s')))"

definition RunForm :: "settings \<Rightarrow> 's form_config \<Rightarrow> 's \<Rightarrow> 's io" where
  "RunForm cfg fc s0 = io_loop (form_step cfg fc) ([], s0)"

section \<open>RunDetail (detail.go)\<close>

record detail_config =
  dc_View :: detail_view
  dc_ActPF :: nat
  dc_DonePFHelp :: string
  dc_Confirm :: "string \<times> string"
  dc_OnAct :: "(string \<times> bool) eff"

record detail_state =
  ds_view :: detail_view
  ds_armed :: bool
  ds_acted :: bool
  ds_refresh :: bool

definition detail_step :: "settings \<Rightarrow> detail_config \<Rightarrow> detail_state \<Rightarrow> (detail_state + bool) io" where
  "detail_step cfg dc s =
     (let actPF = (if ds_acted s then 0 else dc_ActPF dc); v = ds_view s
      in try_bind (r_DetailAct cfg v actPF) (\<lambda>act.
           if la_PF act = 3 then leave (ds_refresh s)
           else if actPF \<noteq> 0 \<and> la_PF act = actPF then
             (if ds_armed s then do {
                r \<leftarrow> dc_OnAct dc;
                again \<lparr>ds_view = v\<lparr>dv_Message := fst r, dv_PFHelp := dc_DonePFHelp dc\<rparr>, ds_armed = False,
                       ds_acted = True, ds_refresh = snd r\<rparr>
              }
              else case dc_Confirm dc of
                (prompt, blocked) \<Rightarrow>
                  if blocked \<noteq> [] then again (s\<lparr>ds_view := v\<lparr>dv_Message := blocked\<rparr>\<rparr>)
                  else again (s\<lparr>ds_view := v\<lparr>dv_Message := prompt\<rparr>, ds_armed := True\<rparr>))
           else again (s\<lparr>ds_armed := False, ds_view := (if ds_acted s then v else v\<lparr>dv_Message := []\<rparr>)\<rparr>)))"

definition RunDetail :: "settings \<Rightarrow> detail_config \<Rightarrow> bool io" where
  "RunDetail cfg dc =
     io_loop (detail_step cfg dc) \<lparr>ds_view = dc_View dc, ds_armed = False, ds_acted = False, ds_refresh = False\<rparr>"

section \<open>RunSnapshotList (snapshotlist.go)\<close>

record 'a snapshot_config =
  sc_Title :: string
  sc_Legend :: string
  sc_PFHelp :: string
  sc_Empty :: string
  sc_Head :: snapshot_row
  sc_Rows :: int
  sc_Wide :: bool
  sc_Fetch :: "((snapshot_row \<times> 'a) list \<times> string \<times> string) eff"
  sc_OnSelect :: "('a \<Rightarrow> bool io) option"
  sc_ActCmd :: "char option"
  sc_Confirm :: "('a \<Rightarrow> string \<times> string) option"
  sc_OnAct :: "('a \<Rightarrow> (bool \<times> string) eff) option"

text \<open>
  \<open>ss_page\<close> is the \<open>page\<close> declared before the loop. Inside the loop the statement
  \<open>page, start, end, rowInfo := pageBounds(page, ...)\<close> declares a new \<open>page\<close>, which is the one
  the key handling then steps; it is gone at the end of the round, so no step below changes
  \<open>ss_page\<close>.
\<close>

record 'a snapshot_state =
  ss_rows :: "(snapshot_row \<times> 'a) list"
  ss_asOf :: string
  ss_errMsg :: string
  ss_page :: int
  ss_loaded :: bool
  ss_pending :: "'a option"

definition snapshot_load :: "'a snapshot_config \<Rightarrow> 'a snapshot_state \<Rightarrow> 'a snapshot_state eff" where
  "snapshot_load sc s =
     (if ss_loaded s then return_st s
      else do {
        f \<leftarrow> sc_Fetch sc;
        (case f of (rows, asOf, ferr) \<Rightarrow>
           return_st (if ferr \<noteq> [] then s\<lparr>ss_rows := [], ss_asOf := asOf, ss_errMsg := ferr, ss_loaded := True\<rparr>
                      else s\<lparr>ss_rows := rows, ss_asOf := asOf, ss_loaded := True\<rparr>))
      })"

definition snapshot_dispatch ::
  "'a snapshot_config \<Rightarrow> 'a snapshot_state \<Rightarrow> (snapshot_row \<times> 'a) list \<Rightarrow> list_action \<Rightarrow> ('a snapshot_state + unit) io" where
  "snapshot_dispatch sc s0 pageRows act =
     (let s = s0\<lparr>ss_errMsg := []\<rparr>; idle = s\<lparr>ss_pending := None\<rparr>; reload = idle\<lparr>ss_loaded := False\<rparr>
      in if la_PF act = 3 then leave ()
         else if la_PF act = 7 then again idle
         else if la_PF act = 8 then again idle
         else if sc_ActCmd sc \<noteq> None \<and> la_Cmd act = sc_ActCmd sc then
           (if length pageRows \<le> la_Row act then again idle
            else case ss_pending s of
              Some target \<Rightarrow>
                (case sc_OnAct sc of
                   None \<Rightarrow> again idle
                 | Some onAct \<Rightarrow> do {
                     r \<leftarrow> onAct target;
                     again ((if fst r then reload else idle)\<lparr>ss_errMsg := snd r\<rparr>)
                   })
            | None \<Rightarrow>
                (case sc_Confirm sc of
                   None \<Rightarrow> again s
                 | Some confirm \<Rightarrow>
                     let item = snd (pageRows ! la_Row act)
                     in case confirm item of
                          (prompt, blocked) \<Rightarrow>
                            if blocked \<noteq> [] then again (s\<lparr>ss_errMsg := blocked\<rparr>)
                            else again (s\<lparr>ss_pending := Some item, ss_errMsg := prompt\<rparr>)))
         else if la_Cmd act = Some (CHR ''S'') then
           (case sc_OnSelect sc of
              None \<Rightarrow> again idle
            | Some onSelect \<Rightarrow>
                if length pageRows \<le> la_Row act then again idle
                else try_bind (onSelect (snd (pageRows ! la_Row act))) (\<lambda>refresh. again (if refresh then reload else idle)))
         else if plain_enter act then again reload
         else again idle)"

definition snapshot_step :: "settings \<Rightarrow> 'a snapshot_config \<Rightarrow> 'a snapshot_state \<Rightarrow> ('a snapshot_state + unit) io" where
  "snapshot_step cfg sc s0 = do {
     s \<leftarrow> snapshot_load sc s0;
     (case pageBounds (ss_page s) (int (length (ss_rows s))) (sc_Rows sc) of
        (page, start, end, rowInfo) \<Rightarrow>
          let pageRows = slice (ss_rows s) start end
          in try_bind (r_Snapshot cfg \<lparr>sv_Title = sc_Title sc, sv_RowInfo = rowInfo, sv_AsOf = ss_asOf s, sv_Legend = sc_Legend sc,
                 sv_ErrMsg = ss_errMsg s, sv_PFHelp = sc_PFHelp sc, sv_Empty = sc_Empty sc, sv_Head = sc_Head sc,
                 sv_Rows = map fst pageRows, sv_Wide = sc_Wide sc\<rparr>)
               (snapshot_dispatch sc s pageRows))
   }"

definition RunSnapshotList :: "settings \<Rightarrow> 'a snapshot_config \<Rightarrow> unit io" where
  "RunSnapshotList cfg sc = io_loop (snapshot_step cfg sc)
     \<lparr>ss_rows = [], ss_asOf = [], ss_errMsg = [], ss_page = 0, ss_loaded = False, ss_pending = None\<rparr>"

section \<open>RunEditor (editor.go)\<close>

definition editorTextMax :: nat where "editorTextMax = 76"

definition apply_one :: "char \<Rightarrow> nat \<Rightarrow> string list \<Rightarrow> string list" where
  "apply_one c i ls =
     (if c = CHR ''I'' then take (i + 1) ls @ [[]] @ drop (i + 1) ls
      else if c = CHR ''D'' then take i ls @ drop (i + 1) ls
      else if c = CHR ''R'' then take (i + 1) ls @ [ls ! i] @ drop (i + 1) ls
      else ls)"

definition valid_prefix :: "char \<Rightarrow> bool" where
  "valid_prefix c \<longleftrightarrow> c = CHR ''I'' \<or> c = CHR ''D'' \<or> c = CHR ''R''"

text \<open>The commands of one transmission: at most one per line (a Go map). Indices descend.\<close>

definition applyPrefix :: "string list \<Rightarrow> (nat \<times> char) list \<Rightarrow> string list \<times> string" where
  "applyPrefix ls cmds =
     (case find (\<lambda>ic. \<not> valid_prefix (snd ic)) cmds of
        Some (_, c) \<Rightarrow> (ls, ''INVALID LINE COMMAND: '' @ [c])
      | None \<Rightarrow>
          let todo = rev (sort_key fst (filter (\<lambda>ic. fst ic < length ls) cmds));
              ls' = fold (\<lambda>(i, c). apply_one c i) todo ls
          in (if ls' = [] then [[]] else ls', []))"

record 's editor_config =
  ec_Title :: string
  ec_Rows :: int
  ec_Lines :: "string list"
  ec_Save :: "'s \<Rightarrow> string list \<Rightarrow> (string \<times> 's) io"

definition editorPFHelp :: string where
  "editorPFHelp = ''Enter=Apply    PF3=Save+End    PF7=PgUp    PF8=PgDn    PF12=Cancel''"

definition apply_text :: "int \<Rightarrow> (nat \<times> string) list \<Rightarrow> string list \<Rightarrow> string list" where
  "apply_text start txts ls =
     fold (\<lambda>(vi, t) ls. let gi = nat (start + int vi)
             in if gi < length ls \<and> length (ls ! gi) \<le> editorTextMax then ls[gi := t] else ls) txts ls"

definition editor_step ::
  "settings \<Rightarrow> 's editor_config \<Rightarrow> 's \<times> string list \<times> int \<times> string \<Rightarrow> (('s \<times> string list \<times> int \<times> string) + 's) io" where
  "editor_step cfg ec st =
     (case st of
        (s, ls, page0, errMsg) \<Rightarrow>
          (case pageBounds page0 (int (length ls)) (ec_Rows ec) of
             (page, start, end, rowInfo) \<Rightarrow>
               try_bind (r_Editor cfg \<lparr>ev_Title = ec_Title ec, ev_RowInfo = rowInfo, ev_ErrMsg = errMsg, ev_PFHelp = editorPFHelp,
                   ev_Lines = map (\<lambda>l. (l, editorTextMax < length l)) (slice ls start end)\<rparr>)
                 (\<lambda>act.
                   let ls1 = apply_text start (ea_Text act) ls
                   in case (if ea_Prefix act = [] then (ls1, [])
                            else applyPrefix ls1 (map (\<lambda>(vi, c). (nat (start + int vi), c)) (ea_Prefix act))) of
                        (ls2, msg) \<Rightarrow>
                          if ea_PF act = 3 then
                            (if msg \<noteq> [] then again (s, ls2, page, msg)
                             else try_bind (ec_Save ec s ls2) (\<lambda>res. case res of
                                    (m, s') \<Rightarrow> if m \<noteq> [] then again (s', ls2, page, m) else leave s'))
                          else if ea_PF act = 12 then leave s
                          else if ea_PF act = 7 then again (s, ls2, page - 1, msg)
                          else if ea_PF act = 8 then again (s, ls2, if end < int (length ls2) then page + 1 else page, msg)
                          else again (s, ls2, page, msg))))"

definition RunEditor :: "settings \<Rightarrow> 's editor_config \<Rightarrow> 's \<Rightarrow> 's io" where
  "RunEditor cfg ec s0 = io_loop (editor_step cfg ec) (s0, if ec_Lines ec = [] then [[]] else ec_Lines ec, 0, [])"

end
