(* ===== verification/Limiter.thy ===== *)
theory Limiter
  imports Prelude
begin

text \<open>
  The connection limiter of internal/server/limiter.go and the accept loops of
  internal/server/server.go that use it. The global semaphore is its number of taken slots.
  \<open>srv_step\<close> is the interleaving of the accept loops (one per listener) and the connection
  handlers; the invariant ties the limiter's counters to the live connections.
\<close>

type_synonym net_addr = "string option" \<comment> \<open>\<open>addr.String()\<close>; \<open>None\<close> is a nil address\<close>

record conn_limiter =
  cl_sem :: nat
  cl_cap :: nat
  cl_maxPerIP :: int
  cl_perIP :: "string \<Rightarrow> nat option"

definition newConnLimiter :: "nat \<Rightarrow> int \<Rightarrow> conn_limiter" where
  "newConnLimiter maxConns maxPerIP =
     \<lparr>cl_sem = 0, cl_cap = maxConns, cl_maxPerIP = maxPerIP, cl_perIP = (\<lambda>_. None)\<rparr>"

text \<open>\<open>acquire\<close> blocks while the cap is reached: \<open>None\<close>. A nil limiter never blocks.\<close>

definition acquire :: "conn_limiter option \<Rightarrow> conn_limiter option option" where
  "acquire l =
     (case l of
        None \<Rightarrow> Some None
      | Some c \<Rightarrow> if cl_sem c < cl_cap c then Some (Some (c\<lparr>cl_sem := cl_sem c + 1\<rparr>)) else None)"

definition releaseGlobal :: "conn_limiter option \<Rightarrow> conn_limiter option" where
  "releaseGlobal l = map_option (\<lambda>c. c\<lparr>cl_sem := cl_sem c - 1\<rparr>) l"

definition ipKey :: "net_addr \<Rightarrow> string" where
  "ipKey addr =
     (case addr of
        None \<Rightarrow> []
      | Some s \<Rightarrow> (case split_host_port s of None \<Rightarrow> [] | Some (host, _) \<Rightarrow> host))"

definition ip_count :: "conn_limiter \<Rightarrow> string \<Rightarrow> nat" where
  "ip_count c key = (case cl_perIP c key of None \<Rightarrow> 0 | Some n \<Rightarrow> n)"

definition admitIP :: "conn_limiter option \<Rightarrow> net_addr \<Rightarrow> bool \<Rightarrow> bool \<times> conn_limiter option" where
  "admitIP l addr trusted =
     (case l of
        None \<Rightarrow> (True, l)
      | Some c \<Rightarrow>
          if cl_maxPerIP c \<le> 0 \<or> trusted then (True, l)
          else let key = ipKey addr
               in if key = [] then (True, l)
                  else if cl_maxPerIP c \<le> int (ip_count c key) then (False, l)
                  else (True, Some (c\<lparr>cl_perIP := (cl_perIP c)(key := Some (ip_count c key + 1))\<rparr>)))"

definition releaseIP :: "conn_limiter option \<Rightarrow> net_addr \<Rightarrow> bool \<Rightarrow> conn_limiter option" where
  "releaseIP l addr trusted =
     (case l of
        None \<Rightarrow> l
      | Some c \<Rightarrow>
          if cl_maxPerIP c \<le> 0 \<or> trusted then l
          else let key = ipKey addr
               in if key = [] then l
                  else if ip_count c key \<le> 1 then Some (c\<lparr>cl_perIP := (cl_perIP c)(key := None)\<rparr>)
                  else Some (c\<lparr>cl_perIP := (cl_perIP c)(key := Some (ip_count c key - 1))\<rparr>))"

definition hostOnly :: "net_addr \<Rightarrow> string" where
  "hostOnly addr =
     (case addr of
        None \<Rightarrow> []
      | Some s \<Rightarrow> (case split_host_port s of Some (host, _) \<Rightarrow> host | None \<Rightarrow> s))"

section \<open>The accept loops\<close>

record live_conn =
  lc_addr :: net_addr
  lc_trusted :: bool

text \<open>
  \<open>sv_claiming\<close>: listeners about to call \<open>acquire\<close>; \<open>sv_accepting\<close>: listeners blocked in
  Accept, holding a slot; \<open>sv_live\<close>: connections being handled; \<open>sv_rejected\<close> counts the
  connections closed by the per-IP cap.
\<close>

record server_state =
  sv_limiter :: "conn_limiter option"
  sv_claiming :: "nat list"
  sv_accepting :: "nat list"
  sv_live :: "live_conn list"
  sv_rejected :: nat

definition initLimiter :: "nat \<Rightarrow> int \<Rightarrow> conn_limiter option" where
  "initLimiter maxConns maxPerIP = (if 0 < maxConns then Some (newConnLimiter maxConns maxPerIP) else None)"

definition newServers :: "nat \<Rightarrow> nat \<Rightarrow> int \<Rightarrow> server_state" where
  "newServers nListeners maxConns maxPerIP =
     \<lparr>sv_limiter = initLimiter maxConns maxPerIP, sv_claiming = [0..<nListeners], sv_accepting = [],
      sv_live = [], sv_rejected = 0\<rparr>"

text \<open>One turn of \<open>Serve\<close> after Accept returned a connection.\<close>

definition serve_accepted :: "server_state \<Rightarrow> nat \<Rightarrow> net_addr \<Rightarrow> bool \<Rightarrow> server_state" where
  "serve_accepted s i addr trusted =
     (let s1 = s\<lparr>sv_accepting := remove1 i (sv_accepting s), sv_claiming := i # sv_claiming s\<rparr>
      in case admitIP (sv_limiter s) addr trusted of
           (False, l) \<Rightarrow> s1\<lparr>sv_limiter := releaseGlobal l, sv_rejected := sv_rejected s + 1\<rparr>
         | (True, l) \<Rightarrow> s1\<lparr>sv_limiter := l, sv_live := \<lparr>lc_addr = addr, lc_trusted = trusted\<rparr> # sv_live s\<rparr>)"

text \<open>The deferred teardown of \<open>handle\<close>, also run when the session panics.\<close>

definition handle_done :: "server_state \<Rightarrow> live_conn \<Rightarrow> server_state" where
  "handle_done s c =
     s\<lparr>sv_limiter := releaseGlobal (releaseIP (sv_limiter s) (lc_addr c) (lc_trusted c)),
       sv_live := remove1 c (sv_live s)\<rparr>"

inductive srv_step :: "server_state \<Rightarrow> server_state \<Rightarrow> bool" where
  claim: "i \<in> set (sv_claiming s) \<Longrightarrow> acquire (sv_limiter s) = Some l \<Longrightarrow>
     srv_step s (s\<lparr>sv_limiter := l, sv_claiming := remove1 i (sv_claiming s), sv_accepting := i # sv_accepting s\<rparr>)"
| accept_error: "i \<in> set (sv_accepting s) \<Longrightarrow>
     srv_step s (s\<lparr>sv_limiter := releaseGlobal (sv_limiter s), sv_accepting := remove1 i (sv_accepting s)\<rparr>)"
| accepted: "i \<in> set (sv_accepting s) \<Longrightarrow> srv_step s (serve_accepted s i addr trusted)"
| finished: "c \<in> set (sv_live s) \<Longrightarrow> srv_step s (handle_done s c)"

inductive srv_reachable :: "nat \<Rightarrow> nat \<Rightarrow> int \<Rightarrow> server_state \<Rightarrow> bool" for n mc mp where
  start: "srv_reachable n mc mp (newServers n mc mp)"
| step: "srv_reachable n mc mp s \<Longrightarrow> srv_step s t \<Longrightarrow> srv_reachable n mc mp t"

inductive_cases srv_stepE: "srv_step s t"

section \<open>The invariant\<close>

text \<open>The live connections that consume a per-IP slot for \<open>key\<close>.\<close>

definition charged :: "string \<Rightarrow> live_conn \<Rightarrow> bool" where
  "charged key c \<longleftrightarrow> \<not> lc_trusted c \<and> ipKey (lc_addr c) = key"

definition charged_count :: "string \<Rightarrow> live_conn list \<Rightarrow> nat" where
  "charged_count key cs = length (filter (charged key) cs)"

definition limiter_inv :: "nat \<Rightarrow> int \<Rightarrow> server_state \<Rightarrow> bool" where
  "limiter_inv mc mp s \<longleftrightarrow>
     (case sv_limiter s of
        None \<Rightarrow> mc = 0
      | Some c \<Rightarrow>
          cl_cap c = mc \<and> cl_maxPerIP c = mp \<and>
          cl_sem c = length (sv_accepting s) + length (sv_live s) \<and> cl_sem c \<le> mc \<and>
          (0 < mp \<longrightarrow> (\<forall>key. key \<noteq> [] \<longrightarrow>
             ip_count c key = charged_count key (sv_live s) \<and> int (charged_count key (sv_live s)) \<le> mp)) \<and>
          (\<forall>key. cl_perIP c key \<noteq> Some 0) \<and> (mp \<le> 0 \<longrightarrow> cl_perIP c = (\<lambda>_. None)) \<and> cl_perIP c [] = None)"

lemma charged_count_Cons: "charged_count key (c # cs) = (if charged key c then 1 else 0) + charged_count key cs"
  by (simp add: charged_count_def)

lemma charged_count_remove1_add:
  "c \<in> set cs \<Longrightarrow> charged_count key cs = charged_count key (remove1 c cs) + (if charged key c then 1 else 0)"
  by (induction cs) (auto simp: charged_count_def)

lemma charged_count_remove1:
  "c \<in> set cs \<Longrightarrow> charged_count key (remove1 c cs) = charged_count key cs - (if charged key c then 1 else 0)"
  using charged_count_remove1_add[of c cs key] by simp

lemma charged_pos: "c \<in> set cs \<Longrightarrow> charged key c \<Longrightarrow> 0 < charged_count key cs"
  by (auto simp: charged_count_def filter_empty_conv)

lemma len_remove1: "x \<in> set xs \<Longrightarrow> length xs = Suc (length (remove1 x xs))"
  by (induction xs) auto

lemma limiter_inv_init: "limiter_inv mc mp (newServers n mc mp)"
  by (auto simp: limiter_inv_def newServers_def initLimiter_def newConnLimiter_def ip_count_def charged_count_def)

lemma ip_count_upd: "ip_count (c\<lparr>cl_perIP := (cl_perIP c)(k := v)\<rparr>) key =
    (if key = k then (case v of None \<Rightarrow> 0 | Some n \<Rightarrow> n) else ip_count c key)"
  by (simp add: ip_count_def)

lemma ip_count_sem [simp]: "ip_count (c\<lparr>cl_sem := n\<rparr>) key = ip_count c key"
  by (simp add: ip_count_def)

lemma limiter_inv_claim:
  assumes "limiter_inv mc mp s" "i \<in> set (sv_claiming s)" "acquire (sv_limiter s) = Some l"
  shows "limiter_inv mc mp (s\<lparr>sv_limiter := l, sv_claiming := remove1 i (sv_claiming s), sv_accepting := i # sv_accepting s\<rparr>)"
  using assms by (auto simp: limiter_inv_def acquire_def split: option.splits if_splits)

lemma limiter_inv_accept_error:
  assumes "limiter_inv mc mp s" "i \<in> set (sv_accepting s)"
  shows "limiter_inv mc mp (s\<lparr>sv_limiter := releaseGlobal (sv_limiter s), sv_accepting := remove1 i (sv_accepting s)\<rparr>)"
  using assms len_remove1[OF assms(2)] by (auto simp: limiter_inv_def releaseGlobal_def split: option.splits)

lemma limiter_inv_accepted:
  assumes "limiter_inv mc mp s" "i \<in> set (sv_accepting s)"
  shows "limiter_inv mc mp (serve_accepted s i addr trusted)"
proof (cases "sv_limiter s")
  case None
  then show ?thesis using assms by (auto simp: limiter_inv_def serve_accepted_def Let_def admitIP_def)
next
  case (Some c)
  let ?key = "ipKey addr"
  note inv = assms(1)[unfolded limiter_inv_def, simplified Some option.simps]
  consider "mp \<le> 0" | "0 < mp" "trusted \<or> ?key = []" | "0 < mp" "\<not> trusted" "?key \<noteq> []" by linarith
  then show ?thesis
  proof cases
    case 1
    then show ?thesis using inv len_remove1[OF assms(2)]
      by (auto simp: limiter_inv_def serve_accepted_def Let_def admitIP_def Some)
  next
    case 2
    then show ?thesis using inv len_remove1[OF assms(2)]
      by (auto simp: limiter_inv_def serve_accepted_def Let_def admitIP_def Some charged_count_Cons charged_def)
  next
    case 3
    then show ?thesis using inv len_remove1[OF assms(2)]
      by (auto simp: limiter_inv_def serve_accepted_def Let_def admitIP_def Some charged_count_Cons charged_def
          releaseGlobal_def ip_count_upd)
  qed
qed

lemma limiter_inv_done:
  assumes "limiter_inv mc mp s" "c \<in> set (sv_live s)"
  shows "limiter_inv mc mp (handle_done s c)"
proof (cases "sv_limiter s")
  case None
  then show ?thesis using assms by (auto simp: limiter_inv_def handle_done_def releaseIP_def releaseGlobal_def)
next
  case (Some l)
  let ?key = "ipKey (lc_addr c)"
  note inv = assms(1)[unfolded limiter_inv_def, simplified Some option.simps]
  consider "mp \<le> 0" | "0 < mp" "lc_trusted c \<or> ?key = []" | "0 < mp" "\<not> lc_trusted c" "?key \<noteq> []" by linarith
  then show ?thesis
  proof cases
    case 1
    then show ?thesis using inv len_remove1[OF assms(2)]
      by (auto simp: limiter_inv_def handle_done_def releaseIP_def releaseGlobal_def Some)
  next
    case 2
    then show ?thesis using inv len_remove1[OF assms(2)]
      by (auto simp: limiter_inv_def handle_done_def releaseIP_def releaseGlobal_def Some
          charged_count_remove1[OF assms(2)] charged_def)
  next
    case 3
    then have ch: "charged ?key c" by (simp add: charged_def)
    from charged_pos[OF assms(2) ch] have pos: "0 < charged_count ?key (sv_live s)" .
    show ?thesis using 3 inv len_remove1[OF assms(2)] pos
      by (auto simp: limiter_inv_def handle_done_def releaseIP_def releaseGlobal_def Some Let_def
          charged_count_remove1[OF assms(2)] charged_def ip_count_upd)
  qed
qed

lemma limiter_inv_step: "srv_step s t \<Longrightarrow> limiter_inv mc mp s \<Longrightarrow> limiter_inv mc mp t"
  by (erule srv_stepE)
    (auto intro: limiter_inv_claim limiter_inv_accept_error limiter_inv_accepted limiter_inv_done)

lemma limiter_inv_reachable: "srv_reachable n mc mp s \<Longrightarrow> limiter_inv mc mp s"
  by (induction rule: srv_reachable.induct) (auto intro: limiter_inv_init limiter_inv_step)

section \<open>Properties\<close>

text \<open>
  C32. The caps hold under every interleaving of accept loops and handlers, on any number of
  listeners: at most \<open>maxConns\<close> connections are live at any moment, and at most
  \<open>maxPerIP\<close> untrusted ones from any one address.
\<close>

theorem connection_caps:
  assumes "srv_reachable n mc mp s" "0 < mc"
  shows "length (sv_live s) \<le> mc \<and>
     (0 < mp \<longrightarrow> (\<forall>key. key \<noteq> [] \<longrightarrow> int (charged_count key (sv_live s)) \<le> mp))"
  using limiter_inv_reachable[OF assms(1)] assms(2) by (auto simp: limiter_inv_def split: option.splits)

lemma reachable_one_live:
  "srv_reachable 1 2 1 (serve_accepted (newServers 1 2 1\<lparr>sv_limiter := Some (newConnLimiter 2 1\<lparr>cl_sem := 1\<rparr>),
     sv_claiming := [], sv_accepting := [0]\<rparr>) 0 (Some ''10.0.0.1:5'') False)"
proof -
  let ?s0 = "newServers 1 2 1"
  have "srv_step ?s0 (?s0\<lparr>sv_limiter := Some (newConnLimiter 2 1\<lparr>cl_sem := 1\<rparr>),
      sv_claiming := remove1 0 (sv_claiming ?s0), sv_accepting := 0 # sv_accepting ?s0\<rparr>)"
    by (rule srv_step.claim) (auto simp: newServers_def initLimiter_def acquire_def newConnLimiter_def)
  then have "srv_reachable 1 2 1 (?s0\<lparr>sv_limiter := Some (newConnLimiter 2 1\<lparr>cl_sem := 1\<rparr>), sv_claiming := [], sv_accepting := [0]\<rparr>)"
    by (intro srv_reachable.step[OF srv_reachable.start]) (simp add: newServers_def)
  then show ?thesis by (rule srv_reachable.step) (rule srv_step.accepted, simp)
qed

theorem connection_caps_witness:
  "length (sv_live (serve_accepted (newServers 1 2 1\<lparr>sv_limiter := Some (newConnLimiter 2 1\<lparr>cl_sem := 1\<rparr>),
     sv_claiming := [], sv_accepting := [0]\<rparr>) 0 (Some ''10.0.0.1:5'') False)) \<le> 2"
  using connection_caps[OF reachable_one_live] by simp

text \<open>
  Nothing leaks: whenever no connection is live and no listener holds a slot, every
  slot is free again and the per-IP table is empty, whatever mixture of rejections, trusted
  clients, unattributable addresses and accept errors came before.
\<close>

theorem limiter_no_leak:
  assumes "srv_reachable n mc mp s" "sv_limiter s = Some c" "sv_live s = []" "sv_accepting s = []"
  shows "cl_sem c = 0 \<and> cl_perIP c = (\<lambda>_. None)"
proof -
  note inv = limiter_inv_reachable[OF assms(1), unfolded limiter_inv_def, simplified assms option.simps list.size]
  have "cl_perIP c key = None" if "0 < mp" for key
  proof (cases "key = []")
    case False
    with inv that have "ip_count c key = 0" by (simp add: charged_count_def)
    with inv show ?thesis by (cases "cl_perIP c key") (auto simp: ip_count_def)
  qed (use inv in simp)
  then show ?thesis using inv by (cases "0 < mp") auto
qed

theorem limiter_no_leak_witness:
  "sv_limiter (newServers 3 8 2) = Some (newConnLimiter 8 2) \<and> cl_sem (newConnLimiter 8 2) = 0 \<and>
   cl_perIP (newConnLimiter 8 2) = (\<lambda>_. None)"
  using limiter_no_leak[OF srv_reachable.start[of 3 8 2], of "newConnLimiter 8 2"]
  by (simp add: newServers_def initLimiter_def)

text \<open>
  Who is turned away: the per-IP check refuses a connection exactly when the per-IP cap
  is on, the client is not trusted, its address can be attributed, and that address already
  has \<open>maxPerIP\<close> live untrusted connections.
\<close>

theorem admit_exactly_when_room:
  assumes "srv_reachable n mc mp s" "sv_limiter s = Some c"
  shows "fst (admitIP (sv_limiter s) addr trusted) =
     (mp \<le> 0 \<or> trusted \<or> ipKey addr = [] \<or> int (charged_count (ipKey addr) (sv_live s)) < mp)"
  using limiter_inv_reachable[OF assms(1)] assms(2)
  by (auto simp: limiter_inv_def admitIP_def Let_def)

theorem admit_exactly_when_room_witness:
  "fst (admitIP (sv_limiter (newServers 1 4 1)) (Some ''10.0.0.1:5'') False) =
   ((1 :: int) \<le> 0 \<or> False \<or> ipKey (Some ''10.0.0.1:5'') = [] \<or>
     int (charged_count (ipKey (Some ''10.0.0.1:5'')) (sv_live (newServers 1 4 1))) < 1)"
proof -
  have l: "sv_limiter (newServers 1 4 1) = Some (newConnLimiter 4 1)" by (simp add: newServers_def initLimiter_def)
  show ?thesis by (rule admit_exactly_when_room[OF srv_reachable.start l])
qed

end
