(* ===== verification/Trust.thy ===== *)
theory Trust
  imports Store_Facts Limiter
begin

text \<open>
  The trusted-client decision of internal/server/trust.go over the networks the store keeps.
  \<open>TrustStore\<close> is an interface of one method and a locale here; the database provides it.
\<close>

definition trust_Contains :: "ip_prefix list \<Rightarrow> net_addr \<Rightarrow> bool" where
  "trust_Contains t addr =
     (if t = [] then False
      else let host = ipKey addr
           in if host = [] then False
              else case ParseAddr host of
                     None \<Rightarrow> False
                   | Some ip0 \<Rightarrow> let ip = Unmap ip0 in list_ex (\<lambda>p. prefix_Contains p ip) t)"

definition is_trusted_with :: "('s, store_error + ip_prefix list) state \<Rightarrow> net_addr \<Rightarrow> ('s, bool) state" where
  "is_trusted_with load addr = do {
     r \<leftarrow> load;
     return_st (case r of Inl _ \<Rightarrow> False | Inr pfxs \<Rightarrow> trust_Contains pfxs addr)
   }"

definition IsTrusted :: "net_addr \<Rightarrow> (db, bool) state" where
  "IsTrusted = is_trusted_with LoadTrustedPrefixes"

definition StaticTrustChecker :: "ip_prefix list \<Rightarrow> net_addr \<Rightarrow> bool" where
  "StaticTrustChecker pfxs addr = trust_Contains pfxs addr"

section \<open>The TrustStore interface\<close>

locale trust_store =
  fixes load :: "('s, store_error + ip_prefix list) state"
    and view :: "'s \<Rightarrow> 'v"
    and networks :: "'v \<Rightarrow> ip_prefix list"
  assumes load_reads: "run_state load s = (r, s') \<Longrightarrow> view s' = view s"
    and load_ok: "run_state load s = (Inr ps, s') \<Longrightarrow> set ps = set (networks (view s))"
begin

lemma trusted_reads: "run_state (is_trusted_with load addr) s = (b, s') \<Longrightarrow> view s' = view s"
  by (auto simp: is_trusted_with_def split: prod.splits dest: load_reads)

text \<open>Fail closed: without a loaded network that contains the address, nobody is trusted.\<close>

lemma trusted_only_if:
  assumes "run_state (is_trusted_with load addr) s = (True, s')"
  shows "\<exists>p\<in>set (networks (view s)). \<exists>ip. ParseAddr (ipKey addr) = Some ip \<and> prefix_Contains p (Unmap ip)"
  using assms
  by (auto simp: is_trusted_with_def trust_Contains_def Let_def list_ex_iff split: prod.splits sum.splits if_splits option.splits
      dest!: load_ok)

lemma trusted_if:
  assumes "run_state load s = (Inr ps, s1)" "p \<in> set (networks (view s))" "ParseAddr (ipKey addr) = Some ip" "prefix_Contains p (Unmap ip)"
  shows "fst (run_state (is_trusted_with load addr) s)"
proof -
  have "ipKey addr \<noteq> []" using assms(3) by (auto simp: ParseAddr_def)
  then show ?thesis using assms load_ok[OF assms(1)]
    by (auto simp: is_trusted_with_def trust_Contains_def Let_def list_ex_iff split: prod.splits)
qed

end

section \<open>The database provides it\<close>

definition stored_prefixes :: "db \<Rightarrow> ip_prefix list" where
  "stored_prefixes d = List.map_filter (\<lambda>n. ParsePrefix (tn_CIDR n)) (db_networks d)"

lemma set_map_filter: "set (List.map_filter f xs) = {y. \<exists>x\<in>set xs. f x = Some y}"
  by (auto simp: List.map_filter_def) force

lemma LoadTrustedPrefixes_cases:
  assumes "run_state LoadTrustedPrefixes d = (r, d')"
  shows "tables d' = tables d \<and> (r = Inl ErrDB \<or> (\<exists>ps. r = Inr ps \<and> set ps = set (stored_prefixes d)))"
  using assms unfolding LoadTrustedPrefixes_def ListTrustedNetworks_def
  by (auto simp: run_try_bind stored_prefixes_def set_map_filter list_networks_def split: prod.splits sum.splits elim!: query_cases)

lemma stored_prefixes_tables [simp]: "stored_prefixes (tables d) = stored_prefixes d"
  by (simp add: stored_prefixes_def tables_def)

interpretation tst: trust_store LoadTrustedPrefixes tables stored_prefixes
proof
  fix d d' :: db and r ps
  show "run_state LoadTrustedPrefixes d = (r, d') \<Longrightarrow> tables d' = tables d"
    using LoadTrustedPrefixes_cases by blast
  show "run_state LoadTrustedPrefixes d = (Inr ps, d') \<Longrightarrow> set ps = set (stored_prefixes (tables d))"
    using LoadTrustedPrefixes_cases by fastforce
qed

lemma ParsePrefix_bits: "ParsePrefix s = Some p \<Longrightarrow> px_bits p \<le> BitLen (px_addr p)"
  by (auto simp: ParsePrefix_def Let_def split: option.splits if_splits)

lemma ParseTrustedCIDR_bits: "ParseTrustedCIDR s = Inr p \<Longrightarrow> px_bits p \<le> BitLen (px_addr p)"
  by (auto simp: ParseTrustedCIDR_def Let_def Masked_def BitLen_def withoutZone_def
      split: option.splits if_splits ip_addr.splits dest!: ParsePrefix_bits)

lemma stored_ipv4_loads:
  assumes "ParseTrustedCIDR cidr = Inr p" "px_addr p = IPv4 w"
  shows "ParsePrefix (prefix_string p) = Some p"
proof -
  have "px_bits p \<le> 32" using ParseTrustedCIDR_bits[OF assms(1)] assms(2) by (simp add: BitLen_def)
  moreover have "p = \<lparr>px_addr = IPv4 w, px_bits = px_bits p\<rparr>" using assms(2) by (cases p) simp
  ultimately show ?thesis using parse_ipv4_prefix by metis
qed

lemma CreateTrustedNetwork_stored:
  assumes "ParseTrustedCIDR cidr = Inr p" "run_state (CreateTrustedNetwork cidr comment) d = (Inr i, d')"
  shows "\<exists>n\<in>set (db_networks d'). tn_CIDR n = prefix_string p"
proof -
  have f: "find_network c (e\<lparr>db_faults := fs\<rparr>) = find_network c e" for c e fs by (simp add: find_network_def)
  have g: "find_network c e = Some n \<Longrightarrow> n \<in> set (db_networks e) \<and> tn_CIDR n = c" for c e n
    by (auto simp: find_network_def find_Some_iff)
  show ?thesis
    using assms unfolding CreateTrustedNetwork_def insertOrGet_def Let_def
    by (auto simp: run_try_bind f fail_st_def insert_network_def
        split: option.splits prod.splits sum.splits elim!: exec_cases query_cases dest!: g)
qed

section \<open>Properties\<close>



text \<open>
  A stored network is honoured at the next connection: whatever IPv4 network or address an
  administrator enters, once stored (in its canonical masked text) it is read back as the same
  network, and every client inside it is trusted.
\<close>

theorem stored_network_is_honoured:
  assumes "ParseTrustedCIDR cidr = Inr p" "px_addr p = IPv4 w"
    "run_state (CreateTrustedNetwork cidr comment) d = (Inr i, d1)"
    "run_state LoadTrustedPrefixes d1 = (Inr ps, d2)" "ParseAddr (ipKey addr) = Some ip" "prefix_Contains p (Unmap ip)"
  shows "fst (run_state (IsTrusted addr) d1)"
proof -
  obtain n where "n \<in> set (db_networks d1)" "tn_CIDR n = prefix_string p"
    using CreateTrustedNetwork_stored[OF assms(1,3)] by blast
  then have "p \<in> set (stored_prefixes d1)"
    using stored_ipv4_loads[OF assms(1,2)] unfolding stored_prefixes_def set_map_filter by (metis (mono_tags, lifting) mem_Collect_eq)
  then have "fst (run_state (is_trusted_with LoadTrustedPrefixes addr) d1)"
    by (intro tst.trusted_if[OF assms(4) _ assms(5,6)]) simp
  then show ?thesis by (simp add: IsTrusted_def)
qed

lemmas parse_evals = ParsePrefix_def last_index_byte_def ParseAddr_def parse_ipv4_fields_def octet_def is_digit_def
  digits_value_def octets_value_def atoi_def Let_def hasZone_def BitLen_def max_int64_def min_int64_def

theorem stored_network_is_honoured_witness:
  "fst (run_state (IsTrusted (Some ''10.1.2.3:99'')) (snd (run_state (CreateTrustedNetwork ''10.1.0.0/16'' ''lab'') sample_db)))"
proof -
  let ?p = "\<lparr>px_addr = IPv4 167837696, px_bits = 16\<rparr>"
  let ?d1 = "insert_network ''10.1.0.0/16'' ''lab'' sample_db"
  have parse: "ParsePrefix ''10.1.0.0/16'' = Some ?p" by (simp add: parse_evals)
  have trim: "trim_space ''10.1.0.0/16'' = ''10.1.0.0/16''" by code_simp
  have 1: "ParseTrustedCIDR ''10.1.0.0/16'' = Inr ?p" by (simp add: ParseTrustedCIDR_def trim parse Masked_def)
  have str: "prefix_string ?p = ''10.1.0.0/16''"
    by (simp add: prefix_string_def addr_string_def withoutZone_def ipv4_string_def ipv4_octets_def show_nat.simps Let_def digit_chars)
  have 3: "run_state (CreateTrustedNetwork ''10.1.0.0/16'' ''lab'') sample_db = (Inr 1, ?d1)"
    by (simp add: CreateTrustedNetwork_def 1 str ValidateComment_def MaxCommentLen_def insertOrGet_def run_try_bind
        exec_def run_stmt_def find_network_def sample_db_def Let_def)
  have 4: "run_state LoadTrustedPrefixes ?d1 = (Inr [?p], ?d1)"
    by (simp add: LoadTrustedPrefixes_def ListTrustedNetworks_def run_try_bind query_def run_stmt_def list_networks_def
        insert_network_def sample_db_def map_filter_simps parse)
  have 5: "ParseAddr (ipKey (Some ''10.1.2.3:99'')) = Some (IPv4 167838211)"
    by (simp add: ipKey_def split_host_port_def parse_evals)
  have 6: "prefix_Contains ?p (Unmap (IPv4 167838211))" by (simp add: prefix_Contains_def Unmap_def hasZone_def)
  show ?thesis unfolding 3 snd_conv by (rule stored_network_is_honoured[OF 1 _ 3 4 5 6]) simp
qed

end
