(* ===== verification/Admin.thy ===== *)
theory Admin
  imports Drivers Clock Trust
begin

text \<open>
  The administrator's screens, internal/server/admin.go and admin_*.go: one list or form
  configuration per screen, with its guards, and the menu loop \<open>adminFlow_Run\<close>. \<open>fl\<close> is the flow
  object: the acting identity and the terminal's row count; the store, the registry, the clock
  and the audit trail are those of the world.
\<close>

record admin_flow =
  fl_identity :: identity
  fl_rows :: int

definition msgTempError :: string where "msgTempError = ''TEMPORARY ERROR; TRY AGAIN''"

text \<open>\<open>storeErr\<close>: the failure goes to the log, the generic message to the screen.\<close>

definition storeErr :: "string \<Rightarrow> store_error \<Rightarrow> string" where
  "storeErr op e = msgTempError"

definition quoted :: "string \<Rightarrow> string" where
  "quoted s = [CHR 0x27] @ s @ [CHR 0x27]"

definition flow_record :: "settings \<Rightarrow> string \<Rightarrow> string \<Rightarrow> unit eff" where
  "flow_record cfg k detail = audit_record cfg ((audit_event_of k)\<lparr>ae_Detail := detail\<rparr>)"

definition recordAdmin :: "settings \<Rightarrow> string \<Rightarrow> unit eff" where
  "recordAdmin cfg detail = flow_record cfg AuditAdmin detail"

definition record_subject :: "settings \<Rightarrow> string \<Rightarrow> string \<Rightarrow> unit eff" where
  "record_subject cfg k username = audit_record cfg ((audit_event_of k)\<lparr>ae_Username := username\<rparr>)"

text \<open>One store call that must succeed, then an audit record: the message for the screen.\<close>

definition commit_then :: "settings \<Rightarrow> string \<Rightarrow> 'a st \<Rightarrow> unit eff \<Rightarrow> string eff" where
  "commit_then cfg op m audit = do {
     r \<leftarrow> stm m;
     (case r of
        Inl e \<Rightarrow> return_st (storeErr op e)
      | Inr _ \<Rightarrow> do { audit; return_st [] })
   }"

definition groupIDByName :: "string \<Rightarrow> (store_error + int option) eff" where
  "groupIDByName name = do {
     r \<leftarrow> stm ListGroups;
     (case r of
        Inl e \<Rightarrow> return_st (Inl e)
      | Inr gs \<Rightarrow> return_st (Inr (map_option g_ID (find (\<lambda>g. g_Name g = to_upper name) gs))))
   }"

text \<open>Field names, internal/screens/admin.go, login.go, usersettings.go, mfa.go.\<close>

definition FieldUsername :: string where "FieldUsername = ''username''"
definition FieldPassword :: string where "FieldPassword = ''password''"
definition FieldOption :: string where "FieldOption = ''option''"
definition FieldRetype :: string where "FieldRetype = ''retype''"
definition FieldName :: string where "FieldName = ''name''"
definition FieldDescription :: string where "FieldDescription = ''description''"
definition FieldHost :: string where "FieldHost = ''host''"
definition FieldPort :: string where "FieldPort = ''port''"
definition FieldTLS :: string where "FieldTLS = ''tls''"
definition FieldVerify :: string where "FieldVerify = ''verify''"
definition FieldCIDR :: string where "FieldCIDR = ''cidr''"
definition FieldComment :: string where "FieldComment = ''comment''"
definition FieldFullName :: string where "FieldFullName = ''fullname''"
definition FieldEmail :: string where "FieldEmail = ''email''"
definition FieldMFARequired :: string where "FieldMFARequired = ''mfarequired''"
definition FieldMFAStatus :: string where "FieldMFAStatus = ''mfastatus''"
definition FieldMFAClear :: string where "FieldMFAClear = ''mfaclear''"
definition FieldMFAClearConfirm :: string where "FieldMFAClearConfirm = ''mfaclearconf''"
definition FieldUserSettingsLocked :: string where "FieldUserSettingsLocked = ''usettingslocked''"
definition FieldPath :: string where "FieldPath = ''path''"

definition set_value :: "nat \<Rightarrow> string \<Rightarrow> form_field list \<Rightarrow> form_field list" where
  "set_value i v ffs = ffs[i := (ffs ! i)\<lparr>ff_Value := v\<rparr>]"

definition yn :: "bool \<Rightarrow> string" where "yn b = (if b then ''Y'' else ''N'')"

definition ynBool :: "string \<Rightarrow> bool option" where
  "ynBool s = (if s = ''Y'' then Some True else if s = ''N'' then Some False else None)"

definition no_message :: "'a io \<Rightarrow> string io" where \<comment> \<open>\<open>return "", err\<close>\<close>
  "no_message m = try_bind m (\<lambda>_. io_return [])"

section \<open>Users (admin_users.go)\<close>

definition fetchUsers :: "((string \<times> user) list \<times> string) eff" where
  "fetchUsers = do {
     r \<leftarrow> stm ListUsers;
     (case r of
        Inl e \<Rightarrow> return_st ([], storeErr ''list users'' e)
      | Inr us \<Rightarrow> do {
          rows \<leftarrow> map_eff (\<lambda>u. do {
            g \<leftarrow> stm (GetUserGroups (u_ID u));
            return_st (pad_right 16 (u_Username u) @ '' '' @
              join_with '','' (case g of Inl _ \<Rightarrow> [] | Inr gs \<Rightarrow> gs), u)
          }) us;
          return_st (rows, [])
        })
   }"

definition guardLastAdmin :: "string eff" where
  "guardLastAdmin = do {
     r \<leftarrow> groupIDByName AdminGroup;
     (case r of
        Inl e \<Rightarrow> return_st (storeErr ''find admin group'' e)
      | Inr None \<Rightarrow> return_st []
      | Inr (Some gid) \<Rightarrow> do {
          c \<leftarrow> stm (CountGroupMembers gid);
          (case c of
             Inl e \<Rightarrow> return_st (storeErr ''count admin members'' e)
           | Inr n \<Rightarrow> return_st (if n \<le> 1 then ''CANNOT REMOVE LAST '' @ AdminGroup @ '' MEMBER'' else []))
        })
   }"

definition deleteUser :: "settings \<Rightarrow> admin_flow \<Rightarrow> user \<Rightarrow> string eff" where
  "deleteUser cfg fl u =
     (if u_ID u = id_UserID (fl_identity fl) then return_st ''CANNOT DELETE YOUR OWN ACCOUNT''
      else do {
        r \<leftarrow> stm (GetUserGroups (u_ID u));
        (case r of
           Inl e \<Rightarrow> return_st (storeErr ''get user groups'' e)
         | Inr gs \<Rightarrow> do {
             msg \<leftarrow> (if AdminGroup \<in> set gs then guardLastAdmin else return_st []);
             (if msg \<noteq> [] then return_st msg
              else commit_then cfg ''delete user'' (DeleteUser (u_ID u)) (recordAdmin cfg (''user delete '' @ u_Username u)))
           })
      })"

text \<open>The password, whether it changes, and the message.\<close>

definition passwordFromForm :: "form_values \<Rightarrow> bool \<Rightarrow> string \<times> bool \<times> string" where
  "passwordFromForm vals required =
     (let pass = vals FieldPassword; retype = vals FieldRetype
      in if pass = [] then (if required then ([], False, ''PASSWORD IS REQUIRED'') else ([], False, []))
         else if pass \<noteq> retype then ([], False, ''PASSWORDS DO NOT MATCH'')
         else if \<not> ValidatePassword pass then ([], False, ''PASSWORD TOO LONG (MAX '' @ itoa (int MaxPasswordLen) @ '' BYTES)'')
         else (pass, True, []))"

definition hash_password :: "settings \<Rightarrow> string \<Rightarrow> string option eff" where
  "hash_password cfg pass = do { n \<leftarrow> draw; return_st (HashPassword (lib_hash cfg) n pass) }"

definition userCreate :: "settings \<Rightarrow> form_values \<Rightarrow> string \<Rightarrow> string \<Rightarrow> string eff" where
  "userCreate cfg vals fullName email =
     (let username = vals FieldUsername
      in if username = [] then return_st ''USER ID IS REQUIRED''
         else case passwordFromForm vals True of
           (pass, _, msg) \<Rightarrow>
             if msg \<noteq> [] then return_st msg
             else do {
               r \<leftarrow> stm (GetUserByUsername username);
               (case r of
                  Inr _ \<Rightarrow> return_st (quoted username @ '' ALREADY EXISTS'')
                | Inl e \<Rightarrow>
                    if e \<noteq> ErrNotFound then return_st (storeErr ''check user'' e)
                    else do {
                      h \<leftarrow> hash_password cfg pass;
                      (case h of
                         None \<Rightarrow> return_st msgTempError
                       | Some hash \<Rightarrow> do {
                           c \<leftarrow> stm (CreateUser username hash);
                           (case c of
                              Inl e \<Rightarrow> return_st (storeErr ''create user'' e)
                            | Inr uid \<Rightarrow> commit_then cfg ''set user details'' (UpdateUserDetails uid fullName email)
                                (recordAdmin cfg (''user create '' @ username)))
                         })
                    })
             })"

definition applyMFAEdit :: "settings \<Rightarrow> user \<Rightarrow> form_values \<Rightarrow> string eff" where
  "applyMFAEdit cfg u vals =
     (let flag = to_upper (trim_space (vals FieldMFARequired));
          wipe = (if to_upper (trim_space (vals FieldMFAClear)) = ''Y'' then
                    (if \<not> equal_fold (trim_space (vals FieldMFAClearConfirm)) ''CLEAR''
                     then return_st ''TYPE CLEAR TO CONFIRM MFA WIPE''
                     else commit_then cfg ''clear mfa'' (ClearMFA (u_ID u)) (record_subject cfg AuditMFACleared (u_Username u)))
                  else return_st [])
      in if flag \<noteq> ''Y'' \<and> flag \<noteq> ''N'' \<and> flag \<noteq> [] then return_st ''MFA REQ MUST BE Y OR N''
         else let required = (flag = ''Y'')
              in if required \<noteq> u_MFARequired u then do {
                   r \<leftarrow> stm (SetMFARequired (u_ID u) required);
                   (case r of
                      Inl e \<Rightarrow> return_st (storeErr ''set mfa required'' e)
                    | Inr _ \<Rightarrow> do {
                        (if required then record_subject cfg AuditMFAEnforced (u_Username u) else return_st ());
                        wipe
                      })
                 }
                 else wipe)"

definition applyLockEdit :: "settings \<Rightarrow> user \<Rightarrow> form_values \<Rightarrow> string eff" where
  "applyLockEdit cfg u vals =
     (let flag = to_upper (trim_space (vals FieldUserSettingsLocked))
      in if flag \<noteq> ''Y'' \<and> flag \<noteq> ''N'' \<and> flag \<noteq> [] then return_st ''LOCK SELF MUST BE Y OR N''
         else let locked = (flag = ''Y'')
              in if locked = u_UserSettingsLocked u then return_st []
                 else commit_then cfg ''set settings lock'' (SetUserSettingsLocked (u_ID u) locked)
                   (record_subject cfg (if locked then AuditSettingsLocked else AuditSettingsUnlocked) (u_Username u)))"

text \<open>\<open>if msg != "" { return msg }\<close>\<close>

definition unless_message :: "string eff \<Rightarrow> string eff \<Rightarrow> string eff" where
  "unless_message m next = do { msg \<leftarrow> m; (if msg \<noteq> [] then return_st msg else next) }"

definition userSaveEdit :: "settings \<Rightarrow> user \<Rightarrow> form_values \<Rightarrow> string \<Rightarrow> string \<Rightarrow> string eff" where
  "userSaveEdit cfg u vals fullName email =
     (if to_upper (trim_space (vals FieldMFAClear)) = ''Y'' \<and> \<not> equal_fold (trim_space (vals FieldMFAClearConfirm)) ''CLEAR''
      then return_st ''TYPE CLEAR TO CONFIRM MFA WIPE''
      else case passwordFromForm vals False of
        (pass, change, msg) \<Rightarrow>
          if msg \<noteq> [] then return_st msg
          else unless_message
            (if \<not> change then return_st []
             else do {
               h \<leftarrow> hash_password cfg pass;
               (case h of
                  None \<Rightarrow> return_st msgTempError
                | Some hash \<Rightarrow> commit_then cfg ''set password'' (SetPassword (u_ID u) hash) (return_st ()))
             })
            (unless_message (commit_then cfg ''set user details'' (UpdateUserDetails (u_ID u) fullName email) (return_st ()))
              (unless_message (applyMFAEdit cfg u vals)
                (unless_message (applyLockEdit cfg u vals)
                  (do { recordAdmin cfg (''user edit '' @ u_Username u); return_st [] })))))"

definition user_fields :: "user option \<Rightarrow> form_field list" where
  "user_fields target =
     (let create = (target = None);
          base = [(form_input FieldUsername ''User ID'' (case target of None \<Rightarrow> [] | Some u \<Rightarrow> u_Username u) 32)
                    \<lparr>ff_ReadOnly := \<not> create\<rparr>,
                  (form_input FieldFullName ''Full name'' (case target of None \<Rightarrow> [] | Some u \<Rightarrow> u_FullName u) 40)
                    \<lparr>ff_Section := ''Identity''\<rparr>,
                  form_input FieldEmail ''Email'' (case target of None \<Rightarrow> [] | Some u \<Rightarrow> u_Email u) 40];
          auth = [(form_input FieldPassword ''New password'' [] 32)
                    \<lparr>ff_Hidden := True, ff_Section := ''Authentication'',
                     ff_Suffix := (if create then [] else ''(blank = no change)'')\<rparr>,
                  (form_input FieldRetype ''Confirm password'' [] 32)\<lparr>ff_Hidden := True\<rparr>]
      in base @ auth @
         (case target of
            None \<Rightarrow> []
          | Some u \<Rightarrow>
              [(form_input FieldMFARequired ''MFA required'' (yn (u_MFARequired u)) 1)\<lparr>ff_Suffix := ''Y/N''\<rparr>,
               (form_input FieldMFAStatus ''MFA status''
                  (if u_MFASecret u \<noteq> [] then ''ENROLLED'' else if u_MFARequired u then ''PENDING'' else ''NONE'') 10)
                 \<lparr>ff_ReadOnly := True, ff_SameRow := True\<rparr>,
               (form_input FieldUserSettingsLocked ''Block self-service'' (yn (u_UserSettingsLocked u)) 1)
                 \<lparr>ff_Section := ''Account policy'', ff_Suffix := ''(blocks user-initiated changes)''\<rparr>,
               (form_input FieldMFAClear ''Clear MFA'' [] 1)\<lparr>ff_Section := ''Account actions'', ff_Suffix := ''Y/N''\<rparr>,
               (form_input FieldMFAClearConfirm ''Confirm'' [] 7)\<lparr>ff_Suffix := ''type CLEAR to confirm''\<rparr>] @
              (if u_UserSettingsLocked u \<and> u_MFARequired u \<and> u_MFASecret u = []
               then [(form_input ''lockhint'' ''Note'' ''MFA REQ INERT WHILE LOCKED W/O SECRET'' 40)\<lparr>ff_ReadOnly := True\<rparr>]
               else [])))"

definition userEdit_submit ::
  "settings \<Rightarrow> user option \<Rightarrow> form_field list \<Rightarrow> form_values \<Rightarrow> (string \<times> form_field list) eff" where
  "userEdit_submit cfg target ffs vals =
     (let fullName = vals FieldFullName; email = vals FieldEmail;
          ffs1 = set_value 2 email (set_value 1 fullName ffs);
          ffs2 = (if target = None then set_value 0 (vals FieldUsername) ffs1 else ffs1)
      in if ValidateFullName fullName \<noteq> None then return_st (''FULL NAME TOO LONG (MAX 40)'', ffs2)
         else if ValidateEmail email \<noteq> None then return_st (''INVALID EMAIL ADDRESS'', ffs2)
         else do {
           msg \<leftarrow> (case target of
                     None \<Rightarrow> userCreate cfg vals fullName email
                   | Some u \<Rightarrow> userSaveEdit cfg u vals fullName email);
           return_st (msg, ffs2)
         })"

definition userEdit_form :: "settings \<Rightarrow> user option \<Rightarrow> form_field list form_config" where
  "userEdit_form cfg target =
     \<lparr>fc_Title = (case target of None \<Rightarrow> ''TN3270 GATEWAY ADMIN: ADD USER''
                  | Some u \<Rightarrow> ''TN3270 GATEWAY ADMIN: EDIT USER '' @ u_Username u),
      fc_Intro = [], fc_PFHelp = [], fc_Fields = id,
      fc_Submit = (\<lambda>ffs vals. io_lift (userEdit_submit cfg target ffs vals)),
      fc_StayOnSave = False, fc_DotLeader = True, fc_Compact = True\<rparr>"

definition userEdit :: "settings \<Rightarrow> user option \<Rightarrow> form_field list io" where
  "userEdit cfg target = RunForm cfg (userEdit_form cfg target) (user_fields target)"

text \<open>Membership, seen from the user and from the group (admin_groups.go).\<close>

definition remove_member :: "settings \<Rightarrow> admin_flow \<Rightarrow> user \<Rightarrow> group \<Rightarrow> string \<Rightarrow> string eff" where
  "remove_member cfg fl u g detail =
     unless_message
       (if g_Name g = AdminGroup then
          unless_message guardLastAdmin
            (return_st (if u_ID u = id_UserID (fl_identity fl) then ''CANNOT REMOVE YOUR OWN ADMIN MEMBERSHIP'' else []))
        else return_st [])
       (commit_then cfg ''remove membership'' (RemoveUserFromGroup (u_ID u) (g_ID g)) (recordAdmin cfg detail))"

definition marked_row :: "nat \<Rightarrow> string \<Rightarrow> bool \<Rightarrow> string" where
  "marked_row w name mark = pad_right w name @ '' '' @ (if mark then ''X'' else [])"

definition userGroups_fetch :: "user \<Rightarrow> ((string \<times> group) list \<times> string) eff" where
  "userGroups_fetch u = do {
     r \<leftarrow> stm ListGroups;
     (case r of
        Inl e \<Rightarrow> return_st ([], storeErr ''list groups'' e)
      | Inr gs \<Rightarrow> do {
          m \<leftarrow> stm (GetUserGroups (u_ID u));
          let memberOf = (case m of Inl _ \<Rightarrow> [] | Inr ns \<Rightarrow> ns);
          return_st (map (\<lambda>g. (marked_row 20 (g_Name g) (g_Name g \<in> set memberOf), g)) gs,
                     case m of Inl e \<Rightarrow> storeErr ''get user groups'' e | Inr _ \<Rightarrow> [])
        })
   }"

definition userGroups_list :: "settings \<Rightarrow> admin_flow \<Rightarrow> user \<Rightarrow> group list_config" where
  "userGroups_list cfg fl u =
     \<lparr>lc_Title = ''TN3270 GATEWAY ADMIN: GROUPS FOR '' @ u_Username u,
      lc_Header = ''CMD GROUP                MEMBER'', lc_Legend = ''A = add to group   R = remove from group'',
      lc_PFHelp = ''Enter = process   PF7/PF8 = page   PF3 = back'', lc_Rows = fl_rows fl,
      lc_Fetch = userGroups_fetch u,
      lc_Cmds =
        [\<lparr>cm_Key = CHR ''A'',
          cm_Commit = (\<lambda>g. io_lift (commit_then cfg ''add membership'' (AddUserToGroup (u_ID u) (g_ID g))
            (recordAdmin cfg (''user '' @ u_Username u @ '' add-group '' @ g_Name g)))),
          cm_Confirm = None\<rparr>,
         \<lparr>cm_Key = CHR ''R'',
          cm_Commit = (\<lambda>g. io_lift (remove_member cfg fl u g (''user '' @ u_Username u @ '' remove-group '' @ g_Name g))),
          cm_Confirm = None\<rparr>],
      lc_Add = None\<rparr>"

definition userGroups :: "settings \<Rightarrow> admin_flow \<Rightarrow> user \<Rightarrow> unit io" where
  "userGroups cfg fl u = RunList cfg (userGroups_list cfg fl u)"

definition confirm_delete :: "string \<Rightarrow> string" where
  "confirm_delete name = ''ENTER = CONFIRM DELETE OF '' @ quoted name @ '', PF3 = CANCEL''"

definition users_list :: "settings \<Rightarrow> admin_flow \<Rightarrow> user list_config" where
  "users_list cfg fl =
     \<lparr>lc_Title = ''TN3270 GATEWAY ADMIN: USERS'', lc_Header = ''CMD USERNAME         GROUPS'',
      lc_Legend = ''S = edit user   G = groups   D = delete'',
      lc_PFHelp = ''PF3=Admin Menu    PF4=Add User    PF7=PgUp    PF8=PgDn'', lc_Rows = fl_rows fl,
      lc_Fetch = fetchUsers,
      lc_Cmds =
        [\<lparr>cm_Key = CHR ''S'', cm_Commit = (\<lambda>u. no_message (userEdit cfg (Some u))), cm_Confirm = None\<rparr>,
         \<lparr>cm_Key = CHR ''G'', cm_Commit = (\<lambda>u. no_message (userGroups cfg fl u)), cm_Confirm = None\<rparr>,
         \<lparr>cm_Key = CHR ''D'', cm_Commit = (\<lambda>u. io_lift (deleteUser cfg fl u)),
          cm_Confirm = Some (\<lambda>u. (confirm_delete (u_Username u), []))\<rparr>],
      lc_Add = Some (no_message (userEdit cfg None))\<rparr>"

definition admin_users :: "settings \<Rightarrow> admin_flow \<Rightarrow> unit io" where
  "admin_users cfg fl = RunList cfg (users_list cfg fl)"

section \<open>Groups (admin_groups.go)\<close>

definition isReservedGroup :: "string \<Rightarrow> bool" where
  "isReservedGroup name \<longleftrightarrow> take (length ReservedGroupPrefix) (to_upper name) = ReservedGroupPrefix"

definition groups_fetch :: "((string \<times> group) list \<times> string) eff" where
  "groups_fetch = do {
     r \<leftarrow> stm ListGroups;
     (case r of
        Inl e \<Rightarrow> return_st ([], storeErr ''list groups'' e)
      | Inr gs \<Rightarrow> do {
          rows \<leftarrow> map_eff (\<lambda>g. do {
            m \<leftarrow> stm (CountGroupMembers (g_ID g));
            s \<leftarrow> stm (CountGroupServices (g_ID g));
            let counts = (case (m, s) of (Inr a, Inr b) \<Rightarrow> (int a, int b) | _ \<Rightarrow> (0, 0));
            return_st (pad_right 20 (g_Name g) @ '' '' @ pad_left (CHR '' '') 7 (itoa (fst counts)) @ ''  '' @
              pad_left (CHR '' '') 8 (itoa (snd counts)), g)
          }) gs;
          return_st (rows, [])
        })
   }"

definition groupMembers_fetch :: "group \<Rightarrow> ((string \<times> user) list \<times> string) eff" where
  "groupMembers_fetch g = do {
     r \<leftarrow> stm ListUsers;
     (case r of
        Inl e \<Rightarrow> return_st ([], storeErr ''list users'' e)
      | Inr us \<Rightarrow> do {
          m \<leftarrow> stm (ListUsersInGroup (g_ID g));
          let members = (case m of Inl _ \<Rightarrow> [] | Inr ms \<Rightarrow> map u_ID ms);
          return_st (map (\<lambda>u. (marked_row 16 (u_Username u) (u_ID u \<in> set members), u)) us,
                     case m of Inl e \<Rightarrow> storeErr ''list group members'' e | Inr _ \<Rightarrow> [])
        })
   }"

definition groupMembers_list :: "settings \<Rightarrow> admin_flow \<Rightarrow> group \<Rightarrow> user list_config" where
  "groupMembers_list cfg fl g =
     \<lparr>lc_Title = ''TN3270 GATEWAY ADMIN: MEMBERS OF '' @ g_Name g,
      lc_Header = ''CMD USERNAME         MEMBER'', lc_Legend = ''A = add to group   R = remove from group'',
      lc_PFHelp = ''PF3=Back    PF7=PgUp    PF8=PgDn'', lc_Rows = fl_rows fl,
      lc_Fetch = groupMembers_fetch g,
      lc_Cmds =
        [\<lparr>cm_Key = CHR ''A'',
          cm_Commit = (\<lambda>u. io_lift (commit_then cfg ''add membership'' (AddUserToGroup (u_ID u) (g_ID g))
            (recordAdmin cfg (''group '' @ g_Name g @ '' add-member '' @ u_Username u)))),
          cm_Confirm = None\<rparr>,
         \<lparr>cm_Key = CHR ''R'',
          cm_Commit = (\<lambda>u. io_lift (remove_member cfg fl u g (''group '' @ g_Name g @ '' remove-member '' @ u_Username u))),
          cm_Confirm = None\<rparr>],
      lc_Add = None\<rparr>"

definition groupMembers :: "settings \<Rightarrow> admin_flow \<Rightarrow> group \<Rightarrow> unit io" where
  "groupMembers cfg fl g = RunList cfg (groupMembers_list cfg fl g)"

definition groupAdd_submit :: "settings \<Rightarrow> form_field list \<Rightarrow> form_values \<Rightarrow> (string \<times> form_field list) eff" where
  "groupAdd_submit cfg ffs vals =
     (let name = vals FieldName; ffs' = set_value 0 name ffs
      in if name = [] then return_st (''GROUP NAME IS REQUIRED'', ffs')
         else if isReservedGroup name then return_st (''ZZ* GROUP NAMES ARE RESERVED'', ffs')
         else do {
           r \<leftarrow> groupIDByName name;
           msg \<leftarrow> (case r of
                     Inl e \<Rightarrow> return_st (storeErr ''check group'' e)
                   | Inr (Some _) \<Rightarrow> return_st (quoted name @ '' ALREADY EXISTS'')
                   | Inr None \<Rightarrow> commit_then cfg ''create group'' (CreateGroup name) (recordAdmin cfg (''group create '' @ name)));
           return_st (msg, ffs')
         })"

definition groupAdd_form :: "settings \<Rightarrow> form_field list form_config" where
  "groupAdd_form cfg =
     \<lparr>fc_Title = ''TN3270 GATEWAY ADMIN: ADD GROUP'', fc_Intro = [], fc_PFHelp = [], fc_Fields = id,
      fc_Submit = (\<lambda>ffs vals. io_lift (groupAdd_submit cfg ffs vals)),
      fc_StayOnSave = False, fc_DotLeader = False, fc_Compact = False\<rparr>"

definition groupAdd :: "settings \<Rightarrow> form_field list io" where
  "groupAdd cfg = RunForm cfg (groupAdd_form cfg) [form_input FieldName ''Group name .'' [] 32]"

definition groups_list :: "settings \<Rightarrow> admin_flow \<Rightarrow> group list_config" where
  "groups_list cfg fl =
     \<lparr>lc_Title = ''TN3270 GATEWAY ADMIN: GROUPS'', lc_Header = ''CMD GROUP                MEMBERS  SERVICES'',
      lc_Legend = ''M = members   D = delete   PF4 = add group'',
      lc_PFHelp = ''Enter = process   PF7/PF8 = page   PF3 = admin menu'', lc_Rows = fl_rows fl,
      lc_Fetch = groups_fetch,
      lc_Cmds =
        [\<lparr>cm_Key = CHR ''M'', cm_Commit = (\<lambda>g. no_message (groupMembers cfg fl g)), cm_Confirm = None\<rparr>,
         \<lparr>cm_Key = CHR ''D'',
          cm_Commit = (\<lambda>g. io_lift (commit_then cfg ''delete group'' (DeleteGroup (g_ID g))
            (recordAdmin cfg (''group delete '' @ g_Name g)))),
          cm_Confirm = Some (\<lambda>g. if isReservedGroup (g_Name g) then ([], ''ZZ* GROUP NAMES ARE RESERVED'')
                                  else (confirm_delete (g_Name g), []))\<rparr>],
      lc_Add = Some (no_message (groupAdd cfg))\<rparr>"

definition admin_groups :: "settings \<Rightarrow> admin_flow \<Rightarrow> unit io" where
  "admin_groups cfg fl = RunList cfg (groups_list cfg fl)"

end
