(* ===== verification/Admin_Catalog.thy ===== *)
theory Admin_Catalog
  imports Admin Sysconfig
begin

text \<open>
  The administrator's screens for services (admin_services.go), trusted networks
  (admin_networks.go), system parameters (admin_system.go) and documents (admin_documents.go).
\<close>

section \<open>Services\<close>

definition clip_pad :: "nat \<Rightarrow> string \<Rightarrow> string" where \<comment> \<open>\<open>%-n.ns\<close>\<close>
  "clip_pad n s = pad_right n (take n s)"

definition service_row :: "service \<Rightarrow> string" where
  "service_row s =
     pad_right 8 (s_Name s) @ '' '' @ clip_pad 30 (s_Description s) @ '' '' @
     clip_pad 24 (s_Host s @ '':'' @ itoa (s_Port s)) @ '' '' @ pad_right 3 (yn (s_TLS s)) @ '' '' @ yn (s_TLSVerify s)"

definition services_fetch :: "((string \<times> service) list \<times> string) eff" where
  "services_fetch = do {
     r \<leftarrow> stm ListAllServices;
     (case r of
        Inl e \<Rightarrow> return_st ([], storeErr ''list services'' e)
      | Inr ss \<Rightarrow> return_st (map (\<lambda>s. (service_row s, s)) ss, []))
   }"

definition checkServiceNameFree :: "string \<Rightarrow> service option \<Rightarrow> string eff" where
  "checkServiceNameFree name existing = do {
     r \<leftarrow> stm ListAllServices;
     (case r of
        Inl e \<Rightarrow> return_st (storeErr ''list services'' e)
      | Inr ss \<Rightarrow> return_st (if list_ex (\<lambda>s. s_Name s = name \<and> (case existing of None \<Rightarrow> True | Some x \<Rightarrow> s_ID s \<noteq> s_ID x)) ss
                            then quoted name @ '' ALREADY EXISTS'' else []))
   }"

definition serviceForm_submit ::
  "settings \<Rightarrow> service option \<Rightarrow> form_field list \<Rightarrow> form_values \<Rightarrow> (string \<times> form_field list) eff" where
  "serviceForm_submit cfg existing ffs vals =
     (let name = vals FieldName; description = vals FieldDescription; host = vals FieldHost; port = vals FieldPort;
          tlsYN = to_upper (vals FieldTLS); verifyYN = to_upper (vals FieldVerify);
          ffs' = set_value 5 verifyYN (set_value 4 tlsYN (set_value 3 port (set_value 2 host
                   (set_value 1 description (set_value 0 name ffs)))))
      in case NormalizeServiceName name of
           Inl m \<Rightarrow> return_st (to_upper m, ffs')
         | Inr normName \<Rightarrow>
             (case ValidateDescription description of
                Some m \<Rightarrow> return_st (to_upper m, ffs')
              | None \<Rightarrow>
                  if host = [] then return_st (''HOST IS REQUIRED'', ffs')
                  else case atoi port of
                    None \<Rightarrow> return_st (''PORT MUST BE 1-65535'', ffs')
                  | Some p \<Rightarrow>
                      if p < 1 \<or> 65535 < p then return_st (''PORT MUST BE 1-65535'', ffs')
                      else case (ynBool tlsYN, ynBool verifyYN) of
                        (Some tlsB, Some verifyB) \<Rightarrow> do {
                          msg \<leftarrow> unless_message (checkServiceNameFree normName existing)
                            (case existing of
                               None \<Rightarrow> commit_then cfg ''create service''
                                 (CreateService normName description host p tlsB verifyB) (recordAdmin cfg (''service create '' @ normName))
                             | Some x \<Rightarrow> commit_then cfg ''update service''
                                 (UpdateService (s_ID x) normName description host p tlsB verifyB)
                                 (recordAdmin cfg (''service update '' @ normName)));
                          return_st (msg, ffs')
                        }
                      | _ \<Rightarrow> return_st (''TLS AND VERIFY MUST BE Y OR N'', ffs')))"

definition service_fields :: "service option \<Rightarrow> form_field list" where
  "service_fields existing =
     (case existing of
        None \<Rightarrow> map (\<lambda>(n, l, k, v). form_input n l v k)
          [(FieldName, ''Name'', 8, []), (FieldDescription, ''Description'', 40, []), (FieldHost, ''Host'', 48, []),
           (FieldPort, ''Port'', 5, []), (FieldTLS, ''TLS'', 1, ''N''), (FieldVerify, ''Verify TLS'', 1, ''Y'')]
      | Some s \<Rightarrow> map (\<lambda>(n, l, k, v). form_input n l v k)
          [(FieldName, ''Name'', 8, s_Name s), (FieldDescription, ''Description'', 40, s_Description s),
           (FieldHost, ''Host'', 48, s_Host s), (FieldPort, ''Port'', 5, itoa (s_Port s)),
           (FieldTLS, ''TLS'', 1, yn (s_TLS s)), (FieldVerify, ''Verify TLS'', 1, yn (s_TLSVerify s))])"

definition service_decor :: "form_field list \<Rightarrow> form_field list" where \<comment> \<open>sections and hints of the form\<close>
  "service_decor ffs =
     map (\<lambda>f. if ff_Name f = FieldName then f\<lparr>ff_Section := ''Identity''\<rparr>
              else if ff_Name f = FieldHost then f\<lparr>ff_Section := ''Connection''\<rparr>
              else if ff_Name f = FieldTLS then f\<lparr>ff_Suffix := ''Y/N''\<rparr>
              else if ff_Name f = FieldVerify then f\<lparr>ff_Suffix := ''Y/N   (verify server cert; applies only when TLS=Y)''\<rparr>
              else f) ffs"

definition serviceForm_form :: "settings \<Rightarrow> service option \<Rightarrow> form_field list form_config" where
  "serviceForm_form cfg existing =
     \<lparr>fc_Title = (if existing = None then ''TN3270 GATEWAY ADMIN: ADD SERVICE'' else ''TN3270 GATEWAY ADMIN: EDIT SERVICE''),
      fc_Intro = [], fc_PFHelp = [], fc_Fields = id,
      fc_Submit = (\<lambda>ffs vals. io_lift (serviceForm_submit cfg existing ffs vals)),
      fc_StayOnSave = False, fc_DotLeader = True, fc_Compact = True\<rparr>"

definition serviceForm :: "settings \<Rightarrow> service option \<Rightarrow> form_field list io" where
  "serviceForm cfg existing = RunForm cfg (serviceForm_form cfg existing) (service_decor (service_fields existing))"

definition serviceGroups_fetch :: "service \<Rightarrow> ((string \<times> group) list \<times> string) eff" where
  "serviceGroups_fetch svc = do {
     r \<leftarrow> stm ListGroups;
     (case r of
        Inl e \<Rightarrow> return_st ([], storeErr ''list groups'' e)
      | Inr gs \<Rightarrow> do {
          l \<leftarrow> stm (ListGroupsForService (s_ID svc));
          let linked = (case l of Inl _ \<Rightarrow> [] | Inr ls \<Rightarrow> map g_ID ls);
          return_st (map (\<lambda>g. (marked_row 20 (g_Name g) (g_ID g \<in> set linked), g)) gs,
                     case l of Inl e \<Rightarrow> storeErr ''list service groups'' e | Inr _ \<Rightarrow> [])
        })
   }"

definition serviceGroups_list :: "settings \<Rightarrow> admin_flow \<Rightarrow> service \<Rightarrow> group list_config" where
  "serviceGroups_list cfg fl svc =
     \<lparr>lc_Title = ''TN3270 GATEWAY ADMIN: ACCESS TO '' @ s_Name svc,
      lc_Header = ''CMD GROUP                ACCESS'', lc_Legend = ''A = grant access   R = revoke access'',
      lc_PFHelp = ''Enter = process   PF7/PF8 = page   PF3 = back'', lc_Rows = fl_rows fl,
      lc_Fetch = serviceGroups_fetch svc,
      lc_Cmds =
        [\<lparr>cm_Key = CHR ''A'',
          cm_Commit = (\<lambda>g. io_lift (commit_then cfg ''grant access'' (LinkGroupService (g_ID g) (s_ID svc))
            (recordAdmin cfg (''service '' @ s_Name svc @ '' grant '' @ g_Name g)))),
          cm_Confirm = None\<rparr>,
         \<lparr>cm_Key = CHR ''R'',
          cm_Commit = (\<lambda>g. io_lift (commit_then cfg ''revoke access'' (UnlinkGroupService (g_ID g) (s_ID svc))
            (recordAdmin cfg (''service '' @ s_Name svc @ '' revoke '' @ g_Name g)))),
          cm_Confirm = None\<rparr>],
      lc_Add = None\<rparr>"

definition serviceGroups :: "settings \<Rightarrow> admin_flow \<Rightarrow> service \<Rightarrow> unit io" where
  "serviceGroups cfg fl svc = RunList cfg (serviceGroups_list cfg fl svc)"

definition services_list :: "settings \<Rightarrow> admin_flow \<Rightarrow> service list_config" where
  "services_list cfg fl =
     \<lparr>lc_Title = ''TN3270 GATEWAY ADMIN: SERVICES'',
      lc_Header = ''CMD NAME     DESCRIPTION                    HOST:PORT                TLS VERIFY'',
      lc_Legend = ''S = edit   G = group access   D = delete'',
      lc_PFHelp = ''PF3=Admin Menu    PF4=Add Service    PF7=PgUp    PF8=PgDn'', lc_Rows = fl_rows fl,
      lc_Fetch = services_fetch,
      lc_Cmds =
        [\<lparr>cm_Key = CHR ''S'', cm_Commit = (\<lambda>s. no_message (serviceForm cfg (Some s))), cm_Confirm = None\<rparr>,
         \<lparr>cm_Key = CHR ''G'', cm_Commit = (\<lambda>s. no_message (serviceGroups cfg fl s)), cm_Confirm = None\<rparr>,
         \<lparr>cm_Key = CHR ''D'',
          cm_Commit = (\<lambda>s. io_lift (commit_then cfg ''delete service'' (DeleteService (s_ID s))
            (recordAdmin cfg (''service delete '' @ s_Name s)))),
          cm_Confirm = Some (\<lambda>s. (confirm_delete (s_Name s), []))\<rparr>],
      lc_Add = Some (no_message (serviceForm cfg None))\<rparr>"

definition admin_services :: "settings \<Rightarrow> admin_flow \<Rightarrow> unit io" where
  "admin_services cfg fl = RunList cfg (services_list cfg fl)"

section \<open>Trusted networks\<close>

definition networkForm_submit ::
  "settings \<Rightarrow> trusted_network option \<Rightarrow> form_field list \<Rightarrow> form_values \<Rightarrow> (string \<times> form_field list) eff" where
  "networkForm_submit cfg existing ffs vals =
     (let cidr = trim_space (vals FieldCIDR); comment = vals FieldComment;
          ffs' = set_value 1 comment (set_value 0 cidr ffs)
      in case ParseTrustedCIDR cidr of
           Inl m \<Rightarrow> return_st (to_upper m, ffs')
         | Inr _ \<Rightarrow>
             (case ValidateComment comment of
                Some m \<Rightarrow> return_st (to_upper m, ffs')
              | None \<Rightarrow> do {
                  msg \<leftarrow> (case existing of
                            None \<Rightarrow> commit_then cfg ''create trusted network'' (CreateTrustedNetwork cidr comment)
                              (recordAdmin cfg (''trust create '' @ cidr))
                          | Some n \<Rightarrow> commit_then cfg ''update trusted network'' (UpdateTrustedNetwork (tn_ID n) cidr comment)
                              (recordAdmin cfg (''trust update '' @ cidr)));
                  return_st (msg, ffs')
                }))"

definition networkForm_form :: "settings \<Rightarrow> trusted_network option \<Rightarrow> form_field list form_config" where
  "networkForm_form cfg existing =
     \<lparr>fc_Title = (if existing = None then ''TN3270 GATEWAY ADMIN: ADD TRUSTED NETWORK'' else ''TN3270 GATEWAY ADMIN: EDIT TRUSTED NETWORK''),
      fc_Intro = [], fc_PFHelp = [], fc_Fields = id,
      fc_Submit = (\<lambda>ffs vals. io_lift (networkForm_submit cfg existing ffs vals)),
      fc_StayOnSave = False, fc_DotLeader = False, fc_Compact = False\<rparr>"

definition networkForm :: "settings \<Rightarrow> trusted_network option \<Rightarrow> form_field list io" where
  "networkForm cfg existing = RunForm cfg (networkForm_form cfg existing)
     [form_input FieldCIDR ''Network. . .'' (case existing of None \<Rightarrow> [] | Some n \<Rightarrow> tn_CIDR n) 48,
      form_input FieldComment ''Comment. . .'' (case existing of None \<Rightarrow> [] | Some n \<Rightarrow> tn_Comment n) 40]"

definition networks_fetch :: "((string \<times> trusted_network) list \<times> string) eff" where
  "networks_fetch = do {
     r \<leftarrow> stm ListTrustedNetworks;
     (case r of
        Inl e \<Rightarrow> return_st ([], storeErr ''list trusted networks'' e)
      | Inr ns \<Rightarrow> return_st (map (\<lambda>n. (pad_right 18 (tn_CIDR n) @ '' '' @ tn_Comment n, n)) ns, []))
   }"

definition networks_list :: "settings \<Rightarrow> admin_flow \<Rightarrow> trusted_network list_config" where
  "networks_list cfg fl =
     \<lparr>lc_Title = ''TN3270 GATEWAY ADMIN: TRUSTED NETWORKS'', lc_Header = ''CMD NETWORK          COMMENT'',
      lc_Legend = ''S = edit   D = delete'', lc_PFHelp = ''PF3=Admin Menu    PF4=Add Network    PF7=PgUp    PF8=PgDn'',
      lc_Rows = fl_rows fl, lc_Fetch = networks_fetch,
      lc_Cmds =
        [\<lparr>cm_Key = CHR ''S'', cm_Commit = (\<lambda>n. no_message (networkForm cfg (Some n))), cm_Confirm = None\<rparr>,
         \<lparr>cm_Key = CHR ''D'',
          cm_Commit = (\<lambda>n. io_lift (commit_then cfg ''delete trusted network'' (DeleteTrustedNetwork (tn_ID n))
            (recordAdmin cfg (''trust delete '' @ tn_CIDR n)))),
          cm_Confirm = Some (\<lambda>n. (confirm_delete (tn_CIDR n), []))\<rparr>],
      lc_Add = Some (no_message (networkForm cfg None))\<rparr>"

definition admin_networks :: "settings \<Rightarrow> admin_flow \<Rightarrow> unit io" where
  "admin_networks cfg fl = RunList cfg (networks_list cfg fl)"

section \<open>System parameters\<close>

definition system_fields :: "form_field list eff" where
  "system_fields = map_eff (\<lambda>e. do {
     r \<leftarrow> stm (GetConfig (se_Key e));
     return_st (form_input (se_Key e) (se_Label e) (case r of Inl _ \<Rightarrow> se_Default e | Inr v \<Rightarrow> v)
       (if se_Length e = 0 then 64 else se_Length e))
   }) Catalog"

text \<open>Normalize and validate every value; the first message, or the normalized values.\<close>

fun norm_all :: "sys_entry list \<Rightarrow> form_values \<Rightarrow> string + string list" where
  "norm_all [] vals = Inr []"
| "norm_all (e # es) vals =
     (let v = normalize_entry e (vals (se_Key e))
      in if se_Validate e v \<noteq> [] then Inl (se_Validate e v)
         else case norm_all es vals of Inl m \<Rightarrow> Inl m | Inr vs \<Rightarrow> Inr (v # vs))"

text \<open>Persist the changed values in order; the fields keep what was stored.\<close>

fun persist_all :: "settings \<Rightarrow> (sys_entry \<times> string) list \<Rightarrow> nat \<Rightarrow> form_field list \<Rightarrow> (string \<times> form_field list) eff" where
  "persist_all cfg [] i ffs = return_st ([], ffs)"
| "persist_all cfg ((e, newVal) # es) i ffs =
     (let oldVal = ff_Value (ffs ! i)
      in if newVal = oldVal then persist_all cfg es (Suc i) ffs
         else do {
           msg \<leftarrow> commit_then cfg (''set config '' @ se_Key e) (SetConfig (se_Key e) newVal)
             (recordAdmin cfg (''sysconfig set '' @ se_Key e @ '': '' @ oldVal @ '' -> '' @ newVal));
           (if msg \<noteq> [] then return_st (msg, ffs) else persist_all cfg es (Suc i) (set_value i newVal ffs))
         })"

definition system_submit :: "settings \<Rightarrow> form_field list \<Rightarrow> form_values \<Rightarrow> (string \<times> form_field list) eff" where
  "system_submit cfg ffs vals =
     (case norm_all Catalog vals of
        Inl msg \<Rightarrow> return_st (msg, ffs)
      | Inr vs \<Rightarrow> persist_all cfg (zip Catalog vs) 0 ffs)"

definition system_form :: "settings \<Rightarrow> form_field list form_config" where
  "system_form cfg =
     \<lparr>fc_Title = ''TN3270 GATEWAY ADMIN: SYSTEM PARAMETERS'', fc_Intro = [], fc_PFHelp = [], fc_Fields = id,
      fc_Submit = (\<lambda>ffs vals. io_lift (system_submit cfg ffs vals)),
      fc_StayOnSave = True, fc_DotLeader = True, fc_Compact = False\<rparr>"

definition systemParams :: "settings \<Rightarrow> unit io" where
  "systemParams cfg = try_bind (io_lift system_fields) (\<lambda>ffs. try_bind (RunForm cfg (system_form cfg) ffs) (\<lambda>_. io_return ()))"

section \<open>Documents\<close>

fun replace_first :: "char \<Rightarrow> char \<Rightarrow> string \<Rightarrow> string" where
  "replace_first a b [] = []"
| "replace_first a b (c # cs) = (if c = a then b # cs else c # replace_first a b cs)"

definition docStamp :: "string \<Rightarrow> string" where
  "docStamp stamp = take 16 (replace_first (CHR ''T'') (CHR '' '') stamp)"

definition docImportPathKey :: "string \<Rightarrow> string" where
  "docImportPathKey doc = (if doc = DocBranding then KeyBrandingFile else if doc = DocMOTD then KeyMOTDFile else [])"

definition documents_fetch :: "((string \<times> document) list \<times> string) eff" where
  "documents_fetch = do {
     r \<leftarrow> stm ListDocuments;
     (case r of
        Inl e \<Rightarrow> return_st ([], storeErr ''list documents'' e)
      | Inr ds \<Rightarrow> return_st (map (\<lambda>d.
          (pad_right 10 (d_Name d) @ '' '' @ pad_left (CHR '' '') 5 (itoa (int (doc_LineCount (d_Content d)))) @ ''  '' @
           pad_right 16 (docStamp (d_UpdatedAt d)) @ ''  '' @ d_UpdatedBy d, d)) ds, []))
   }"

text \<open>The captured variable is \<open>saved\<close>, the message shown by the list.\<close>

definition document_save :: "settings \<Rightarrow> admin_flow \<Rightarrow> document \<Rightarrow> string \<Rightarrow> string list \<Rightarrow> (string \<times> string) eff" where
  "document_save cfg fl d saved ls = do {
     now \<leftarrow> clock;
     r \<leftarrow> stm (SetDocument (d_Name d) (join_with [newline] ls) (id_Username (fl_identity fl)) now);
     (case r of
        Inl ErrDocumentTooLarge \<Rightarrow> return_st (''DOCUMENT TOO LARGE (MAX 8 KIB)'', saved)
      | Inl e \<Rightarrow> return_st (storeErr ''save document'' e, saved)
      | Inr _ \<Rightarrow> do {
          flow_record cfg AuditDocUpdate (d_Name d @ '' '' @ itoa (int (length ls)) @ '' lines'');
          return_st ([], d_Name d @ '' SAVED'')
        })
   }"

definition documentEditor :: "settings \<Rightarrow> admin_flow \<Rightarrow> document \<Rightarrow> string io" where
  "documentEditor cfg fl d = RunEditor cfg
     \<lparr>ec_Title = ''EDIT '' @ d_Name d, ec_Rows = fl_rows fl, ec_Lines = doc_Lines (d_Content d),
      ec_Save = (\<lambda>saved ls. io_lift (document_save cfg fl d saved ls))\<rparr> []"

definition import_submit ::
  "settings \<Rightarrow> admin_flow \<Rightarrow> document \<Rightarrow> form_field list \<times> string \<Rightarrow> form_values \<Rightarrow>
   (string \<times> (form_field list \<times> string)) eff" where
  "import_submit cfg fl d st vals =
     (let path = trim_space (vals FieldPath); ffs' = set_value 0 path (fst st); imported = snd st
      in case ReadDocumentFile (lib_fs cfg) path of
           Inl m \<Rightarrow> return_st (to_upper m, ffs', imported)
         | Inr content \<Rightarrow> do {
             now \<leftarrow> clock;
             r \<leftarrow> stm (SetDocument (d_Name d) content (id_Username (fl_identity fl)) now);
             (case r of
                Inl e \<Rightarrow> return_st (storeErr ''import document'' e, ffs', imported)
              | Inr _ \<Rightarrow> do {
                  let n = itoa (int (doc_LineCount content));
                  flow_record cfg AuditDocImport (d_Name d @ '' from '' @ path @ '' ('' @ n @ '' lines)'');
                  return_st ([], ffs', d_Name d @ '' IMPORTED ('' @ n @ '' LINES)'')
                })
           })"

definition import_form :: "settings \<Rightarrow> admin_flow \<Rightarrow> document \<Rightarrow> (form_field list \<times> string) form_config" where
  "import_form cfg fl d =
     \<lparr>fc_Title = ''IMPORT '' @ d_Name d @ '' FROM SERVER FILE'', fc_Intro = [], fc_PFHelp = [], fc_Fields = fst,
      fc_Submit = (\<lambda>st vals. io_lift (import_submit cfg fl d st vals)),
      fc_StayOnSave = False, fc_DotLeader = False, fc_Compact = False\<rparr>"

definition documentImport :: "settings \<Rightarrow> admin_flow \<Rightarrow> document \<Rightarrow> string io" where
  "documentImport cfg fl d =
     try_bind (io_lift (let key = docImportPathKey (d_Name d)
                        in if key = [] then return_st []
                           else do { r \<leftarrow> stm (GetConfig key); return_st (case r of Inl _ \<Rightarrow> [] | Inr v \<Rightarrow> v) }))
       (\<lambda>defaultPath.
          try_bind (RunForm cfg (import_form cfg fl d) ([form_input FieldPath ''Server file path. .'' defaultPath 56], []))
            (\<lambda>st. io_return (snd st)))"

definition documents_list :: "settings \<Rightarrow> admin_flow \<Rightarrow> document list_config" where
  "documents_list cfg fl =
     \<lparr>lc_Title = ''TN3270 GATEWAY ADMIN: DOCUMENTS'', lc_Header = ''CMD NAME       LINES  CHANGED (UTC)     ID'',
      lc_Legend = ''E = edit   I = import from server file'', lc_PFHelp = ''PF3=Admin Menu    PF7=PgUp    PF8=PgDn'',
      lc_Rows = fl_rows fl, lc_Fetch = documents_fetch,
      lc_Cmds =
        [\<lparr>cm_Key = CHR ''E'', cm_Commit = documentEditor cfg fl, cm_Confirm = None\<rparr>,
         \<lparr>cm_Key = CHR ''I'', cm_Commit = documentImport cfg fl, cm_Confirm = None\<rparr>],
      lc_Add = None\<rparr>"

definition admin_documents :: "settings \<Rightarrow> admin_flow \<Rightarrow> unit io" where
  "admin_documents cfg fl = RunList cfg (documents_list cfg fl)"

end
