(* ===== verification/Admin_Monitor.thy ===== *)
theory Admin_Monitor
  imports Admin_Catalog
begin

text \<open>
  The audit viewer (admin_audit.go), the active-session viewer (admin_sessions.go), the
  reverse-DNS helper (resolver.go), and the administrator's menu (admin.go,
  presenter_admin.go).
\<close>

section \<open>Times\<close>

definition is_leap :: "int \<Rightarrow> bool" where
  "is_leap y \<longleftrightarrow> y mod 4 = 0 \<and> (y mod 100 \<noteq> 0 \<or> y mod 400 = 0)"

definition year_day :: "int \<times> int \<times> int \<Rightarrow> int" where \<comment> \<open>\<open>t.YearDay()\<close>\<close>
  "year_day ymd = (case ymd of (y, m, d) \<Rightarrow>
     sum_list (take (nat (m - 1)) [31, if is_leap y then 29 else 28, 31, 30, 31, 30, 31, 31, 30, 31, 30, 31]) + d)"

definition julianStamp :: "go_time \<Rightarrow> string" where
  "julianStamp t = (case days_civil (day_of t) of (y, m, d) \<Rightarrow>
     date_string t @ '' ('' @ itoa y @ ''.'' @ zpad 3 (year_day (y, m, d)) @ '')'')"

definition hm_string :: "go_time \<Rightarrow> string" where "hm_string t = take 5 (clock_string t)" \<comment> \<open>format 15:04\<close>

definition md_string :: "go_time \<Rightarrow> string" where \<comment> \<open>format 01/02\<close>
  "md_string t = (case days_civil (day_of t) of (_, m, d) \<Rightarrow> zpad 2 m @ ''/'' @ zpad 2 d)"

section \<open>Reverse DNS\<close>

definition ptr :: "settings \<Rightarrow> string \<Rightarrow> string" where
  "ptr cfg remoteAddr =
     (if trim_space remoteAddr = [] then []
      else let host = (case split_host_port remoteAddr of None \<Rightarrow> remoteAddr | Some (h, _) \<Rightarrow> h)
           in case lib_resolve cfg host of
                None \<Rightarrow> ''(unavailable)''
              | Some [] \<Rightarrow> ''(none)''
              | Some (n # _) \<Rightarrow> trim_suffix ''.'' n)"

definition auditReverseDNS :: "bool eff" where
  "auditReverseDNS = do {
     r \<leftarrow> stm (GetConfig KeyAuditReverseDNS);
     return_st (case r of Inl _ \<Rightarrow> True | Inr v \<Rightarrow> equal_fold (trim_space v) ''Y'')
   }"

definition ptr_fields :: "settings \<Rightarrow> string \<Rightarrow> detail_field list eff" where
  "ptr_fields cfg addr = do {
     on \<leftarrow> auditReverseDNS;
     return_st (if on \<and> ptr cfg addr \<noteq> [] then [\<lparr>df_Label = ''PTR'', df_Value = ptr cfg addr, df_Color = DefaultColor\<rparr>] else [])
   }"

section \<open>Audit log\<close>

definition auditEventColor :: "string \<Rightarrow> color" where
  "auditEventColor k =
     (if k \<in> {AuditAuthFail, AuditAuthError, AuditMFAFailed} then Red
      else if k \<in> {AuditAdmin, AuditMFACleared, AuditMFAEnforced, AuditMFAEnrolled, AuditSessionDisconnect} then Yellow
      else DefaultColor)"

definition auditCap :: "int eff" where
  "auditCap = do {
     r \<leftarrow> stm (GetConfig KeyAuditMaxRows);
     return_st (case r of
        Inl _ \<Rightarrow> DefaultAuditMaxRows
      | Inr v \<Rightarrow> (case atoi (trim_space v) of
                   None \<Rightarrow> DefaultAuditMaxRows
                 | Some n \<Rightarrow> if n < 1 \<or> 10000 < n then DefaultAuditMaxRows else n))
   }"

definition auditWindow :: duration where "auditWindow = 72 * hour"

definition auditRow :: "audit_event \<Rightarrow> snapshot_row" where
  "auditRow ev =
     (let at = unix_time (ae_At ev)
      in \<lparr>sr_Left = md_string at @ '' '' @ hm_string at @ '' '' @ clip_pad 8 (ae_Username ev),
          sr_Mid = clip_pad 12 (to_upper (ae_Kind ev)), sr_Right = take 38 (ae_Detail ev),
          sr_MidColor = auditEventColor (ae_Kind ev)\<rparr>)"

definition plain_field :: "string \<Rightarrow> string \<Rightarrow> detail_field" where
  "plain_field label v = \<lparr>df_Label = label, df_Value = v, df_Color = DefaultColor\<rparr>"

definition auditDetail :: "settings \<Rightarrow> audit_event \<Rightarrow> detail_view eff" where
  "auditDetail cfg ev = do {
     let at = unix_time (ae_At ev);
     remote \<leftarrow> (if ae_RemoteAddr ev = [] then return_st []
               else do { p \<leftarrow> ptr_fields cfg (ae_RemoteAddr ev); return_st (plain_field ''Remote'' (ae_RemoteAddr ev) # p) });
     return_st \<lparr>dv_Title = ''AUDIT DETAIL'', dv_BodyLabel = ''Detail'', dv_Body = ae_Detail ev, dv_PFHelp = ''PF3=Back'',
       dv_Message = [],
       dv_Fields =
         [plain_field ''Date/Time'' (julianStamp at @ '' '' @ clock_string at @ '' UTC''),
          plain_field ''Session'' (ae_SessionID ev), plain_field ''Username'' (ae_Username ev), plain_field ''Actor'' (ae_Actor ev),
          \<lparr>df_Label = ''Event'', df_Value = to_upper (ae_Kind ev), df_Color = auditEventColor (ae_Kind ev)\<rparr>]
         @ remote @ [plain_field ''Service'' (ae_Service ev)],
       dv_DotLeader = True\<rparr>
   }"

definition as_of :: "go_time \<Rightarrow> string" where
  "as_of now = ''AS OF '' @ julianStamp now @ ''  '' @ hm_string now @ '' UTC''"

definition audit_fetch :: "int \<Rightarrow> ((snapshot_row \<times> audit_event) list \<times> string \<times> string) eff" where
  "audit_fetch maxRows = do {
     now \<leftarrow> clock;
     r \<leftarrow> stm (ListAudit \<lparr>af_Username = [], af_Actor = [], af_Kind = [],
            af_Since = Some (time_unix (now - auditWindow)), af_Limit = maxRows + 1\<rparr>);
     (case r of
        Inl e \<Rightarrow> return_st ([], [], storeErr ''list audit'' e)
      | Inr evs \<Rightarrow>
          let over = (maxRows < int (length evs))
          in return_st (map (\<lambda>ev. (auditRow ev, ev)) (if over then take (nat maxRows) evs else evs),
               as_of now @ (if over then ''  (NEWEST '' @ itoa maxRows @ '')'' else []), []))
   }"

definition audit_list :: "settings \<Rightarrow> admin_flow \<Rightarrow> int \<Rightarrow> audit_event snapshot_config" where
  "audit_list cfg fl maxRows =
     \<lparr>sc_Title = ''RECENT ACTIVITY'', sc_Legend = ''S = detail'',
      sc_PFHelp = ''PF3=Admin Menu   PF7=PgUp  PF8=PgDn   Enter=Refresh'', sc_Empty = ''(no activity in the last 72 hours)'',
      sc_Head = \<lparr>sr_Left = ''MM/DD HH:MM USERNAME'', sr_Mid = ''EVENT'', sr_Right = ''DETAIL'', sr_MidColor = DefaultColor\<rparr>,
      sc_Rows = fl_rows fl, sc_Wide = False, sc_Fetch = audit_fetch maxRows,
      sc_OnSelect = Some (\<lambda>ev. try_bind (io_lift (auditDetail cfg ev)) (\<lambda>v. try_bind (r_Detail cfg v) (\<lambda>_. io_return False))),
      sc_ActCmd = None, sc_Confirm = None, sc_OnAct = None\<rparr>"

definition auditLog :: "settings \<Rightarrow> admin_flow \<Rightarrow> unit io" where
  "auditLog cfg fl = try_bind (io_lift auditCap) (\<lambda>maxRows. RunSnapshotList cfg (audit_list cfg fl maxRows))"

section \<open>Active sessions\<close>

definition clipField :: "string \<Rightarrow> nat \<Rightarrow> string" where
  "clipField s w = (if length s \<le> w then s else take (w - 1) s @ ''>'')"

definition hhmmss :: "duration \<Rightarrow> string" where
  "hhmmss d0 = (let secs = (if d0 < 0 then 0 else d0) div second
     in zpad 2 (secs div 3600) @ '':'' @ zpad 2 (secs mod 3600 div 60) @ '':'' @ zpad 2 (secs mod 60))"

definition session_columns :: "string \<Rightarrow> string \<Rightarrow> string \<Rightarrow> string \<Rightarrow> string \<Rightarrow> string \<Rightarrow> string" where
  "session_columns a b c d e f =
     pad_right 7 a @ '' '' @ pad_right 21 b @ '' '' @ pad_right 9 c @ '' '' @ pad_right 9 d @ '' '' @ pad_right 8 e @ '' '' @ pad_right 13 f"

definition fmtSessionRow :: "session_view \<Rightarrow> go_time \<Rightarrow> nat \<Rightarrow> snapshot_row" where
  "fmtSessionRow v now selfID =
     (let user = (if vw_ID v = selfID then ''*YOU*'' else if vw_LoggedInAt v = 0 then ''(login)'' else vw_Username v);
          service = (if vw_Service v = [] then ''-'' else vw_Service v)
      in \<lparr>sr_Left = session_columns (clipField (itoa (int (vw_ID v))) 7) (clipField (vw_RemoteAddr v) 21)
            (clock_string (vw_ConnectedAt v)) (hhmmss (time_sub now (vw_ConnectedAt v))) (clipField user 8) (clipField service 13),
          sr_Mid = [], sr_Right = [], sr_MidColor = DefaultColor\<rparr>)"

definition sessionDetail :: "settings \<Rightarrow> session_view \<Rightarrow> detail_view eff" where
  "sessionDetail cfg v = do {
     now \<leftarrow> clock;
     p \<leftarrow> ptr_fields cfg (vw_RemoteAddr v);
     let age = (\<lambda>t. julianStamp t @ '' '' @ clock_string t @ '' UTC   ('' @ hhmmss (time_sub now t) @ '')'');
     return_st \<lparr>dv_Title = ''SESSION DETAIL'', dv_BodyLabel = [], dv_Body = [], dv_PFHelp = ''PF3=Back   PF11=Disconnect'',
       dv_Message = [],
       dv_Fields =
         [plain_field ''Session'' (itoa (int (vw_ID v))), plain_field ''Client'' (vw_RemoteAddr v)] @ p @
         [plain_field ''Connected'' (age (vw_ConnectedAt v)),
          plain_field ''Logged in'' (if vw_LoggedInAt v = 0 then ''(not logged in)'' else age (vw_LoggedInAt v)),
          plain_field ''User'' (if vw_LoggedInAt v = 0 then ''(login)'' else vw_Username v),
          plain_field ''Service'' (if vw_Service v = [] then ''-'' else vw_Service v)],
       dv_DotLeader = True\<rparr>
   }"

definition sessions_snapshot :: "session_view list eff" where
  "sessions_snapshot = on_registry (\<lambda>r. (case r of None \<Rightarrow> [] | Some reg \<Rightarrow> reg_Snapshot reg, r))"

definition sessions_disconnect :: "nat \<Rightarrow> session_view option eff" where
  "sessions_disconnect i = on_registry (\<lambda>r. case r of
     None \<Rightarrow> (None, None)
   | Some reg \<Rightarrow> (case reg_Disconnect reg i of (v, reg') \<Rightarrow> (v, Some reg')))"

definition session_act :: "settings \<Rightarrow> session_view \<Rightarrow> (string \<times> bool) eff" where
  "session_act cfg v = do {
     b \<leftarrow> sessions_disconnect (vw_ID v);
     (case b of
        None \<Rightarrow> return_st (''SESSION ALREADY ENDED'', True)
      | Some booted \<Rightarrow> do {
          audit_record cfg ((audit_event_of AuditSessionDisconnect)\<lparr>ae_Username := vw_Username booted,
            ae_Detail := ''disconnected session '' @ itoa (int (vw_ID booted)) @ '' ('' @ vw_RemoteAddr booted @ '')''\<rparr>);
          return_st (''DISCONNECTED'', True)
        })
   }"

definition session_confirm :: "settings \<Rightarrow> session_view \<Rightarrow> string \<times> string" where
  "session_confirm cfg v =
     (if vw_ID v = st_SessionID cfg then ([], ''CANNOT DISCONNECT YOUR OWN SESSION'')
      else (''CONFIRM DISCONNECT '' @ (if vw_Username v = [] then vw_RemoteAddr v else vw_Username v) @ '' - PRESS PF11 AGAIN'', []))"

definition session_select :: "settings \<Rightarrow> session_view \<Rightarrow> bool io" where
  "session_select cfg v = try_bind (io_lift (sessionDetail cfg v)) (\<lambda>dv. RunDetail cfg
     \<lparr>dc_View = dv, dc_ActPF = 11, dc_DonePFHelp = ''PF3=Back'', dc_Confirm = session_confirm cfg v, dc_OnAct = session_act cfg v\<rparr>)"

definition sessions_fetch :: "settings \<Rightarrow> ((snapshot_row \<times> session_view) list \<times> string \<times> string) eff" where
  "sessions_fetch cfg = do {
     now \<leftarrow> clock;
     views \<leftarrow> sessions_snapshot;
     return_st (map (\<lambda>v. (fmtSessionRow v now (st_SessionID cfg), v)) views, as_of now, [])
   }"

definition sessions_list :: "settings \<Rightarrow> admin_flow \<Rightarrow> session_view snapshot_config" where
  "sessions_list cfg fl =
     \<lparr>sc_Title = ''ACTIVE SESSIONS'', sc_Legend = ''S = detail'',
      sc_PFHelp = ''PF3=Admin Menu  PF7=Up  PF8=Down  Enter=Refresh'', sc_Empty = ''(no active sessions)'',
      sc_Head = \<lparr>sr_Left = session_columns ''ID'' ''CLIENT'' ''CONNECTED'' ''SESSION'' ''USER'' ''SERVICE'', sr_Mid = [], sr_Right = [],
        sr_MidColor = DefaultColor\<rparr>,
      sc_Rows = fl_rows fl, sc_Wide = True, sc_Fetch = sessions_fetch cfg,
      sc_OnSelect = Some (session_select cfg), sc_ActCmd = None, sc_Confirm = None, sc_OnAct = None\<rparr>"

definition activeSessions :: "settings \<Rightarrow> admin_flow \<Rightarrow> unit io" where
  "activeSessions cfg fl =
     try_bind (io_lift (gets (\<lambda>w. sh_registry (w_shared w)))) (\<lambda>r. case r of
       None \<Rightarrow> io_return ()
     | Some _ \<Rightarrow> RunSnapshotList cfg (sessions_list cfg fl))"

section \<open>The menu\<close>

text \<open>\<open>None\<close> is back.\<close>

definition admin_option :: "string \<Rightarrow> nat option" where
  "admin_option s = find (\<lambda>n. s = itoa (int n)) [1, 2, 3, 4, 5, 6, 7, 8]"

definition AdminMenu :: "settings \<Rightarrow> string \<Rightarrow> nat option io" where
  "AdminMenu cfg errMsg0 = io_loop (\<lambda>errMsg.
     try_bind (handleScreen cfg (VAdminMenu errMsg) [AIDPF 3]) (\<lambda>resp.
       if rs_AID resp = AIDPF 3 then leave None
       else case admin_option (trim_space (resp_value resp FieldOption)) of
         Some n \<Rightarrow> leave (Some n)
       | None \<Rightarrow> again ''Invalid option'')) errMsg0"

definition admin_choice :: "settings \<Rightarrow> admin_flow \<Rightarrow> nat \<Rightarrow> unit io" where
  "admin_choice cfg fl n =
     (if n = 1 then admin_users cfg fl
      else if n = 2 then admin_groups cfg fl
      else if n = 3 then admin_services cfg fl
      else if n = 4 then systemParams cfg
      else if n = 5 then admin_networks cfg fl
      else if n = 6 then auditLog cfg fl
      else if n = 7 then activeSessions cfg fl
      else if n = 8 then admin_documents cfg fl
      else io_return ())"

definition adminFlow_Run :: "settings \<Rightarrow> admin_flow \<Rightarrow> unit io" where
  "adminFlow_Run cfg fl = io_loop (\<lambda>_.
     try_bind (AdminMenu cfg []) (\<lambda>choice. case choice of
       None \<Rightarrow> leave ()
     | Some n \<Rightarrow> try_bind (admin_choice cfg fl n) (\<lambda>_. again ()))) ()"

end
