(* ===== verification/Session.thy ===== *)
theory Session
  imports Presenter Admin_Monitor Trust
begin

text \<open>
  The session state machine of internal/server/session.go: \<open>Run\<close>, the login loop, the MFA and
  news gates, the service menu with its guards, self-service settings, and \<open>Handle\<close> of
  server.go around it. The variables of the Go functions that survive a round of a loop are the
  loop's state; where a function maps an error of the connection to an outcome, the result is
  inspected as a value. An error that is not of the connection is \<open>IoFatal\<close>.
\<close>

section \<open>Mirrors and small readers\<close>

definition reg_update :: "(session_registry \<Rightarrow> session_registry) \<Rightarrow> unit eff" where
  "reg_update f = on_registry (\<lambda>r. ((), map_option f r))"

definition regSetLogin :: "settings \<Rightarrow> string \<Rightarrow> unit eff" where
  "regSetLogin cfg username = do { now \<leftarrow> clock; reg_update (\<lambda>r. setLogin r (st_SessionID cfg) username now) }"

definition regClearLogin :: "settings \<Rightarrow> unit eff" where
  "regClearLogin cfg = reg_update (\<lambda>r. clearLogin r (st_SessionID cfg))"

definition regSetService :: "settings \<Rightarrow> string \<Rightarrow> unit eff" where
  "regSetService cfg name = reg_update (\<lambda>r. setService r (st_SessionID cfg) name)"

definition regClearService :: "settings \<Rightarrow> unit eff" where
  "regClearService cfg = reg_update (\<lambda>r. clearService r (st_SessionID cfg))"

definition config_or :: "string \<Rightarrow> string \<Rightarrow> string eff" where \<comment> \<open>a blank or unreadable value is the default\<close>
  "config_or key def = do {
     r \<leftarrow> stm (GetConfig key);
     return_st (case r of Inl _ \<Rightarrow> def | Inr v \<Rightarrow> if trim_space v = [] then def else v)
   }"

definition mfaIssuer :: "string eff" where "mfaIssuer = config_or KeyMFAIssuer ''TN3270PROXY''"
definition systemID :: "string eff" where "systemID = config_or KeySystemID ''PROXY''"

definition loginBranding :: "string list eff" where
  "loginBranding = do {
     r \<leftarrow> stm (GetDocument DocBranding);
     return_st (case r of Inl _ \<Rightarrow> [] | Inr d \<Rightarrow> SplitBranding (d_Content d))
   }"

definition helpMenuLines :: "(store_error + string list) eff" where
  "helpMenuLines = do {
     r \<leftarrow> stm (GetDocument DocHelpMenu);
     return_st (case r of Inl e \<Rightarrow> Inl e | Inr d \<Rightarrow> Inr (doc_Lines (d_Content d)))
   }"

definition regime :: "(idle_conn option \<Rightarrow> idle_conn option) \<Rightarrow> unit eff" where
  "regime f = modify (\<lambda>w. w\<lparr>w_idle := f (w_idle w)\<rparr>)"

definition arm_pre_auth :: "settings \<Rightarrow> unit eff" where
  "arm_pre_auth cfg = do { now \<leftarrow> clock; regime (armPreAuth (st_Limits cfg) now) }"

definition arm_post_auth :: "settings \<Rightarrow> unit eff" where
  "arm_post_auth cfg = regime (armPostAuth (st_Limits cfg))"

definition arm_bridge :: "settings \<Rightarrow> unit eff" where
  "arm_bridge cfg = regime (armBridge (st_Limits cfg))"

text \<open>\<open>failDelay\<close>: the three parameters are read in the order \<open>loadThrottle\<close> reads them.\<close>

definition fail_delay :: "string \<Rightarrow> (duration \<times> int) eff" where
  "fail_delay username = do {
     th \<leftarrow> gets (\<lambda>w. sh_throttle (w_shared w));
     (case th of
        None \<Rightarrow> return_st (0, 0)
      | Some _ \<Rightarrow> do {
          mins \<leftarrow> stm (GetConfig KeyAuthFailWindowMins);
          base \<leftarrow> stm (GetConfig KeyAuthDelayBaseSecs);
          tries \<leftarrow> stm (GetConfig KeyAuthMaxTries);
          now \<leftarrow> clock;
          let get = (\<lambda>k. case (if k = KeyAuthFailWindowMins then mins else if k = KeyAuthDelayBaseSecs then base else tries) of
                        Inl _ \<Rightarrow> None | Inr v \<Rightarrow> Some v);
          on_throttle (\<lambda>th. case failDelay th get username now of (d, c, th') \<Rightarrow> ((d, c), th'))
        })
   }"

definition throttle_reset :: "string \<Rightarrow> unit eff" where
  "throttle_reset username = on_throttle (\<lambda>th. ((), throttle_Reset th username))"

definition logAuthFailure :: "string \<Rightarrow> string \<Rightarrow> unit eff" where
  "logAuthFailure user reason = emit (OAuthFailed user reason)"

definition record_user :: "settings \<Rightarrow> string \<Rightarrow> string \<Rightarrow> string \<Rightarrow> unit eff" where
  "record_user cfg kind username detail =
     audit_record cfg ((audit_event_of kind)\<lparr>ae_Username := username, ae_Detail := detail\<rparr>)"

text \<open>A rejected credential: count, log, audit, then delay.\<close>

definition reject :: "settings \<Rightarrow> string \<Rightarrow> unit eff" where
  "reject cfg username = do {
     d \<leftarrow> fail_delay username;
     logAuthFailure username ''invalid_credentials'';
     record_user cfg AuditAuthFail username (throttleDetail [] (fst d) (snd d));
     io_sleep (fst d)
   }"

text \<open>\<open>mfaVerify\<close> and \<open>confirmEnroll\<close> write the log line before counting.\<close>

definition reject_code :: "settings \<Rightarrow> string \<Rightarrow> string \<Rightarrow> unit eff" where
  "reject_code cfg username context1 = do {
     logAuthFailure username ''bad_mfa'';
     d \<leftarrow> fail_delay username;
     record_user cfg AuditMFAFailed username (throttleDetail context1 (fst d) (snd d));
     io_sleep (fst d)
   }"

definition authenticate :: "settings \<Rightarrow> string \<Rightarrow> string \<Rightarrow> (auth_error + identity) eff" where
  "authenticate cfg user pass = stm (Authenticate (lib_compare cfg) user pass)"

definition error_text :: "settings \<Rightarrow> auth_error \<Rightarrow> string" where
  "error_text cfg e = (case e of ErrInvalidCredentials \<Rightarrow> [] | ErrStore s \<Rightarrow> lib_errtext cfg s)"

section \<open>Login\<close>

text \<open>\<open>Inl\<close> is the detail of the disconnect record.\<close>

definition login_round :: "settings \<Rightarrow> menu_status \<Rightarrow> string \<Rightarrow> (string + (string + identity)) io" where
  "login_round cfg status errMsg = do {
     branding \<leftarrow> loginBranding;
     r \<leftarrow> p_Login cfg status branding errMsg;
     (case r of
        Inl e \<Rightarrow> if e = IoFuel then io_fail e
                 else leave (Inl (if isTimeoutErr e then ''idle timeout'' else ''login render error''))
      | Inr None \<Rightarrow> leave (Inl ''quit at login'')
      | Inr (Some (user, pass)) \<Rightarrow> do {
          a \<leftarrow> authenticate cfg user pass;
          (case a of
             Inr ident \<Rightarrow> do {
               throttle_reset user;
               setActor (id_Username ident);
               record_user cfg AuditAuthOK (id_Username ident) [];
               leave (Inr ident)
             }
           | Inl e \<Rightarrow>
               if e \<noteq> ErrInvalidCredentials then do {
                 record_user cfg AuditAuthError user (error_text cfg e);
                 again ''Temporary error; try again''
               }
               else do {
                 reject cfg user;
                 again ''Invalid user ID or password''
               })
        })
   }"

definition doLogin :: "settings \<Rightarrow> (string + identity) io" where
  "doLogin cfg = do {
     setActor [];
     sid \<leftarrow> systemID;
     io_loop (login_round cfg \<lparr>ms_Username = [], ms_TermType = [], ms_SystemID = sid, ms_Release = st_Release cfg, ms_Now = 0\<rparr>) []
   }"

section \<open>Second factor\<close>

text \<open>\<open>Inl\<close>: a fatal error and its detail; \<open>Inr True\<close>: confirmed; \<open>Inr False\<close>: the user quit.\<close>

definition enroll_round ::
  "settings \<Rightarrow> aead \<Rightarrow> user \<Rightarrow> string \<Rightarrow> string \<Rightarrow> string \<Rightarrow> (string + ((string \<times> io_err) + bool)) io" where
  "enroll_round cfg cipher u secret issuer errMsg = do {
     r \<leftarrow> p_EnrollMFA cfg issuer (u_Username u) (Chunk secret) errMsg;
     (case r of
        Inl e \<Rightarrow> if e = IoFuel then io_fail e else leave (Inl (''mfa render error'', e))
      | Inr None \<Rightarrow> leave (Inr False)
      | Inr (Some code) \<Rightarrow> do {
          now \<leftarrow> clock;
          (case Validate (lib_hotp cfg) secret code 0 now of
             Inl _ \<Rightarrow> again ''Temporary error; try again''
           | Inr (ok, step) \<Rightarrow>
               if \<not> ok then do {
                 reject_code cfg (u_Username u) ''enroll'';
                 again ''Code incorrect - check the key and try again''
               }
               else do {
                 n \<leftarrow> draw;
                 (case Seal cipher (lib_nonce cfg n) secret of
                    None \<Rightarrow> leave (Inl (''mfa seal error'', IoFatal))
                  | Some enc \<Rightarrow> do {
                      now' \<leftarrow> clock;
                      s \<leftarrow> stm (StoreMFAEnrollment (u_ID u) enc (rfc3339 now') (sint step));
                      (case s of
                         Inl _ \<Rightarrow> leave (Inl (''mfa store error'', IoFatal))
                       | Inr _ \<Rightarrow> do {
                           throttle_reset (u_Username u);
                           record_user cfg AuditMFAEnrolled (u_Username u) [];
                           leave (Inr True)
                         })
                    })
               })
        })
   }"

definition confirmEnroll :: "settings \<Rightarrow> aead \<Rightarrow> user \<Rightarrow> string \<Rightarrow> ((string \<times> io_err) + bool) io" where
  "confirmEnroll cfg cipher u secret = do {
     issuer \<leftarrow> mfaIssuer;
     io_loop (enroll_round cfg cipher u secret issuer) []
   }"

definition generateSecret :: "settings \<Rightarrow> string \<Rightarrow> string \<Rightarrow> string option eff" where
  "generateSecret cfg issuer account = do { n \<leftarrow> draw; return_st (lib_secret cfg n issuer account) }"

definition idle_logout :: "settings \<Rightarrow> string \<Rightarrow> unit eff" where
  "idle_logout cfg username = do { record_user cfg AuditLogout username ''idle logout''; arm_pre_auth cfg }"

text \<open>\<open>Inl\<close>: fatal, with the detail; \<open>Inr proceed\<close>.\<close>

definition mfaEnroll :: "settings \<Rightarrow> aead \<Rightarrow> user \<Rightarrow> (string + bool) io" where
  "mfaEnroll cfg cipher u = do {
     issuer \<leftarrow> mfaIssuer;
     g \<leftarrow> generateSecret cfg issuer (u_Username u);
     (case g of
        None \<Rightarrow> io_return (Inl ''mfa generate error'')
      | Some secret \<Rightarrow> try_bind (confirmEnroll cfg cipher u secret) (\<lambda>r. case r of
            Inl (detail, e) \<Rightarrow>
              if isTimeoutErr e then do { idle_logout cfg (u_Username u); io_return (Inr False) }
              else io_return (Inl detail)
          | Inr confirmed \<Rightarrow>
              if \<not> confirmed then do { arm_pre_auth cfg; io_return (Inr False) } else io_return (Inr True)))
   }"

definition verify_round :: "settings \<Rightarrow> user \<Rightarrow> string \<Rightarrow> string \<Rightarrow> (string + (string + bool)) io" where
  "verify_round cfg u secret errMsg = do {
     r \<leftarrow> p_VerifyMFA cfg errMsg;
     (case r of
        Inl e \<Rightarrow>
          if e = IoFuel then io_fail e
          else if isTimeoutErr e then do { idle_logout cfg (u_Username u); leave (Inr False) }
          else leave (Inl ''mfa render error'')
      | Inr None \<Rightarrow> do { arm_pre_auth cfg; leave (Inr False) }
      | Inr (Some code) \<Rightarrow> do {
          now \<leftarrow> clock;
          (case Validate (lib_hotp cfg) secret code (word_of_int (u_MFALastStep u)) now of
             Inl _ \<Rightarrow> again ''Temporary error; try again''
           | Inr (ok, step) \<Rightarrow>
               if \<not> ok then do {
                 reject_code cfg (u_Username u) ''login'';
                 again ''Code incorrect - try again''
               }
               else do {
                 s \<leftarrow> stm (UpdateMFAStep (u_ID u) (sint step));
                 (case s of
                    Inl _ \<Rightarrow> leave (Inl ''mfa store error'')
                  | Inr _ \<Rightarrow> do {
                      throttle_reset (u_Username u);
                      record_user cfg AuditMFASuccess (u_Username u) [];
                      leave (Inr True)
                    })
               })
        })
   }"

definition mfaVerify :: "settings \<Rightarrow> aead \<Rightarrow> user \<Rightarrow> (string + bool) io" where
  "mfaVerify cfg cipher u =
     (case Open cipher (u_MFASecret u) of
        None \<Rightarrow> io_return (Inl ''mfa decrypt error'')
      | Some secret \<Rightarrow> io_loop (verify_round cfg u secret) [])"

definition mfaGate :: "settings \<Rightarrow> identity \<Rightarrow> (string + bool) io" where
  "mfaGate cfg ident =
     (case st_MFA cfg of
        None \<Rightarrow> io_return (Inr True)
      | Some cipher \<Rightarrow> do {
          r \<leftarrow> stm (GetUserByUsername (id_Username ident));
          (case r of
             Inl _ \<Rightarrow> io_return (Inl ''mfa user load error'')
           | Inr u \<Rightarrow>
               if u_MFASecret u \<noteq> [] then mfaVerify cfg cipher u
               else if u_MFARequired u \<and> \<not> u_UserSettingsLocked u then mfaEnroll cfg cipher u
               else io_return (Inr True))
        })"

section \<open>News\<close>

text \<open>\<open>None\<close>: a fatal render error; \<open>Some enter\<close>: whether the menu is entered.\<close>

definition maybeShowNews :: "settings \<Rightarrow> term_info \<Rightarrow> identity \<Rightarrow> bool option io" where
  "maybeShowNews cfg tm ident = do {
     r \<leftarrow> stm (GetDocument DocMOTD);
     (case r of
        Inl _ \<Rightarrow> io_return (Some True)
      | Inr d \<Rightarrow>
          let pages = PaginateNews (tm_Geometry tm) (d_Content d)
          in if pages = [] then io_return (Some True)
             else do {
               n \<leftarrow> p_News cfg pages;
               (case n of
                  Inr _ \<Rightarrow> io_return (Some True)
                | Inl e \<Rightarrow>
                    if e = IoFuel then io_fail e
                    else if isTimeoutErr e then do { idle_logout cfg (id_Username ident); io_return (Some False) }
                    else io_return None)
             })
   }"

section \<open>Self-service settings\<close>

datatype us_action = UsChangePassword | UsEnroll | UsReenroll | UsDisable

fun usActionRow :: "us_action \<Rightarrow> string \<times> string" where
  "usActionRow UsChangePassword = (''Password'', ''Change your sign-on password'')"
| "usActionRow UsEnroll = (''MFA'', ''Enroll in multi-factor authentication'')"
| "usActionRow UsReenroll = (''MFA'', ''Re-enroll your authenticator (replaces the key)'')"
| "usActionRow UsDisable = (''MFA'', ''Disable multi-factor authentication'')"

definition userSettingsActions :: "bool \<Rightarrow> bool \<Rightarrow> bool \<Rightarrow> us_action list" where
  "userSettingsActions mfaConfigured required enrolled =
     (if \<not> mfaConfigured then [UsChangePassword]
      else if \<not> enrolled then [UsChangePassword, UsEnroll]
      else [UsChangePassword, UsReenroll] @ (if \<not> required then [UsDisable] else []))"

definition hidden_input :: "string \<Rightarrow> string \<Rightarrow> form_field" where
  "hidden_input name label = (form_input name label [] 32)\<lparr>ff_Hidden := True\<rparr>"

definition change_fields :: "identity \<Rightarrow> form_field list" where
  "change_fields ident =
     [(form_input FieldUsername ''User ID'' (id_Username ident) 0)\<lparr>ff_ReadOnly := True\<rparr>,
      (hidden_input FieldCurrentPassword ''Current password'')\<lparr>ff_GapBefore := True\<rparr>,
      hidden_input FieldPassword ''New password'',
      hidden_input FieldRetype ''Confirm password'']"

definition change_submit :: "settings \<Rightarrow> identity \<Rightarrow> form_values \<Rightarrow> string eff" where
  "change_submit cfg ident vals = do {
     let current = vals FieldCurrentPassword;
     a \<leftarrow> authenticate cfg (id_Username ident) current;
     (case a of
        Inl e \<Rightarrow>
          if e = ErrInvalidCredentials then do { reject cfg (id_Username ident); return_st ''Current password is incorrect'' }
          else return_st ''Temporary error; try again''
      | Inr _ \<Rightarrow>
          (case passwordFromForm vals True of
             (pass, _, msg) \<Rightarrow>
               if msg \<noteq> [] then return_st msg
               else if pass = current then return_st ''New password must differ from current''
               else do {
                 h \<leftarrow> hash_password cfg pass;
                 (case h of
                    None \<Rightarrow> return_st ''Could not set password; try again''
                  | Some hash \<Rightarrow> do {
                      s \<leftarrow> stm (SetPassword (id_UserID ident) hash);
                      (case s of
                         Inl _ \<Rightarrow> return_st ''Could not set password; try again''
                       | Inr _ \<Rightarrow> do {
                           throttle_reset (id_Username ident);
                           record_user cfg AuditPasswordSelf (id_Username ident) [];
                           return_st []
                         })
                    })
               }))
   }"

definition change_form :: "settings \<Rightarrow> identity \<Rightarrow> form_field list form_config" where
  "change_form cfg ident =
     \<lparr>fc_Title = ''TN3270 GATEWAY: CHANGE PASSWORD'', fc_Intro = [], fc_PFHelp = [], fc_Fields = id,
      fc_Submit = (\<lambda>ffs vals. io_lift (do { msg \<leftarrow> change_submit cfg ident vals; return_st (msg, ffs) })),
      fc_StayOnSave = False, fc_DotLeader = True, fc_Compact = True\<rparr>"

definition changePassword :: "settings \<Rightarrow> identity \<Rightarrow> unit io" where
  "changePassword cfg ident = try_bind (RunForm cfg (change_form cfg ident) (change_fields ident)) (\<lambda>_. io_return ())"

text \<open>The captured variable of \<open>stepUpPassword\<close> is \<open>ok\<close>.\<close>

definition step_up_submit :: "settings \<Rightarrow> string \<Rightarrow> bool \<Rightarrow> form_values \<Rightarrow> (string \<times> bool) eff" where
  "step_up_submit cfg username ok vals = do {
     a \<leftarrow> authenticate cfg username (vals FieldCurrentPassword);
     (case a of
        Inl e \<Rightarrow>
          if e = ErrInvalidCredentials then do { reject cfg username; return_st (''Password is incorrect'', ok) }
          else return_st (''Temporary error; try again'', ok)
      | Inr _ \<Rightarrow> do { throttle_reset username; return_st ([], True) })
   }"

definition step_up_form :: "settings \<Rightarrow> string \<Rightarrow> string \<Rightarrow> bool form_config" where
  "step_up_form cfg username intro =
     \<lparr>fc_Title = ''TN3270 GATEWAY: VERIFY IDENTITY'', fc_Intro = intro, fc_PFHelp = ''Enter=Verify   PF3=Cancel'',
      fc_Fields = (\<lambda>_. [hidden_input FieldCurrentPassword ''Password . . . . . :'']),
      fc_Submit = (\<lambda>ok vals. io_lift (step_up_submit cfg username ok vals)),
      fc_StayOnSave = False, fc_DotLeader = False, fc_Compact = True\<rparr>"

definition stepUpPassword :: "settings \<Rightarrow> string \<Rightarrow> string \<Rightarrow> bool io" where
  "stepUpPassword cfg username intro = RunForm cfg (step_up_form cfg username intro) False"

definition selfMFAEnroll :: "settings \<Rightarrow> aead \<Rightarrow> user \<Rightarrow> unit io" where
  "selfMFAEnroll cfg cipher u =
     try_bind (stepUpPassword cfg (u_Username u) ''Re-enter your password to continue setting up MFA.'') (\<lambda>ok.
       if \<not> ok then io_return ()
       else do {
         issuer \<leftarrow> mfaIssuer;
         g \<leftarrow> generateSecret cfg issuer (u_Username u);
         (case g of
            None \<Rightarrow> io_fail IoFatal
          | Some secret \<Rightarrow> try_bind (confirmEnroll cfg cipher u secret) (\<lambda>r.
              case r of Inl (_, e) \<Rightarrow> io_fail e | Inr _ \<Rightarrow> io_return ()))
       })"

definition selfMFADisable :: "settings \<Rightarrow> user \<Rightarrow> unit io" where
  "selfMFADisable cfg u =
     (if u_MFARequired u then io_return ()
      else try_bind (stepUpPassword cfg (u_Username u) ''Re-enter your password to disable MFA.'') (\<lambda>ok.
        if \<not> ok then io_return ()
        else do {
          r \<leftarrow> stm (ClearMFA (u_ID u));
          (case r of
             Inl _ \<Rightarrow> io_fail IoFatal
           | Inr _ \<Rightarrow> do { record_user cfg AuditMFACleared (u_Username u) ''self-service''; io_return () })
        }))"

definition settings_rows :: "us_action list \<Rightarrow> (string \<times> string \<times> string) list" where
  "settings_rows actions =
     map (\<lambda>(i, a). (itoa (int i + 1), usActionRow a)) (zip [0..<length actions] actions)"

text \<open>\<open>strconv.Atoi\<close> and the index check: the chosen action.\<close>

definition chosen_action :: "us_action list \<Rightarrow> string \<Rightarrow> us_action option" where
  "chosen_action actions choice =
     (case atoi choice of
        None \<Rightarrow> None
      | Some idx \<Rightarrow> if idx < 1 \<or> int (length actions) < idx then None else Some (actions ! nat (idx - 1)))"

definition run_action :: "settings \<Rightarrow> identity \<Rightarrow> user \<Rightarrow> us_action \<Rightarrow> unit io" where
  "run_action cfg ident u a =
     (case a of
        UsChangePassword \<Rightarrow> changePassword cfg ident
      | UsDisable \<Rightarrow> selfMFADisable cfg u
      | _ \<Rightarrow> (case st_MFA cfg of None \<Rightarrow> io_fail IoFatal | Some cipher \<Rightarrow> selfMFAEnroll cfg cipher u))"

definition settings_round :: "settings \<Rightarrow> identity \<Rightarrow> unit \<Rightarrow> (unit + unit) io" where
  "settings_round cfg ident _ = do {
     r \<leftarrow> stm (GetUserByUsername (id_Username ident));
     (case r of
        Inl _ \<Rightarrow> io_fail IoFatal
      | Inr u \<Rightarrow>
          let actions = userSettingsActions (st_MFA cfg \<noteq> None) (u_MFARequired u) (u_MFASecret u \<noteq> [])
          in try_bind (p_UserSettings cfg (id_Username ident) (settings_rows actions) []) (\<lambda>c.
               case c of
                 None \<Rightarrow> leave ()
               | Some choice \<Rightarrow> (case chosen_action actions choice of
                     None \<Rightarrow> again ()
                   | Some a \<Rightarrow> try_bind (run_action cfg ident u a) (\<lambda>_. again ()))))
   }"

definition userSettings :: "settings \<Rightarrow> identity \<Rightarrow> unit io" where
  "userSettings cfg ident = io_loop (settings_round cfg ident) ()"

section \<open>The session\<close>

definition causeDetail :: "cause \<Rightarrow> string option \<Rightarrow> string" where
  "causeDetail c err =
     (case c of
        CauseBackendClosed \<Rightarrow> ''backend_closed''
      | CauseClientClosed \<Rightarrow> ''client_closed''
      | CauseUserEscaped \<Rightarrow> ''user_escaped''
      | CauseError \<Rightarrow> (case err of None \<Rightarrow> ''error'' | Some e \<Rightarrow> ''error: '' @ e))"

text \<open>How the menu ends: back to the login screen, or disconnected with a detail.\<close>

datatype menu_exit = Logoff | EndSession string

definition record_bridge :: "settings \<Rightarrow> identity \<Rightarrow> string \<Rightarrow> service \<Rightarrow> string \<Rightarrow> unit eff" where
  "record_bridge cfg ident kind svc detail =
     audit_record cfg ((audit_event_of kind)\<lparr>ae_Username := id_Username ident, ae_Service := s_Name svc, ae_Detail := detail\<rparr>)"

definition bridge_service :: "settings \<Rightarrow> term_info \<Rightarrow> identity \<Rightarrow> service \<Rightarrow> (string + menu_exit) io" where
  "bridge_service cfg tm ident svc = do {
     record_bridge cfg ident AuditBridgeStart svc [];
     regSetService cfg (s_Name svc);
     arm_bridge cfg;
     c \<leftarrow> p_Bridge cfg svc (tm_Type tm);
     record_bridge cfg ident AuditBridgeEnd svc (causeDetail (fst c) (snd c));
     (if fst c = CauseClientClosed then leave (EndSession ''client closed during bridge'')
      else do {
        regClearService cfg;
        arm_post_auth cfg;
        again (if fst c = CauseError
               then (if snd c = None then ''Session error on '' @ s_Name svc else ''Could not connect to '' @ s_Name svc)
               else [])
      })
   }"

text \<open>An error of a sub-flow: the idle timeout goes back to the login screen, anything else ends the session.\<close>

definition flow_error :: "settings \<Rightarrow> identity \<Rightarrow> string \<Rightarrow> io_err \<Rightarrow> (string + menu_exit) io" where
  "flow_error cfg ident detail e =
     (if e = IoFuel then io_fail e
      else if isTimeoutErr e then do { idle_logout cfg (id_Username ident); leave Logoff }
      else leave (EndSession detail))"

definition menu_round ::
  "settings \<Rightarrow> term_info \<Rightarrow> identity \<Rightarrow> bool \<Rightarrow> bool \<Rightarrow> string \<Rightarrow> (string + menu_exit) io" where
  "menu_round cfg tm ident isAdmin settingsLocked errMsg0 = do {
     l \<leftarrow> stm (ListServicesForGroups (id_Groups ident));
     let services = (case l of Inl _ \<Rightarrow> [] | Inr ss \<Rightarrow> ss);
     let errMsg = (case l of Inl _ \<Rightarrow> ''Temporary error retrieving services; try again'' | Inr _ \<Rightarrow> errMsg0);
     sid \<leftarrow> systemID;
     r \<leftarrow> p_Menu cfg tm services isAdmin settingsLocked
       \<lparr>ms_Username = id_Username ident, ms_TermType = [], ms_SystemID = sid, ms_Release = st_Release cfg, ms_Now = 0\<rparr>
       errMsg helpMenuLines;
     (case r of
        Inl e \<Rightarrow> flow_error cfg ident ''menu render error'' e
      | Inr choice \<Rightarrow> (case choice of
            MenuQuit \<Rightarrow> do {
              record_user cfg AuditLogout (id_Username ident) ''user logoff'';
              arm_pre_auth cfg;
              leave Logoff
            }
          | MenuAdmin \<Rightarrow>
              if \<not> isAdmin then again []
              else do {
                f \<leftarrow> adminFlow_Run cfg \<lparr>fl_identity = ident, fl_rows = geo_Rows (tm_Geometry tm)\<rparr>;
                (case f of Inl e \<Rightarrow> flow_error cfg ident ''admin flow error'' e | Inr _ \<Rightarrow> again [])
              }
          | MenuUserSettings \<Rightarrow>
              if settingsLocked then again []
              else do {
                f \<leftarrow> userSettings cfg ident;
                (case f of Inl e \<Rightarrow> flow_error cfg ident ''user settings flow error'' e | Inr _ \<Rightarrow> again [])
              }
          | MenuService svc \<Rightarrow> bridge_service cfg tm ident svc
          | _ \<Rightarrow> again []))
   }"

definition is_admin :: "settings \<Rightarrow> identity \<Rightarrow> bool" where
  "is_admin cfg ident \<longleftrightarrow> st_AdminPresenter cfg \<and> AdminGroup \<in> set (id_Groups ident)"

definition settings_locked :: "identity \<Rightarrow> bool eff" where
  "settings_locked ident = do {
     r \<leftarrow> stm (GetUserByUsername (id_Username ident));
     return_st (case r of Inl _ \<Rightarrow> False | Inr u \<Rightarrow> u_UserSettingsLocked u)
   }"

definition run_menu :: "settings \<Rightarrow> term_info \<Rightarrow> identity \<Rightarrow> menu_exit io" where
  "run_menu cfg tm ident = do {
     locked \<leftarrow> settings_locked ident;
     io_loop (menu_round cfg tm ident (is_admin cfg ident) locked) []
   }"

text \<open>
  One login: \<open>again ()\<close> is back at the login screen, \<open>leave\<close> carries the user and the detail of
  the disconnect record.
\<close>

definition session_round :: "settings \<Rightarrow> term_info \<Rightarrow> unit \<Rightarrow> (unit + (string \<times> string)) io" where
  "session_round cfg tm _ = do {
     regClearLogin cfg;
     try_bind (doLogin cfg) (\<lambda>l. case l of
       Inl detail \<Rightarrow> leave ([], detail)
     | Inr ident \<Rightarrow> do {
         regSetLogin cfg (id_Username ident);
         arm_post_auth cfg;
         try_bind (mfaGate cfg ident) (\<lambda>m. case m of
           Inl detail \<Rightarrow> leave (id_Username ident, detail)
         | Inr proceed \<Rightarrow>
             if \<not> proceed then again ()
             else try_bind (maybeShowNews cfg tm ident) (\<lambda>n. case n of
               None \<Rightarrow> leave (id_Username ident, ''news render error'')
             | Some enter \<Rightarrow>
                 if \<not> enter then again ()
                 else try_bind (run_menu cfg tm ident) (\<lambda>x. case x of
                   Logoff \<Rightarrow> again ()
                 | EndSession detail \<Rightarrow> leave (id_Username ident, detail))))
       })
   }"

definition session_body :: "settings \<Rightarrow> (string \<times> string) io" where
  "session_body cfg = do {
     t \<leftarrow> Negotiate cfg;
     (case t of
        Inl e \<Rightarrow> if e = IoFuel then io_fail e
                 else io_return ([], if isTimeoutErr e then ''idle timeout'' else ''negotiation failed'')
      | Inr tm \<Rightarrow> io_loop (session_round cfg tm) ())
   }"

definition session_Run :: "settings \<Rightarrow> unit io" where
  "session_Run cfg = do {
     arm_pre_auth cfg;
     record_user cfg AuditConnect [] [];
     try_bind (session_body cfg) (\<lambda>(user, detail). do {
       record_user cfg AuditDisconnect user detail;
       io_return ()
     })
   }"

section \<open>Per connection (server.go)\<close>

record handler =
  h_Limits :: idle_limits
  h_Trust :: bool                    \<comment> \<open>whether a trust checker is configured\<close>
  h_settings :: settings             \<comment> \<open>the store, the ciphers, the libraries\<close>

definition sessionFor :: "handler \<Rightarrow> net_addr \<Rightarrow> settings eff" where
  "sessionFor h addr = do {
     trusted \<leftarrow> (if h_Trust h then stm (IsTrusted addr) else return_st False);
     return_st ((h_settings h)\<lparr>st_Limits := (h_Limits h)\<lparr>il_Trusted := trusted\<rparr>,
       st_RemoteAddr := (case addr of None \<Rightarrow> [] | Some a \<Rightarrow> a), st_AdminPresenter := True, st_Auditor := True\<rparr>)
   }"

definition session_Handle :: "handler \<Rightarrow> net_addr \<Rightarrow> unit io" where
  "session_Handle h addr = do {
     cfg \<leftarrow> sessionFor h addr;
     now \<leftarrow> clock;
     i \<leftarrow> on_registry (\<lambda>r. case r of
        None \<Rightarrow> (None, None)
      | Some reg \<Rightarrow> (case register reg (st_RemoteAddr cfg) now of (i, reg') \<Rightarrow> (Some i, Some reg')));
     regime (\<lambda>_. wrapIdle (il_PreAuthIdle (h_Limits h)));
     r \<leftarrow> session_Run (case i of None \<Rightarrow> cfg | Some k \<Rightarrow> cfg\<lparr>st_SessionID := k\<rparr>);
     (case i of None \<Rightarrow> return_st () | Some k \<Rightarrow> reg_update (\<lambda>reg. deregister reg k));
     return_st r
   }"

end
