(* ===== verification/Drivers_Facts.thy ===== *)
theory Drivers_Facts
  imports Drivers
begin

text \<open>
  What a screen driver promises to the code that configures it, as locales: a flow whose
  closures keep an invariant and make progress gives a driver that does. The confirm gate is in
  the law of a command: its commit may rely on its confirmation having been asked and not
  vetoed for that very item. Then the line editor against its reference, and the paging of the
  snapshot list.
\<close>

section \<open>Renderer\<close>

lemma renderer_consumes:
  "consumes (r_List cfg v)" "consumes (r_Form cfg v')" "consumes (r_Snapshot cfg s)" "consumes (r_Detail cfg d)"
  "consumes (r_DetailAct cfg d n)" "consumes (r_Editor cfg e)"
  unfolding r_List_def r_Form_def r_Snapshot_def r_Detail_def r_DetailAct_def r_Editor_def renderer_call_def
  by (intro progress_bind_use[OF handleScreen_consumes] steady_return)+

lemma renderer_keeps:
  "(\<And>ks. keeps I (handleScreen cfg (VList lv) ks)) \<Longrightarrow> keeps I (r_List cfg lv)"
  "(\<And>ks. keeps I (handleScreen cfg (VForm fv) ks)) \<Longrightarrow> keeps I (r_Form cfg fv)"
  "(\<And>ks. keeps I (handleScreen cfg (VSnapshot sv) ks)) \<Longrightarrow> keeps I (r_Snapshot cfg sv)"
  "(\<And>ks. keeps I (handleScreen cfg (VDetail dv) ks)) \<Longrightarrow> keeps I (r_Detail cfg dv)"
  "(\<And>ks. keeps I (handleScreen cfg (VDetail dv) ks)) \<Longrightarrow> keeps I (r_DetailAct cfg dv n)"
  "(\<And>ks. keeps I (handleScreen cfg (VEditor ev) ks)) \<Longrightarrow> keeps I (r_Editor cfg ev)"
  unfolding r_List_def r_Form_def r_Snapshot_def r_Detail_def r_DetailAct_def r_Editor_def renderer_call_def
  by (intro io_keeps; assumption)+

section \<open>Lists\<close>

definition confirm_passed :: "'a command \<Rightarrow> 'a \<Rightarrow> bool" where
  "confirm_passed cmd x \<longleftrightarrow> (case cm_Confirm cmd of None \<Rightarrow> True | Some c \<Rightarrow> snd (c x) = [])"

locale list_flow =
  fixes cfg :: settings and lc :: "'a list_config" and I :: "world \<Rightarrow> bool" and ok :: "'a \<Rightarrow> bool"
  assumes screen: "keeps I (handleScreen cfg (VList lv) ks)"
    and fetch: "hoare I (lc_Fetch lc) (\<lambda>r w. I w \<and> (\<forall>x\<in>set (fst r). ok (snd x)))"
    and commit: "cmd \<in> set (lc_Cmds lc) \<Longrightarrow> ok x \<Longrightarrow> confirm_passed cmd x \<Longrightarrow> keeps I (cm_Commit cmd x)"
    and add: "lc_Add lc = Some m \<Longrightarrow> keeps I m"
begin

definition pending_ok :: "'a list_state \<Rightarrow> bool" where
  "pending_ok s \<longleftrightarrow> (case ls_pending s of None \<Rightarrow> True
     | Some (cmd, x) \<Rightarrow> cmd \<in> set (lc_Cmds lc) \<and> ok x \<and> confirm_passed cmd x)"

lemma list_at_ok: "pending_ok (list_at p m)" by (simp add: pending_ok_def list_at_def)

lemma findCmd_in: "findCmd (lc_Cmds lc) key = Some cmd \<Longrightarrow> cmd \<in> set (lc_Cmds lc)"
  by (auto simp: findCmd_def find_Some_iff)

lemma dispatch_round:
  assumes "\<forall>x\<in>set rows. ok (snd x)"
  shows "hoare I (list_dispatch lc page fu rows act) (round I pending_ok)"
proof -
  have item: "ok (snd (rows ! la_Row act))" if "\<not> length rows \<le> la_Row act" using that assms by simp
  show ?thesis unfolding list_dispatch_def Let_def
    by (intro round_rules list_at_ok)
      (auto intro: add commit findCmd_in item simp: confirm_passed_def pending_ok_def)
qed

lemma slice_subset: "set (slice xs a b) \<subseteq> set xs"
  by (auto simp: slice_def dest: in_set_takeD in_set_dropD)

lemma step_round: "pending_ok s \<Longrightarrow> hoare I (list_step cfg lc s) (round I pending_ok)"
  unfolding list_step_def Let_def
proof (rule round_pure[OF fetch])
  fix f :: "(string \<times> 'a) list \<times> string" assume p: "pending_ok s" and ok: "\<forall>x\<in>set (fst f). ok (snd x)"
  let ?rows = "if snd f \<noteq> [] then [] else fst f"
  have okr: "\<forall>x\<in>set (slice ?rows a b). ok (snd x)" for a b
    using ok slice_subset[of ?rows a b] by (auto split: if_splits)
  show "hoare I (case pageBounds (ls_page s) (int (length ?rows)) (lc_Rows lc) of
      (page, start, end, rowInfo) \<Rightarrow> try_bind (r_List cfg \<lparr>lv_Title = lc_Title lc, lv_RowInfo = rowInfo, lv_Header = lc_Header lc,
          lv_Rows = map fst (slice ?rows start end), lv_Legend = lc_Legend lc,
          lv_ErrMsg = if snd f \<noteq> [] then snd f else ls_errMsg s, lv_PFHelp = lc_PFHelp lc\<rparr>)
        (\<lambda>act. case if snd f \<noteq> [] then None else ls_pending s of
           None \<Rightarrow> list_dispatch lc page (end < int (length ?rows)) (slice ?rows start end) act
         | Some (cmd, target) \<Rightarrow>
             if plain_enter act then try_bind (cm_Commit cmd target) (\<lambda>msg. again (list_at page msg))
             else if la_PF act = 3 then again (list_at page [])
             else list_dispatch lc page (end < int (length ?rows)) (slice ?rows start end) act)) (round I pending_ok)"
    by (intro round_rules renderer_keeps screen dispatch_round okr list_at_ok commit)
      (use p in \<open>auto simp: pending_ok_def split: if_splits\<close>)
qed

lemma RunList_keeps: "keeps I (RunList cfg lc)"
  unfolding RunList_def by (rule keeps_loop_inv[where P = pending_ok]) (auto intro: step_round list_at_ok)

end

text \<open>Progress: the flow's laws for the trivial invariant give that only commands of the flow are pending.\<close>

locale list_progress =
  fixes cfg :: settings and lc :: "'a list_config"
  assumes fetch_script: "script_kept (lc_Fetch lc)"
    and commit_steady: "cmd \<in> set (lc_Cmds lc) \<Longrightarrow> steady (cm_Commit cmd x)"
    and add_steady: "lc_Add lc = Some m \<Longrightarrow> steady m"

sublocale list_progress \<subseteq> triv: list_flow cfg lc "\<lambda>_. True" "\<lambda>_. True"
  by unfold_locales (simp_all add: hoare_def)

context list_progress begin

lemma dispatch_steady: "steady (list_dispatch lc page fu rows act)"
  unfolding list_dispatch_def Let_def
  by (intro progress_cases progress_bind steady_again steady_leave)
    (auto intro: add_steady commit_steady triv.findCmd_in simp: steady_again
      split: option.split prod.split intro!: progress_bind)

lemma step_progress: "triv.pending_ok s \<Longrightarrow> progress isl (list_step cfg lc s)"
  unfolding list_step_def Let_def
  by (intro progress_eff fetch_script progress_prod progress_bind_use[OF renderer_consumes(1)])
    (auto simp: triv.pending_ok_def steady_again split: option.split prod.split if_splits
      intro!: dispatch_steady progress_bind commit_steady)

lemma RunList_steady: "steady (RunList cfg lc)"
  unfolding RunList_def
  by (rule steady_loop_inv[where P = triv.pending_ok]) (auto intro: step_progress triv.step_round triv.list_at_ok)

end

section \<open>Forms\<close>

locale form_flow =
  fixes cfg :: settings and fc :: "'s form_config" and I :: "world \<Rightarrow> bool"
  assumes screen: "keeps I (handleScreen cfg (VForm fv) ks)"
    and submit: "keeps I (fc_Submit fc s vals)"
begin

lemma RunForm_keeps: "keeps I (RunForm cfg fc s)"
  unfolding RunForm_def form_step_def by (intro io_keeps renderer_keeps screen submit)

end

lemma RunForm_steady: "(\<And>s vals. steady (fc_Submit fc s vals)) \<Longrightarrow> steady (RunForm cfg fc s)"
  unfolding RunForm_def form_step_def
  by (intro steady_loop progress_cases progress_bind_use[OF renderer_consumes(2)] steady_leave steady_again progress_bind)

section \<open>Details and snapshots\<close>

lemma RunDetail_keeps:
  "(\<And>v ks. keeps I (handleScreen cfg (VDetail v) ks)) \<Longrightarrow> keeps I (dc_OnAct dc) \<Longrightarrow> keeps I (RunDetail cfg dc)"
  unfolding RunDetail_def detail_step_def Let_def by (intro io_keeps renderer_keeps)

lemma RunDetail_steady: "script_kept (dc_OnAct dc) \<Longrightarrow> steady (RunDetail cfg dc)"
  unfolding RunDetail_def detail_step_def Let_def
  by (intro steady_loop progress_bind_use[OF renderer_consumes(5)] progress_cases steady_leave steady_again progress_eff)

locale snapshot_flow =
  fixes cfg :: settings and sc :: "'a snapshot_config" and I :: "world \<Rightarrow> bool"
  assumes screen: "keeps I (handleScreen cfg (VSnapshot sv) ks)"
    and fetch: "keeps I (sc_Fetch sc)"
    and select: "sc_OnSelect sc = Some f \<Longrightarrow> keeps I (f x)"
    and act: "sc_OnAct sc = Some g \<Longrightarrow> keeps I (g x)"
begin

lemma RunSnapshotList_keeps: "keeps I (RunSnapshotList cfg sc)"
  unfolding RunSnapshotList_def snapshot_step_def snapshot_load_def snapshot_dispatch_def Let_def
  by (intro io_keeps renderer_keeps screen fetch) (auto intro: select act)

end

lemma RunSnapshotList_steady:
  assumes "script_kept (sc_Fetch sc)" "\<And>f x. sc_OnSelect sc = Some f \<Longrightarrow> steady (f x)"
    "\<And>g x. sc_OnAct sc = Some g \<Longrightarrow> script_kept (g x)"
  shows "steady (RunSnapshotList cfg sc)"
  unfolding RunSnapshotList_def snapshot_step_def snapshot_load_def snapshot_dispatch_def Let_def
  by (intro steady_loop progress_eff script_kept_rules world_progress assms(1) progress_prod
      progress_bind_use[OF renderer_consumes(3)])
    (auto split: option.split prod.split intro!: steady_leave steady_again progress_eff progress_bind intro: assms)

section \<open>The editor\<close>

lemma RunEditor_keeps:
  "(\<And>v ks. keeps I (handleScreen cfg (VEditor v) ks)) \<Longrightarrow> (\<And>s ls. keeps I (ec_Save ec s ls)) \<Longrightarrow> keeps I (RunEditor cfg ec s0)"
  unfolding RunEditor_def editor_step_def Let_def by (intro io_keeps renderer_keeps)

lemma RunEditor_steady: "(\<And>s ls. steady (ec_Save ec s ls)) \<Longrightarrow> steady (RunEditor cfg ec s0)"
  unfolding RunEditor_def editor_step_def Let_def
  by (intro steady_loop progress_cases progress_bind_use[OF renderer_consumes(6)] steady_leave steady_again progress_bind)

text \<open>
  The reference: every command acts on the line it was typed on, as the user saw the page.
\<close>

definition line_result :: "string list \<Rightarrow> (nat \<times> char) list \<Rightarrow> nat \<Rightarrow> string list" where
  "line_result ls cmds i =
     (case map_of cmds i of
        None \<Rightarrow> [ls ! i]
      | Some c \<Rightarrow> if c = CHR ''I'' then [ls ! i, []] else if c = CHR ''D'' then [] else [ls ! i, ls ! i])"

definition prefix_reference :: "string list \<Rightarrow> (nat \<times> char) list \<Rightarrow> string list" where
  "prefix_reference ls cmds = concat (map (line_result ls cmds) [0..<length ls])"

lemma untouched_lines:
  "k \<le> length ls \<Longrightarrow> i \<le> k \<Longrightarrow> \<forall>j\<in>{i..<k}. map_of cmds j = None \<Longrightarrow>
   concat (map (line_result ls cmds) [i..<k]) = drop i (take k ls)"
proof (induction k)
  case (Suc k)
  show ?case
  proof (cases "i = Suc k")
    case False
    then have "concat (map (line_result ls cmds) [i..<k]) = drop i (take k ls)" using Suc by simp
    moreover have "line_result ls cmds k = [ls ! k]" using Suc.prems False by (simp add: line_result_def)
    ultimately show ?thesis using Suc.prems False by (simp add: take_Suc_conv_app_nth)
  qed simp
qed simp

lemma fold_commands:
  assumes "sorted_wrt (\<lambda>a b. fst b < fst a) todo" "\<forall>ic\<in>set todo. fst ic < k \<and> valid_prefix (snd ic)" "k \<le> length ls"
  shows "fold (\<lambda>(i, c). apply_one c i) todo (take k ls @ rest) = concat (map (line_result ls todo) [0..<k]) @ rest"
  using assms
proof (induction todo arbitrary: k rest)
  case Nil
  then show ?case using untouched_lines[of k ls 0 "[]"] by simp
next
  case (Cons ic todo)
  obtain i c where ic: "ic = (i, c)" by (cases ic)
  have i: "i < k" "valid_prefix c" using Cons.prems(2) ic by auto
  have lower: "\<forall>jc\<in>set todo. fst jc < i" using Cons.prems(1) ic by auto
  have none: "map_of todo j = None" if "i \<le> j" for j
    using lower that by (auto simp: map_of_eq_None_iff)
  let ?mid = "line_result ls (ic # todo) i"
  have len: "i < length ls" using i Cons.prems(3) by simp
  have dr: "drop i (take k ls) = ls ! i # drop (Suc i) (take k ls)"
    using i len by (simp add: Cons_nth_drop_Suc[symmetric])
  have split_at: "take k ls = take i ls @ ls ! i # drop (Suc i) (take k ls)"
    using append_take_drop_id[of i "take k ls"] dr i by (simp add: min_def)
  have tk: "take (Suc i) (take k ls) = take i ls @ [ls ! i]" using i len by (simp add: min_def take_Suc_conv_app_nth)
  have one: "apply_one c i (take k ls @ rest) = take i ls @ (?mid @ drop (Suc i) (take k ls) @ rest)"
    using i len ic tk Cons.prems(3)
    by (auto simp: apply_one_def line_result_def valid_prefix_def nth_append min_def)
  have IH: "fold (\<lambda>(i, c). apply_one c i) todo (take i ls @ (?mid @ drop (Suc i) (take k ls) @ rest)) =
      concat (map (line_result ls todo) [0..<i]) @ ?mid @ drop (Suc i) (take k ls) @ rest"
    by (rule Cons.IH) (use Cons.prems lower i len ic in auto)
  have c: "concat (map (line_result ls (ic # todo)) [0..<i]) = concat (map (line_result ls todo) [0..<i])"
    by (rule arg_cong[where f = concat]) (auto simp: line_result_def ic)
  moreover have "concat (map (line_result ls (ic # todo)) [Suc i..<k]) = drop (Suc i) (take k ls)"
    by (rule untouched_lines) (use Cons.prems(3) i none ic in auto)
  moreover have "[0..<k] = [0..<i] @ i # [Suc i..<k]"
    using i upt_add_eq_append[of 0 i "k - i"] by (simp add: upt_conv_Cons)
  ultimately have "concat (map (line_result ls (ic # todo)) [0..<k]) =
      concat (map (line_result ls todo) [0..<i]) @ ?mid @ drop (Suc i) (take k ls)" by (simp del: upt_conv_Cons)
  then show ?case using ic one IH by (simp only: fold_simps comp_apply split_conv append_assoc)
qed

lemma rev_sort_descending:
  "distinct (map fst cmds) \<Longrightarrow> sorted_wrt (\<lambda>a b. fst b < fst a) (rev (sort_key fst cmds))" for cmds :: "(nat \<times> char) list"
proof -
  assume d: "distinct (map fst cmds)"
  have "distinct (map fst (sort_key fst cmds))"
    using d by (metis (no_types) distinct_map distinct_sort set_sort)
  then have "sorted_wrt (<) (map fst (sort_key fst cmds))"
    unfolding strict_sorted_iff by simp
  then show ?thesis by (simp add: sorted_wrt_rev sorted_wrt_map)
qed

lemma map_of_same_set:
  assumes "distinct (map fst xs)" "distinct (map fst ys)" "set xs = set ys"
  shows "map_of xs = map_of ys"
  by (rule map_of_eqI) (use assms in \<open>auto simp: map_of_eq_Some_iff set_map dest: map_of_SomeD\<close>)

lemma map_of_filter_key: "i < n \<Longrightarrow> map_of (filter (\<lambda>ic. fst ic < n) cmds) i = map_of cmds i"
  by (induction cmds) auto

lemma distinct_fst_sorted: "distinct (map fst xs) \<Longrightarrow> distinct (map fst (rev (sort_key fst xs)))"
  by (simp add: distinct_map)

text \<open>
  C22. The line editor's prefix commands: one transmission's inserts, deletes and repeats, applied
  one after another to the changing line list, have exactly the effect of each acting on the line
  it was typed on, whatever the order they arrive in; a document never becomes empty; and a
  single invalid command vetoes the whole transmission.
\<close>

theorem editor_commands_simultaneous:
  assumes "distinct (map fst cmds)"
  shows "if \<forall>ic\<in>set cmds. valid_prefix (snd ic)
     then applyPrefix ls cmds = (if prefix_reference ls cmds = [] then [[]] else prefix_reference ls cmds, [])
     else fst (applyPrefix ls cmds) = ls \<and> snd (applyPrefix ls cmds) \<noteq> []"
proof -
  let ?f = "filter (\<lambda>ic. fst ic < length ls) cmds"
  let ?todo = "rev (sort_key fst ?f)"
  have good: "applyPrefix ls cmds = (if prefix_reference ls cmds = [] then [[]] else prefix_reference ls cmds, [])"
    if v: "\<forall>ic\<in>set cmds. valid_prefix (snd ic)"
  proof -
    have df: "distinct (map fst ?f)" using assms by (rule distinct_map_filter)
    have dt: "distinct (map fst ?todo)"
      by (rule distinct_fst_sorted[OF df])
    have "fold (\<lambda>(i, c). apply_one c i) ?todo (take (length ls) ls @ []) =
        concat (map (line_result ls ?todo) [0..<length ls]) @ []"
      by (rule fold_commands) (use rev_sort_descending[OF df] v in auto)
    moreover have "map (line_result ls ?todo) [0..<length ls] = map (line_result ls cmds) [0..<length ls]"
    proof (rule map_cong[OF refl])
      fix i assume "i \<in> set [0..<length ls]"
      then have "map_of ?f i = map_of cmds i" by (intro map_of_filter_key) simp
      moreover have "map_of ?todo = map_of ?f" by (rule map_of_same_set[OF dt df]) simp
      ultimately show "line_result ls ?todo i = line_result ls cmds i" by (simp add: line_result_def)
    qed
    ultimately have fld: "fold (\<lambda>(i, c). apply_one c i) ?todo ls = prefix_reference ls cmds"
      by (simp only: append_Nil2 take_all order_refl prefix_reference_def)
    have "find (\<lambda>ic. \<not> valid_prefix (snd ic)) cmds = None" unfolding find_None_iff using v by blast
    then show ?thesis by (simp only: applyPrefix_def Let_def fld option.case)
  qed
  have bad: "fst (applyPrefix ls cmds) = ls \<and> snd (applyPrefix ls cmds) \<noteq> []" if "\<exists>ic\<in>set cmds. \<not> valid_prefix (snd ic)"
  proof -
    from that obtain jc where "find (\<lambda>ic. \<not> valid_prefix (snd ic)) cmds = Some jc"
      by (metis (no_types, lifting) find_None_iff option.exhaust)
    then show ?thesis by (cases jc) (simp add: applyPrefix_def)
  qed
  show ?thesis
  proof (cases "\<forall>ic\<in>set cmds. valid_prefix (snd ic)")
    case True
    show ?thesis unfolding if_P[OF True] by (rule good[OF True])
  next
    case False
    show ?thesis unfolding if_not_P[OF False] by (rule bad) (use False in blast)
  qed
qed

theorem editor_commands_simultaneous_witness:
  "applyPrefix [''a'', ''b'', ''c''] [(0, CHR ''D''), (2, CHR ''R''), (1, CHR ''I'')] = ([''b'', [], ''c'', ''c''], [])"
  using editor_commands_simultaneous[of "[(0, CHR ''D''), (2, CHR ''R''), (1, CHR ''I'')]" "[''a'', ''b'', ''c'']"]
  by (simp add: valid_prefix_def prefix_reference_def line_result_def upt_rec)

end
