(* ===== verification/Admin_Inv.thy ===== *)
theory Admin_Inv
  imports Admin_Monitor Drivers_Facts
begin

text \<open>
  The invariant that keeps the gateway administrable: the database is well formed, the group
  ZZADMIN keeps its row, and it has a member. First the store operations that touch groups and
  memberships, then the guards of the administrator's screens.
\<close>

definition admin_members :: "int \<Rightarrow> db \<Rightarrow> (int \<times> int) list" where
  "admin_members aid d = filter (\<lambda>ug. snd ug = aid) (db_user_groups d)"

definition admin_inv :: "int \<Rightarrow> db \<Rightarrow> bool" where
  "admin_inv aid d \<longleftrightarrow>
     wf_db d \<and> \<lparr>g_ID = aid, g_Name = AdminGroup\<rparr> \<in> set (db_groups d) \<and> admin_members aid d \<noteq> []"

definition two_admins :: "int \<Rightarrow> db \<Rightarrow> bool" where
  "two_admins aid d \<longleftrightarrow> admin_inv aid d \<and> 2 \<le> length (admin_members aid d)"

lemma admin_members_faults [simp]: "admin_members aid (d\<lparr>db_faults := fs\<rparr>) = admin_members aid d"
  by (simp add: admin_members_def)

lemma wf_db_faults [simp]: "wf_db (d\<lparr>db_faults := fs\<rparr>) = wf_db d"
  using faultless_wf by (simp add: faultless_def)

lemma faultless_admin [simp]: "faultless (admin_inv aid)" "faultless (two_admins aid)"
  by (simp_all add: faultless_def admin_inv_def two_admins_def)

text \<open>An operation that keeps the database well formed and leaves groups and memberships alone.\<close>

definition same_groups :: "group list \<Rightarrow> (int \<times> int) list \<Rightarrow> db \<Rightarrow> bool" where
  "same_groups gs ugs d \<longleftrightarrow> db_groups d = gs \<and> db_user_groups d = ugs"

lemma faultless_same [simp]: "faultless (same_groups gs ugs)"
  by (simp add: faultless_def same_groups_def)

lemma keeps_adminI:
  assumes "keeps wf_db m" "\<And>gs ugs. keeps (same_groups gs ugs) m"
  shows "keeps (admin_inv aid) m"
proof (rule hoareI)
  fix d r d' assume a: "admin_inv aid d" "run_state m d = (r, d')"
  have "wf_db d'" using hoareD[OF assms(1) _ a(2)] a(1) by (simp add: admin_inv_def)
  moreover have "same_groups (db_groups d) (db_user_groups d) d'"
    using hoareD[OF assms(2) _ a(2)] by (simp add: same_groups_def)
  ultimately show "admin_inv aid d'" using a(1) by (simp add: admin_inv_def admin_members_def same_groups_def)
qed

lemma same_update_user: "keeps (same_groups gs ugs) (update_user i f)"
  unfolding update_user_def by (rule keeps_execExpectingRow) (auto simp: same_groups_def)

lemma admin_update_user:
  "(\<And>u. u_ID (f u) = u_ID u) \<Longrightarrow> (\<And>u. u_Username (f u) = u_Username u) \<Longrightarrow> keeps (admin_inv aid) (update_user i f)"
  by (rule keeps_adminI[OF keeps_update_user same_update_user])

lemma admin_users:
  "keeps (admin_inv aid) (SetPassword i h)" "keeps (admin_inv aid) (SetUserSettingsLocked i b)"
  "keeps (admin_inv aid) (SetMFARequired i b)" "keeps (admin_inv aid) (StoreMFAEnrollment i e t n)"
  "keeps (admin_inv aid) (UpdateMFAStep i k)" "keeps (admin_inv aid) (ClearMFA i)"
  "keeps (admin_inv aid) (UpdateUserDetails i nm em)"
  unfolding SetPassword_def SetUserSettingsLocked_def SetMFARequired_def StoreMFAEnrollment_def UpdateMFAStep_def
    ClearMFA_def UpdateUserDetails_def Let_def
  by (intro hoare_option keeps_fail_st admin_update_user; simp add: clear_mfa_def)+

lemma admin_other_tables:
  "keeps (admin_inv aid) (CreateUser n h)" "keeps (admin_inv aid) (LinkGroupService g s)"
  "keeps (admin_inv aid) (UnlinkGroupService g s)" "keeps (admin_inv aid) (CreateService nm desc host port tls vf)"
  "keeps (admin_inv aid) (UpdateService i nm desc host port tls vf)" "keeps (admin_inv aid) (SetConfig k v)"
  "keeps (admin_inv aid) (CreateTrustedNetwork c m)" "keeps (admin_inv aid) (UpdateTrustedNetwork i c m)"
  "keeps (admin_inv aid) (DeleteTrustedNetwork i)" "keeps (admin_inv aid) (RecordAudit ev)"
  "keeps (admin_inv aid) (SetDocument nm content actor now)" "keeps (admin_inv aid) (DeleteService i)"
  by (rule keeps_adminI, rule keeps_all,
      simp add: CreateUser_def LinkGroupService_def UnlinkGroupService_def CreateService_def UpdateService_def
        SetConfig_def CreateTrustedNetwork_def UpdateTrustedNetwork_def DeleteTrustedNetwork_def RecordAudit_def
        SetDocument_def DeleteService_def Let_def,
      (intro hoare_sum hoare_option hoare_if keeps_let keeps_fail_st keeps_in_transaction keeps_try_bind
        keeps_insertOrGet keeps_execExpectingRow keeps_exec;
      simp add: same_groups_def insert_network_def upsert_document_def)+)+

lemma admin_group_unique:
  "admin_inv aid d \<Longrightarrow> g \<in> set (db_groups d) \<Longrightarrow> g_ID g = aid \<longleftrightarrow> g_Name g = AdminGroup"
proof -
  assume a: "admin_inv aid d" and g: "g \<in> set (db_groups d)"
  let ?a = "\<lparr>g_ID = aid, g_Name = AdminGroup\<rparr>"
  have t: "distinct (map g_ID (db_groups d))" "distinct (map (to_lower \<circ> g_Name) (db_groups d))" "?a \<in> set (db_groups d)"
    using a by (auto simp: admin_inv_def wf_defs table_ok_def)
  show ?thesis
  proof
    assume "g_ID g = aid"
    then have "g = ?a" by (intro inj_onD[of g_ID "set (db_groups d)"]) (use t(1,3) g in \<open>auto simp: distinct_map\<close>)
    then show "g_Name g = AdminGroup" by simp
  next
    assume "g_Name g = AdminGroup"
    then have "(to_lower \<circ> g_Name) g = (to_lower \<circ> g_Name) ?a" by simp
    then have "g = ?a"
      by (intro inj_onD[of "to_lower \<circ> g_Name" "set (db_groups d)"]) (use t(2,3) g in \<open>auto simp only: distinct_map\<close>)
    then show "g_ID g = aid" by simp
  qed
qed

lemma admin_CreateGroup: "keeps (admin_inv aid) (CreateGroup n)"
proof (rule hoareI)
  fix d r d' assume a: "admin_inv aid d" "run_state (CreateGroup n) d = (r, d')"
  have "keeps (\<lambda>d. \<lparr>g_ID = aid, g_Name = AdminGroup\<rparr> \<in> set (db_groups d) \<and> admin_members aid d \<noteq> []) (CreateGroup n)"
    unfolding CreateGroup_def Let_def
    by (rule keeps_insertOrGet) (auto simp: faultless_def insert_group_def admin_members_def)
  from hoareD[OF this _ a(2)] hoareD[OF keeps_CreateGroup _ a(2)] a(1) show "admin_inv aid d'" by (simp add: admin_inv_def)
qed

lemma admin_AddUserToGroup: "keeps (admin_inv aid) (AddUserToGroup u g)"
proof (rule hoareI)
  fix d r d' assume a: "admin_inv aid d" "run_state (AddUserToGroup u g) d = (r, d')"
  have "keeps (\<lambda>d. \<lparr>g_ID = aid, g_Name = AdminGroup\<rparr> \<in> set (db_groups d) \<and> admin_members aid d \<noteq> []) (AddUserToGroup u g)"
    unfolding AddUserToGroup_def by (rule keeps_exec) (auto simp: faultless_def admin_members_def)
  from hoareD[OF this _ a(2)] hoareD[OF keeps_AddUserToGroup _ a(2)] a(1) show "admin_inv aid d'" by (simp add: admin_inv_def)
qed

lemma admin_remove_other: "g \<noteq> aid \<Longrightarrow> keeps (admin_inv aid) (RemoveUserFromGroup u g)"
proof (rule hoareI)
  fix d r d' assume g: "g \<noteq> aid" and a: "admin_inv aid d" "run_state (RemoveUserFromGroup u g) d = (r, d')"
  have "keeps (\<lambda>d. \<lparr>g_ID = aid, g_Name = AdminGroup\<rparr> \<in> set (db_groups d) \<and> admin_members aid d \<noteq> []) (RemoveUserFromGroup u g)"
    unfolding RemoveUserFromGroup_def
    by (rule keeps_exec) (use g in \<open>auto simp: faultless_def admin_members_def filter_empty_conv\<close>)
  from hoareD[OF this _ a(2)] hoareD[OF keeps_RemoveUserFromGroup _ a(2)] a(1) show "admin_inv aid d'" by (simp add: admin_inv_def)
qed

lemma remove_one_of_two:
  assumes "distinct xs" "2 \<le> length xs" shows "filter (\<lambda>x. x \<noteq> p) xs \<noteq> []"
proof
  assume "filter (\<lambda>x. x \<noteq> p) xs = []"
  then have "set xs \<subseteq> {p}" by (auto simp: filter_empty_conv)
  then have "card (set xs) \<le> card {p}" by (intro card_mono) auto
  then show False using assms by (simp add: distinct_card)
qed

lemma two_admins_distinct: "two_admins aid d \<Longrightarrow> distinct (admin_members aid d)"
  by (simp add: two_admins_def admin_inv_def wf_defs admin_members_def)

lemma admin_remove_one: "hoare (two_admins aid) (RemoveUserFromGroup u g) (\<lambda>_. admin_inv aid)"
proof (rule hoareI)
  fix d r d' assume a: "two_admins aid d" "run_state (RemoveUserFromGroup u g) d = (r, d')"
  then have wf: "wf_db d'" using hoareD[OF keeps_RemoveUserFromGroup _ a(2)] by (simp add: two_admins_def admin_inv_def)
  have "admin_members aid (d\<lparr>db_user_groups := filter (\<lambda>ug. ug \<noteq> (u, g)) (db_user_groups d)\<rparr>) =
      filter (\<lambda>x. x \<noteq> (u, g)) (admin_members aid d)" by (simp add: admin_members_def conj_commute)
  then have "admin_members aid (d\<lparr>db_user_groups := filter (\<lambda>ug. ug \<noteq> (u, g)) (db_user_groups d)\<rparr>) \<noteq> []"
    using remove_one_of_two[OF two_admins_distinct[OF a(1)]] a(1) by (simp add: two_admins_def)
  then have "admin_members aid d' \<noteq> [] \<and> db_groups d' = db_groups d"
    using a unfolding RemoveUserFromGroup_def
    by (auto elim!: exec_cases simp: two_admins_def admin_inv_def) (simp add: admin_members_def)
  with wf a(1) show "admin_inv aid d'" by (simp add: admin_inv_def two_admins_def)
qed

text \<open>Deleting a user who is not the only administrator.\<close>

lemma admin_delete_user:
  "hoare (\<lambda>d. admin_inv aid d \<and> ((i, aid) \<notin> set (db_user_groups d) \<or> two_admins aid d)) (DeleteUser i) (\<lambda>_. admin_inv aid)"
proof (rule hoareI)
  fix d r d' assume a: "admin_inv aid d \<and> ((i, aid) \<notin> set (db_user_groups d) \<or> two_admins aid d)"
    "run_state (DeleteUser i) d = (r, d')"
  have wf: "wf_db d'" using hoareD[OF keeps_DeleteUser _ a(2)] a(1) by (simp add: admin_inv_def)
  have sub: "admin_members aid (without_user i (tables d)) = filter (\<lambda>x. x \<noteq> (i, aid)) (admin_members aid d)"
    by (auto simp: admin_members_def without_user_def tables_def intro!: filter_cong)
  have "filter (\<lambda>x. x \<noteq> (i, aid)) (admin_members aid d) \<noteq> []"
  proof (cases "two_admins aid d")
    case True
    then show ?thesis using remove_one_of_two[OF two_admins_distinct[OF True]] by (simp add: two_admins_def)
  next
    case False
    then have "filter (\<lambda>x. x \<noteq> (i, aid)) (admin_members aid d) = admin_members aid d"
      using a(1) by (intro filter_True) (auto simp: admin_members_def)
    then show ?thesis using a(1) by (simp add: admin_inv_def)
  qed
  then have keep: "admin_inv aid d \<Longrightarrow> admin_members aid (without_user i (tables d)) \<noteq> [] \<and>
      db_groups (without_user i (tables d)) = db_groups d"
    unfolding sub by (simp add: without_user_def tables_def)
  have "tables d' = without_user i (tables d) \<or> tables d' = tables d"
    using DeleteUser_outcome[of i d] a(2) by (auto simp: cascade_outcome_def split: sum.splits)
  moreover have m: "admin_members aid d' = admin_members aid (tables d')" "db_groups d' = db_groups (tables d')"
    by (simp_all add: tables_def admin_members_def)
  moreover have "admin_members aid (tables d) \<noteq> []" "db_groups (tables d) = db_groups d"
    using a(1) by (simp_all add: tables_def admin_inv_def)
  ultimately show "admin_inv aid d'" using wf a(1) keep by (auto simp: admin_inv_def)
qed

lemma admin_delete_group: "g \<noteq> aid \<Longrightarrow> keeps (admin_inv aid) (DeleteGroup g)"
proof (rule hoareI)
  fix d r d' assume g: "g \<noteq> aid" and a: "admin_inv aid d" "run_state (DeleteGroup g) d = (r, d')"
  have wf: "wf_db d'" using hoareD[OF keeps_DeleteGroup _ a(2)] a(1) by (simp add: admin_inv_def)
  have keep: "admin_members aid (without_group g (tables d)) = admin_members aid d"
    "\<lparr>g_ID = aid, g_Name = AdminGroup\<rparr> \<in> set (db_groups (without_group g (tables d)))"
    using g a(1) by (auto simp: without_group_def tables_def admin_members_def admin_inv_def intro!: filter_cong)
  have "tables d' = without_group g (tables d) \<or> tables d' = tables d"
    using DeleteGroup_outcome[of g d] a(2) by (auto simp: cascade_outcome_def split: sum.splits)
  moreover have "admin_members aid d' = admin_members aid (tables d')" "db_groups d' = db_groups (tables d')"
    by (simp_all add: tables_def admin_members_def)
  moreover have "admin_members aid (tables d) = admin_members aid d" "db_groups (tables d) = db_groups d"
    by (simp_all add: tables_def)
  ultimately show "admin_inv aid d'" using wf a(1) keep by (auto simp: admin_inv_def)
qed

end
