(* ===== verification/Admin_Facts.thy ===== *)
theory Admin_Facts
  imports Admin_Inv
begin

text \<open>
  Every screen of the administrator keeps \<open>admin_inv\<close> and makes progress: the guards (last
  administrator, own membership, reserved names) as triples, then one interpretation of the
  driver contracts per screen.
\<close>

section \<open>Store calls and audit records in the world\<close>

lemma hoare_stm:
  assumes "\<And>d. P d \<Longrightarrow> I d" "hoare P m (\<lambda>r d. I d \<and> Q r d)"
  shows "hoare (\<lambda>w. db_inv I w \<and> P (w_db w)) (stm m) (\<lambda>r w. db_inv I w \<and> Q r (w_db w))"
  unfolding stm_def
  by (rule hoare_zoom[OF assms(2)]) (auto simp: world_inv_def w_db_def set_db_def)

lemma keeps_audit:
  assumes "\<And>e. keeps I (RecordAudit e)" shows "keeps (db_inv I) (audit_record cfg ev)"
  unfolding audit_record_def auditor_Record_def Let_def by (intro io_keeps world_keeps keeps_stm assms)

lemma commit_then_hoare:
  assumes "\<And>d. P d \<Longrightarrow> I d" "hoare P m (\<lambda>_. I)" "keeps (db_inv I) audit"
  shows "hoare (\<lambda>w. db_inv I w \<and> P (w_db w)) (commit_then cfg op m audit) (\<lambda>_. db_inv I)"
  unfolding commit_then_def
proof (rule hoare_bind)
  show "hoare (\<lambda>w. db_inv I w \<and> P (w_db w)) (stm m) (\<lambda>r. db_inv I)"
    using hoare_stm[of P I m "\<lambda>_ _. True"] assms(1,2) by simp
  show "\<And>r. keeps (db_inv I) (case r of Inl e \<Rightarrow> return_st (storeErr op e) | Inr _ \<Rightarrow> do { audit; return_st [] })"
    by (intro io_keeps assms(3))
qed

lemma commit_then_keeps:
  "keeps I m \<Longrightarrow> keeps (db_inv I) audit \<Longrightarrow> keeps (db_inv I) (commit_then cfg op m audit)"
  unfolding commit_then_def by (intro io_keeps keeps_stm)

lemma unless_hoare:
  "hoare P m (\<lambda>msg w. if msg \<noteq> [] then Q msg w else R w) \<Longrightarrow> hoare R n Q \<Longrightarrow> hoare P (unless_message m n) Q"
  unfolding unless_message_def by (rule hoare_bind) (auto simp: hoare_def)

lemma unless_keeps: "keeps I m \<Longrightarrow> keeps I n \<Longrightarrow> keeps I (unless_message m n)"
  unfolding unless_message_def by (intro io_keeps)

lemma commit_then_script: "script_kept audit \<Longrightarrow> script_kept (commit_then cfg op m audit)"
  unfolding commit_then_def by (intro script_kept_rules world_progress)

lemma unless_script: "script_kept m \<Longrightarrow> script_kept n \<Longrightarrow> script_kept (unless_message m n)"
  unfolding unless_message_def by (intro script_kept_rules world_progress)

lemma record_script: "script_kept (recordAdmin cfg t)" "script_kept (flow_record cfg k t)" "script_kept (record_subject cfg k t)"
  unfolding recordAdmin_def flow_record_def record_subject_def by (intro world_progress)+

lemma no_message_steady: "steady m \<Longrightarrow> steady (no_message m)"
  unfolding no_message_def by (intro progress_bind steady_return)

lemma no_message_keeps: "keeps I m \<Longrightarrow> keeps I (no_message m)"
  unfolding no_message_def by (intro io_keeps)

abbreviation world_admin :: "int \<Rightarrow> world \<Rightarrow> bool" where
  "world_admin aid \<equiv> db_inv (admin_inv aid)"

lemma admin_query: "keeps (admin_inv aid) (query f)"
  by (rule keeps_query) simp

lemma admin_reads:
  "keeps (admin_inv aid) ListUsers" "keeps (admin_inv aid) (GetUserGroups i)" "keeps (admin_inv aid) ListGroups"
  "keeps (admin_inv aid) (CountGroupMembers i)" "keeps (admin_inv aid) (CountGroupServices i)"
  "keeps (admin_inv aid) (ListUsersInGroup i)" "keeps (admin_inv aid) ListAllServices"
  "keeps (admin_inv aid) (ListGroupsForService i)" "keeps (admin_inv aid) ListTrustedNetworks"
  "keeps (admin_inv aid) ListDocuments" "keeps (admin_inv aid) (ListAudit f)" "keeps (admin_inv aid) (GetConfig k)"
  "keeps (admin_inv aid) (GetUserByUsername n)"
  unfolding ListUsers_def GetUserGroups_def ListGroups_def CountGroupMembers_def CountGroupServices_def ListUsersInGroup_def
    ListAllServices_def ListGroupsForService_def ListTrustedNetworks_def ListDocuments_def ListAudit_def GetConfig_def
    GetUserByUsername_def Let_def
  by (intro admin_query io_keeps keeps_fail_st)+

lemma admin_audit [world_keeps]: "keeps (world_admin aid) (audit_record cfg ev)"
  by (rule keeps_audit) (rule admin_other_tables)

lemma admin_record [world_keeps]:
  "keeps (world_admin aid) (recordAdmin cfg t)" "keeps (world_admin aid) (flow_record cfg k t)"
  "keeps (world_admin aid) (record_subject cfg k t)"
  unfolding recordAdmin_def flow_record_def record_subject_def by (intro world_keeps)+

lemmas admin_ops = admin_users admin_other_tables admin_CreateGroup admin_AddUserToGroup admin_reads
lemmas admin_stm = keeps_stm[OF admin_ops(1)]

section \<open>Guards\<close>

lemma query_post: "faultless P \<Longrightarrow> hoare P (query f) (\<lambda>r d. P d \<and> (\<forall>x. r = Inr x \<longrightarrow> (\<exists>fs. x = f (d\<lparr>db_faults := fs\<rparr>))))"
proof (rule hoareI)
  fix d r d' assume p: "faultless P" "P d" "run_state (query f) d = (r, d')"
  then show "P d' \<and> (\<forall>x. r = Inr x \<longrightarrow> (\<exists>fs. x = f (d'\<lparr>db_faults := fs\<rparr>)))"
    by (auto elim!: query_cases simp: faultless_def intro: exI[of _ "db_faults d'"])
qed

lemma find_SomeD: "find P xs = Some x \<Longrightarrow> x \<in> set xs \<and> P x"
  by (induction xs) (auto split: if_splits)

lemma find_admin_group:
  assumes "admin_inv aid d"
  shows "find (\<lambda>g. g_Name g = to_upper AdminGroup) (order_by g_Name (db_groups d)) = Some \<lparr>g_ID = aid, g_Name = AdminGroup\<rparr>"
proof -
  have up: "to_upper AdminGroup = AdminGroup" by code_simp
  let ?a = "\<lparr>g_ID = aid, g_Name = AdminGroup\<rparr>"
  have mem: "?a \<in> set (order_by g_Name (db_groups d))" using assms by (simp add: admin_inv_def order_by_def)
  then obtain g where g: "find (\<lambda>g. g_Name g = AdminGroup) (order_by g_Name (db_groups d)) = Some g"
    using mem by (cases "find (\<lambda>g. g_Name g = AdminGroup) (order_by g_Name (db_groups d))") (auto simp: find_None_iff)
  from find_SomeD[OF this] have "g \<in> set (db_groups d)" "g_Name g = AdminGroup" by (simp_all add: order_by_def)
  with admin_group_unique[OF assms, of g] have "g = ?a" by (cases g) simp
  with g up show ?thesis by simp
qed

lemma ListGroups_admin:
  "hoare (world_admin aid) (stm ListGroups) (\<lambda>r w. world_admin aid w \<and>
     (\<forall>gs. r = Inr gs \<longrightarrow> find (\<lambda>g. g_Name g = to_upper AdminGroup) gs = Some \<lparr>g_ID = aid, g_Name = AdminGroup\<rparr>))"
proof (rule hoare_weaken_pre[OF hoare_stm])
  show "hoare (admin_inv aid) ListGroups (\<lambda>r d. admin_inv aid d \<and>
      (\<forall>gs. r = Inr gs \<longrightarrow> find (\<lambda>g. g_Name g = to_upper AdminGroup) gs = Some \<lparr>g_ID = aid, g_Name = AdminGroup\<rparr>))"
    unfolding ListGroups_def
    by (rule hoare_strengthen_post[OF query_post[OF faultless_admin(1)]]) (use find_admin_group in auto)
qed (simp_all add: world_inv_def w_db_def)

lemma CountGroupMembers_admin:
  "hoare (world_admin aid) (stm (CountGroupMembers aid)) (\<lambda>r w. world_admin aid w \<and>
     (\<forall>n. r = Inr n \<longrightarrow> n = length (admin_members aid (w_db w))))"
proof (rule hoare_weaken_pre[OF hoare_stm])
  show "hoare (admin_inv aid) (CountGroupMembers aid) (\<lambda>r d. admin_inv aid d \<and> (\<forall>n. r = Inr n \<longrightarrow> n = length (admin_members aid d)))"
    unfolding CountGroupMembers_def admin_members_def
    by (rule hoare_strengthen_post[OF query_post[OF faultless_admin(1)]]) auto
qed (simp_all add: world_inv_def w_db_def)

lemma groupIDByName_admin:
  "hoare (world_admin aid) (groupIDByName AdminGroup) (\<lambda>r w. world_admin aid w \<and> (\<forall>x. r = Inr x \<longrightarrow> x = Some aid))"
  unfolding groupIDByName_def
proof (rule hoare_bind[OF ListGroups_admin], goal_cases)
  case (1 r)
  then show ?case by (cases r) (simp_all add: hoare_def)
qed

lemma guardLastAdmin_hoare:
  "hoare (world_admin aid) guardLastAdmin (\<lambda>msg w. world_admin aid w \<and> (msg = [] \<longrightarrow> two_admins aid (w_db w)))"
proof -
  have err: "storeErr op e \<noteq> []" for op e by (simp add: storeErr_def msgTempError_def)
  have cc: "hoare (world_admin aid) (do { c \<leftarrow> stm (CountGroupMembers aid);
      (case c of Inl e \<Rightarrow> return_st (storeErr ''count admin members'' e)
       | Inr n \<Rightarrow> return_st (if n \<le> 1 then ''CANNOT REMOVE LAST '' @ AdminGroup @ '' MEMBER'' else [])) })
     (\<lambda>msg w. world_admin aid w \<and> (msg = [] \<longrightarrow> two_admins aid (w_db w)))"
  proof (rule hoare_bind[OF CountGroupMembers_admin], goal_cases)
    case (1 r)
    show ?case
    proof (cases r)
      case (Inl e)
      show ?thesis unfolding Inl sum.case by (rule hoare_return_st) (simp add: err)
    next
      case (Inr n)
      show ?thesis unfolding Inr sum.case
        by (rule hoare_return_st) (auto simp: two_admins_def world_inv_def w_db_def)
    qed
  qed
  show ?thesis unfolding guardLastAdmin_def
  proof (rule hoare_bind[OF groupIDByName_admin], goal_cases)
    case (1 r)
    show ?case
    proof (cases r)
      case (Inl e)
      show ?thesis unfolding Inl sum.case by (rule hoare_return_st) (simp add: err)
    next
      case (Inr x)
      show ?thesis
      proof (cases "x = Some aid")
        case True
        show ?thesis unfolding Inr True sum.case option.case by (rule hoare_weaken_pre[OF cc]) simp
      qed (simp add: Inr hoare_def)
    qed
  qed
qed

lemma remove_member_keeps:
  assumes "g_ID g = aid \<longrightarrow> g_Name g = AdminGroup"
  shows "keeps (world_admin aid) (remove_member cfg fl u g detail)"
proof (cases "g_Name g = AdminGroup")
  case True
  have "hoare (world_admin aid) (unless_message guardLastAdmin
      (return_st (if u_ID u = id_UserID (fl_identity fl) then ''CANNOT REMOVE YOUR OWN ADMIN MEMBERSHIP'' else [])))
      (\<lambda>msg w. world_admin aid w \<and> (msg = [] \<longrightarrow> two_admins aid (w_db w)))"
    by (rule unless_hoare[where R = "\<lambda>w. world_admin aid w \<and> two_admins aid (w_db w)"],
        rule hoare_strengthen_post[OF guardLastAdmin_hoare]) (auto simp: hoare_def)
  moreover have "hoare (\<lambda>w. world_admin aid w \<and> two_admins aid (w_db w))
      (commit_then cfg ''remove membership'' (RemoveUserFromGroup (u_ID u) (g_ID g)) (recordAdmin cfg detail)) (\<lambda>_. world_admin aid)"
    by (rule commit_then_hoare[OF _ admin_remove_one]) (auto simp: two_admins_def intro: world_keeps)
  ultimately show ?thesis using True unfolding remove_member_def
    by (intro unless_hoare[where R = "\<lambda>w. world_admin aid w \<and> two_admins aid (w_db w)"])
      (auto elim!: hoare_strengthen_post split: if_splits)
next
  case False
  then have "g_ID g \<noteq> aid" using assms by auto
  then show ?thesis using False unfolding remove_member_def
    by (simp, intro unless_keeps io_keeps commit_then_keeps admin_remove_other world_keeps)
qed

lemma deleteUser_keeps: "keeps (world_admin aid) (deleteUser cfg fl u)"
proof -
  let ?nomember = "\<lambda>d. (u_ID u, aid) \<notin> set (db_user_groups d)"
  have names: "AdminGroup \<in> set (user_group_names (u_ID u) d)" if "admin_inv aid d" "\<not> ?nomember d" for d
  proof -
    have "\<lparr>g_ID = aid, g_Name = AdminGroup\<rparr> \<in> set (db_groups d)" using that(1) by (simp add: admin_inv_def)
    with that(2) show ?thesis by (force simp: user_group_names_def order_by_def)
  qed
  have q: "hoare (admin_inv aid) (GetUserGroups (u_ID u)) (\<lambda>r d. admin_inv aid d \<and>
      (\<forall>gs. r = Inr gs \<longrightarrow> AdminGroup \<notin> set gs \<longrightarrow> ?nomember d))"
    unfolding GetUserGroups_def
    by (rule hoare_strengthen_post[OF query_post]) (use names in \<open>auto simp: user_group_names_def\<close>)
  have g: "hoare (world_admin aid) (stm (GetUserGroups (u_ID u))) (\<lambda>r w. world_admin aid w \<and>
      (\<forall>gs. r = Inr gs \<longrightarrow> AdminGroup \<notin> set gs \<longrightarrow> ?nomember (w_db w)))"
    by (rule hoare_weaken_pre[OF hoare_stm[OF _ q]]) (auto simp: world_inv_def w_db_def)
  let ?safe = "\<lambda>d. admin_inv aid d \<and> (?nomember d \<or> two_admins aid d)"
  have del: "hoare (\<lambda>w. world_admin aid w \<and> ?safe (w_db w))
      (commit_then cfg ''delete user'' (DeleteUser (u_ID u)) (recordAdmin cfg (''user delete '' @ u_Username u))) (\<lambda>_. world_admin aid)"
    by (rule commit_then_hoare[OF _ admin_delete_user]) (auto intro: world_keeps)
  have inv: "world_admin aid w \<Longrightarrow> admin_inv aid (w_db w)" for w by (simp add: world_inv_def w_db_def)
  have guard: "hoare (\<lambda>w. world_admin aid w \<and> (AdminGroup \<notin> set gs \<longrightarrow> ?nomember (w_db w)))
      (do { msg \<leftarrow> (if AdminGroup \<in> set gs then guardLastAdmin else return_st []);
            (if msg \<noteq> [] then return_st msg
             else commit_then cfg ''delete user'' (DeleteUser (u_ID u)) (recordAdmin cfg (''user delete '' @ u_Username u))) })
      (\<lambda>_. world_admin aid)" for gs
  proof (rule hoare_bind[where R = "\<lambda>msg w. world_admin aid w \<and> (msg = [] \<longrightarrow> ?safe (w_db w))"])
    show "hoare (\<lambda>w. world_admin aid w \<and> (AdminGroup \<notin> set gs \<longrightarrow> ?nomember (w_db w)))
        (if AdminGroup \<in> set gs then guardLastAdmin else return_st [])
        (\<lambda>msg w. world_admin aid w \<and> (msg = [] \<longrightarrow> ?safe (w_db w)))"
    proof (cases "AdminGroup \<in> set gs")
      case True
      then show ?thesis
        by (simp, intro hoare_strengthen_post[OF hoare_weaken_pre[OF guardLastAdmin_hoare]])
          (auto simp: two_admins_def)
    next
      case False
      then show ?thesis using inv by (auto simp: hoare_def)
    qed
    show "\<And>msg. hoare (\<lambda>w. world_admin aid w \<and> (msg = [] \<longrightarrow> ?safe (w_db w)))
        (if msg \<noteq> [] then return_st msg
         else commit_then cfg ''delete user'' (DeleteUser (u_ID u)) (recordAdmin cfg (''user delete '' @ u_Username u)))
        (\<lambda>_. world_admin aid)"
      using del by (auto simp: hoare_def)
  qed
  have body: "keeps (world_admin aid) (do {
        r \<leftarrow> stm (GetUserGroups (u_ID u));
        (case r of
           Inl e \<Rightarrow> return_st (storeErr ''get user groups'' e)
         | Inr gs \<Rightarrow> do {
             msg \<leftarrow> (if AdminGroup \<in> set gs then guardLastAdmin else return_st []);
             (if msg \<noteq> [] then return_st msg
              else commit_then cfg ''delete user'' (DeleteUser (u_ID u)) (recordAdmin cfg (''user delete '' @ u_Username u)))
           }) })"
  proof (rule hoare_bind[OF g], goal_cases)
    case (1 r)
    show ?case
    proof (cases r)
      case (Inr gs)
      show ?thesis unfolding Inr sum.case by (rule hoare_weaken_pre[OF guard]) simp
    qed (simp add: hoare_def)
  qed
  show ?thesis unfolding deleteUser_def by (intro hoare_if keeps_return body)
qed

end
