(* ===== verification/Admin_Flows.thy ===== *)
theory Admin_Flows
  imports Admin_Facts
begin

text \<open>
  Each screen of the administrator as a client of the driver contracts: one interpretation of
  \<open>list_flow\<close>, \<open>list_progress\<close>, \<open>form_flow\<close> or \<open>snapshot_flow\<close> per configuration, and from
  them the invariant and the progress of the whole administrator's menu.
\<close>

lemmas flow_keeps = io_keeps world_keeps keeps_stm admin_ops keeps_map_eff commit_then_keeps unless_keeps
lemmas flow_scripts = script_kept_rules world_progress script_kept_map_eff commit_then_script unless_script record_script

section \<open>Membership screens\<close>

definition group_ok :: "int \<Rightarrow> group \<Rightarrow> bool" where
  "group_ok aid g \<longleftrightarrow> (g_ID g = aid \<longrightarrow> g_Name g = AdminGroup)"

lemma listed_groups_ok:
  "hoare (world_admin aid) (stm ListGroups) (\<lambda>r w. world_admin aid w \<and> (\<forall>gs. r = Inr gs \<longrightarrow> (\<forall>g\<in>set gs. group_ok aid g)))"
proof (rule hoare_weaken_pre[OF hoare_stm])
  have ok: "admin_inv aid d \<Longrightarrow> g \<in> set (db_groups d) \<Longrightarrow> group_ok aid g" for d g
    unfolding group_ok_def by (rule impI, rule iffD1[OF admin_group_unique])
  show "hoare (admin_inv aid) ListGroups (\<lambda>r d. admin_inv aid d \<and> (\<forall>gs. r = Inr gs \<longrightarrow> (\<forall>g\<in>set gs. group_ok aid g)))"
    unfolding ListGroups_def
    by (rule hoare_strengthen_post[OF query_post[OF faultless_admin(1)]]) (auto simp: order_by_def intro: ok)
qed (simp_all add: world_inv_def w_db_def)

text \<open>A fetch that lists the groups, then does what leaves the rows' items alone.\<close>

lemma group_rows:
  assumes "\<And>gs. hoare (world_admin aid) (k gs) (\<lambda>r w. world_admin aid w \<and> set (map snd (fst r)) \<subseteq> set gs)"
  shows "hoare (world_admin aid) (do { r \<leftarrow> stm ListGroups; (case r of Inl e \<Rightarrow> return_st ([], msg e) | Inr gs \<Rightarrow> k gs) })
    (\<lambda>r w. world_admin aid w \<and> (\<forall>x\<in>set (fst r). group_ok aid (snd x)))"
proof (rule hoare_bind[OF listed_groups_ok])
  fix r show "hoare (\<lambda>w. world_admin aid w \<and> (\<forall>gs. r = Inr gs \<longrightarrow> (\<forall>g\<in>set gs. group_ok aid g)))
      (case r of Inl e \<Rightarrow> return_st ([], msg e) | Inr gs \<Rightarrow> k gs)
      (\<lambda>r w. world_admin aid w \<and> (\<forall>x\<in>set (fst r). group_ok aid (snd x)))"
  proof (cases r)
    case (Inr gs)
    then show ?thesis using assms[of gs] by (fastforce simp: hoare_def split: prod.splits)
  qed (simp add: hoare_def)
qed

lemma map_eff_items:
  assumes "\<And>x. hoare I (f x) (\<lambda>r w. I w \<and> snd r = x)"
  shows "hoare I (map_eff f xs) (\<lambda>rs w. I w \<and> map snd rs = xs)"
proof (induction xs)
  case (Cons x xs)
  show ?case unfolding map_eff.simps
  proof (rule hoare_bind[OF assms])
    fix y show "hoare (\<lambda>w. I w \<and> snd y = x) (do { ys \<leftarrow> map_eff f xs; return_st (y # ys) }) (\<lambda>rs w. I w \<and> map snd rs = x # xs)"
      using Cons.IH by (fastforce simp: hoare_def split: prod.splits)
  qed
qed (simp add: hoare_def)

lemma keeps_post: "keeps I m \<Longrightarrow> (\<And>w r w'. run_state m w = (r, w') \<Longrightarrow> p r) \<Longrightarrow> hoare I m (\<lambda>r w. I w \<and> p r)"
  by (auto simp: hoare_def split: prod.splits)

lemma userGroups_rows:
  "hoare (world_admin aid) (userGroups_fetch u) (\<lambda>r w. world_admin aid w \<and> (\<forall>x\<in>set (fst r). group_ok aid (snd x)))"
  unfolding userGroups_fetch_def Let_def
  by (intro group_rows keeps_post flow_keeps) (auto split: prod.splits)

lemma serviceGroups_rows:
  "hoare (world_admin aid) (serviceGroups_fetch s) (\<lambda>r w. world_admin aid w \<and> (\<forall>x\<in>set (fst r). group_ok aid (snd x)))"
  unfolding serviceGroups_fetch_def Let_def
  by (intro group_rows keeps_post flow_keeps) (auto split: prod.splits)

lemma groups_rows:
  "hoare (world_admin aid) groups_fetch (\<lambda>r w. world_admin aid w \<and> (\<forall>x\<in>set (fst r). group_ok aid (snd x)))"
  unfolding groups_fetch_def Let_def
proof (rule group_rows)
  fix gs
  have "hoare (world_admin aid) (map_eff (\<lambda>g. do {
       m \<leftarrow> stm (CountGroupMembers (g_ID g)); s \<leftarrow> stm (CountGroupServices (g_ID g));
       return_st (pad_right 20 (g_Name g) @ '' '' @
         pad_left (CHR '' '') 7 (itoa (fst (case (m, s) of (Inr a, Inr b) \<Rightarrow> (int a, int b) | _ \<Rightarrow> (0, 0)))) @ ''  '' @
         pad_left (CHR '' '') 8 (itoa (snd (case (m, s) of (Inr a, Inr b) \<Rightarrow> (int a, int b) | _ \<Rightarrow> (0, 0)))), g) }) gs)
     (\<lambda>rs w. world_admin aid w \<and> map snd rs = gs)"
    by (intro map_eff_items keeps_post flow_keeps) (auto split: prod.splits)
  then show "hoare (world_admin aid) (do { rows \<leftarrow> map_eff (\<lambda>g. do {
       m \<leftarrow> stm (CountGroupMembers (g_ID g)); s \<leftarrow> stm (CountGroupServices (g_ID g));
       return_st (pad_right 20 (g_Name g) @ '' '' @
         pad_left (CHR '' '') 7 (itoa (fst (case (m, s) of (Inr a, Inr b) \<Rightarrow> (int a, int b) | _ \<Rightarrow> (0, 0)))) @ ''  '' @
         pad_left (CHR '' '') 8 (itoa (snd (case (m, s) of (Inr a, Inr b) \<Rightarrow> (int a, int b) | _ \<Rightarrow> (0, 0)))), g) }) gs;
       return_st (rows, []) }) (\<lambda>r w. world_admin aid w \<and> set (map snd (fst r)) \<subseteq> set gs)"
    by (rule hoare_bind) (force simp: hoare_def)
qed

lemma remove_listed: "group_ok aid g \<Longrightarrow> keeps (world_admin aid) (remove_member cfg fl u g detail)"
  unfolding group_ok_def by (rule remove_member_keeps)

interpretation user_groups: list_flow cfg "userGroups_list cfg fl u" "world_admin aid" "group_ok aid"
  for cfg fl u aid
  by unfold_locales
    (auto simp: userGroups_list_def intro!: userGroups_rows flow_keeps remove_listed)

interpretation service_groups: list_flow cfg "serviceGroups_list cfg fl svc" "world_admin aid" "group_ok aid"
  for cfg fl svc aid
  by unfold_locales (auto simp: serviceGroups_list_def intro!: serviceGroups_rows flow_keeps)

lemma users_rows: "keeps (world_admin aid) fetchUsers" "keeps (world_admin aid) (groupMembers_fetch g)"
  unfolding fetchUsers_def groupMembers_fetch_def Let_def by (intro flow_keeps)+

lemma trivial_rows: "keeps I m \<Longrightarrow> hoare I m (\<lambda>r w. I w \<and> (\<forall>x\<in>set (fst r). True))"
  by simp

text \<open>The members screen is only opened on a listed group.\<close>

lemma groupMembers_flow: "group_ok aid g \<Longrightarrow> list_flow cfg (groupMembers_list cfg fl g) (world_admin aid) (\<lambda>_. True)"
  by unfold_locales
    (auto simp: groupMembers_list_def intro!: users_rows trivial_rows flow_keeps remove_listed)

section \<open>Forms\<close>

lemma hash_password_keeps: "keeps (world_admin aid) (hash_password cfg p)"
  unfolding hash_password_def by (intro flow_keeps)

lemma userCreate_keeps: "keeps (world_admin aid) (userCreate cfg vals n e)"
  unfolding userCreate_def Let_def by (intro flow_keeps hash_password_keeps)

lemma userSaveEdit_keeps: "keeps (world_admin aid) (userSaveEdit cfg u vals n e)"
  unfolding userSaveEdit_def applyMFAEdit_def applyLockEdit_def Let_def
  by (intro flow_keeps hash_password_keeps)

interpretation user_form: form_flow cfg "userEdit_form cfg target" "world_admin aid"
  for cfg target aid
  by unfold_locales
    (auto simp: userEdit_form_def userEdit_submit_def Let_def intro!: flow_keeps userCreate_keeps userSaveEdit_keeps)

lemma groupIDByName_keeps: "keeps (world_admin aid) (groupIDByName n)"
  unfolding groupIDByName_def by (intro flow_keeps)

interpretation group_form: form_flow cfg "groupAdd_form cfg" "world_admin aid"
  for cfg aid
  by unfold_locales (auto simp: groupAdd_form_def groupAdd_submit_def Let_def intro!: flow_keeps groupIDByName_keeps)

interpretation service_form: form_flow cfg "serviceForm_form cfg existing" "world_admin aid"
  for cfg existing aid
  by unfold_locales
    (auto simp: serviceForm_form_def serviceForm_submit_def checkServiceNameFree_def Let_def intro!: flow_keeps)

interpretation network_form: form_flow cfg "networkForm_form cfg existing" "world_admin aid"
  for cfg existing aid
  by unfold_locales (auto simp: networkForm_form_def networkForm_submit_def Let_def intro!: flow_keeps)

lemma persist_all_keeps: "keeps (world_admin aid) (persist_all cfg es i ffs)"
proof (induction es arbitrary: i ffs)
  case (Cons e es)
  then show ?case by (cases e) (auto simp: Let_def intro!: flow_keeps)
qed (auto intro: flow_keeps)

interpretation system_form: form_flow cfg "system_form cfg" "world_admin aid"
  for cfg aid
  by unfold_locales (auto simp: system_form_def system_submit_def intro!: flow_keeps persist_all_keeps)

lemma store_error_keeps:
  "keeps I a \<Longrightarrow> (\<And>e. keeps I (b e)) \<Longrightarrow> (\<And>x. keeps I (c x)) \<Longrightarrow>
   keeps I (case r of Inl ErrDocumentTooLarge \<Rightarrow> a | Inl e \<Rightarrow> b e | Inr x \<Rightarrow> c x)"
  by (cases r) (auto split: store_error.split)

lemma document_save_keeps: "keeps (world_admin aid) (document_save cfg fl d s ls)"
  unfolding document_save_def by (intro flow_keeps; auto split: store_error.split intro!: flow_keeps)

interpretation import_form: form_flow cfg "import_form cfg fl d" "world_admin aid"
  for cfg fl d aid
  by unfold_locales (auto simp: import_form_def import_submit_def Let_def intro!: flow_keeps)

section \<open>Lists\<close>

interpretation users: list_flow cfg "users_list cfg fl" "world_admin aid" "\<lambda>_. True"
  for cfg fl aid
  by unfold_locales
    (auto simp: users_list_def userEdit_def userGroups_def
      intro!: users_rows trivial_rows flow_keeps no_message_keeps user_form.RunForm_keeps user_groups.RunList_keeps deleteUser_keeps)

lemma reserved_admin: "isReservedGroup AdminGroup" by code_simp

interpretation groups: list_flow cfg "groups_list cfg fl" "world_admin aid" "group_ok aid"
  for cfg fl aid
proof unfold_locales
  fix cmd :: "group command" and g
  assume c: "cmd \<in> set (lc_Cmds (groups_list cfg fl))" "group_ok aid g" "confirm_passed cmd g"
  have "g_ID g \<noteq> aid" if "\<not> isReservedGroup (g_Name g)"
    using that c(2) reserved_admin by (auto simp: group_ok_def)
  then show "keeps (world_admin aid) (cm_Commit cmd g)"
    using c
    by (auto simp: groups_list_def confirm_passed_def groupMembers_def split: if_splits
        intro!: no_message_keeps list_flow.RunList_keeps[OF groupMembers_flow] io_keeps commit_then_keeps admin_delete_group world_keeps)
qed (auto simp: groups_list_def groupAdd_def intro!: groups_rows flow_keeps no_message_keeps group_form.RunForm_keeps)

lemma other_rows: "keeps (world_admin aid) services_fetch" "keeps (world_admin aid) networks_fetch" "keeps (world_admin aid) documents_fetch"
  unfolding services_fetch_def networks_fetch_def documents_fetch_def by (intro flow_keeps)+

interpretation services: list_flow cfg "services_list cfg fl" "world_admin aid" "\<lambda>_. True"
  for cfg fl aid
  by unfold_locales
    (auto simp: services_list_def serviceForm_def serviceGroups_def
      intro!: other_rows trivial_rows flow_keeps no_message_keeps service_form.RunForm_keeps service_groups.RunList_keeps)

interpretation networks: list_flow cfg "networks_list cfg fl" "world_admin aid" "\<lambda>_. True"
  for cfg fl aid
  by unfold_locales
    (auto simp: networks_list_def networkForm_def
      intro!: other_rows trivial_rows flow_keeps no_message_keeps network_form.RunForm_keeps)

lemma documentEditor_keeps: "keeps (world_admin aid) (documentEditor cfg fl d)"
  unfolding documentEditor_def
  by (rule RunEditor_keeps) (auto intro!: flow_keeps document_save_keeps)

lemma documentImport_keeps: "keeps (world_admin aid) (documentImport cfg fl d)"
  unfolding documentImport_def Let_def by (intro flow_keeps import_form.RunForm_keeps)

interpretation documents: list_flow cfg "documents_list cfg fl" "world_admin aid" "\<lambda>_. True"
  for cfg fl aid
  by unfold_locales
    (auto simp: documents_list_def intro!: other_rows trivial_rows flow_keeps documentEditor_keeps documentImport_keeps)

section \<open>Viewers\<close>

lemma ptr_fields_keeps: "keeps (world_admin aid) (ptr_fields cfg a)"
  unfolding ptr_fields_def auditReverseDNS_def by (intro flow_keeps)

interpretation audit_viewer: snapshot_flow cfg "audit_list cfg fl n" "world_admin aid"
  for cfg fl n aid
  by unfold_locales
    (auto simp: audit_list_def audit_fetch_def auditDetail_def Let_def
      intro!: flow_keeps ptr_fields_keeps renderer_keeps)

interpretation session_viewer: snapshot_flow cfg "sessions_list cfg fl" "world_admin aid"
  for cfg fl aid
  by unfold_locales
    (auto simp: sessions_list_def sessions_fetch_def session_select_def sessionDetail_def session_act_def
      sessions_snapshot_def sessions_disconnect_def Let_def
      intro!: flow_keeps ptr_fields_keeps RunDetail_keeps)

section \<open>The menu\<close>

lemma admin_choice_keeps: "keeps (world_admin aid) (admin_choice cfg fl n)"
  unfolding admin_choice_def admin_users_def admin_groups_def admin_services_def systemParams_def system_fields_def
    admin_networks_def auditLog_def auditCap_def activeSessions_def admin_documents_def
  by (intro flow_keeps users.RunList_keeps groups.RunList_keeps services.RunList_keeps networks.RunList_keeps
      documents.RunList_keeps system_form.RunForm_keeps audit_viewer.RunSnapshotList_keeps session_viewer.RunSnapshotList_keeps)

lemma adminFlow_keeps: "keeps (world_admin aid) (adminFlow_Run cfg fl)"
  unfolding adminFlow_Run_def AdminMenu_def by (intro flow_keeps admin_choice_keeps)


section \<open>Progress of the menu\<close>

lemma fetch_scripts:
  "script_kept (userGroups_fetch u)" "script_kept (serviceGroups_fetch svc)" "script_kept groups_fetch"
  "script_kept fetchUsers" "script_kept (groupMembers_fetch g)" "script_kept services_fetch"
  "script_kept networks_fetch" "script_kept documents_fetch" "script_kept (audit_fetch n)"
  "script_kept (sessions_fetch cfg)" "script_kept system_fields" "script_kept auditCap"
  unfolding userGroups_fetch_def serviceGroups_fetch_def groups_fetch_def fetchUsers_def groupMembers_fetch_def
    services_fetch_def networks_fetch_def documents_fetch_def audit_fetch_def sessions_fetch_def sessions_snapshot_def
    system_fields_def auditCap_def Let_def
  by (intro flow_scripts)+

lemma guard_scripts:
  "script_kept (groupIDByName n)" "script_kept guardLastAdmin" "script_kept (hash_password cfg p)"
  unfolding guardLastAdmin_def groupIDByName_def hash_password_def by (intro flow_scripts)+

lemma commit_scripts:
  "script_kept (deleteUser cfg fl u)" "script_kept (remove_member cfg fl u g detail)"
  "script_kept (userCreate cfg vals n e)" "script_kept (userSaveEdit cfg u vals n e)"
  unfolding deleteUser_def remove_member_def userCreate_def userSaveEdit_def applyMFAEdit_def applyLockEdit_def Let_def
  by (intro flow_scripts guard_scripts)+

lemma persist_all_script: "script_kept (persist_all cfg es i ffs)"
proof (induction es arbitrary: i ffs)
  case (Cons e es)
  then show ?case by (cases e) (auto simp: Let_def intro!: flow_scripts)
qed (auto intro: flow_scripts)

lemma submit_scripts:
  "script_kept (userEdit_submit cfg target ffs vals)" "script_kept (groupAdd_submit cfg ffs vals)"
  "script_kept (serviceForm_submit cfg existing ffs vals)" "script_kept (networkForm_submit cfg net ffs vals)"
  "script_kept (system_submit cfg ffs vals)"
  unfolding userEdit_submit_def groupAdd_submit_def serviceForm_submit_def networkForm_submit_def system_submit_def
    checkServiceNameFree_def Let_def
  by (intro flow_scripts guard_scripts commit_scripts persist_all_script)+

lemma form_progress:
  "steady (userEdit cfg target)" "steady (groupAdd cfg)" "steady (serviceForm cfg existing)" "steady (networkForm cfg net)"
  unfolding userEdit_def groupAdd_def serviceForm_def networkForm_def
  by (rule RunForm_steady,
      simp add: userEdit_form_def groupAdd_form_def serviceForm_form_def networkForm_form_def,
      intro progress_lift submit_scripts)+

lemma list_progressI:
  "script_kept (lc_Fetch lc) \<Longrightarrow> list_all (\<lambda>cmd. \<forall>x. steady (cm_Commit cmd x)) (lc_Cmds lc) \<Longrightarrow>
   (\<And>m. lc_Add lc = Some m \<Longrightarrow> steady m) \<Longrightarrow> list_progress lc"
  by unfold_locales (auto simp: list_all_iff)

interpretation user_groups_steady: list_progress cfg "userGroups_list cfg fl u" for cfg fl u
  by (rule list_progressI) (auto simp: userGroups_list_def intro!: fetch_scripts progress_lift flow_scripts commit_scripts)

interpretation service_groups_steady: list_progress cfg "serviceGroups_list cfg fl svc" for cfg fl svc
  by (rule list_progressI) (auto simp: serviceGroups_list_def intro!: fetch_scripts progress_lift flow_scripts)

interpretation group_members_steady: list_progress cfg "groupMembers_list cfg fl g" for cfg fl g
  by (rule list_progressI) (auto simp: groupMembers_list_def intro!: fetch_scripts progress_lift flow_scripts commit_scripts)

interpretation users_steady: list_progress cfg "users_list cfg fl" for cfg fl
  by (rule list_progressI)
    (auto simp: users_list_def userGroups_def
      intro!: fetch_scripts progress_lift flow_scripts commit_scripts no_message_steady form_progress user_groups_steady.RunList_steady)

interpretation groups_steady: list_progress cfg "groups_list cfg fl" for cfg fl
  by (rule list_progressI)
    (auto simp: groups_list_def groupMembers_def
      intro!: fetch_scripts progress_lift flow_scripts no_message_steady form_progress group_members_steady.RunList_steady)

interpretation services_steady: list_progress cfg "services_list cfg fl" for cfg fl
  by (rule list_progressI)
    (auto simp: services_list_def serviceGroups_def
      intro!: fetch_scripts progress_lift flow_scripts no_message_steady form_progress service_groups_steady.RunList_steady)

interpretation networks_steady: list_progress cfg "networks_list cfg fl" for cfg fl
  by (rule list_progressI)
    (auto simp: networks_list_def intro!: fetch_scripts progress_lift flow_scripts no_message_steady form_progress)

lemma document_scripts:
  "script_kept (document_save cfg fl d saved ls)" "script_kept (import_submit cfg fl d st vals)"
  unfolding document_save_def import_submit_def Let_def
  by (intro flow_scripts; auto split: store_error.split intro!: flow_scripts)+

lemma document_progress: "steady (documentEditor cfg fl d)" "steady (documentImport cfg fl d)"
proof -
  show "steady (documentEditor cfg fl d)"
    unfolding documentEditor_def by (rule RunEditor_steady) (simp add: progress_lift document_scripts)
  have "steady (RunForm cfg (import_form cfg fl d) s)" for s
    by (rule RunForm_steady) (simp add: import_form_def progress_lift document_scripts)
  then show "steady (documentImport cfg fl d)"
    unfolding documentImport_def Let_def by (intro progress_bind progress_lift steady_return flow_scripts) auto
qed

interpretation documents_steady: list_progress cfg "documents_list cfg fl" for cfg fl
  by (rule list_progressI) (auto simp: documents_list_def intro!: fetch_scripts document_progress)

lemma viewer_scripts:
  "script_kept (auditDetail cfg ev)" "script_kept (sessionDetail cfg v)" "script_kept (session_act cfg v)"
  unfolding auditDetail_def sessionDetail_def ptr_fields_def auditReverseDNS_def session_act_def sessions_disconnect_def Let_def
  by (intro flow_scripts)+

lemma viewer_progress: "steady (auditLog cfg fl)" "steady (activeSessions cfg fl)"
proof -
  have "steady (RunSnapshotList cfg (audit_list cfg fl n))" for n
    by (rule RunSnapshotList_steady)
      (auto simp: audit_list_def intro!: fetch_scripts progress_bind progress_lift viewer_scripts steady_return
        consumes_steady[OF renderer_consumes(4)])
  then show "steady (auditLog cfg fl)"
    unfolding auditLog_def by (intro progress_bind progress_lift fetch_scripts)
  have "steady (RunSnapshotList cfg (sessions_list cfg fl))"
    by (rule RunSnapshotList_steady)
      (auto simp: sessions_list_def session_select_def
        intro!: fetch_scripts progress_bind progress_lift viewer_scripts RunDetail_steady)
  then show "steady (activeSessions cfg fl)"
    unfolding activeSessions_def by (intro progress_bind progress_lift flow_scripts progress_cases steady_return)
qed

lemma systemParams_steady: "steady (systemParams cfg)"
  unfolding systemParams_def
  by (intro progress_bind progress_lift fetch_scripts steady_return RunForm_steady)
    (simp add: system_form_def progress_lift submit_scripts)

lemma admin_choice_steady: "steady (admin_choice cfg fl n)"
  unfolding admin_choice_def admin_users_def admin_groups_def admin_services_def admin_networks_def admin_documents_def
  by (intro progress_cases users_steady.RunList_steady groups_steady.RunList_steady services_steady.RunList_steady
      networks_steady.RunList_steady documents_steady.RunList_steady viewer_progress systemParams_steady steady_return)

lemma AdminMenu_consumes: "consumes (AdminMenu cfg m)"
  unfolding AdminMenu_def
  by (intro consumes_loop progress_bind_use[OF handleScreen_consumes] progress_cases steady_leave steady_again)

lemma adminFlow_steady: "steady (adminFlow_Run cfg fl)"
  unfolding adminFlow_Run_def
  by (intro steady_loop progress_bind_use[OF AdminMenu_consumes] progress_cases steady_leave steady_again
      progress_bind admin_choice_steady)

end
