(* ===== verification/Session_Facts.thy ===== *)
theory Session_Facts
  imports Session Admin_Flows
begin

text \<open>
  The session always ends, and always says how: every loop of the session consumes input in each
  round, so no loop runs out of fuel; every failure of the connection is mapped to an outcome; and
  everything written in between is bracketed by one connect and one disconnect record.
\<close>

section \<open>Outcomes\<close>

definition outcome :: "(io_err \<Rightarrow> bool) \<Rightarrow> ('a \<Rightarrow> bool) \<Rightarrow> 'a io \<Rightarrow> bool" where
  "outcome E P m \<longleftrightarrow> (\<forall>w. case fst (run_state m w) of Inl e \<Rightarrow> E e | Inr y \<Rightarrow> P y)"

text \<open>Every failure of the connection has been mapped to a value.\<close>

abbreviation handled :: "'a io \<Rightarrow> bool" where "handled m \<equiv> outcome (\<lambda>e. e = IoFuel) (\<lambda>_. True) m"

lemma outcomeD: "outcome E P m \<Longrightarrow> run_state m w = (r, w') \<Longrightarrow> case r of Inl e \<Rightarrow> E e | Inr y \<Rightarrow> P y"
  unfolding outcome_def by (metis fst_conv)

lemma outcome_return: "P x \<Longrightarrow> outcome E P (io_return x)" by (simp add: outcome_def io_return_def)
lemma outcome_leave: "P (Inr x) \<Longrightarrow> outcome E P (leave x)" by (simp add: leave_def outcome_return)
lemma outcome_again: "P (Inl x) \<Longrightarrow> outcome E P (again x)" by (simp add: again_def outcome_return)
lemma outcome_fail: "E e \<Longrightarrow> outcome E P (io_fail e)" by (simp add: outcome_def io_fail_def)
lemma outcome_eff: "(\<And>x. outcome E P (k x)) \<Longrightarrow> outcome E P (do { x \<leftarrow> m; k x })"
  by (auto simp: outcome_def split: prod.split)
lemma outcome_bind: "outcome E R m \<Longrightarrow> (\<And>x. R x \<Longrightarrow> outcome E P (k x)) \<Longrightarrow> outcome E P (try_bind m k)"
proof -
  assume a: "outcome E R m" "\<And>x. R x \<Longrightarrow> outcome E P (k x)"
  have "case fst (run_state (try_bind m k) w) of Inl e \<Rightarrow> E e | Inr y \<Rightarrow> P y" for w
  proof (cases "run_state m w")
    case (Pair r w1)
    show ?thesis using outcomeD[OF a(1) Pair] a(2) Pair
      by (cases r) (simp_all add: run_try_bind outcome_def)
  qed
  then show ?thesis by (simp add: outcome_def)
qed
lemma outcome_any: "outcome (\<lambda>_. True) (\<lambda>_. True) m" by (simp add: outcome_def split: sum.split)
lemma outcome_lift: "(\<And>x. P x) \<Longrightarrow> outcome E P (io_lift m)"
  unfolding io_lift_def by (intro outcome_eff outcome_return)
lemma outcome_if: "(c \<Longrightarrow> outcome E P m) \<Longrightarrow> (\<not> c \<Longrightarrow> outcome E P n) \<Longrightarrow> outcome E P (if c then m else n)" by simp
lemma outcome_sum:
  "(\<And>e. r = Inl e \<Longrightarrow> outcome E P (f e)) \<Longrightarrow> (\<And>x. r = Inr x \<Longrightarrow> outcome E P (g x)) \<Longrightarrow>
   outcome E P (case r of Inl e \<Rightarrow> f e | Inr x \<Rightarrow> g x)"
  by (cases r) auto
lemma outcome_option:
  "(r = None \<Longrightarrow> outcome E P f) \<Longrightarrow> (\<And>x. r = Some x \<Longrightarrow> outcome E P (g x)) \<Longrightarrow>
   outcome E P (case r of None \<Rightarrow> f | Some x \<Rightarrow> g x)"
  by (cases r) auto
lemma outcome_prod: "(\<And>a b. r = (a, b) \<Longrightarrow> outcome E P (f a b)) \<Longrightarrow> outcome E P (case r of (a, b) \<Rightarrow> f a b)"
  by (cases r) auto
lemma outcome_let: "outcome E P (f a) \<Longrightarrow> outcome E P (let x = a in f x)" by simp

lemma outcome_loop:
  assumes "\<And>x. outcome E (\<lambda>r. case r of Inl _ \<Rightarrow> True | Inr y \<Rightarrow> P y) (body x)" "E IoFuel"
  shows "outcome E P (io_loop body x)"
proof -
  have "outcome E P (loop_with n body x)" for n
  proof (induction n arbitrary: x)
    case 0
    then show ?case using assms(2) by (simp add: outcome_fail)
  next
    case (Suc n)
    show ?case unfolding loop_with.simps
      by (rule outcome_bind[OF assms(1)]) (auto split: sum.splits intro: Suc outcome_return)
  qed
  then show ?thesis unfolding io_loop_def by (intro outcome_eff)
qed

lemmas outcome_rules = outcome_return outcome_leave outcome_again outcome_eff outcome_if outcome_sum outcome_option
  outcome_prod outcome_let outcome_loop

lemma progress_bind_outcome:
  assumes "steady m" "outcome (\<lambda>_. True) R m" "\<And>x. R x \<Longrightarrow> progress Q (k x)"
  shows "progress Q (try_bind m k)"
proof (rule progressI)
  fix w r w' assume r: "run_state (try_bind m k) w = (r, w')"
  obtain r1 w1 where m: "run_state m w = (r1, w1)" by fastforce
  note p = progressD[OF assms(1) m]
  show "script_len w' \<le> script_len w \<and> r \<noteq> Inl IoFuel \<and> (\<forall>x. r = Inr x \<longrightarrow> Q x \<longrightarrow> script_len w' < script_len w)"
  proof (cases r1)
    case (Inl e)
    then show ?thesis using r m p by (auto simp: run_try_bind)
  next
    case (Inr x)
    then have "run_state (k x) w1 = (r, w')" using r m by (simp add: run_try_bind)
    moreover have "R x" using outcomeD[OF assms(2) m] Inr by simp
    ultimately show ?thesis using progressD[OF assms(3), of x w1 r w'] p(1) by (metis le_trans less_le_trans)
  qed
qed

section \<open>Progress of the screens\<close>

lemma progress_eff_le:
  assumes "\<And>w. script_len (snd (run_state m w)) \<le> script_len w" "\<And>x. progress Q (k x)"
  shows "progress Q (do { x \<leftarrow> m; k x })"
proof (rule progressI)
  fix w r w' assume r: "run_state (do { x \<leftarrow> m; k x }) w = (r, w')"
  obtain x w1 where m: "run_state m w = (x, w1)" by fastforce
  then have "run_state (k x) w1 = (r, w')" "script_len w1 \<le> script_len w" using r assms(1)[of w] by simp_all
  with progressD[OF assms(2) this(1)] show "script_len w' \<le> script_len w \<and> r \<noteq> Inl IoFuel \<and>
      (\<forall>x. r = Inr x \<longrightarrow> Q x \<longrightarrow> script_len w' < script_len w)"
    by (metis le_trans less_le_trans)
qed

lemma Negotiate_consumes: "consumes (Negotiate cfg)"
  unfolding Negotiate_def
  by (rule progress_bind_use[OF await_consumes]) (auto split: session_event.split intro!: steady_return progress_fail)

lemma p_Login_consumes: "consumes (p_Login cfg status branding msg)"
  unfolding p_Login_def
  by (intro progress_eff world_progress progress_bind_use[OF handleScreen_consumes] steady_return)

lemma runHelpViewer_consumes: "consumes (runHelpViewer cfg tm title ls)"
  unfolding runHelpViewer_def Let_def
  by (intro consumes_loop progress_bind_use[OF handleScreen_consumes] progress_cases steady_again steady_leave)

lemma p_Menu_consumes: "script_kept help \<Longrightarrow> consumes (p_Menu cfg tm svcs admin locked status msg help)"
  unfolding p_Menu_def menu_screen_def Let_def
  by (intro consumes_loop progress_eff world_progress progress_bind_use[OF handleScreen_consumes] progress_cases
      steady_again steady_leave progress_bind progress_lift consumes_steady[OF runHelpViewer_consumes])

lemma p_UserSettings_consumes: "consumes (p_UserSettings cfg username rows msg)"
  unfolding p_UserSettings_def Let_def
  by (intro consumes_loop progress_bind_use[OF handleScreen_consumes] progress_cases steady_again steady_leave)

lemma p_News_steady: "steady (p_News cfg pages)"
  unfolding p_News_def
  by (intro steady_loop progress_if progress_leave progress_bind_use[OF handleScreen_consumes] steady_again)

lemma mfa_screens_consume: "consumes (p_EnrollMFA cfg i a c msg)" "consumes (p_VerifyMFA cfg msg)"
  unfolding p_EnrollMFA_def p_VerifyMFA_def
  by (intro progress_bind_use[OF handleScreen_consumes] steady_return)+

section \<open>Progress of the session\<close>

lemma regime_script: "script_kept (regime f)"
  by (simp add: regime_def script_kept_def)

lemma session_scripts:
  "script_kept (reg_update g)" "script_kept (regSetLogin cfg n)" "script_kept (regClearLogin cfg)"
  "script_kept (regSetService cfg n)" "script_kept (regClearService cfg)" "script_kept mfaIssuer" "script_kept systemID"
  "script_kept loginBranding" "script_kept helpMenuLines" "script_kept (arm_pre_auth cfg)" "script_kept (arm_post_auth cfg)"
  "script_kept (arm_bridge cfg)" "script_kept (fail_delay n)" "script_kept (throttle_reset n)"
  "script_kept (logAuthFailure n r)" "script_kept (record_user cfg k n d)" "script_kept (record_bridge cfg ident k svc d)"
  "script_kept (authenticate cfg n p)" "script_kept (generateSecret cfg i n)" "script_kept (settings_locked ident)"
  unfolding reg_update_def regSetLogin_def regClearLogin_def regSetService_def regClearService_def mfaIssuer_def
    systemID_def config_or_def loginBranding_def helpMenuLines_def arm_pre_auth_def arm_post_auth_def arm_bridge_def
    fail_delay_def throttle_reset_def logAuthFailure_def record_user_def record_bridge_def authenticate_def
    generateSecret_def settings_locked_def Let_def
  by (intro flow_scripts regime_script)+

lemma reject_scripts:
  "script_kept (reject cfg n)" "script_kept (reject_code cfg n c)" "script_kept (idle_logout cfg n)"
  unfolding reject_def reject_code_def idle_logout_def by (intro flow_scripts session_scripts)+

lemmas session_progress = progress_eff session_scripts reject_scripts world_progress

lemma login_round_progress: "progress (\<lambda>r. case r of Inl _ \<Rightarrow> True | Inr y \<Rightarrow> \<not> isl y) (login_round cfg status msg)"
  unfolding login_round_def
  by (intro progress_eff session_scripts progress_catch_use[OF p_Login_consumes])
    (auto split: prod.split sum.split option.split intro!: session_progress steady_leave steady_again
      simp: leave_def progress_return)

lemma doLogin_progress: "progress (\<lambda>r. \<not> isl r) (doLogin cfg)"
  unfolding doLogin_def by (intro session_progress progress_loop login_round_progress)

lemma enroll_round_progress: "progress isl (enroll_round cfg cipher u secret issuer msg)"
  unfolding enroll_round_def
proof (rule progress_catch_use[OF mfa_screens_consume(1)], goal_cases)
  case (1 e)
  then show ?case by (simp add: progress_leave)
next
  case (2 r)
  show ?case
    by (cases r) (auto split: prod.split sum.split option.split intro!: session_progress steady_leave steady_again)
qed

lemma confirmEnroll_steady: "steady (confirmEnroll cfg cipher u secret)"
  unfolding confirmEnroll_def by (intro session_progress steady_loop enroll_round_progress)

lemma mfaEnroll_steady: "steady (mfaEnroll cfg cipher u)"
  unfolding mfaEnroll_def
  by (intro session_progress progress_cases progress_bind confirmEnroll_steady steady_return)

lemma verify_round_progress: "progress isl (verify_round cfg u secret msg)"
  unfolding verify_round_def
proof (rule progress_catch_use[OF mfa_screens_consume(2)], goal_cases)
  case (1 e)
  then show ?case by (auto intro!: session_progress progress_leave)
next
  case (2 r)
  show ?case
    by (cases r) (auto split: prod.split sum.split option.split intro!: session_progress steady_leave steady_again)
qed

lemma mfaGate_steady: "steady (mfaGate cfg ident)"
  unfolding mfaGate_def mfaVerify_def
  by (intro progress_cases session_progress steady_return mfaEnroll_steady steady_loop verify_round_progress)

lemma maybeShowNews_steady: "steady (maybeShowNews cfg tm ident)"
  unfolding maybeShowNews_def Let_def
  by (intro progress_eff world_progress progress_cases steady_return progress_catch_steady[OF p_News_steady])
    (auto intro!: session_progress steady_return)

lemma change_submit_script: "script_kept (change_submit cfg ident vals)"
  unfolding change_submit_def Let_def
  by (intro flow_scripts session_scripts reject_scripts guard_scripts)

lemma step_up_script: "script_kept (step_up_submit cfg n ok vals)"
  unfolding step_up_submit_def by (intro flow_scripts session_scripts reject_scripts)

lemma stepUp_steady: "steady (stepUpPassword cfg n intro)"
  unfolding stepUpPassword_def by (rule RunForm_steady) (simp add: step_up_form_def progress_lift step_up_script)

lemma changePassword_steady: "steady (changePassword cfg ident)"
  unfolding changePassword_def
  by (intro progress_bind RunForm_steady steady_return)
    (simp add: change_form_def progress_lift script_kept_bind change_submit_script world_progress)

lemma selfMFA_steady: "steady (selfMFAEnroll cfg cipher u)" "steady (selfMFADisable cfg u)"
proof -
  show "steady (selfMFADisable cfg u)"
    unfolding selfMFADisable_def
    by (intro progress_cases progress_bind stepUp_steady session_progress steady_return progress_fail) simp
  have confirm: "outcome (\<lambda>_. True) (\<lambda>r. \<forall>d e. r = Inl (d, e) \<longrightarrow> e \<noteq> IoFuel) (confirmEnroll cfg cipher u secret)" for secret
    unfolding confirmEnroll_def enroll_round_def
    by (intro outcome_rules outcome_fail) auto
  show "steady (selfMFAEnroll cfg cipher u)"
    unfolding selfMFAEnroll_def
    by (intro progress_bind[OF stepUp_steady] progress_cases session_progress steady_return progress_fail
        progress_bind_outcome[OF confirmEnroll_steady confirm]) auto
qed

lemma userSettings_steady: "steady (userSettings cfg ident)"
proof -
  have a: "steady (run_action cfg ident u a)" for u a
    unfolding run_action_def
    by (cases a) (auto split: option.split intro!: changePassword_steady selfMFA_steady progress_fail)
  show ?thesis
    unfolding userSettings_def settings_round_def Let_def
    by (intro steady_loop session_progress progress_cases progress_bind_use[OF p_UserSettings_consumes] progress_fail
        steady_leave steady_again progress_bind a) simp
qed

lemma flow_error_steady: "e \<noteq> IoFuel \<Longrightarrow> progress isl (flow_error cfg ident d e)"
  unfolding flow_error_def by (auto intro!: session_progress progress_leave)

lemma bridge_script: "script_len (snd (run_state (p_Bridge cfg svc ty) w)) \<le> script_len w"
  by (auto simp: p_Bridge_def emit_def Let_def split: if_splits list.splits session_event.splits)

lemma bridge_service_steady: "steady (bridge_service cfg tm ident svc)"
  unfolding bridge_service_def
  by (intro session_progress progress_eff_le[OF bridge_script] progress_cases steady_leave steady_again)

lemma menu_round_progress: "progress isl (menu_round cfg tm ident admin locked msg)"
  unfolding menu_round_def Let_def
proof (rule progress_eff[OF script_kept_stm], rule progress_eff[OF session_scripts(7)],
    rule progress_catch_use[OF p_Menu_consumes[OF session_scripts(9)]], goal_cases)
  case (1 l sid e)
  then show ?case by (simp add: flow_error_steady)
next
  case (2 l sid choice)
  have "steady (flow_error cfg ident d e)" if "e \<noteq> IoFuel" for d e
    using that unfolding flow_error_def by (auto intro!: session_progress steady_leave)
  then show ?case
    by (cases choice)
      (auto intro!: session_progress steady_leave steady_again bridge_service_steady
        progress_catch_steady[OF adminFlow_steady] progress_catch_steady[OF userSettings_steady])
qed

lemma run_menu_steady: "steady (run_menu cfg tm ident)"
  unfolding run_menu_def by (intro session_progress steady_loop menu_round_progress)

lemma session_round_progress: "progress isl (session_round cfg tm x)"
  unfolding session_round_def
  by (intro session_progress progress_bind_cond[OF doLogin_progress])
    (auto split: sum.split option.split menu_exit.split
      intro!: session_progress steady_leave steady_again progress_leave progress_bind mfaGate_steady maybeShowNews_steady run_menu_steady)

lemma session_body_steady: "steady (session_body cfg)"
  unfolding session_body_def
  by (rule progress_catch_steady[OF consumes_steady[OF Negotiate_consumes]])
    (auto intro!: steady_return steady_loop session_round_progress)

lemma session_Run_steady: "steady (session_Run cfg)"
  unfolding session_Run_def
  by (intro session_progress progress_bind session_body_steady progress_prod steady_return)

section \<open>Every failure is mapped\<close>

lemma doLogin_handled: "handled (doLogin cfg)"
  unfolding doLogin_def login_round_def
  by (intro outcome_rules) (auto split: prod.split sum.split option.split intro!: outcome_rules outcome_fail)

lemma confirmEnroll_handled: "handled (confirmEnroll cfg cipher u secret)"
  unfolding confirmEnroll_def enroll_round_def
  by (intro outcome_rules) (auto split: prod.split sum.split option.split intro!: outcome_rules outcome_fail)

lemma mfaGate_handled: "handled (mfaGate cfg ident)"
proof -
  have "handled (mfaVerify cfg cipher u)" for cipher u
    unfolding mfaVerify_def verify_round_def
    by (intro outcome_rules) (auto split: prod.split sum.split option.split intro!: outcome_rules outcome_fail)
  moreover have "handled (mfaEnroll cfg cipher u)" for cipher u
    unfolding mfaEnroll_def by (intro outcome_rules outcome_bind[OF confirmEnroll_handled]) simp_all
  ultimately show ?thesis unfolding mfaGate_def by (auto split: option.split sum.split intro!: outcome_rules)
qed

lemma maybeShowNews_handled: "handled (maybeShowNews cfg tm ident)"
  unfolding maybeShowNews_def Let_def
  by (intro outcome_rules outcome_fail) auto

lemma run_menu_handled: "handled (run_menu cfg tm ident)"
proof -
  have err: "handled (flow_error cfg ident d e)" for d e
    unfolding flow_error_def by (auto intro!: outcome_rules outcome_fail)
  show ?thesis
    unfolding run_menu_def menu_round_def bridge_service_def Let_def
    by (intro outcome_rules) (auto split: sum.split menu_choice.split intro!: outcome_rules err)
qed

lemma session_body_handled: "handled (session_body cfg)"
proof -
  have ex: "handled (case x of Logoff \<Rightarrow> again () | EndSession d \<Rightarrow> leave (n, d))" for x n and d :: string
    by (cases x) (auto intro: outcome_rules)
  have "handled (session_round cfg tm x)" for tm x
    unfolding session_round_def
    by (intro outcome_eff outcome_bind[OF doLogin_handled])
      (auto split: sum.split option.split
        intro!: ex outcome_rules outcome_bind[OF mfaGate_handled] outcome_bind[OF maybeShowNews_handled] outcome_bind[OF run_menu_handled])
  then show ?thesis
    unfolding session_body_def by (auto split: sum.split intro!: outcome_rules outcome_fail)
qed

lemma session_Run_handled: "handled (session_Run cfg)"
  unfolding session_Run_def by (intro outcome_eff outcome_bind[OF session_body_handled] outcome_prod outcome_return) simp

lemma steady_handled: "steady m \<Longrightarrow> handled m \<Longrightarrow> \<exists>y. fst (run_state m w) = Inr y"
proof -
  assume m: "steady m" "handled m"
  obtain r w' where r: "run_state m w = (r, w')" by fastforce
  show ?thesis using progressD(2)[OF m(1) r] outcomeD[OF m(2) r] r by (cases r) auto
qed

end
