(* ===== verification/Traces.thy ===== *)
theory Traces
  imports Session_Facts
begin

text \<open>
  What each part of the session can write to the log: the administrator's screens, self-service,
  the gates between login and menu. One interpretation of the driver contracts per screen, with
  the log condition as the invariant.
\<close>

section \<open>Classes of observations\<close>

definition plain_kind :: "string \<Rightarrow> bool" where
  "plain_kind k \<longleftrightarrow> k \<notin> {AuditConnect, AuditDisconnect, AuditAuthOK, AuditLogout, AuditBridgeStart, AuditBridgeEnd}"

text \<open>What a flow entered from the menu may write besides its screens.\<close>

fun flow_ob :: "(view \<Rightarrow> bool) \<Rightarrow> observation \<Rightarrow> bool" where
  "flow_ob vs (OView v) = vs v"
| "flow_ob vs (OAudit ev) = plain_kind (ae_Kind ev)"
| "flow_ob vs (OBridge _ _) = False"
| "flow_ob vs _ = True"

fun admin_view :: "view \<Rightarrow> bool" where
  "admin_view (VAdminMenu _) = True"
| "admin_view (VList _) = True"
| "admin_view (VForm _) = True"
| "admin_view (VSnapshot _) = True"
| "admin_view (VDetail _) = True"
| "admin_view (VEditor _) = True"
| "admin_view _ = False"

fun self_view :: "view \<Rightarrow> bool" where
  "self_view (VUserSettings _ _ _) = True"
| "self_view (VForm _) = True"
| "self_view (VEnroll _ _ _ _) = True"
| "self_view _ = False"

fun gate_view :: "view \<Rightarrow> bool" where
  "gate_view (VEnroll _ _ _ _) = True"
| "gate_view (VVerify _) = True"
| "gate_view (VNews _) = True"
| "gate_view _ = False"

lemma plain_kinds [simp]:
  "plain_kind AuditAdmin" "plain_kind AuditMFAEnrolled" "plain_kind AuditMFASuccess" "plain_kind AuditMFAFailed"
  "plain_kind AuditMFACleared" "plain_kind AuditMFAEnforced" "plain_kind AuditPasswordSelf" "plain_kind AuditSettingsLocked"
  "plain_kind AuditSettingsUnlocked" "plain_kind AuditSessionDisconnect" "plain_kind AuditDocUpdate" "plain_kind AuditDocImport"
  "plain_kind AuditAuthFail" "plain_kind AuditAuthError"
  by code_simp+

lemma ae_Kind_of [simp]: "ae_Kind (audit_event_of k) = k" by (simp add: audit_event_of_def)

section \<open>The administrator\<close>

abbreviation admin_log :: "observation list \<Rightarrow> world \<Rightarrow> bool" where
  "admin_log pre \<equiv> log_after pre (flow_ob admin_view)"

lemma flow_records:
  "keeps (log_after pre (flow_ob vs)) (recordAdmin cfg t)"
  "plain_kind k \<Longrightarrow> keeps (log_after pre (flow_ob vs)) (flow_record cfg k t)"
  "plain_kind k \<Longrightarrow> keeps (log_after pre (flow_ob vs)) (record_subject cfg k t)"
  "plain_kind k \<Longrightarrow> keeps (log_after pre (flow_ob vs)) (record_user cfg k n t)"
  unfolding recordAdmin_def flow_record_def record_subject_def record_user_def
  by (intro keeps_log_audit; simp)+

lemma flow_commit:
  "keeps (log_after pre p) audit \<Longrightarrow> keeps (log_after pre p) (commit_then cfg op m audit)"
  unfolding commit_then_def by (intro keeps_log)

lemmas flow_log = keeps_log flow_records flow_commit unless_keeps no_message_keeps

lemma admin_screens: "keeps (admin_log pre) (handleScreen cfg (VList lv) ks)" "keeps (admin_log pre) (handleScreen cfg (VForm fv) ks)"
  "keeps (admin_log pre) (handleScreen cfg (VSnapshot sv) ks)" "keeps (admin_log pre) (handleScreen cfg (VDetail dv) ks)"
  "keeps (admin_log pre) (handleScreen cfg (VEditor ev) ks)" "keeps (admin_log pre) (handleScreen cfg (VAdminMenu m) ks)"
  by (intro keeps_log_screen; simp)+

lemma admin_fetches:
  "keeps (log_after pre p) (userGroups_fetch u)" "keeps (log_after pre p) (serviceGroups_fetch svc)"
  "keeps (log_after pre p) groups_fetch" "keeps (log_after pre p) fetchUsers" "keeps (log_after pre p) (groupMembers_fetch g)"
  "keeps (log_after pre p) services_fetch" "keeps (log_after pre p) networks_fetch" "keeps (log_after pre p) documents_fetch"
  "keeps (log_after pre p) (audit_fetch n)" "keeps (log_after pre p) (sessions_fetch cfg)"
  "keeps (log_after pre p) system_fields" "keeps (log_after pre p) auditCap" "keeps (log_after pre p) (ptr_fields cfg a)"
  unfolding userGroups_fetch_def serviceGroups_fetch_def groups_fetch_def fetchUsers_def groupMembers_fetch_def
    services_fetch_def networks_fetch_def documents_fetch_def audit_fetch_def sessions_fetch_def sessions_snapshot_def
    system_fields_def auditCap_def ptr_fields_def auditReverseDNS_def Let_def
  by (intro keeps_log)+

lemma admin_guards:
  "keeps (log_after pre p) (groupIDByName n)" "keeps (log_after pre p) guardLastAdmin"
  "keeps (log_after pre p) (hash_password cfg pw)" "keeps (log_after pre p) (checkServiceNameFree n ex)"
  unfolding guardLastAdmin_def groupIDByName_def hash_password_def checkServiceNameFree_def by (intro keeps_log)+

lemma admin_commits:
  "keeps (log_after pre (flow_ob vs)) (deleteUser cfg fl u)" "keeps (log_after pre (flow_ob vs)) (remove_member cfg fl u g d)"
  "keeps (log_after pre (flow_ob vs)) (userCreate cfg vals n e)" "keeps (log_after pre (flow_ob vs)) (userSaveEdit cfg u vals n e)"
  unfolding deleteUser_def remove_member_def userCreate_def userSaveEdit_def applyMFAEdit_def applyLockEdit_def Let_def
  by (intro flow_log admin_guards; simp)+

lemma persist_log: "keeps (log_after pre (flow_ob vs)) (persist_all cfg es i ffs)"
proof (induction es arbitrary: i ffs)
  case (Cons e es)
  then show ?case by (cases e) (auto simp: Let_def intro!: flow_log)
qed (auto intro: flow_log)

lemma admin_submits:
  "keeps (log_after pre (flow_ob vs)) (userEdit_submit cfg target ffs vals)"
  "keeps (log_after pre (flow_ob vs)) (groupAdd_submit cfg ffs vals)"
  "keeps (log_after pre (flow_ob vs)) (serviceForm_submit cfg existing ffs vals)"
  "keeps (log_after pre (flow_ob vs)) (networkForm_submit cfg net ffs vals)"
  "keeps (log_after pre (flow_ob vs)) (system_submit cfg ffs vals)"
  unfolding userEdit_submit_def groupAdd_submit_def serviceForm_submit_def networkForm_submit_def system_submit_def Let_def
  by (intro flow_log admin_guards admin_commits persist_log; simp)+

lemma document_commits:
  "keeps (log_after pre (flow_ob vs)) (document_save cfg fl d saved ls)"
  "keeps (log_after pre (flow_ob vs)) (import_submit cfg fl d st vals)"
  unfolding document_save_def import_submit_def Let_def
  by (intro flow_log; auto split: store_error.split intro!: flow_log)+

interpretation user_form_log: form_flow cfg "userEdit_form cfg target" "admin_log pre" for cfg target pre
  by unfold_locales (auto simp: userEdit_form_def intro!: admin_screens flow_log admin_submits)

interpretation group_form_log: form_flow cfg "groupAdd_form cfg" "admin_log pre" for cfg pre
  by unfold_locales (auto simp: groupAdd_form_def intro!: admin_screens flow_log admin_submits)

interpretation service_form_log: form_flow cfg "serviceForm_form cfg existing" "admin_log pre" for cfg existing pre
  by unfold_locales (auto simp: serviceForm_form_def intro!: admin_screens flow_log admin_submits)

interpretation network_form_log: form_flow cfg "networkForm_form cfg net" "admin_log pre" for cfg net pre
  by unfold_locales (auto simp: networkForm_form_def intro!: admin_screens flow_log admin_submits)

interpretation system_form_log: form_flow cfg "system_form cfg" "admin_log pre" for cfg pre
  by unfold_locales (auto simp: system_form_def intro!: admin_screens flow_log admin_submits)

interpretation import_form_log: form_flow cfg "import_form cfg fl d" "admin_log pre" for cfg fl d pre
  by unfold_locales (auto simp: import_form_def intro!: admin_screens flow_log document_commits)

lemma list_logI:
  assumes "keeps (admin_log pre) (lc_Fetch lc)" "list_all (\<lambda>cmd. \<forall>x. keeps (admin_log pre) (cm_Commit cmd x)) (lc_Cmds lc)"
    "\<And>m. lc_Add lc = Some m \<Longrightarrow> keeps (admin_log pre) m"
  shows "list_flow cfg lc (admin_log pre) (\<lambda>_. True)"
  using assms by unfold_locales (auto simp: list_all_iff intro: admin_screens)

interpretation user_groups_log: list_flow cfg "userGroups_list cfg fl u" "admin_log pre" "\<lambda>_. True" for cfg fl u pre
  by (rule list_logI) (auto simp: userGroups_list_def intro!: admin_fetches flow_log admin_commits)

interpretation service_groups_log: list_flow cfg "serviceGroups_list cfg fl svc" "admin_log pre" "\<lambda>_. True" for cfg fl svc pre
  by (rule list_logI) (auto simp: serviceGroups_list_def intro!: admin_fetches flow_log)

interpretation group_members_log: list_flow cfg "groupMembers_list cfg fl g" "admin_log pre" "\<lambda>_. True" for cfg fl g pre
  by (rule list_logI) (auto simp: groupMembers_list_def intro!: admin_fetches flow_log admin_commits)

interpretation users_log: list_flow cfg "users_list cfg fl" "admin_log pre" "\<lambda>_. True" for cfg fl pre
  by (rule list_logI)
    (auto simp: users_list_def userEdit_def userGroups_def
      intro!: admin_fetches flow_log admin_commits user_form_log.RunForm_keeps user_groups_log.RunList_keeps)

interpretation groups_log: list_flow cfg "groups_list cfg fl" "admin_log pre" "\<lambda>_. True" for cfg fl pre
  by (rule list_logI)
    (auto simp: groups_list_def groupAdd_def groupMembers_def
      intro!: admin_fetches flow_log group_form_log.RunForm_keeps group_members_log.RunList_keeps)

interpretation services_log: list_flow cfg "services_list cfg fl" "admin_log pre" "\<lambda>_. True" for cfg fl pre
  by (rule list_logI)
    (auto simp: services_list_def serviceForm_def serviceGroups_def
      intro!: admin_fetches flow_log service_form_log.RunForm_keeps service_groups_log.RunList_keeps)

interpretation networks_log: list_flow cfg "networks_list cfg fl" "admin_log pre" "\<lambda>_. True" for cfg fl pre
  by (rule list_logI)
    (auto simp: networks_list_def networkForm_def intro!: admin_fetches flow_log network_form_log.RunForm_keeps)

lemma document_log: "keeps (admin_log pre) (documentEditor cfg fl d)" "keeps (admin_log pre) (documentImport cfg fl d)"
  unfolding documentEditor_def documentImport_def Let_def
  by (auto intro!: RunEditor_keeps admin_screens flow_log document_commits import_form_log.RunForm_keeps)

interpretation documents_log: list_flow cfg "documents_list cfg fl" "admin_log pre" "\<lambda>_. True" for cfg fl pre
  by (rule list_logI) (auto simp: documents_list_def intro!: admin_fetches document_log)

lemma details_log: "keeps (log_after pre p) (auditDetail cfg ev)" "keeps (log_after pre p) (sessionDetail cfg v)"
  unfolding auditDetail_def sessionDetail_def Let_def by (intro keeps_log admin_fetches)+

lemma session_act_log: "keeps (log_after pre (flow_ob vs)) (session_act cfg v)"
  unfolding session_act_def sessions_disconnect_def by (intro flow_log keeps_log_audit) simp

interpretation audit_viewer_log: snapshot_flow cfg "audit_list cfg fl n" "admin_log pre" for cfg fl n pre
  by unfold_locales
    (auto simp: audit_list_def intro!: admin_screens admin_fetches flow_log details_log renderer_keeps)

interpretation session_viewer_log: snapshot_flow cfg "sessions_list cfg fl" "admin_log pre" for cfg fl pre
  by unfold_locales
    (auto simp: sessions_list_def session_select_def
      intro!: admin_screens admin_fetches flow_log details_log session_act_log RunDetail_keeps)

lemma adminFlow_log: "adds (flow_ob admin_view) (adminFlow_Run cfg fl)"
proof (rule addsI)
  fix pre
  have "keeps (admin_log pre) (admin_choice cfg fl n)" for n
    unfolding admin_choice_def admin_users_def admin_groups_def admin_services_def systemParams_def
      admin_networks_def auditLog_def activeSessions_def admin_documents_def
    by (intro keeps_log admin_fetches users_log.RunList_keeps groups_log.RunList_keeps services_log.RunList_keeps
        networks_log.RunList_keeps documents_log.RunList_keeps system_form_log.RunForm_keeps
        audit_viewer_log.RunSnapshotList_keeps session_viewer_log.RunSnapshotList_keeps)
  then show "keeps (admin_log pre) (adminFlow_Run cfg fl)"
    unfolding adminFlow_Run_def AdminMenu_def by (intro keeps_log admin_screens)
qed

section \<open>Self-service\<close>

lemma session_effects_log:
  "keeps (log_after pre p) (reg_update g)" "keeps (log_after pre p) (regSetLogin cfg n)" "keeps (log_after pre p) (regClearLogin cfg)"
  "keeps (log_after pre p) (regSetService cfg n)" "keeps (log_after pre p) (regClearService cfg)" "keeps (log_after pre p) mfaIssuer"
  "keeps (log_after pre p) systemID" "keeps (log_after pre p) loginBranding" "keeps (log_after pre p) helpMenuLines"
  "keeps (log_after pre p) (arm_pre_auth cfg)" "keeps (log_after pre p) (arm_post_auth cfg)" "keeps (log_after pre p) (arm_bridge cfg)"
  "keeps (log_after pre p) (fail_delay n)" "keeps (log_after pre p) (throttle_reset n)" "keeps (log_after pre p) (authenticate cfg n pw)"
  "keeps (log_after pre p) (generateSecret cfg i n)" "keeps (log_after pre p) (settings_locked ident)"
proof -
  have "keeps (log_after pre p) (regime f)" for f by (rule keeps_log_eff) (simp add: regime_def)
  note r = keeps_log this
  show "keeps (log_after pre p) (reg_update g)" "keeps (log_after pre p) (regSetLogin cfg n)" "keeps (log_after pre p) (regClearLogin cfg)"
    "keeps (log_after pre p) (regSetService cfg n)" "keeps (log_after pre p) (regClearService cfg)" "keeps (log_after pre p) mfaIssuer"
    "keeps (log_after pre p) systemID" "keeps (log_after pre p) loginBranding" "keeps (log_after pre p) helpMenuLines"
    "keeps (log_after pre p) (arm_pre_auth cfg)" "keeps (log_after pre p) (arm_post_auth cfg)" "keeps (log_after pre p) (arm_bridge cfg)"
    "keeps (log_after pre p) (fail_delay n)" "keeps (log_after pre p) (throttle_reset n)" "keeps (log_after pre p) (authenticate cfg n pw)"
    "keeps (log_after pre p) (generateSecret cfg i n)" "keeps (log_after pre p) (settings_locked ident)"
    unfolding reg_update_def regSetLogin_def regClearLogin_def regSetService_def regClearService_def mfaIssuer_def
      systemID_def config_or_def loginBranding_def helpMenuLines_def arm_pre_auth_def arm_post_auth_def arm_bridge_def
      fail_delay_def throttle_reset_def authenticate_def generateSecret_def settings_locked_def Let_def
    by (intro r)+
qed

lemma reject_log: "keeps (log_after pre (flow_ob vs)) (reject cfg n)" "keeps (log_after pre (flow_ob vs)) (reject_code cfg n c)"
  unfolding reject_def reject_code_def logAuthFailure_def
  by (intro flow_log session_effects_log keeps_log_emit keeps_log_sleep; simp)+

lemmas self_log = flow_log session_effects_log reject_log

lemma confirmEnroll_log:
  assumes "\<And>i a c m. vs (VEnroll i a c m)"
  shows "keeps (log_after pre (flow_ob vs)) (confirmEnroll cfg cipher u secret)"
  unfolding confirmEnroll_def enroll_round_def p_EnrollMFA_def
  by (intro self_log keeps_log_screen; simp add: assms)

lemma step_up_log: "keeps (log_after pre (flow_ob self_view)) (stepUpPassword cfg n intro)"
proof -
  have "form_flow cfg (step_up_form cfg n intro) (log_after pre (flow_ob self_view))"
    by unfold_locales
      (auto simp: step_up_form_def step_up_submit_def intro!: keeps_log_screen self_log)
  then show ?thesis unfolding stepUpPassword_def by (rule form_flow.RunForm_keeps)
qed

lemma change_log: "keeps (log_after pre (flow_ob self_view)) (changePassword cfg ident)"
proof -
  have "keeps (log_after pre (flow_ob self_view)) (change_submit cfg ident vals)" for vals
    unfolding change_submit_def Let_def by (intro self_log admin_guards; simp)
  then have "form_flow cfg (change_form cfg ident) (log_after pre (flow_ob self_view))"
    by unfold_locales (auto simp: change_form_def intro!: keeps_log_screen self_log)
  then show ?thesis unfolding changePassword_def by (intro self_log form_flow.RunForm_keeps)
qed

lemma userSettings_log: "adds (flow_ob self_view) (userSettings cfg ident)"
proof (rule addsI)
  fix pre
  have "keeps (log_after pre (flow_ob self_view)) (selfMFAEnroll cfg cipher u)" for cipher u
    unfolding selfMFAEnroll_def by (intro self_log step_up_log confirmEnroll_log) simp
  moreover have "keeps (log_after pre (flow_ob self_view)) (selfMFADisable cfg u)" for u
    unfolding selfMFADisable_def by (intro self_log step_up_log) simp
  ultimately have "keeps (log_after pre (flow_ob self_view)) (run_action cfg ident u a)" for u a
    unfolding run_action_def by (cases a) (auto split: option.split intro!: change_log self_log)
  then show "keeps (log_after pre (flow_ob self_view)) (userSettings cfg ident)"
    unfolding userSettings_def settings_round_def p_UserSettings_def Let_def
    by (intro self_log keeps_log_screen; simp)
qed

end
