(* ===== verification/Protocol.thy ===== *)
theory Protocol
  imports Traces
begin

text \<open>
  The protocol a terminal observes, as an automaton over what a session writes: one connect record
  first and one disconnect record last; nothing but the login screen before a successful
  authentication; administrator screens only below a menu that offers them, self-service only
  below a menu that is not locked; a backend dialled only between the bridge's records and only
  for a service of the menu on the screen. Each part of the session is a triple over the
  automaton's phase.
\<close>

datatype phase =
    Opening
  | AtLogin
  | Gate string                                    \<comment> \<open>authenticated, not yet at the menu\<close>
  | InMenu string bool bool "service list"         \<comment> \<open>user, administrator, locked, services shown\<close>
  | Dialling string bool bool "service list" string
  | Bridged string bool bool "service list" string
  | Closed

fun view_step :: "phase \<Rightarrow> view \<Rightarrow> phase option" where
  "view_step AtLogin (VLogin _ _ _) = Some AtLogin"
| "view_step (Gate _) (VLogin _ _ _) = Some AtLogin"
| "view_step (Gate u) (VMenu svcs admin locked st _ _) = (if ms_Username st = u then Some (InMenu u admin locked svcs) else None)"
| "view_step (Gate u) v = (if gate_view v then Some (Gate u) else None)"
| "view_step (InMenu u a l _) (VMenu svcs admin locked st _ _) =
     (if ms_Username st = u \<and> admin = a \<and> locked = l then Some (InMenu u a l svcs) else None)"
| "view_step (InMenu u a l svcs) (VHelp _ _ _) = Some (InMenu u a l svcs)"
| "view_step (InMenu u a l svcs) v =
     (if a \<and> admin_view v \<or> \<not> l \<and> self_view v then Some (InMenu u a l svcs) else None)"
| "view_step _ _ = None"

fun who :: "phase \<Rightarrow> string" where
  "who (Gate u) = u"
| "who (InMenu u _ _ _) = u"
| "who (Dialling u _ _ _ _) = u"
| "who (Bridged u _ _ _ _) = u"
| "who _ = []"

fun settled :: "phase \<Rightarrow> bool" where \<comment> \<open>neither before, after, nor in a bridge\<close>
  "settled AtLogin = True"
| "settled (Gate _) = True"
| "settled (InMenu _ _ _ _) = True"
| "settled _ = False"

definition audit_step :: "phase \<Rightarrow> audit_event \<Rightarrow> phase option" where
  "audit_step ph ev =
     (let k = ae_Kind ev in
      if k = AuditConnect then (if ph = Opening then Some AtLogin else None)
      else if k = AuditBridgeEnd then (case ph of
        Bridged u a l svcs name \<Rightarrow> if ae_Username ev = u \<and> ae_Service ev = name then Some (InMenu u a l svcs) else None | _ \<Rightarrow> None)
      else if \<not> settled ph then None
      else if k = AuditDisconnect then (if ae_Username ev = who ph then Some Closed else None)
      else if k = AuditAuthOK then (if ph = AtLogin then Some (Gate (ae_Username ev)) else None)
      else if k = AuditLogout then (if ph \<noteq> AtLogin \<and> nocase (ae_Username ev) (who ph) then Some AtLogin else None)
      else if k = AuditBridgeStart then (case ph of
        InMenu u a l svcs \<Rightarrow> if ae_Username ev = u \<and> ae_Service ev \<in> set (map s_Name svcs)
                             then Some (Dialling u a l svcs (ae_Service ev)) else None | _ \<Rightarrow> None)
      else Some ph)"

fun dial_step :: "phase \<Rightarrow> service \<Rightarrow> phase option" where
  "dial_step (Dialling u a l svcs name) svc = (if svc \<in> set svcs \<and> s_Name svc = name then Some (Bridged u a l svcs name) else None)"
| "dial_step _ _ = None"

fun protocol_step :: "phase \<Rightarrow> observation \<Rightarrow> phase option" where
  "protocol_step ph (OView v) = view_step ph v"
| "protocol_step ph (OAudit ev) = audit_step ph ev"
| "protocol_step ph (OBridge svc _) = dial_step ph svc"
| "protocol_step ph _ = (if settled ph then Some ph else None)"

fun protocol :: "phase \<Rightarrow> observation list \<Rightarrow> phase option" where
  "protocol ph [] = Some ph"
| "protocol ph (ob # obs) = (case protocol_step ph ob of None \<Rightarrow> None | Some ph' \<Rightarrow> protocol ph' obs)"

lemma protocol_append: "protocol ph (xs @ ys) = (case protocol ph xs of None \<Rightarrow> None | Some ph' \<Rightarrow> protocol ph' ys)"
  by (induction xs arbitrary: ph) (auto split: option.split)

lemma protocol_stays: "list_all p obs \<Longrightarrow> (\<And>ob. p ob \<Longrightarrow> protocol_step ph ob = Some ph) \<Longrightarrow> protocol ph obs = Some ph"
  by (induction obs) auto

lemma plain_step: "plain_kind (ae_Kind ev) \<Longrightarrow> settled ph \<Longrightarrow> audit_step ph ev = Some ph"
  by (simp add: plain_kind_def audit_step_def)

text \<open>What an entered flow writes keeps the phase, given its screens do.\<close>

lemma flow_step: "settled ph \<Longrightarrow> (\<And>v. vs v \<Longrightarrow> view_step ph v = Some ph) \<Longrightarrow> flow_ob vs ob \<Longrightarrow> protocol_step ph ob = Some ph"
  by (cases ob) (auto simp: plain_step)

lemma admin_step: "admin_view v \<Longrightarrow> view_step (InMenu u True l svcs) v = Some (InMenu u True l svcs)"
  by (cases v) auto

lemma self_step: "self_view v \<Longrightarrow> view_step (InMenu u a False svcs) v = Some (InMenu u a False svcs)"
  by (cases v) auto

lemma gate_step: "gate_view v \<Longrightarrow> view_step (Gate u) v = Some (Gate u)"
  by (cases v) auto

section \<open>Phases as assertions\<close>

definition at_phase :: "observation list \<Rightarrow> (phase \<Rightarrow> bool) \<Rightarrow> world \<Rightarrow> bool" where
  "at_phase pre S w \<longleftrightarrow> (\<exists>obs ph. w_log w = pre @ obs \<and> protocol Opening obs = Some ph \<and> S ph)"

lemma at_phase_mono: "at_phase pre S w \<Longrightarrow> (\<And>ph. S ph \<Longrightarrow> T ph) \<Longrightarrow> at_phase pre T w"
  unfolding at_phase_def by blast

lemma at_phase_or: "at_phase pre (\<lambda>ph. S ph \<or> T ph) w \<longleftrightarrow> at_phase pre S w \<or> at_phase pre T w"
  unfolding at_phase_def by blast

text \<open>Observations that keep every phase of \<open>S\<close>.\<close>

lemma phase_adds:
  assumes "adds p m" "\<And>ph ob. S ph \<Longrightarrow> p ob \<Longrightarrow> protocol_step ph ob = Some ph"
  shows "keeps (at_phase pre S) m"
proof (rule hoareI)
  fix w r w' assume "at_phase pre S w" and m: "run_state m w = (r, w')"
  then obtain obs0 ph where o: "w_log w = pre @ obs0" "protocol Opening obs0 = Some ph" "S ph" by (auto simp: at_phase_def)
  obtain obs where n: "w_log w' = w_log w @ obs" "list_all p obs" using addsD[OF assms(1) m] .
  from protocol_stays[OF n(2) assms(2)[OF o(3)]] o n(1)
  have "w_log w' = pre @ (obs0 @ obs)" "protocol Opening (obs0 @ obs) = Some ph"
    by (simp_all add: protocol_append)
  with o(3) show "at_phase pre S w'" unfolding at_phase_def by blast
qed

lemma phase_emit:
  "(\<And>ph. S ph \<Longrightarrow> \<exists>ph'. protocol_step ph ob = Some ph' \<and> T ph') \<Longrightarrow> hoare (at_phase pre S) (emit ob) (\<lambda>_. at_phase pre T)"
  unfolding hoare_def emit_def at_phase_def by (fastforce simp: protocol_append)

lemma silent_phase: "adds (\<lambda>_. False) m \<Longrightarrow> keeps (at_phase pre S) m"
  by (erule phase_adds) simp

lemma silent_ops:
  "keeps (at_phase pre S) (stm m)" "keeps (at_phase pre S) (setActor n)" "keeps (at_phase pre S) clock"
  "keeps (at_phase pre S) draw" "keeps (at_phase pre S) (await cfg)"
  by (rule silent_phase, rule addsI, rule keeps_log_ops)+

lemma silent_session:
  "keeps (at_phase pre S) (reg_update g)" "keeps (at_phase pre S) (regSetLogin cfg n)" "keeps (at_phase pre S) (regClearLogin cfg)"
  "keeps (at_phase pre S) (regSetService cfg n)" "keeps (at_phase pre S) (regClearService cfg)" "keeps (at_phase pre S) mfaIssuer"
  "keeps (at_phase pre S) systemID" "keeps (at_phase pre S) loginBranding" "keeps (at_phase pre S) helpMenuLines"
  "keeps (at_phase pre S) (arm_pre_auth cfg)" "keeps (at_phase pre S) (arm_post_auth cfg)" "keeps (at_phase pre S) (arm_bridge cfg)"
  "keeps (at_phase pre S) (fail_delay n)" "keeps (at_phase pre S) (throttle_reset n)" "keeps (at_phase pre S) (authenticate cfg n pw)"
  "keeps (at_phase pre S) (generateSecret cfg i n)" "keeps (at_phase pre S) (settings_locked ident)"
  by (rule silent_phase, rule addsI, rule session_effects_log)+

text \<open>An audit record moves the automaton.\<close>

lemma phase_record:
  assumes "st_Auditor cfg"
    "\<And>ph ev'. S ph \<Longrightarrow> ae_Kind ev' = ae_Kind ev \<Longrightarrow> ae_Username ev' = ae_Username ev \<Longrightarrow> ae_Service ev' = ae_Service ev \<Longrightarrow>
       \<exists>ph'. audit_step ph ev' = Some ph' \<and> T ph'"
  shows "hoare (at_phase pre S) (audit_record cfg ev) (\<lambda>_. at_phase pre T)"
proof -
  have "hoare (at_phase pre S) (emit (OAudit ev')) (\<lambda>_. at_phase pre T)"
    if "ae_Kind ev' = ae_Kind ev" "ae_Username ev' = ae_Username ev" "ae_Service ev' = ae_Service ev" for ev'
    by (rule phase_emit) (use assms(2) that in simp)
  then show ?thesis using assms(1)
    unfolding audit_record_def auditor_Record_def Let_def
    by (auto intro!: hoare_bind[OF keeps_gets] hoare_bind[OF silent_ops(3)] hoare_bind[OF silent_ops(1)])
qed

text \<open>A screen is always shown before its outcome is known.\<close>

lemma loop_enters:
  assumes "hoare P (body x) (\<lambda>_. I)" "\<And>x. keeps I (body x)"
  shows "hoare P (io_loop body x) (\<lambda>_. I)"
proof -
  have k: "hoare I (case r of Inl x' \<Rightarrow> loop_with n body x' | Inr y \<Rightarrow> io_return y) (\<lambda>_. I)" for r n
    using keeps_loop_with[OF assms(2)] by (auto split: sum.split intro: keeps_io_return)
  have l: "hoare P (loop_with (Suc n) body x) (\<lambda>_. I)" for n
    unfolding loop_with.simps by (rule hoare_try_bind[OF assms(1)]) (assumption, rule k)
  show ?thesis
  proof (rule hoareI)
    fix s a s' assume s: "P s" "run_state (io_loop body x) s = (a, s')"
    then have "run_state (loop_with (Suc (length (w_script s))) body x) s = (a, s')"
      by (simp add: io_loop_def del: loop_with.simps)
    then show "I s'" by (rule hoareD[OF l s(1)])
  qed
qed

lemma phase_screen:
  assumes "\<And>ph. S ph \<Longrightarrow> \<exists>ph'. view_step ph v = Some ph' \<and> T ph'" "\<And>ph. T ph \<Longrightarrow> view_step ph v = Some ph"
  shows "hoare (at_phase pre S) (handleScreen cfg v ks) (\<lambda>_. at_phase pre T)"
proof -
  have k: "keeps (at_phase pre T) (try_bind (await cfg) (\<lambda>e. case e of
        EvResponse resp \<Rightarrow> if rs_AID resp \<in> set (AIDEnter # es) then leave resp else again ()
      | _ \<Rightarrow> io_fail IoDead))" for es
    by (intro io_keeps silent_ops) (auto split: session_event.split intro: io_keeps)
  have a: "hoare (at_phase pre S') (HandleScreenAlt cfg v es) (\<lambda>_. at_phase pre T)"
    if "\<And>ph. S' ph \<Longrightarrow> \<exists>ph'. view_step ph v = Some ph' \<and> T ph'" for S' es
    unfolding HandleScreenAlt_def
    by (rule loop_enters; rule hoare_bind[OF phase_emit[where T = T] k]) (use that assms(2) in auto)
  have t: "keeps (at_phase pre T) (HandleScreenAlt cfg v es)" for es by (rule a) (use assms(2) in blast)
  have b: "keeps (at_phase pre T) (if isSilentAID (rs_AID resp) then again () else leave resp)" for resp
    by (simp add: keeps_again keeps_leave)
  show ?thesis
    unfolding handleScreen_def
    by (rule loop_enters[OF hoare_try_bind[OF a _ b] hoare_try_bind[OF t _ b]]) (use assms(1) in auto)
qed

end
