(* ===== verification/Session_Protocol.thy ===== *)
theory Session_Protocol
  imports Protocol
begin

text \<open>
  Every part of the session as a triple over the phases of the protocol, and the protocol of a
  whole session.
\<close>

abbreviation gated :: "string \<Rightarrow> phase \<Rightarrow> bool" where "gated u ph \<equiv> ph = Gate u"
abbreviation at_menu :: "string \<Rightarrow> bool \<Rightarrow> bool \<Rightarrow> phase \<Rightarrow> bool" where
  "at_menu u a l ph \<equiv> \<exists>svcs. ph = InMenu u a l svcs"
abbreviation before_login :: "phase \<Rightarrow> bool" where
  "before_login ph \<equiv> ph = AtLogin \<or> (\<exists>u. ph = Gate u)"

lemma audit_kinds [simp]:
  "AuditAuthOK \<noteq> AuditConnect" "AuditAuthOK \<noteq> AuditBridgeEnd" "AuditAuthOK \<noteq> AuditDisconnect"
  "AuditLogout \<noteq> AuditConnect" "AuditLogout \<noteq> AuditBridgeEnd" "AuditLogout \<noteq> AuditDisconnect" "AuditLogout \<noteq> AuditAuthOK"
  "AuditBridgeStart \<noteq> AuditConnect" "AuditBridgeStart \<noteq> AuditBridgeEnd" "AuditBridgeStart \<noteq> AuditDisconnect"
  "AuditBridgeStart \<noteq> AuditAuthOK" "AuditBridgeStart \<noteq> AuditLogout" "AuditBridgeEnd \<noteq> AuditConnect"
  "AuditDisconnect \<noteq> AuditConnect" "AuditDisconnect \<noteq> AuditBridgeEnd"
  by code_simp+

lemma flow_keeps_phase:
  assumes "adds (flow_ob vs) m" "\<And>ph v. S ph \<Longrightarrow> settled ph \<and> (vs v \<longrightarrow> view_step ph v = Some ph)"
  shows "keeps (at_phase pre S) m"
  by (rule phase_adds[OF assms(1)]) (use assms(2) flow_step in blast)

lemma plain_record:
  assumes "plain_kind k" "\<And>ph. S ph \<Longrightarrow> settled ph"
  shows "keeps (at_phase pre S) (record_user cfg k n d)"
proof -
  have "adds (flow_ob (\<lambda>_. False)) (record_user cfg k n d)" by (rule addsI, rule flow_records(4)[OF assms(1)])
  then show ?thesis by (rule flow_keeps_phase) (use assms(2) in simp)
qed

lemma reject_phase:
  assumes "\<And>ph. S ph \<Longrightarrow> settled ph"
  shows "keeps (at_phase pre S) (reject cfg n)" "keeps (at_phase pre S) (reject_code cfg n c)"
  by (rule flow_keeps_phase[where vs = "\<lambda>_. False"], rule addsI, rule reject_log, use assms in simp)+

lemma logout_phase:
  assumes "st_Auditor cfg" "\<And>ph. S ph \<Longrightarrow> settled ph \<and> ph \<noteq> AtLogin \<and> nocase n (who ph)"
  shows "hoare (at_phase pre S) (record_user cfg AuditLogout n d) (\<lambda>_. at_phase pre (\<lambda>ph. ph = AtLogin))"
    "hoare (at_phase pre S) (idle_logout cfg n) (\<lambda>_. at_phase pre (\<lambda>ph. ph = AtLogin))"
proof -
  show r: "hoare (at_phase pre S) (record_user cfg AuditLogout n d) (\<lambda>_. at_phase pre (\<lambda>ph. ph = AtLogin))" for d
    unfolding record_user_def by (rule phase_record[OF assms(1)]) (use assms(2) in \<open>simp add: audit_step_def\<close>)
  show "hoare (at_phase pre S) (idle_logout cfg n) (\<lambda>_. at_phase pre (\<lambda>ph. ph = AtLogin))"
    unfolding idle_logout_def by (rule hoare_bind[OF r silent_session(10)])
qed

section \<open>Triples for loops\<close>

text \<open>The condition after a round: \<open>I\<close> to go round again, \<open>Q\<close> to leave.\<close>

definition rounds :: "(world \<Rightarrow> bool) \<Rightarrow> (io_err + 'r \<Rightarrow> world \<Rightarrow> bool) \<Rightarrow> io_err + ('x + 'r) \<Rightarrow> world \<Rightarrow> bool" where
  "rounds I Q r = (case r of Inl e \<Rightarrow> Q (Inl e) | Inr (Inl _) \<Rightarrow> I | Inr (Inr y) \<Rightarrow> Q (Inr y))"

lemma rounds_again: "(\<And>w. P w \<Longrightarrow> I w) \<Longrightarrow> hoare P (again x) (rounds I Q)"
  by (simp add: again_def io_return_def hoare_def rounds_def)
lemma rounds_leave: "(\<And>w. P w \<Longrightarrow> Q (Inr y) w) \<Longrightarrow> hoare P (leave y) (rounds I Q)"
  by (simp add: leave_def io_return_def hoare_def rounds_def)
lemma rounds_fail: "(\<And>w. P w \<Longrightarrow> Q (Inl e) w) \<Longrightarrow> hoare P (io_fail e) (rounds I Q)"
  by (simp add: io_fail_def hoare_def rounds_def)

lemma hoare_io_return: "(\<And>w. P w \<Longrightarrow> Q (Inr x) w) \<Longrightarrow> hoare P (io_return x) Q"
  by (simp add: io_return_def hoare_def)
lemma hoare_io_fail: "(\<And>w. P w \<Longrightarrow> Q (Inl e) w) \<Longrightarrow> hoare P (io_fail e) Q"
  by (simp add: io_fail_def hoare_def)

lemma hoare_loop:
  assumes "\<And>x. hoare I (body x) (rounds I Q)" "\<And>w. I w \<Longrightarrow> Q (Inl IoFuel) w"
  shows "hoare I (io_loop body x) Q"
proof -
  have "hoare I (loop_with n body x) Q" for n
  proof (induction n arbitrary: x)
    case 0
    then show ?case using assms(2) by (simp add: hoare_io_fail)
  next
    case (Suc n)
    have "hoare (rounds I Q (Inr r)) (case r of Inl x' \<Rightarrow> loop_with n body x' | Inr y \<Rightarrow> io_return y) Q" for r
      using Suc by (cases r) (simp_all add: rounds_def[abs_def] hoare_io_return)
    then show ?case unfolding loop_with.simps
      by (intro hoare_try_bind[OF assms(1)]) (simp_all add: rounds_def)
  qed
  then show ?thesis unfolding io_loop_def by (intro hoare_bind[OF keeps_gets])
qed

lemma hoare_pure: "hoare I m (\<lambda>r w. I w \<and> p r) \<Longrightarrow> (\<And>x. p x \<Longrightarrow> hoare I (k x) Q) \<Longrightarrow> hoare I (do { x \<leftarrow> m; k x }) Q"
  by (erule hoare_bind) (simp add: hoare_def)

section \<open>Login\<close>

definition login_post :: "observation list \<Rightarrow> io_err + (string + identity) \<Rightarrow> world \<Rightarrow> bool" where
  "login_post pre r =
     (case r of Inl _ \<Rightarrow> (\<lambda>_. True) | Inr (Inl _) \<Rightarrow> at_phase pre (\<lambda>ph. ph = AtLogin)
      | Inr (Inr ident) \<Rightarrow> at_phase pre (gated (id_Username ident)))"

lemma p_Login_phase: "hoare (at_phase pre before_login) (p_Login cfg st b msg) (\<lambda>_. at_phase pre (\<lambda>ph. ph = AtLogin))"
  unfolding p_Login_def
  by (rule hoare_bind[OF silent_ops(3)], rule hoare_try_bind[OF phase_screen[where T = "\<lambda>ph. ph = AtLogin"]])
    (auto intro: hoare_io_return)

lemma auth_ok_phase:
  "st_Auditor cfg \<Longrightarrow> hoare (at_phase pre (\<lambda>ph. ph = AtLogin)) (record_user cfg AuditAuthOK n d) (\<lambda>_. at_phase pre (gated n))"
  unfolding record_user_def by (erule phase_record) (simp add: audit_step_def)

lemma login_round_phase:
  assumes "st_Auditor cfg"
  shows "hoare (at_phase pre before_login) (login_round cfg st msg) (rounds (at_phase pre before_login) (login_post pre))"
proof -
  let ?L = "at_phase pre (\<lambda>ph. ph = AtLogin)"
  have b: "hoare ?L (again m) (rounds (at_phase pre before_login) (login_post pre))" for m
    by (rule rounds_again) (erule at_phase_mono, simp)
  have q: "hoare ?L (leave (Inl d)) (rounds (at_phase pre before_login) (login_post pre))" for d
    by (rule rounds_leave) (simp add: login_post_def)
  have ok: "hoare (at_phase pre (gated (id_Username ident))) (leave (Inr ident)) (rounds (at_phase pre before_login) (login_post pre))" for ident
    by (rule rounds_leave) (simp add: login_post_def)
  show ?thesis
    unfolding login_round_def
    by (rule hoare_bind[OF silent_session(8)], rule hoare_bind[OF p_Login_phase])
      (auto split: sum.split option.split prod.split
        intro!: rounds_fail q b ok hoare_bind[OF silent_session(15)] hoare_bind[OF silent_session(14)] hoare_bind[OF silent_ops(2)]
          hoare_bind[OF auth_ok_phase[OF assms]] hoare_bind[OF plain_record] hoare_bind[OF reject_phase(1)]
        simp: login_post_def)
qed

lemma doLogin_phase: "st_Auditor cfg \<Longrightarrow> hoare (at_phase pre before_login) (doLogin cfg) (login_post pre)"
  unfolding doLogin_def
  by (rule hoare_bind[OF silent_ops(2)], rule hoare_bind[OF silent_session(7)], rule hoare_loop[OF login_round_phase])
    (simp_all add: login_post_def)

section \<open>The gates between login and menu\<close>

definition mfa_post :: "observation list \<Rightarrow> string \<Rightarrow> io_err + (string + bool) \<Rightarrow> world \<Rightarrow> bool" where
  "mfa_post pre n r =
     (case r of Inl _ \<Rightarrow> (\<lambda>_. True) | Inr (Inl _) \<Rightarrow> at_phase pre (gated n)
      | Inr (Inr proceed) \<Rightarrow> at_phase pre (\<lambda>ph. ph = Gate n \<or> \<not> proceed \<and> ph = AtLogin))"

lemma GetUserByUsername_named:
  "hoare (at_phase pre S) (stm (GetUserByUsername n)) (\<lambda>r w. at_phase pre S w \<and> (\<forall>u. r = Inr u \<longrightarrow> nocase (u_Username u) n))"
proof -
  have "nocase (u_Username u) n" if "run_state (GetUserByUsername n) d = (Inr u, d')" for u d d'
  proof -
    from GetUserByUsername_cases[OF that] have "find_user (to_upper n) d = Some u" by (auto split: option.splits)
    then show ?thesis by (auto simp: find_user_def find_Some_iff)
  qed
  then have "hoare (\<lambda>_. True) (stm (GetUserByUsername n)) (\<lambda>r _. \<forall>u. r = Inr u \<longrightarrow> nocase (u_Username u) n)"
    by (auto simp: hoare_def stm_def run_zoom split: prod.split)
  then show ?thesis using silent_ops(1)[of pre S "GetUserByUsername n"]
    unfolding hoare_def by (fastforce split: prod.splits)
qed

lemma nocase_sym: "nocase a b \<Longrightarrow> nocase b a" by (simp add: nocase_def)

lemma gate_phases:
  assumes "st_Auditor cfg" "nocase (u_Username u) n"
  shows "hoare (at_phase pre (gated n)) (mfaEnroll cfg cipher u) (mfa_post pre n)"
    "hoare (at_phase pre (gated n)) (mfaVerify cfg cipher u) (mfa_post pre n)"
proof -
  have out: "hoare (at_phase pre (\<lambda>ph. ph = AtLogin)) (io_return (Inr False)) (mfa_post pre n)"
    "hoare (at_phase pre (gated n)) (io_return (Inr p)) (mfa_post pre n)"
    "hoare (at_phase pre (gated n)) (io_return (Inl d)) (mfa_post pre n)" for p d
    by (rule hoare_io_return, simp add: mfa_post_def, (erule at_phase_mono)?, simp?)+
  have idle: "hoare (at_phase pre (gated n)) (idle_logout cfg (u_Username u)) (\<lambda>_. at_phase pre (\<lambda>ph. ph = AtLogin))"
    by (rule logout_phase(2)[OF assms(1)]) (use assms(2) in auto)
  have "adds (flow_ob gate_view) (confirmEnroll cfg cipher u secret)" for secret
    by (rule addsI, rule confirmEnroll_log) simp
  then have confirm: "keeps (at_phase pre (gated n)) (confirmEnroll cfg cipher u secret)" for secret
    by (rule flow_keeps_phase) (use gate_step in auto)
  show "hoare (at_phase pre (gated n)) (mfaEnroll cfg cipher u) (mfa_post pre n)"
    unfolding mfaEnroll_def
    by (rule hoare_bind[OF silent_session(6)], rule hoare_bind[OF silent_session(16)])
      (auto split: option.split sum.split intro!: out hoare_try_bind[OF confirm] hoare_bind[OF idle] hoare_bind[OF silent_session(10)]
        simp: mfa_post_def)
  have screen: "keeps (at_phase pre (gated n)) (p_VerifyMFA cfg msg)" for msg
    unfolding p_VerifyMFA_def
    by (rule keeps_try_bind[OF phase_screen]) (auto intro: keeps_io_return)
  let ?R = "rounds (at_phase pre (gated n)) (mfa_post pre n)"
  have leave: "hoare (at_phase pre (\<lambda>ph. ph = AtLogin)) (leave (Inr False)) ?R"
    "hoare (at_phase pre (gated n)) (leave (Inr p)) ?R" "hoare (at_phase pre (gated n)) (leave (Inl d)) ?R"
    "hoare (at_phase pre (gated n)) (again m) ?R" "hoare (at_phase pre (gated n)) (io_fail e) ?R" for p d m e
    by (rule rounds_leave rounds_again rounds_fail, simp add: mfa_post_def, (erule at_phase_mono)?, simp?)+
  have "hoare (at_phase pre (gated n)) (verify_round cfg u secret msg) ?R" for secret msg
    unfolding verify_round_def
    by (rule hoare_bind[OF screen])
      (auto split: option.split sum.split prod.split
        intro!: leave hoare_bind[OF idle] hoare_bind[OF silent_session(10)] hoare_bind[OF silent_ops(3)] hoare_bind[OF silent_ops(1)]
          hoare_bind[OF reject_phase(2)] hoare_bind[OF silent_session(14)] hoare_bind[OF plain_record])
  then have "hoare (at_phase pre (gated n)) (io_loop (verify_round cfg u secret) []) (mfa_post pre n)" for secret
    by (rule hoare_loop) (simp add: mfa_post_def)
  then show "hoare (at_phase pre (gated n)) (mfaVerify cfg cipher u) (mfa_post pre n)"
    unfolding mfaVerify_def by (auto split: option.split intro: out)
qed

lemma mfaGate_phase:
  assumes "st_Auditor cfg"
  shows "hoare (at_phase pre (gated (id_Username ident))) (mfaGate cfg ident) (mfa_post pre (id_Username ident))"
proof -
  have out: "hoare (at_phase pre (gated n)) (io_return (Inr True)) (mfa_post pre n)"
    "hoare (at_phase pre (gated n)) (io_return (Inl d)) (mfa_post pre n)" for d n
    by (rule hoare_io_return, simp add: mfa_post_def)+
  show ?thesis
    unfolding mfaGate_def
    by (auto split: option.split sum.split intro!: out hoare_pure[OF GetUserByUsername_named] gate_phases[OF assms])
qed

definition news_post :: "observation list \<Rightarrow> string \<Rightarrow> io_err + bool option \<Rightarrow> world \<Rightarrow> bool" where
  "news_post pre n r =
     (case r of Inl _ \<Rightarrow> (\<lambda>_. True) | Inr (Some False) \<Rightarrow> at_phase pre (\<lambda>ph. ph = AtLogin)
      | Inr _ \<Rightarrow> at_phase pre (gated n))"

lemma maybeShowNews_phase:
  assumes "st_Auditor cfg"
  shows "hoare (at_phase pre (gated (id_Username ident))) (maybeShowNews cfg tm ident) (news_post pre (id_Username ident))"
proof -
  let ?n = "id_Username ident"
  have news: "keeps (at_phase pre (gated ?n)) (p_News cfg pages)" for pages
    unfolding p_News_def by (intro io_keeps phase_screen) auto
  have out: "hoare (at_phase pre (gated ?n)) (io_return (Some True)) (news_post pre ?n)"
    "hoare (at_phase pre (gated ?n)) (io_return None) (news_post pre ?n)"
    "hoare (at_phase pre (\<lambda>ph. ph = AtLogin)) (io_return (Some False)) (news_post pre ?n)"
    "hoare (at_phase pre (gated ?n)) (io_fail e) (news_post pre ?n)" for e
    by (rule hoare_io_return hoare_io_fail, simp add: news_post_def)+
  show ?thesis
    unfolding maybeShowNews_def Let_def
    by (rule hoare_bind[OF silent_ops(1)])
      (auto split: sum.split intro!: out hoare_bind[OF news] hoare_bind[OF logout_phase(2)[OF assms]])
qed

section \<open>The service menu\<close>

abbreviation inside :: "string \<Rightarrow> bool \<Rightarrow> bool \<Rightarrow> phase \<Rightarrow> bool" where
  "inside u a l ph \<equiv> ph = Gate u \<or> (\<exists>svcs. ph = InMenu u a l svcs)"

text \<open>What the menu can return.\<close>

fun offered :: "service list \<Rightarrow> bool \<Rightarrow> bool \<Rightarrow> menu_choice \<Rightarrow> bool" where
  "offered svcs a l MenuAdmin = a"
| "offered svcs a l MenuUserSettings = (\<not> l)"
| "offered svcs a l (MenuService svc) = (svc \<in> set svcs)"
| "offered svcs a l _ = True"

lemma menu_mapping_services: "map_of (menu_mapping svcs) key = Some svc \<Longrightarrow> svc \<in> set svcs"
  by (drule map_of_SomeD) (auto simp: menu_mapping_def dest: set_zip_rightD)

lemma classify_offered: "offered svcs a l (classifyMenuSubmit key (menu_mapping svcs) a l)"
  by (auto simp: classifyMenuSubmit_def menu_mapping_services split: option.split)

definition menu_post :: "observation list \<Rightarrow> string \<Rightarrow> bool \<Rightarrow> bool \<Rightarrow> service list \<Rightarrow> io_err + menu_choice \<Rightarrow> world \<Rightarrow> bool" where
  "menu_post pre u a l svcs r =
     (case r of Inl e \<Rightarrow> (\<lambda>w. e \<noteq> IoFuel \<longrightarrow> at_phase pre (at_menu u a l) w)
      | Inr c \<Rightarrow> (\<lambda>w. at_phase pre (\<lambda>ph. ph = InMenu u a l svcs) w \<and> offered svcs a l c))"

lemma help_phase: "keeps (at_phase pre (\<lambda>ph. ph = InMenu u a l svcs)) (runHelpViewer cfg tm t ls)"
  unfolding runHelpViewer_def Let_def by (intro io_keeps phase_screen) auto

lemma menu_screen_phase:
  assumes "ms_Username st = u" "keeps (at_phase pre (\<lambda>ph. ph = InMenu u a l svcs)) help"
  shows "hoare (at_phase pre (inside u a l)) (menu_screen cfg tm svcs a l st help x)
    (rounds (at_phase pre (inside u a l)) (menu_post pre u a l svcs))"
proof -
  let ?M = "at_phase pre (\<lambda>ph. ph = InMenu u a l svcs)"
  let ?R = "rounds (at_phase pre (inside u a l)) (menu_post pre u a l svcs)"
  have again: "hoare ?M (again y) ?R" for y by (rule rounds_again) (erule at_phase_mono, simp)
  have leave: "offered svcs a l c \<Longrightarrow> hoare ?M (leave c) ?R" for c by (rule rounds_leave) (simp add: menu_post_def)
  have err: "?R (Inl e) w" if "?M w" for e w
    using at_phase_mono[OF that, of "at_menu u a l"] by (simp add: rounds_def menu_post_def)
  have help': "hoare ?M (try_bind (runHelpViewer cfg tm t ls) (\<lambda>_. again y)) ?R" for t ls y
    by (rule hoare_try_bind[OF help_phase _ again]) (rule err)
  have screen: "hoare (at_phase pre (inside u a l)) (handleScreen cfg (VMenu svcs a l (st\<lparr>ms_TermType := t, ms_Now := n\<rparr>) m page) ks) (\<lambda>_. ?M)" for t n m page ks
    by (rule phase_screen) (use assms(1) in auto)
  show ?thesis
    unfolding menu_screen_def Let_def
    by (rule hoare_bind[OF silent_ops(3)], rule hoare_try_bind[OF screen])
      (auto intro!: err again leave classify_offered hoare_try_bind[OF keeps_lift[OF assms(2)]] help')
qed

lemma p_Menu_phase:
  assumes "ms_Username st = u" "keeps (at_phase pre (\<lambda>ph. ph = InMenu u a l svcs)) help"
  shows "hoare (at_phase pre (inside u a l)) (p_Menu cfg tm svcs a l st msg help) (menu_post pre u a l svcs)"
  unfolding p_Menu_def by (rule hoare_loop[OF menu_screen_phase[OF assms]]) (simp add: menu_post_def)

text \<open>How a visit to the menu ends.\<close>

definition exit_post :: "observation list \<Rightarrow> string \<Rightarrow> bool \<Rightarrow> bool \<Rightarrow> io_err + menu_exit \<Rightarrow> world \<Rightarrow> bool" where
  "exit_post pre u a l r =
     (case r of Inl _ \<Rightarrow> (\<lambda>_. True) | Inr Logoff \<Rightarrow> at_phase pre (\<lambda>ph. ph = AtLogin)
      | Inr (EndSession _) \<Rightarrow> at_phase pre (at_menu u a l))"

abbreviation menu_rounds :: "observation list \<Rightarrow> string \<Rightarrow> bool \<Rightarrow> bool \<Rightarrow> io_err + (string + menu_exit) \<Rightarrow> world \<Rightarrow> bool" where
  "menu_rounds pre u a l \<equiv> rounds (at_phase pre (inside u a l)) (exit_post pre u a l)"

lemma menu_leaves:
  "hoare (at_phase pre (\<lambda>ph. ph = InMenu u a l svcs)) (again m) (menu_rounds pre u a l)"
  "hoare (at_phase pre (\<lambda>ph. ph = InMenu u a l svcs)) (leave (EndSession d)) (menu_rounds pre u a l)"
  "hoare (at_phase pre (at_menu u a l)) (leave (EndSession d)) (menu_rounds pre u a l)"
  "hoare (at_phase pre (\<lambda>ph. ph = AtLogin)) (leave Logoff) (menu_rounds pre u a l)"
  "hoare P (io_fail e) (menu_rounds pre u a l)"
  by (rule rounds_again rounds_leave rounds_fail; auto simp: exit_post_def elim!: at_phase_mono)+

lemma flow_error_phase:
  assumes "st_Auditor cfg"
  shows "hoare (\<lambda>w. e \<noteq> IoFuel \<longrightarrow> at_phase pre (at_menu (id_Username ident) a l) w) (flow_error cfg ident d e)
    (menu_rounds pre (id_Username ident) a l)"
proof (cases "e = IoFuel")
  case False
  have idle: "hoare (at_phase pre (at_menu (id_Username ident) a l)) (idle_logout cfg (id_Username ident))
      (\<lambda>_. at_phase pre (\<lambda>ph. ph = AtLogin))"
    by (rule logout_phase(2)[OF assms]) auto
  show ?thesis using False unfolding flow_error_def
    by (auto intro!: menu_leaves hoare_bind[OF idle])
qed (simp add: flow_error_def menu_leaves)

lemma bridge_phase:
  assumes "st_Auditor cfg" "svc \<in> set svcs"
  shows "hoare (at_phase pre (\<lambda>ph. ph = InMenu (id_Username ident) a l svcs)) (bridge_service cfg tm ident svc)
    (menu_rounds pre (id_Username ident) a l)"
proof -
  let ?u = "id_Username ident"
  have start: "hoare (at_phase pre (\<lambda>ph. ph = InMenu ?u a l svcs)) (record_bridge cfg ident AuditBridgeStart svc [])
      (\<lambda>_. at_phase pre (\<lambda>ph. ph = Dialling ?u a l svcs (s_Name svc)))"
    unfolding record_bridge_def by (rule phase_record[OF assms(1)]) (use assms(2) in \<open>auto simp: audit_step_def\<close>)
  have finish: "hoare (at_phase pre (\<lambda>ph. ph = Bridged ?u a l svcs (s_Name svc))) (record_bridge cfg ident AuditBridgeEnd svc d)
      (\<lambda>_. at_phase pre (\<lambda>ph. ph = InMenu ?u a l svcs))" for d
    unfolding record_bridge_def by (rule phase_record[OF assms(1)]) (auto simp: audit_step_def)
  have run: "keeps (at_phase pre S) (State (\<lambda>w. if conn_closed cfg (w_shared w) then ((CauseClientClosed, None), w)
       else case w_script w of
         [] \<Rightarrow> ((CauseClientClosed, None), w)
       | i # rest \<Rightarrow>
           let w' = w\<lparr>w_now := max (w_now w) (in_at i), w_script := rest, w_shared := in_env i (w_shared w)\<rparr>
           in if conn_closed cfg (w_shared w') then ((CauseClientClosed, None), w')
              else case in_event i of EvBridge c e \<Rightarrow> ((c, e), w') | _ \<Rightarrow> ((CauseClientClosed, None), w')))" for S
    by (auto simp: hoare_def at_phase_def Let_def split: list.split session_event.split)
  have dial: "hoare (at_phase pre (\<lambda>ph. ph = Dialling ?u a l svcs (s_Name svc))) (p_Bridge cfg svc ty)
      (\<lambda>_. at_phase pre (\<lambda>ph. ph = Bridged ?u a l svcs (s_Name svc)))" for ty
    unfolding p_Bridge_def by (rule hoare_bind[OF phase_emit run]) (use assms(2) in simp)
  show ?thesis
    unfolding bridge_service_def
    by (intro hoare_bind[OF start] hoare_bind[OF silent_session(4)] hoare_bind[OF silent_session(12)] hoare_bind[OF dial]
        hoare_bind[OF finish] hoare_if hoare_bind[OF silent_session(5)] hoare_bind[OF silent_session(11)] menu_leaves)
qed

lemma menu_round_phase:
  assumes "st_Auditor cfg"
  shows "hoare (at_phase pre (inside (id_Username ident) a l)) (menu_round cfg tm ident a l msg)
    (menu_rounds pre (id_Username ident) a l)"
proof -
  let ?u = "id_Username ident"
  let ?M = "\<lambda>svcs. at_phase pre (\<lambda>ph. ph = InMenu ?u a l svcs)"
  have menu: "hoare (at_phase pre (inside ?u a l)) (p_Menu cfg tm svcs a l
      \<lparr>ms_Username = ?u, ms_TermType = [], ms_SystemID = sid, ms_Release = st_Release cfg, ms_Now = 0\<rparr> m helpMenuLines)
      (menu_post pre ?u a l svcs)" for svcs sid m
    by (rule p_Menu_phase[OF _ silent_session(9)]) simp
  have admin: "keeps (?M svcs) (adminFlow_Run cfg fl)" if a for svcs fl
    by (rule flow_keeps_phase[OF adminFlow_log]) (use that admin_step in auto)
  have self: "keeps (?M svcs) (userSettings cfg ident)" if "\<not> l" for svcs
    by (rule flow_keeps_phase[OF userSettings_log]) (use that self_step in auto)
  have flow: "hoare (?M svcs) (case f of Inl e \<Rightarrow> flow_error cfg ident d e | Inr _ \<Rightarrow> again []) (menu_rounds pre ?u a l)"
    for svcs d and f :: "io_err + unit"
    by (rule hoare_sum, rule hoare_weaken_pre[OF flow_error_phase[OF assms]])
      (auto elim!: at_phase_mono intro: menu_leaves(1))
  have choice: "hoare (menu_post pre ?u a l svcs (Inr c)) (case c of
            MenuQuit \<Rightarrow> do {
              record_user cfg AuditLogout ?u ''user logoff'';
              arm_pre_auth cfg;
              leave Logoff
            }
          | MenuAdmin \<Rightarrow>
              if \<not> a then again []
              else do {
                f \<leftarrow> adminFlow_Run cfg \<lparr>fl_identity = ident, fl_rows = geo_Rows (tm_Geometry tm)\<rparr>;
                (case f of Inl e \<Rightarrow> flow_error cfg ident ''admin flow error'' e | Inr _ \<Rightarrow> again [])
              }
          | MenuUserSettings \<Rightarrow>
              if l then again []
              else do {
                f \<leftarrow> userSettings cfg ident;
                (case f of Inl e \<Rightarrow> flow_error cfg ident ''user settings flow error'' e | Inr _ \<Rightarrow> again [])
              }
          | MenuService svc \<Rightarrow> bridge_service cfg tm ident svc
          | _ \<Rightarrow> again []) (menu_rounds pre ?u a l)" for svcs c
  proof (cases "offered svcs a l c")
    case True
    have M: "hoare (menu_post pre ?u a l svcs (Inr c')) m Q" if "hoare (?M svcs) m Q"
      for c' and m :: "(string + menu_exit) io" and Q
      using that by (auto simp: hoare_def menu_post_def)
    have out: "hoare (?M svcs) (record_user cfg AuditLogout ?u ''user logoff'') (\<lambda>_. at_phase pre (\<lambda>ph. ph = AtLogin))"
      by (rule logout_phase(1)[OF assms]) auto
    show ?thesis
    proof (cases c)
      case MenuAdmin
      show ?thesis unfolding MenuAdmin menu_choice.case
        by (rule M, rule hoare_if[OF menu_leaves(1) hoare_bind[OF admin flow]]) (use True MenuAdmin in simp)
    next
      case MenuUserSettings
      show ?thesis unfolding MenuUserSettings menu_choice.case
        by (rule M, rule hoare_if[OF menu_leaves(1) hoare_bind[OF self flow]]) (use True MenuUserSettings in simp)
    next
      case (MenuService svc)
      show ?thesis unfolding MenuService menu_choice.case
        by (rule M, rule bridge_phase[OF assms]) (use True MenuService in simp)
    next
      case MenuQuit
      show ?thesis unfolding MenuQuit menu_choice.case
        by (rule M, rule hoare_bind[OF out hoare_bind[OF silent_session(10) menu_leaves(4)]])
    qed (simp_all add: M[OF menu_leaves(1)])
  qed (simp add: hoare_def menu_post_def)
  have err: "hoare (menu_post pre ?u a l svcs (Inl e)) (flow_error cfg ident d e) (menu_rounds pre ?u a l)" for svcs d e
    using flow_error_phase[OF assms] by (simp add: menu_post_def)
  have both: "hoare (menu_post pre ?u a l svcs r) (case r of Inl e \<Rightarrow> f e | Inr c \<Rightarrow> g c) Q"
    if "\<And>e. hoare (menu_post pre ?u a l svcs (Inl e)) (f e) Q" "\<And>c. hoare (menu_post pre ?u a l svcs (Inr c)) (g c) Q"
    for svcs r f g and Q :: "io_err + (string + menu_exit) \<Rightarrow> world \<Rightarrow> bool"
    using that by (cases r) simp_all
  show ?thesis
    unfolding menu_round_def Let_def
    by (rule hoare_bind[OF silent_ops(1)], rule hoare_bind[OF silent_session(7)], rule hoare_bind[OF menu], rule both[OF err choice])
qed

lemma run_menu_phase:
  assumes "st_Auditor cfg"
  shows "hoare (at_phase pre (gated (id_Username ident))) (run_menu cfg tm ident)
    (\<lambda>r w. \<exists>l. exit_post pre (id_Username ident) (is_admin cfg ident) l r w)"
proof -
  have "hoare (at_phase pre (inside (id_Username ident) (is_admin cfg ident) l)) (io_loop (menu_round cfg tm ident (is_admin cfg ident) l) [])
      (exit_post pre (id_Username ident) (is_admin cfg ident) l)" for l
    by (rule hoare_loop[OF menu_round_phase[OF assms]]) (simp add: exit_post_def)
  then have "hoare (at_phase pre (gated (id_Username ident))) (io_loop (menu_round cfg tm ident (is_admin cfg ident) l) [])
      (\<lambda>r w. \<exists>l. exit_post pre (id_Username ident) (is_admin cfg ident) l r w)" for l
    by (rule hoare_strengthen_post[OF hoare_weaken_pre]) (erule at_phase_mono, simp, rule exI)
  then show ?thesis unfolding run_menu_def by (rule hoare_bind[OF silent_session(17)])
qed

section \<open>The session\<close>

definition ended_post :: "observation list \<Rightarrow> io_err + (string \<times> string) \<Rightarrow> world \<Rightarrow> bool" where
  "ended_post pre r = (case r of Inl _ \<Rightarrow> (\<lambda>_. True) | Inr (user, _) \<Rightarrow> at_phase pre (\<lambda>ph. settled ph \<and> who ph = user))"

lemma ended_leaves:
  assumes "\<And>w. P w \<Longrightarrow> at_phase pre (\<lambda>ph. settled ph \<and> who ph = n) w"
  shows "hoare P (leave (n, d)) (rounds I (ended_post pre))"
  by (rule rounds_leave) (simp add: ended_post_def assms)

lemma session_round_phase:
  assumes "st_Auditor cfg"
  shows "hoare (at_phase pre before_login) (session_round cfg tm x) (rounds (at_phase pre before_login) (ended_post pre))"
proof -
  let ?R = "rounds (at_phase pre before_login) (ended_post pre)"
  have again: "hoare P (again ()) ?R" if "\<And>w. P w \<Longrightarrow> at_phase pre before_login w" for P
    by (rule rounds_again[OF that])
  have err: "?R (Inl e) w" for e w by (simp add: rounds_def ended_post_def)
  have menu: "hoare (at_phase pre (gated (id_Username ident))) (try_bind (run_menu cfg tm ident) (\<lambda>x. case x of
                   Logoff \<Rightarrow> again ()
                 | EndSession detail \<Rightarrow> leave (id_Username ident, detail))) ?R" for ident
  proof (rule hoare_try_bind[OF run_menu_phase[OF assms]], rule err)
    fix x :: menu_exit
    show "hoare (\<lambda>w. \<exists>l. exit_post pre (id_Username ident) (is_admin cfg ident) l (Inr x) w)
        (case x of Logoff \<Rightarrow> again () | EndSession detail \<Rightarrow> leave (id_Username ident, detail)) ?R"
      by (cases x) (auto simp: exit_post_def elim: at_phase_mono intro!: again ended_leaves)
  qed
  have news: "hoare (at_phase pre (gated (id_Username ident))) (try_bind (maybeShowNews cfg tm ident) (\<lambda>n. case n of
               None \<Rightarrow> leave (id_Username ident, ''news render error'')
             | Some enter \<Rightarrow> if \<not> enter then again () else try_bind (run_menu cfg tm ident) (\<lambda>x. case x of
                   Logoff \<Rightarrow> again ()
                 | EndSession detail \<Rightarrow> leave (id_Username ident, detail)))) ?R" for ident
  proof (rule hoare_try_bind[OF maybeShowNews_phase[OF assms]], rule err)
    fix n :: "bool option"
    show "hoare (news_post pre (id_Username ident) (Inr n)) (case n of
               None \<Rightarrow> leave (id_Username ident, ''news render error'')
             | Some enter \<Rightarrow> if \<not> enter then again () else try_bind (run_menu cfg tm ident) (\<lambda>x. case x of
                   Logoff \<Rightarrow> again ()
                 | EndSession detail \<Rightarrow> leave (id_Username ident, detail))) ?R"
    proof (cases n)
      case None
      then show ?thesis by (auto simp: news_post_def elim: at_phase_mono intro!: ended_leaves)
    next
      case (Some enter)
      then show ?thesis using menu by (cases enter) (auto simp: news_post_def elim: at_phase_mono intro!: again)
    qed
  qed
  have mfa: "hoare (mfa_post pre (id_Username ident) (Inr m)) (case m of
           Inl detail \<Rightarrow> leave (id_Username ident, detail)
         | Inr proceed \<Rightarrow> if \<not> proceed then again () else try_bind (maybeShowNews cfg tm ident) (\<lambda>n. case n of
               None \<Rightarrow> leave (id_Username ident, ''news render error'')
             | Some enter \<Rightarrow> if \<not> enter then again () else try_bind (run_menu cfg tm ident) (\<lambda>x. case x of
                   Logoff \<Rightarrow> again ()
                 | EndSession detail \<Rightarrow> leave (id_Username ident, detail)))) ?R" for ident m
  proof (cases m)
    case (Inl d)
    then show ?thesis by (auto simp: mfa_post_def elim: at_phase_mono intro!: ended_leaves)
  next
    case (Inr p)
    then show ?thesis using news by (cases p) (auto simp: mfa_post_def elim: at_phase_mono intro!: again)
  qed
  have login: "hoare (login_post pre (Inr r)) (case r of Inl detail \<Rightarrow> leave ([], detail) | Inr ident \<Rightarrow> k ident) ?R"
    if "\<And>ident. hoare (at_phase pre (gated (id_Username ident))) (k ident) ?R" for r k
    using that by (cases r) (auto simp: login_post_def elim: at_phase_mono intro!: ended_leaves)
  show ?thesis
    unfolding session_round_def
    by (rule hoare_bind[OF silent_session(3)], rule hoare_try_bind[OF doLogin_phase[OF assms]], rule err, rule login,
        rule hoare_bind[OF silent_session(2)], rule hoare_bind[OF silent_session(11)],
        rule hoare_try_bind[OF mfaGate_phase[OF assms]], rule err, rule mfa)
qed

lemma session_body_phase:
  assumes "st_Auditor cfg"
  shows "hoare (at_phase pre (\<lambda>ph. ph = AtLogin)) (session_body cfg) (ended_post pre)"
proof -
  have n: "keeps (at_phase pre S) (Negotiate cfg)" for S
    unfolding Negotiate_def by (intro io_keeps silent_ops) (auto split: session_event.split intro: io_keeps)
  have "hoare (at_phase pre before_login) (io_loop (session_round cfg tm) ()) (ended_post pre)" for tm
    by (rule hoare_loop[OF session_round_phase[OF assms]]) (simp add: ended_post_def)
  then have "hoare (at_phase pre (\<lambda>ph. ph = AtLogin)) (io_loop (session_round cfg tm) ()) (ended_post pre)" for tm
    by (rule hoare_weaken_pre) (erule at_phase_mono, simp)
  moreover have "hoare (at_phase pre (\<lambda>ph. ph = AtLogin)) (io_return ([], d)) (ended_post pre)" for d
    by (rule hoare_io_return) (auto simp: ended_post_def elim: at_phase_mono)
  ultimately show ?thesis
    unfolding session_body_def
    by (intro hoare_bind[OF n] hoare_sum hoare_if hoare_io_fail) (simp_all add: ended_post_def)
qed

lemma session_Run_phase:
  assumes "st_Auditor cfg"
  shows "hoare (at_phase pre (\<lambda>ph. ph = Opening)) (session_Run cfg)
    (\<lambda>r. case r of Inl _ \<Rightarrow> (\<lambda>_. True) | Inr _ \<Rightarrow> at_phase pre (\<lambda>ph. ph = Closed))"
proof -
  let ?Q = "\<lambda>r. case r of Inl _ \<Rightarrow> (\<lambda>_. True) | Inr (_ :: unit) \<Rightarrow> at_phase pre (\<lambda>ph. ph = Closed)"
  have c: "hoare (at_phase pre (\<lambda>ph. ph = Opening)) (record_user cfg AuditConnect [] []) (\<lambda>_. at_phase pre (\<lambda>ph. ph = AtLogin))"
    unfolding record_user_def by (rule phase_record[OF assms]) (auto simp: audit_step_def)
  have d: "hoare (at_phase pre (\<lambda>ph. settled ph \<and> who ph = user)) (record_user cfg AuditDisconnect user detail)
      (\<lambda>_. at_phase pre (\<lambda>ph. ph = Closed))" for user detail
    unfolding record_user_def by (rule phase_record[OF assms]) (auto simp: audit_step_def)
  have "hoare (ended_post pre (Inr x)) (case x of (user, detail) \<Rightarrow> do { record_user cfg AuditDisconnect user detail; io_return () }) ?Q" for x
    by (cases x) (auto simp: ended_post_def intro!: hoare_bind[OF d] hoare_io_return)
  then show ?thesis unfolding session_Run_def
    by (intro hoare_bind[OF silent_session(10)] hoare_bind[OF c] hoare_try_bind[OF session_body_phase[OF assms]]) simp_all
qed

end
