(* ===== verification/Session_Inv.thy ===== *)
theory Session_Inv
  imports Session_Protocol
begin

text \<open>
  Invariants across a whole session. \<open>session_stable\<close> is the contract a property of the world
  owes the session: it survives the session's own effects and writes, the screens of \<open>V\<close>, the
  menus \<open>S\<close> allows for an identity, and the administrator's menu where it is offered; the
  identities a login returns satisfy \<open>P\<close>. Under the contract every part of the session keeps the
  property.
\<close>

fun plain_view :: "view \<Rightarrow> bool" where
  "plain_view (VLogin _ _ _) = True"
| "plain_view (VHelp _ _ _) = True"
| "plain_view (VUserSettings _ _ _) = True"
| "plain_view (VNews _) = True"
| "plain_view (VEnroll _ _ _ _) = True"
| "plain_view (VVerify _) = True"
| "plain_view (VForm _) = True"
| "plain_view _ = False"

locale session_stable =
  fixes cfg :: settings and J :: "world \<Rightarrow> bool" and P :: "identity \<Rightarrow> bool" and S :: "identity \<Rightarrow> service list \<Rightarrow> bool"
  assumes waits: "keeps J (await cfg)"
    and screen: "plain_view v \<Longrightarrow> keeps J (handleScreen cfg v ks)"
    and menu_screen: "S ident svcs \<Longrightarrow> ms_Username st = id_Username ident \<Longrightarrow>
      keeps J (handleScreen cfg (VMenu svcs (is_admin cfg ident) l st m pg) ks)"
    and silent: "keeps J clock" "keeps J draw" "keeps J (setActor n)" "keeps J (fail_delay n)" "keeps J (throttle_reset n)"
      "keeps J (reg_update ru)"
      "keeps J (regime arm)" "keeps J (io_sleep d)" "keeps J (emit (OAuthFailed n y))" "keeps J (p_Bridge cfg svc ty)"
    and audited: "keeps J (audit_record cfg ev)"
    and reads: "keeps J (stm (GetConfig k))" "keeps J (stm (GetDocument n))" "keeps J (stm (GetUserByUsername n))"
    and writes: "keeps J (stm (SetPassword i h))" "keeps J (stm (StoreMFAEnrollment i enc t s))"
      "keeps J (stm (UpdateMFAStep i s))" "keeps J (stm (ClearMFA i))"
    and login: "hoare J (stm (Authenticate (lib_compare cfg) n p)) (\<lambda>r w. J w \<and> (\<forall>ident. r = Inr ident \<longrightarrow> P ident))"
    and granted: "P ident \<Longrightarrow> hoare J (stm (ListServicesForGroups (id_Groups ident)))
      (\<lambda>r w. J w \<and> (\<forall>svcs. r = Inr svcs \<longrightarrow> S ident svcs))"
    and none: "P ident \<Longrightarrow> S ident []"
    and admin: "P ident \<Longrightarrow> is_admin cfg ident \<Longrightarrow> keeps J (adminFlow_Run cfg fl)"
begin

lemma login_keeps: "keeps J (stm (Authenticate (lib_compare cfg) n p))"
  by (rule hoare_strengthen_post[OF login]) simp

lemmas base = io_keeps silent audited reads login_keeps

lemma session_effects:
  "keeps J (reg_update u)" "keeps J (regSetLogin cfg n)" "keeps J (regClearLogin cfg)"
  "keeps J (regSetService cfg n)" "keeps J (regClearService cfg)" "keeps J mfaIssuer"
  "keeps J systemID" "keeps J loginBranding" "keeps J helpMenuLines"
  "keeps J (arm_pre_auth cfg)" "keeps J (arm_post_auth cfg)" "keeps J (arm_bridge cfg)"
  "keeps J (fail_delay n)" "keeps J (throttle_reset n)" "keeps J (authenticate cfg n pw)"
  "keeps J (generateSecret cfg i n)" "keeps J (settings_locked ident)"
  unfolding regSetLogin_def regClearLogin_def regSetService_def regClearService_def mfaIssuer_def
    systemID_def config_or_def loginBranding_def helpMenuLines_def arm_pre_auth_def arm_post_auth_def arm_bridge_def
    authenticate_def generateSecret_def settings_locked_def Let_def
  by (intro base)+

lemma rejects:
  "keeps J (reject cfg n)" "keeps J (reject_code cfg n c)" "keeps J (idle_logout cfg n)"
  "keeps J (record_user cfg k n d)" "keeps J (record_bridge cfg ident k svc d)"
  "keeps J (hash_password cfg pw)"
  unfolding reject_def reject_code_def idle_logout_def record_user_def record_bridge_def logAuthFailure_def hash_password_def
  by (intro base session_effects)+

lemmas session = base session_effects rejects

lemma screens:
  "keeps J (p_Login cfg lst b m)" "keeps J (p_EnrollMFA cfg i a c m)" "keeps J (p_VerifyMFA cfg m)"
  "keeps J (p_UserSettings cfg n rows m)" "keeps J (p_News cfg pages)" "keeps J (runHelpViewer cfg tm t ls)"
  "keeps J (Negotiate cfg)"
  unfolding p_Login_def p_EnrollMFA_def p_VerifyMFA_def p_UserSettings_def p_News_def runHelpViewer_def Negotiate_def Let_def
  by (intro session screen waits; (simp; fail)?, (auto split: session_event.split intro!: session)?)+

lemma p_Menu:
  assumes "S ident svcs" "ms_Username st = id_Username ident"
  shows "keeps J (p_Menu cfg tm svcs (is_admin cfg ident) l st m helpMenuLines)"
  unfolding p_Menu_def menu_screen_def Let_def
  by (intro session menu_screen assms screens) (simp add: assms)

text \<open>A login that succeeds yields an identity of \<open>P\<close>.\<close>

lemma doLogin: "hoare J (doLogin cfg) (\<lambda>r w. J w \<and> (\<forall>ident. r = Inr (Inr ident) \<longrightarrow> P ident))"
proof -
  let ?Q = "\<lambda>r w. J w \<and> (\<forall>ident. r = Inr (Inr ident) \<longrightarrow> P ident)"
  have plain: "hoare J (leave (Inl d)) (rounds J ?Q)" "hoare J (again m) (rounds J ?Q)" "hoare J (io_fail e) (rounds J ?Q)" for d m e
    by (rule rounds_leave rounds_again rounds_fail; simp)+
  have ok: "P ident \<Longrightarrow> hoare J (leave (Inr ident)) (rounds J ?Q)" for ident by (rule rounds_leave) simp
  have a: "hoare J (authenticate cfg n p) (\<lambda>r w. J w \<and> (\<forall>ident. r = Inr ident \<longrightarrow> P ident))" for n p
    unfolding authenticate_def by (rule login)
  have "hoare J (login_round cfg st m) (rounds J ?Q)" for st m
    unfolding login_round_def
    by (rule hoare_bind[OF session_effects(8)], rule hoare_bind[OF screens(1)])
      (auto split: sum.split option.split intro!: plain ok hoare_pure[OF a] hoare_bind[OF session_effects(14)]
        hoare_bind[OF silent(3)] hoare_bind[OF rejects(4)] hoare_bind[OF rejects(1)])
  then show ?thesis unfolding doLogin_def
    by (intro hoare_bind[OF silent(3)] hoare_bind[OF session_effects(7)] hoare_loop) simp_all
qed

lemma confirmEnroll: "keeps J (confirmEnroll cfg cipher u secret)"
  unfolding confirmEnroll_def enroll_round_def by (intro session screens writes)

lemma mfaGate: "keeps J (mfaGate cfg ident)"
  unfolding mfaGate_def mfaEnroll_def mfaVerify_def verify_round_def
  by (intro session screens confirmEnroll writes)

lemma maybeShowNews: "keeps J (maybeShowNews cfg tm ident)"
  unfolding maybeShowNews_def Let_def by (intro session screens)

lemma step_up: "keeps J (stepUpPassword cfg n intro)"
proof -
  have "form_flow cfg (step_up_form cfg n intro) J"
    by unfold_locales (auto simp: step_up_form_def step_up_submit_def intro!: session screen)
  then show ?thesis unfolding stepUpPassword_def by (rule form_flow.RunForm_keeps)
qed

lemma changes: "keeps J (changePassword cfg ident)"
proof -
  have "keeps J (change_submit cfg ident vals)" for vals
    unfolding change_submit_def Let_def by (intro session writes)
  then have "form_flow cfg (change_form cfg ident) J"
    by unfold_locales (auto simp: change_form_def intro!: session screen)
  then show ?thesis unfolding changePassword_def by (intro session form_flow.RunForm_keeps)
qed

lemma userSettings: "keeps J (userSettings cfg ident)"
proof -
  have "keeps J (selfMFAEnroll cfg cipher u)" for cipher u
    unfolding selfMFAEnroll_def by (intro session step_up confirmEnroll)
  moreover have "keeps J (selfMFADisable cfg u)" for u
    unfolding selfMFADisable_def by (intro session step_up writes)
  ultimately have "keeps J (run_action cfg ident u a)" for u a
    unfolding run_action_def by (cases a) (auto split: option.split intro!: changes session)
  then show ?thesis
    unfolding userSettings_def settings_round_def Let_def by (intro session screens)
qed

lemma bridge: "keeps J (bridge_service cfg tm ident svc)"
  unfolding bridge_service_def by (intro session)

lemma flow_error: "keeps J (flow_error cfg ident d e)"
  unfolding flow_error_def by (intro session)

lemma menu_round:
  assumes "P ident"
  shows "keeps J (menu_round cfg tm ident (is_admin cfg ident) l m)"
proof -
  have choice: "keeps J (case c of
            MenuQuit \<Rightarrow> do { record_user cfg AuditLogout (id_Username ident) ''user logoff''; arm_pre_auth cfg; leave Logoff }
          | MenuAdmin \<Rightarrow>
              if \<not> is_admin cfg ident then again []
              else do {
                f \<leftarrow> adminFlow_Run cfg \<lparr>fl_identity = ident, fl_rows = geo_Rows (tm_Geometry tm)\<rparr>;
                (case f of Inl e \<Rightarrow> flow_error cfg ident ''admin flow error'' e | Inr _ \<Rightarrow> again [])
              }
          | MenuUserSettings \<Rightarrow>
              if l then again []
              else do {
                f \<leftarrow> userSettings cfg ident;
                (case f of Inl e \<Rightarrow> flow_error cfg ident ''user settings flow error'' e | Inr _ \<Rightarrow> again [])
              }
          | MenuService svc \<Rightarrow> bridge_service cfg tm ident svc
          | _ \<Rightarrow> again [])" for c
    by (cases c) (simp_all only: menu_choice.case, (intro session flow_error bridge userSettings admin assms; simp)+)
  have menu: "keeps J (p_Menu cfg tm (case r of Inl _ \<Rightarrow> [] | Inr ss \<Rightarrow> ss) (is_admin cfg ident) l
       \<lparr>ms_Username = id_Username ident, ms_TermType = [], ms_SystemID = sid, ms_Release = st_Release cfg, ms_Now = 0\<rparr> e helpMenuLines)"
    if "\<forall>svcs. r = Inr svcs \<longrightarrow> S ident svcs" for sid e and r :: "store_error + service list"
    by (rule p_Menu) (use that none[OF assms] in \<open>auto split: sum.split\<close>)
  show ?thesis unfolding menu_round_def Let_def
    by (rule hoare_pure[OF granted[OF assms]]) (intro session menu flow_error choice)
qed

lemma session_Run: "keeps J (session_Run cfg)"
proof -
  have menu: "P ident \<Longrightarrow> keeps J (run_menu cfg tm ident)" for tm ident
    unfolding run_menu_def by (intro session menu_round)
  have exits: "keeps J (case x of Logoff \<Rightarrow> again () | EndSession d \<Rightarrow> leave (n, d))" for x n and d :: string
    by (cases x) (auto intro: session)
  have pure: "(\<And>x. p x \<Longrightarrow> keeps J (k x)) \<Longrightarrow> hoare (\<lambda>w. J w \<and> p x) (k x) (\<lambda>_. J)" for p k x
    by (cases "p x") (auto simp: hoare_def)
  have "keeps J (session_round cfg tm x)" for tm x
    unfolding session_round_def
  proof (rule hoare_bind[OF session_effects(3)], rule hoare_try_bind[OF doLogin])
    fix r
    have "keeps J (case r of Inl detail \<Rightarrow> leave ([], detail)
     | Inr ident \<Rightarrow> do {
         regSetLogin cfg (id_Username ident);
         arm_post_auth cfg;
         try_bind (mfaGate cfg ident) (\<lambda>m. case m of
           Inl detail \<Rightarrow> leave (id_Username ident, detail)
         | Inr proceed \<Rightarrow>
             if \<not> proceed then again ()
             else try_bind (maybeShowNews cfg tm ident) (\<lambda>n. case n of
               None \<Rightarrow> leave (id_Username ident, ''news render error'')
             | Some enter \<Rightarrow>
                 if \<not> enter then again ()
                 else try_bind (run_menu cfg tm ident) (\<lambda>x. case x of
                   Logoff \<Rightarrow> again ()
                 | EndSession detail \<Rightarrow> leave (id_Username ident, detail))))
       })" if "\<forall>ident. r = Inr ident \<longrightarrow> P ident"
      using that by (intro session mfaGate maybeShowNews menu exits) simp
    then show "hoare (\<lambda>w. J w \<and> (\<forall>ident. Inr r = Inr (Inr ident) \<longrightarrow> P ident))
      (case r of Inl detail \<Rightarrow> leave ([], detail)
     | Inr ident \<Rightarrow> do {
         regSetLogin cfg (id_Username ident);
         arm_post_auth cfg;
         try_bind (mfaGate cfg ident) (\<lambda>m. case m of
           Inl detail \<Rightarrow> leave (id_Username ident, detail)
         | Inr proceed \<Rightarrow>
             if \<not> proceed then again ()
             else try_bind (maybeShowNews cfg tm ident) (\<lambda>n. case n of
               None \<Rightarrow> leave (id_Username ident, ''news render error'')
             | Some enter \<Rightarrow>
                 if \<not> enter then again ()
                 else try_bind (run_menu cfg tm ident) (\<lambda>x. case x of
                   Logoff \<Rightarrow> again ()
                 | EndSession detail \<Rightarrow> leave (id_Username ident, detail))))
       }) (\<lambda>_. J)" by (auto simp: hoare_def)
  qed simp
  then show ?thesis
    unfolding session_Run_def session_body_def by (intro session screens)
qed

end

end
