(* ===== verification/Session_Props.thy ===== *)
theory Session_Props
  imports Session_Inv
begin

text \<open>
  The guarantees of a connection, from \<open>session_Handle\<close> on: it ends, it follows the protocol, it
  keeps the gateway administrable, and it gives a user no more than the database grants.
\<close>

section \<open>A connection around its session\<close>

lemma sessionFor_cases:
  assumes "run_state (sessionFor h addr) w = (cfg, w1)"
  shows "st_Auditor cfg" "st_Limits cfg = (h_Limits h)\<lparr>il_Trusted := il_Trusted (st_Limits cfg)\<rparr>" "w_log w1 = w_log w"
  using assms by (auto simp: sessionFor_def stm_def run_zoom set_db_def split: prod.splits if_splits)

lemma IsTrusted_keeps: "faultless I \<Longrightarrow> keeps I (IsTrusted addr)"
  unfolding IsTrusted_def is_trusted_with_def LoadTrustedPrefixes_def ListTrustedNetworks_def
  by (intro keeps_store_rules)

text \<open>A handler's run is a session's run between effects that write nothing.\<close>

lemma session_Handle_cases:
  assumes "run_state (session_Handle h addr) w = (r, w')"
  obtains cfg w1 w2 where "st_Auditor cfg" "run_state (session_Run cfg) w1 = (r, w2)" "w_log w1 = w_log w" "w_log w' = w_log w2"
    "\<And>I. faultless I \<Longrightarrow> db_inv I w \<Longrightarrow> db_inv I w1"
proof -
  obtain cfg0 wa where a: "run_state (sessionFor h addr) w = (cfg0, wa)" by fastforce
  note c = sessionFor_cases[OF a]
  let ?reg = "on_registry (\<lambda>r. case r of None \<Rightarrow> (None, None)
      | Some reg \<Rightarrow> (case register reg (st_RemoteAddr cfg0) (w_now wa) of (i, reg') \<Rightarrow> (Some i, Some reg')))"
  obtain i wb where b: "run_state ?reg wa = (i, wb)" by fastforce
  then have lb: "w_log wb = w_log wa" by (auto simp: on_registry_def split: prod.splits)
  define cfg where "cfg = (case i of None \<Rightarrow> cfg0 | Some k \<Rightarrow> cfg0\<lparr>st_SessionID := k\<rparr>)"
  define w1 where "w1 = wb\<lparr>w_idle := wrapIdle (il_PreAuthIdle (h_Limits h))\<rparr>"
  obtain r2 w2 where run: "run_state (session_Run cfg) w1 = (r2, w2)" by fastforce
  have "r2 = r \<and> w_log w' = w_log w2"
    using assms a b run
    unfolding session_Handle_def cfg_def w1_def
    by (auto simp: clock_def regime_def reg_update_def on_registry_def split: option.splits prod.splits)
  moreover have "st_Auditor cfg" using c(1) by (simp add: cfg_def split: option.split)
  moreover have "w_log w1 = w_log w" using c(3) lb by (simp add: w1_def)
  moreover have "db_inv I w1" if f: "faultless I" and w: "db_inv I w" for I
  proof -
    have "keeps (db_inv I) (sessionFor h addr)"
      unfolding sessionFor_def by (intro keeps_rules keeps_stm IsTrusted_keeps f)
    from hoareD[OF keeps_registry hoareD[OF this w a] b] have "db_inv I wb" .
    then show ?thesis by (simp add: w1_def world_inv_def)
  qed
  ultimately show ?thesis using run that by blast
qed

lemma session_Run_total: "\<exists>w'. run_state (session_Run cfg) w = (Inr (), w')"
  using steady_handled[OF session_Run_steady session_Run_handled, of cfg w] by (metis old.unit.exhaust prod.collapse)

lemma session_Run_protocol:
  assumes "st_Auditor cfg" "run_state (session_Run cfg) w = (Inr (), w')"
  obtains obs where "w_log w' = w_log w @ obs" "protocol Opening obs = Some Closed"
proof -
  have "at_phase (w_log w) (\<lambda>ph. ph = Opening) w" by (simp add: at_phase_def)
  from hoareD[OF session_Run_phase[OF assms(1)] this assms(2)]
  show ?thesis using that by (auto simp: at_phase_def)
qed

section \<open>A sample connection\<close>

text \<open>BOB, an operator, logs on, opens TSO, escapes from it and logs off.\<close>

definition sample_settings :: settings where
  "sample_settings =
     \<lparr>st_Limits = \<lparr>il_PreAuthIdle = 0, il_PreAuthMax = 0, il_Idle = 0, il_Trusted = False, il_BridgeIdleExempt = False\<rparr>,
      st_Release = ''1.0'', st_RemoteAddr = [], st_SessionID = 0, st_AuditID = ''s1'', st_AdminPresenter = True,
      st_Auditor = True, st_MFA = None,
      lib_compare = (\<lambda>hash p. hash = ''hash-'' @ p), lib_hash = (\<lambda>_ p. Some (''hash-'' @ p)),
      lib_hotp = (\<lambda>_ _. None), lib_secret = (\<lambda>_ _ _. None), lib_nonce = (\<lambda>_. None),
      lib_fs = (\<lambda>_. FileMissing []), lib_resolve = (\<lambda>_. None), lib_errtext = (\<lambda>_. [])\<rparr>"

definition sample_handler :: handler where
  "sample_handler = \<lparr>h_Limits = st_Limits sample_settings, h_Trust = False, h_settings = sample_settings\<rparr>"

definition event_at :: "go_time \<Rightarrow> session_event \<Rightarrow> input" where
  "event_at t e = \<lparr>in_at = t, in_env = id, in_event = e\<rparr>"

definition sample_world :: world where
  "sample_world =
     \<lparr>w_shared = \<lparr>sh_db = sample_db\<lparr>db_user_groups := [(2, 2)]\<rparr>, sh_throttle = Some newAuthThrottle, sh_registry = None\<rparr>,
      w_script = [event_at 1 (EvTerm ''IBM-3278-2-E'' 24 80),
                  key_at 2 AIDEnter [(LoginUsername, ''bob''), (LoginPassword, ''b'')],
                  key_at 3 AIDEnter [(FieldSelection, ''1'')],
                  event_at 4 (EvBridge CauseUserEscaped None),
                  key_at 5 (AIDPF 3) []],
      w_now = 1, w_idle = None, w_actor = [], w_draws = 0, w_log = []\<rparr>"

definition kind_of :: "observation \<Rightarrow> string" where
  "kind_of ob = (case ob of OView (VLogin _ _ _) \<Rightarrow> ''login'' | OView (VMenu svcs _ _ _ _ _) \<Rightarrow> ''menu'' | OView _ \<Rightarrow> ''view''
     | OAudit ev \<Rightarrow> ae_Kind ev | OBridge svc _ \<Rightarrow> s_Name svc | _ \<Rightarrow> [])"

lemma sample_env: "i \<in> set (w_script sample_world) \<Longrightarrow> in_env i = id"
  by (auto simp: sample_world_def event_at_def key_at_def)

lemma sample_run:
  "map kind_of (w_log (snd (run_state (session_Handle sample_handler None) sample_world))) =
     [''connect'', ''login'', ''auth_ok'', ''menu'', ''bridge_start'', ''TSO'', ''bridge_end'', ''menu'', ''logout'',
      ''login'', ''disconnect'']"
  by code_simp

text \<open>
  C6. Every session ends: whatever the terminal sends and however the database fails, however the
  rest of the process interferes, a connection's session returns, with every loop of it (login,
  second factor, news, menu, administrator's lists, forms, editors, viewers) having consumed
  input in each round, and with every failure of the connection turned into an outcome.
\<close>

theorem session_always_ends: "\<exists>w'. run_state (session_Run cfg) w = (Inr (), w')"
  by (rule session_Run_total)

text \<open>
  C1. A connection follows the protocol: its observations are one connect record, then login
  screens until an authentication succeeds, then gates (second factor, news), then menus of the
  authenticated user; administrator screens appear only below a menu that offers them,
  self-service only below a menu that is not locked; a backend is dialled only between the two
  records of the bridge and only for a service on the menu on the screen; the login screen comes
  back only from a gate or after a logout record of that user; and last comes one disconnect
  record that names the user then logged in.
\<close>

theorem session_follows_protocol:
  "\<exists>obs w'. run_state (session_Handle h addr) w = (Inr (), w') \<and> w_log w' = w_log w @ obs \<and>
     protocol Opening obs = Some Closed"
proof -
  obtain r w' where h: "run_state (session_Handle h addr) w = (r, w')" by fastforce
  show ?thesis
  proof (rule session_Handle_cases[OF h])
    fix cfg w1 w2
    assume s: "st_Auditor cfg" "run_state (session_Run cfg) w1 = (r, w2)" "w_log w1 = w_log w" "w_log w' = w_log w2"
    have r: "r = Inr ()" using session_Run_total[of cfg w1] s(2) by auto
    obtain obs where "w_log w2 = w_log w1 @ obs" "protocol Opening obs = Some Closed"
      using session_Run_protocol[OF s(1) s(2)[unfolded r]] .
    then show ?thesis using h r s(3,4) by simp
  qed
qed

section \<open>Database invariants\<close>

lemma db_stable:
  assumes "faultless I" "\<And>i h. keeps I (SetPassword i h)" "\<And>i e t n. keeps I (StoreMFAEnrollment i e t n)"
    "\<And>i n. keeps I (UpdateMFAStep i n)" "\<And>i. keeps I (ClearMFA i)" "\<And>ev. keeps I (RecordAudit ev)"
  shows "keeps (db_inv I) (audit_record cfg ev)" "keeps (db_inv I) (fail_delay n)" "keeps (db_inv I) (throttle_reset n)"
    "keeps (db_inv I) (reg_update ru)" "keeps (db_inv I) (regime arm)" "keeps (db_inv I) (p_Bridge cfg svc ty)"
    "keeps (db_inv I) (stm (GetConfig k))" "keeps (db_inv I) (stm (GetDocument n))" "keeps (db_inv I) (stm (GetUserByUsername n))"
    "keeps (db_inv I) (stm (Authenticate cmp n p))" "keeps (db_inv I) (stm (ListServicesForGroups gs))"
proof -
  show r: "keeps (db_inv I) (stm (GetConfig k))" "keeps (db_inv I) (stm (GetDocument n))" "keeps (db_inv I) (stm (GetUserByUsername n))"
    "keeps (db_inv I) (stm (Authenticate cmp n p))" "keeps (db_inv I) (stm (ListServicesForGroups gs))" for k n p gs
    unfolding GetConfig_def GetDocument_def GetUserByUsername_def ListServicesForGroups_def Let_def
    by (intro keeps_stm keeps_store_rules keeps_Authenticate assms(1))+
  show "keeps (db_inv I) (audit_record cfg ev)"
    unfolding audit_record_def auditor_Record_def Let_def by (intro io_keeps keeps_stm assms(6) world_keeps)
  show "keeps (db_inv I) (fail_delay n)"
    unfolding fail_delay_def Let_def by (intro io_keeps r world_keeps)
  show "keeps (db_inv I) (throttle_reset n)" "keeps (db_inv I) (reg_update ru)"
    unfolding throttle_reset_def reg_update_def by (rule world_keeps)+
  show "keeps (db_inv I) (regime arm)" by (auto simp: regime_def hoare_def world_inv_def)
  show "keeps (db_inv I) (p_Bridge cfg svc ty)"
    by (auto simp: p_Bridge_def emit_def hoare_def world_inv_def Let_def split: list.splits session_event.splits if_splits)
qed

interpretation admin_session: session_stable cfg "world_admin aid" "\<lambda>_. True" "\<lambda>_ _. True" for cfg aid
proof -
  note st = db_stable[OF faultless_admin(1) admin_users(1,4,5,6) admin_other_tables(10)]
  show "session_stable cfg (world_admin aid) (\<lambda>_. True) (\<lambda>_ _. True)"
    by unfold_locales
      (auto intro!: st keeps_await world_keeps keeps_stm admin_users adminFlow_keeps)
qed

lemma Handle_keeps:
  assumes "faultless I" "\<And>cfg. keeps (db_inv I) (session_Run cfg)"
  shows "keeps (db_inv I) (session_Handle h addr)"
proof -
  have reg: "keeps (db_inv I) (regime arm)" "keeps (db_inv I) (reg_update ru)" for arm ru
    unfolding reg_update_def by (rule_tac [2] world_keeps) (auto simp: regime_def hoare_def world_inv_def)
  show ?thesis
    unfolding session_Handle_def sessionFor_def
    by (intro keeps_rules keeps_stm IsTrusted_keeps assms reg world_keeps)
qed



section \<open>Least privilege\<close>

text \<open>
  A policy: the groups each user may be in, and the services each group (by its name in lower
  case) may be granted. The database is confined when it grants no more.
\<close>

definition confined :: "(string \<Rightarrow> string set) \<Rightarrow> (string \<Rightarrow> service set) \<Rightarrow> db \<Rightarrow> bool" where
  "confined grp ent d \<longleftrightarrow>
     (\<forall>u\<in>set (db_users d). set (user_group_names (u_ID u) d) \<subseteq> grp (u_Username u)) \<and>
     (\<forall>g\<in>set (db_groups d). \<forall>s\<in>set (db_services d).
        (g_ID g, s_ID s) \<in> set (db_group_services d) \<longrightarrow> s \<in> ent (to_lower (g_Name g)))"

definition entitled :: "(string \<Rightarrow> string set) \<Rightarrow> (string \<Rightarrow> service set) \<Rightarrow> string \<Rightarrow> service set" where
  "entitled grp ent u = (\<Union>n\<in>grp u. ent (to_lower n))"

fun policy_ob :: "(string \<Rightarrow> string set) \<Rightarrow> (string \<Rightarrow> service set) \<Rightarrow> observation \<Rightarrow> bool" where
  "policy_ob grp ent (OView (VMenu svcs a l st m pg)) = (\<not> a \<and> set svcs \<subseteq> entitled grp ent (ms_Username st))"
| "policy_ob grp ent (OView v) = plain_view v"
| "policy_ob grp ent _ = True"

lemma policy_view: "plain_view v \<Longrightarrow> policy_ob grp ent (OView v)"
  by (cases v) auto

lemma faultless_confined: "faultless (confined grp ent)"
  by (simp add: faultless_def confined_def)

lemma user_group_names_users [simp]:
  "user_group_names i (d\<lparr>db_users := us\<rparr>) = user_group_names i d"
  "user_group_names i (d\<lparr>db_audit := evs, db_audit_seq := n\<rparr>) = user_group_names i d"
  by (simp_all add: user_group_names_def cong: if_cong)

lemma confined_map:
  "confined grp ent d \<Longrightarrow> (\<And>u. u_ID (g u) = u_ID u) \<Longrightarrow> (\<And>u. u_Username (g u) = u_Username u) \<Longrightarrow>
   confined grp ent (d\<lparr>db_users := map g (db_users d)\<rparr>)"
  by (simp add: confined_def)

lemma confined_users:
  assumes "\<And>u. u_ID (f u) = u_ID u" "\<And>u. u_Username (f u) = u_Username u"
  shows "keeps (confined grp ent) (update_user i f)"
  unfolding update_user_def
  by (rule keeps_execExpectingRow[OF faultless_confined], rule confined_map) (simp_all add: assms)

lemma confined_writes:
  "keeps (confined grp ent) (SetPassword i h)" "keeps (confined grp ent) (StoreMFAEnrollment i e t n)"
  "keeps (confined grp ent) (UpdateMFAStep i n)" "keeps (confined grp ent) (ClearMFA i)"
  "keeps (confined grp ent) (RecordAudit ev)"
proof -
  show "keeps (confined grp ent) (RecordAudit ev)"
    unfolding RecordAudit_def Let_def
    by (rule keeps_exec[OF faultless_confined]) (simp add: confined_def)
qed (unfold SetPassword_def StoreMFAEnrollment_def UpdateMFAStep_def ClearMFA_def, (rule confined_users; simp add: clear_mfa_def)+)

lemma pure_stm:
  assumes "faultless I" "hoare I m (\<lambda>r d. I d \<and> p r)"
  shows "hoare (db_inv I) (stm m) (\<lambda>r w. db_inv I w \<and> p r)"
  by (rule hoare_weaken_pre[OF hoare_stm[OF _ assms(2)]]) (auto simp: world_inv_def w_db_def)

lemma confined_login:
  "hoare (db_inv (confined grp ent)) (stm (Authenticate cmp n p))
     (\<lambda>r w. db_inv (confined grp ent) w \<and> (\<forall>ident. r = Inr ident \<longrightarrow> set (id_Groups ident) \<subseteq> grp (id_Username ident)))"
proof (rule pure_stm[OF faultless_confined], rule hoareI)
  fix d r d' assume c: "confined grp ent d" and m: "run_state (Authenticate cmp n p) d = (r, d')"
  have "set (id_Groups ident) \<subseteq> grp (id_Username ident)" if r: "r = Inr ident" for ident
  proof -
    obtain u where "find_user (to_upper n) d = Some u" "id_Username ident = u_Username u" "id_Groups ident = user_group_names (u_ID u) d"
      using st.authenticate_ok[of cmp n p d ident d'] m unfolding r Authenticate_def by auto
    then show ?thesis using c by (auto simp: confined_def find_user_def find_Some_iff)
  qed
  then show "confined grp ent d' \<and> (\<forall>ident. r = Inr ident \<longrightarrow> set (id_Groups ident) \<subseteq> grp (id_Username ident))"
    using hoareD[OF keeps_Authenticate[OF faultless_confined] c m] by blast
qed

lemma confined_services:
  assumes "set (id_Groups ident) \<subseteq> grp (id_Username ident)"
  shows "hoare (db_inv (confined grp ent)) (stm (ListServicesForGroups (id_Groups ident)))
     (\<lambda>r w. db_inv (confined grp ent) w \<and> (\<forall>svcs. r = Inr svcs \<longrightarrow> set svcs \<subseteq> entitled grp ent (id_Username ident)))"
proof (rule pure_stm[OF faultless_confined])
  have ss: "set (services_for_groups names d) \<subseteq> entitled grp ent (id_Username ident)"
    if "confined grp ent d" "set names \<subseteq> grp (id_Username ident)" for names d
    using that by (auto simp: set_services_for_groups confined_def entitled_def nocase_def) (metis subsetD)
  have q: "hoare (confined grp ent) (query (services_for_groups (id_Groups ident)))
     (\<lambda>r d. confined grp ent d \<and> (\<forall>svcs. r = Inr svcs \<longrightarrow> set svcs \<subseteq> entitled grp ent (id_Username ident)))"
    by (rule hoare_strengthen_post[OF query_post[OF faultless_confined]])
      (use ss[OF _ assms] faultlessD[OF faultless_confined] in blast)
  show "hoare (confined grp ent) (ListServicesForGroups (id_Groups ident))
     (\<lambda>r d. confined grp ent d \<and> (\<forall>svcs. r = Inr svcs \<longrightarrow> set svcs \<subseteq> entitled grp ent (id_Username ident)))"
    unfolding ListServicesForGroups_def
    by (rule hoare_if[OF _ q]) (simp add: hoare_def)
qed

lemma policy_log:
  "keeps (log_after pre (policy_ob grp ent)) (audit_record cfg ev)"
  "keeps (log_after pre (policy_ob grp ent)) (io_sleep d)"
  "keeps (log_after pre (policy_ob grp ent)) (emit (OAuthFailed n y))"
  "keeps (log_after pre (policy_ob grp ent)) (regime arm)"
  "keeps (log_after pre (policy_ob grp ent)) (p_Bridge cfg svc ty)"
proof -
  show "keeps (log_after pre (policy_ob grp ent)) (p_Bridge cfg svc ty)"
    unfolding p_Bridge_def
    by (intro keeps_rules keeps_log_emit keeps_log_eff) (auto simp: Let_def split: list.split session_event.split)
  show "keeps (log_after pre (policy_ob grp ent)) (regime arm)"
    by (rule keeps_log_eff) (simp add: regime_def)
qed (intro keeps_log_audit keeps_log_sleep keeps_log_emit; simp)+

definition within :: "(string \<Rightarrow> string set) \<Rightarrow> (string \<Rightarrow> service set) \<Rightarrow> observation list \<Rightarrow> world \<Rightarrow> bool" where
  "within grp ent pre w \<longleftrightarrow> db_inv (confined grp ent) w \<and> log_after pre (policy_ob grp ent) w"

lemma within_keeps:
  "keeps (db_inv (confined grp ent)) m \<Longrightarrow> keeps (log_after pre (policy_ob grp ent)) m \<Longrightarrow> keeps (within grp ent pre) m"
  unfolding within_def by (rule hoare_conj)

lemma within_pure:
  assumes "hoare (db_inv (confined grp ent)) (stm m) (\<lambda>r w. db_inv (confined grp ent) w \<and> p r)"
  shows "hoare (within grp ent pre) (stm m) (\<lambda>r w. within grp ent pre w \<and> p r)"
  unfolding within_def
  by (rule hoare_strengthen_post[OF hoare_conj[OF assms keeps_log_ops(1)]]) simp

lemma policy_stable:
  assumes "\<forall>u. AdminGroup \<notin> grp u"
  shows "session_stable cfg (within grp ent pre) (\<lambda>ident. set (id_Groups ident) \<subseteq> grp (id_Username ident))
    (\<lambda>ident svcs. \<not> is_admin cfg ident \<and> set svcs \<subseteq> entitled grp ent (id_Username ident))"
proof -
  note st = db_stable[OF faultless_confined confined_writes]
  have u: "\<not> is_admin cfg ident" if "set (id_Groups ident) \<subseteq> grp (id_Username ident)" for ident
    using that assms by (auto simp: is_admin_def)
  have menu: "\<not> a \<Longrightarrow> set svcs \<subseteq> entitled grp ent (ms_Username ms) \<Longrightarrow>
      keeps (within grp ent pre) (handleScreen cfg (VMenu svcs a l ms m pg) ks)" for svcs a l ms m pg ks
    by (intro within_keeps world_keeps keeps_log_screen) simp
  have screen: "plain_view v \<Longrightarrow> keeps (within grp ent pre) (handleScreen cfg v ks)" for v ks
    by (intro within_keeps world_keeps keeps_log_screen policy_view)
  note rules = within_keeps st keeps_await keeps_log_ops policy_log world_keeps session_effects_log keeps_stm confined_writes
  show ?thesis
    by unfold_locales
      (auto intro!: rules within_pure[OF confined_login]
        simp: u menu screen hoare_strengthen_post[OF within_pure[OF confined_services]])
qed

text \<open>Along the protocol, the services of the phase stay within the policy.\<close>

fun phase_within :: "(string \<Rightarrow> string set) \<Rightarrow> (string \<Rightarrow> service set) \<Rightarrow> phase \<Rightarrow> bool" where
  "phase_within grp ent (InMenu u _ _ svcs) = (set svcs \<subseteq> entitled grp ent u)"
| "phase_within grp ent (Dialling u _ _ svcs _) = (set svcs \<subseteq> entitled grp ent u)"
| "phase_within grp ent (Bridged u _ _ svcs _) = (set svcs \<subseteq> entitled grp ent u)"
| "phase_within grp ent _ = True"

lemma audit_step_within: "audit_step ph ev = Some ph' \<Longrightarrow> phase_within grp ent ph \<Longrightarrow> phase_within grp ent ph'"
  by (cases ph) (auto simp: audit_step_def Let_def split: if_splits)

lemma view_step_within:
  "view_step ph v = Some ph' \<Longrightarrow> policy_ob grp ent (OView v) \<Longrightarrow> phase_within grp ent ph \<Longrightarrow> phase_within grp ent ph'"
  by (cases ph; cases v) (auto split: if_splits)

lemma protocol_step_within:
  assumes "protocol_step ph ob = Some ph'" "policy_ob grp ent ob" "phase_within grp ent ph"
  shows "phase_within grp ent ph'"
proof (cases ob)
  case (OView v)
  then show ?thesis using assms view_step_within by simp
next
  case (OAudit ev)
  then show ?thesis using assms audit_step_within by simp
next
  case (OBridge svc t)
  then show ?thesis using assms by (cases ph) (auto split: if_splits)
qed (use assms in \<open>auto split: if_splits\<close>)

lemma protocol_within:
  "protocol ph obs = Some ph' \<Longrightarrow> list_all (policy_ob grp ent) obs \<Longrightarrow> phase_within grp ent ph \<Longrightarrow> phase_within grp ent ph'"
  by (induction obs arbitrary: ph) (auto split: option.splits dest: protocol_step_within)

lemma dialled_within:
  assumes "protocol Opening (xs @ OBridge svc t # ys) = Some ph" "list_all (policy_ob grp ent) xs"
  shows "svc \<in> entitled grp ent (who (the (protocol Opening xs)))"
proof -
  obtain ph1 where x: "protocol Opening xs = Some ph1" "protocol ph1 (OBridge svc t # ys) = Some ph"
    using assms(1) by (auto simp: protocol_append split: option.splits)
  have "phase_within grp ent ph1" by (rule protocol_within[OF x(1) assms(2)]) simp
  then show ?thesis using x by (cases ph1) (auto split: if_splits option.splits)
qed


definition sample_groups :: "string \<Rightarrow> string set" where "sample_groups _ = {''OPS''}"
definition sample_grants :: "string \<Rightarrow> service set" where
  "sample_grants n = (if n = ''ops'' then set (db_services sample_db) else {})"


end
