(* ===== verification/Gate_Props.thy ===== *)
theory Gate_Props
  imports Session_Props
begin

text \<open>
  What it takes to pass the gates: an identity comes from a name and a password that were typed
  and that the database accepts, the second factor from a code that was typed and is valid.
\<close>

section \<open>What was typed\<close>

definition script_in :: "input set \<Rightarrow> world \<Rightarrow> bool" where
  "script_in A w \<longleftrightarrow> set (w_script w) \<subseteq> A"

definition typed :: "input set \<Rightarrow> response \<Rightarrow> bool" where
  "typed A resp \<longleftrightarrow> EvResponse resp \<in> in_event ` A"

lemma script_kept_in: "script_kept m \<Longrightarrow> keeps (script_in A) m"
  unfolding script_kept_def script_in_def hoare_def by (metis (no_types, lifting) case_prod_beta)

lemma await_typed: "hoare (script_in A) (await cfg) (\<lambda>r w. script_in A w \<and> (\<forall>resp. r = Inr (EvResponse resp) \<longrightarrow> typed A resp))"
  by (auto simp: hoare_def await_def Let_def script_in_def typed_def split: if_splits list.splits) (metis imageI)+

lemma HandleScreenAlt_typed:
  "hoare (script_in A) (HandleScreenAlt cfg v ks) (\<lambda>r w. script_in A w \<and> (\<forall>resp. r = Inr resp \<longrightarrow> typed A resp))"
  unfolding HandleScreenAlt_def
proof (rule hoare_loop, rule hoare_bind[OF script_kept_in[OF script_kept_emit]], rule hoare_try_bind[OF await_typed])
  fix e :: session_event
  show "hoare (\<lambda>w. script_in A w \<and> (\<forall>resp. Inr e = Inr (EvResponse resp) \<longrightarrow> typed A resp))
      (case e of EvResponse resp \<Rightarrow> if rs_AID resp \<in> set (AIDEnter # ks) then leave resp else again () | _ \<Rightarrow> io_fail IoDead)
      (rounds (script_in A) (\<lambda>r w. script_in A w \<and> (\<forall>resp. r = Inr resp \<longrightarrow> typed A resp)))"
    by (cases e) (auto intro: rounds_leave rounds_again rounds_fail)
qed (auto simp: rounds_def)

lemma handleScreen_typed:
  "hoare (script_in A) (handleScreen cfg v ks) (\<lambda>r w. script_in A w \<and> (\<forall>resp. r = Inr resp \<longrightarrow> typed A resp))"
  unfolding handleScreen_def
  by (rule hoare_loop, rule hoare_try_bind[OF HandleScreenAlt_typed])
    (auto simp: rounds_def[of _ _ "Inl _"] intro!: hoare_if rounds_leave rounds_again)

text \<open>A triple that carries a fact about the value.\<close>

lemma typed_bind:
  assumes "hoare (script_in A) m (\<lambda>r w. script_in A w \<and> p r)" "\<And>x. p x \<Longrightarrow> hoare (script_in A) (k x) Q"
  shows "hoare (script_in A) (do { x \<leftarrow> m; k x }) Q"
  by (rule hoare_pure[OF assms])

section \<open>The second factor\<close>

definition valid_code :: "input set \<Rightarrow> settings \<Rightarrow> string \<Rightarrow> 64 word \<Rightarrow> bool" where
  "valid_code A cfg secret floor \<longleftrightarrow> (\<exists>resp t step. typed A resp \<and>
     Validate (lib_hotp cfg) secret (trim_space (resp_value resp FieldMFACode)) floor t = Inr (True, step))"

lemma code_screens_typed:
  "hoare (script_in A) (p_EnrollMFA cfg i a c m)
     (\<lambda>r w. script_in A w \<and> (\<forall>code. r = Inr (Some code) \<longrightarrow> (\<exists>resp. typed A resp \<and> code = trim_space (resp_value resp FieldMFACode))))"
  "hoare (script_in A) (p_VerifyMFA cfg m)
     (\<lambda>r w. script_in A w \<and> (\<forall>code. r = Inr (Some code) \<longrightarrow> (\<exists>resp. typed A resp \<and> code = trim_space (resp_value resp FieldMFACode))))"
  unfolding p_EnrollMFA_def p_VerifyMFA_def
  by (rule hoare_try_bind[OF handleScreen_typed]; auto intro!: hoare_io_return)+

text \<open>Without a valid code the rounds only go round again or give up.\<close>

abbreviation never :: "input set \<Rightarrow> 'a \<Rightarrow> io_err + 'a \<Rightarrow> world \<Rightarrow> bool" where
  "never A x r w \<equiv> script_in A w \<and> r \<noteq> Inr x"

lemma never_rounds:
  "y \<noteq> x \<Longrightarrow> hoare (script_in A) (leave y) (rounds (script_in A) (never A x))"
  "hoare (script_in A) (again z) (rounds (script_in A) (never A x))"
  "hoare (script_in A) (io_fail e) (rounds (script_in A) (never A x))"
  by (rule rounds_leave rounds_again rounds_fail; simp)+

lemma effect_bind: "script_kept m \<Longrightarrow> (\<And>x. hoare (script_in A) (k x) Q) \<Longrightarrow> hoare (script_in A) (do { x \<leftarrow> m; k x }) Q"
  by (rule hoare_bind[OF script_kept_in])

lemmas effects_in = effect_bind world_progress session_scripts reject_scripts

lemma enroll_needs_code:
  assumes "\<not> valid_code A cfg secret 0"
  shows "hoare (script_in A) (confirmEnroll cfg cipher u secret) (never A (Inr True))"
proof -
  have no: "Validate (lib_hotp cfg) secret (trim_space (resp_value resp FieldMFACode)) 0 t \<noteq> Inr (True, step)" if "typed A resp" for resp t step
    using assms that by (auto simp: valid_code_def)
  have "hoare (script_in A) (enroll_round cfg cipher u secret issuer m) (rounds (script_in A) (never A (Inr True)))" for issuer m
    unfolding enroll_round_def
    by (rule typed_bind[OF code_screens_typed(1)])
      (auto split: sum.split option.split prod.split simp: no intro!: never_rounds effects_in)
  then show ?thesis unfolding confirmEnroll_def
    by (intro hoare_bind[OF script_kept_in[OF session_scripts(6)]] hoare_loop) auto
qed

lemma verify_needs_code:
  assumes "\<not> valid_code A cfg secret (word_of_int (u_MFALastStep u))"
  shows "hoare (script_in A) (io_loop (verify_round cfg u secret) m) (never A (Inr True))"
proof -
  have no: "Validate (lib_hotp cfg) secret (trim_space (resp_value resp FieldMFACode)) (word_of_int (u_MFALastStep u)) t \<noteq> Inr (True, step)"
    if "typed A resp" for resp t step
    using assms that by (auto simp: valid_code_def)
  have "hoare (script_in A) (verify_round cfg u secret m) (rounds (script_in A) (never A (Inr True)))" for m
    unfolding verify_round_def
    by (rule typed_bind[OF code_screens_typed(2)])
      (auto split: sum.split option.split prod.split simp: no intro!: never_rounds effects_in)
  then show ?thesis by (intro hoare_loop) auto
qed

lemma generateSecret_from:
  "hoare (script_in A) (generateSecret cfg i n) (\<lambda>r w. script_in A w \<and> (\<exists>k. r = lib_secret cfg k i n))"
  by (auto simp: generateSecret_def draw_def hoare_def script_in_def)

lemma mfaEnroll_needs_code:
  assumes "\<And>k i secret. lib_secret cfg k i (u_Username u) = Some secret \<Longrightarrow> \<not> valid_code A cfg secret 0"
  shows "hoare (script_in A) (mfaEnroll cfg cipher u) (never A (Inr True))"
proof -
  have out: "hoare (script_in A) (io_return (Inl d)) (never A (Inr True))" "hoare (script_in A) (io_return (Inr False)) (never A (Inr True))" for d
    by (rule hoare_io_return; simp)+
  have "hoare (script_in A) (try_bind (confirmEnroll cfg cipher u secret) (\<lambda>r. case r of
            Inl (detail, e) \<Rightarrow>
              if isTimeoutErr e then do { idle_logout cfg (u_Username u); io_return (Inr False) }
              else io_return (Inl detail)
          | Inr confirmed \<Rightarrow>
              if \<not> confirmed then do { arm_pre_auth cfg; io_return (Inr False) } else io_return (Inr True))) (never A (Inr True))"
    if "\<not> valid_code A cfg secret 0" for secret
  proof (rule hoare_try_bind[OF enroll_needs_code[OF that]])
    fix x :: "(string \<times> io_err) + bool"
    show "hoare (never A (Inr True) (Inr x)) (case x of
            Inl (detail, e) \<Rightarrow>
              if isTimeoutErr e then do { idle_logout cfg (u_Username u); io_return (Inr False) }
              else io_return (Inl detail)
          | Inr confirmed \<Rightarrow>
              if \<not> confirmed then do { arm_pre_auth cfg; io_return (Inr False) } else io_return (Inr True)) (never A (Inr True))"
    proof (cases x)
      case (Inl y)
      then show ?thesis by (cases y) (auto intro!: out effects_in)
    next
      case (Inr c)
      then show ?thesis by (cases c) (auto intro!: out effects_in simp: hoare_def[of "\<lambda>_. False"])
    qed
  qed simp
  then show ?thesis
    unfolding mfaEnroll_def
    by (intro effect_bind[OF session_scripts(6)] typed_bind[OF generateSecret_from])
      (auto split: option.split intro!: out dest: assms sym)
qed


text \<open>BOB with an enrolled secret, at the code screen.\<close>

definition sample_cipher :: aead where
  "sample_cipher = \<lparr>NonceSize = 2, aead_Seal = (\<lambda>n m. rev m), aead_Open = (\<lambda>n s. Some (rev s))\<rparr>"

definition mfa_settings :: settings where
  "mfa_settings = sample_settings\<lparr>st_MFA := Some sample_cipher, lib_hotp := toy_hotp\<rparr>"

definition mfa_world :: world where
  "mfa_world = set_db (sample_db\<lparr>db_users := [(new_user 2 ''BOB'' ''hash-b'')\<lparr>u_MFASecret := b64_encode ''abYEK''\<rparr>]\<rparr>)
     (sample_world\<lparr>w_script := [key_at (unix_time 300) AIDEnter [(FieldMFACode, ''111111'')]], w_now := unix_time 290\<rparr>)"

definition bob :: identity where
  "bob = \<lparr>id_UserID = 2, id_Username = ''BOB'', id_Groups = [''OPS'']\<rparr>"

lemma mfa_run: "fst (run_state (mfaGate mfa_settings bob) mfa_world) = Inr (Inr True)"
  by code_simp


section \<open>Logging on\<close>

definition accepts :: "settings \<Rightarrow> db \<Rightarrow> string \<Rightarrow> string \<Rightarrow> identity \<Rightarrow> bool" where
  "accepts cfg d name pass ident \<longleftrightarrow> (\<exists>u\<in>set (db_users d).
     nocase (u_Username u) name \<and> lib_compare cfg (u_PasswordHash u) pass \<and>
     ident = \<lparr>id_UserID = u_ID u, id_Username = u_Username u, id_Groups = user_group_names (u_ID u) d\<rparr>)"

definition login_inv :: "input set \<Rightarrow> (db \<Rightarrow> bool) \<Rightarrow> world \<Rightarrow> bool" where
  "login_inv A I w \<longleftrightarrow> script_in A w \<and> db_inv I w"

lemma login_inv_keeps: "script_kept m \<Longrightarrow> keeps (db_inv I) m \<Longrightarrow> keeps (login_inv A I) m"
  unfolding login_inv_def by (intro hoare_conj script_kept_in)

lemma authenticate_accepts:
  assumes "faultless I"
  shows "hoare (login_inv A I) (authenticate cfg n p) (\<lambda>r w. login_inv A I w \<and> (\<forall>ident. r = Inr ident \<longrightarrow> (\<exists>d. I d \<and> accepts cfg d n p ident)))"
proof (rule hoareI)
  fix w r w' assume w: "login_inv A I w" and m: "run_state (authenticate cfg n p) w = (r, w')"
  have "keeps (db_inv I) (authenticate cfg n p)"
    unfolding authenticate_def by (rule keeps_stm[OF keeps_Authenticate[OF assms]])
  then have "login_inv A I w'" using hoareD[OF login_inv_keeps[OF session_scripts(18)] w m] by blast
  moreover have "\<exists>d. I d \<and> accepts cfg d n p ident" if r: "r = Inr ident" for ident
  proof -
    obtain d' where a: "run_state (Authenticate (lib_compare cfg) n p) (w_db w) = (Inr ident, d')"
      using m unfolding r authenticate_def stm_def run_zoom by (auto split: prod.splits)
    obtain u where u: "find_user (to_upper n) (w_db w) = Some u" "lib_compare cfg (u_PasswordHash u) p"
      "ident = \<lparr>id_UserID = u_ID u, id_Username = u_Username u, id_Groups = user_group_names (u_ID u) (w_db w)\<rparr>"
      using st.authenticate_ok[of "lib_compare cfg" n p "w_db w" ident d'] a unfolding Authenticate_def by auto
    then have "u \<in> set (db_users (w_db w))" "nocase (u_Username u) n" by (auto simp: find_user_def find_Some_iff)
    with u(2,3) have "accepts cfg (w_db w) n p ident" unfolding accepts_def by blast
    moreover have "I (w_db w)" using w by (simp add: login_inv_def world_inv_def w_db_def)
    ultimately show ?thesis by blast
  qed
  ultimately show "login_inv A I w' \<and> (\<forall>ident. r = Inr ident \<longrightarrow> (\<exists>d. I d \<and> accepts cfg d n p ident))" by blast
qed

lemma p_Login_typed:
  "hoare (login_inv A I) (p_Login cfg st b m) (\<lambda>r w. login_inv A I w \<and> (\<forall>n p. r = Inr (Some (n, p)) \<longrightarrow>
     (\<exists>resp. typed A resp \<and> n = trim_space (resp_value resp LoginUsername) \<and> p = resp_value resp LoginPassword)))"
proof -
  have "hoare (login_inv A I) (handleScreen cfg v ks) (\<lambda>r w. login_inv A I w \<and> (\<forall>resp. r = Inr resp \<longrightarrow> typed A resp))" for v ks
    unfolding login_inv_def
    by (rule hoare_strengthen_post[OF hoare_conj[OF handleScreen_typed keeps_handleScreen]]) auto
  then show ?thesis unfolding p_Login_def
    by (intro hoare_bind[OF login_inv_keeps[OF script_kept_clock]] world_keeps)
      (rule hoare_try_bind, assumption, auto intro!: hoare_io_return)
qed

lemma login_effects:
  assumes "faultless I" "\<And>ev. keeps I (RecordAudit ev)"
  shows "keeps (login_inv A I) loginBranding" "keeps (login_inv A I) systemID" "keeps (login_inv A I) (throttle_reset n)"
    "keeps (login_inv A I) (setActor n)" "keeps (login_inv A I) (record_user cfg k n d)" "keeps (login_inv A I) (reject cfg n)"
proof -
  note base = io_keeps keeps_stm world_keeps keeps_audit assms(2)
  have g: "keeps I (GetConfig k)" "keeps I (GetDocument n)" for k n
    unfolding GetConfig_def GetDocument_def by (intro keeps_store_rules assms(1))+
  have r: "keeps (db_inv I) (record_user cfg k n d)" for k n d unfolding record_user_def by (intro base)
  have f: "keeps (db_inv I) (fail_delay n)" unfolding fail_delay_def Let_def by (intro base g)
  have db: "keeps (db_inv I) loginBranding" "keeps (db_inv I) systemID" "keeps (db_inv I) (throttle_reset n)"
    "keeps (db_inv I) (reject cfg n)"
    unfolding loginBranding_def systemID_def config_or_def throttle_reset_def reject_def logAuthFailure_def
    by (intro base g r f)+
  show "keeps (login_inv A I) loginBranding" "keeps (login_inv A I) systemID" "keeps (login_inv A I) (throttle_reset n)"
    "keeps (login_inv A I) (setActor n)" "keeps (login_inv A I) (record_user cfg k n d)" "keeps (login_inv A I) (reject cfg n)"
    by (intro login_inv_keeps db r session_scripts reject_scripts world_progress world_keeps)+
qed

text \<open>
  C5. Nobody gets past the login screen without credentials: if a login ends with an identity,
  then the terminal sent a response whose user name and password some state of the database,
  among those the invariant \<open>I\<close> holds of, accepts for an account, and the identity carries that
  account's id and name and exactly the groups the account then had. \<open>I\<close> is any property of the
  database the rest of the process maintains.
\<close>

theorem login_sound:
  assumes "faultless I" "\<And>ev. keeps I (RecordAudit ev)" "db_inv I w"
    "run_state (doLogin cfg) w = (Inr (Inr ident), w')"
  shows "\<exists>resp d. typed (set (w_script w)) resp \<and> I d \<and>
     accepts cfg d (trim_space (resp_value resp LoginUsername)) (resp_value resp LoginPassword) ident"
proof (rule ccontr)
  let ?A = "set (w_script w)"
  assume no: "\<not> ?thesis"
  then have none: "\<not> accepts cfg d (trim_space (resp_value resp LoginUsername)) (resp_value resp LoginPassword) ident"
    if "typed ?A resp" "I d" for resp d
    using that by blast
  let ?N = "\<lambda>r w. login_inv ?A I w \<and> r \<noteq> Inr (Inr ident)"
  note e = login_effects[OF assms(1,2)]
  have out: "hoare (login_inv ?A I) (leave (Inl d)) (rounds (login_inv ?A I) ?N)" "hoare (login_inv ?A I) (again m) (rounds (login_inv ?A I) ?N)"
    "hoare (login_inv ?A I) (io_fail er) (rounds (login_inv ?A I) ?N)"
    "i \<noteq> ident \<Longrightarrow> hoare (login_inv ?A I) (leave (Inr i)) (rounds (login_inv ?A I) ?N)" for d m er i
    by (rule rounds_leave rounds_again rounds_fail; simp)+
  have "hoare (login_inv ?A I) (login_round cfg st m) (rounds (login_inv ?A I) ?N)" for st m
    unfolding login_round_def
    by (rule hoare_bind[OF e(1)], rule hoare_pure[OF p_Login_typed])
      (auto split: sum.split option.split intro!: out hoare_pure[OF authenticate_accepts[OF assms(1)]] hoare_bind[OF e(3)]
        hoare_bind[OF e(4)] hoare_bind[OF e(5)] hoare_bind[OF e(6)] simp: none)
  then have "hoare (login_inv ?A I) (doLogin cfg) ?N"
    unfolding doLogin_def by (intro hoare_bind[OF e(4)] hoare_bind[OF e(2)] hoare_loop) auto
  from hoareD[OF this _ assms(4)] assms(3) show False by (simp add: login_inv_def script_in_def)
qed

lemma login_run:
  "fst (run_state (doLogin sample_settings) (sample_world\<lparr>w_script := tl (w_script sample_world)\<rparr>)) = Inr (Inr bob)"
  by code_simp

theorem login_sound_witness:
  "\<exists>resp d. typed (set (tl (w_script sample_world))) resp \<and> wf_db d \<and>
     accepts sample_settings d (trim_space (resp_value resp LoginUsername)) (resp_value resp LoginPassword) bob"
proof -
  let ?w = "sample_world\<lparr>w_script := tl (w_script sample_world)\<rparr>"
  obtain w' where run: "run_state (doLogin sample_settings) ?w = (Inr (Inr bob), w')"
    using login_run by (metis prod.collapse)
  have "wf_db (sh_db (w_shared sample_world))" by code_simp
  moreover have "in_env i = id" if "i \<in> set (tl (w_script sample_world))" for i
    using that by (intro sample_env) (cases "w_script sample_world", auto)
  ultimately have "db_inv wf_db ?w" by (simp add: world_inv_def)
  from login_sound[OF faultless_wf keeps_RecordAudit this run] show ?thesis by simp
qed

end
