(* ===== verification/Viewer_Props.thy ===== *)
theory Viewer_Props
  imports Traces
begin

text \<open>
  The snapshot viewers (audit log, active sessions): the loop's page variable is shadowed, so
  whatever keys are pressed, only the first page is ever painted.
\<close>

definition first_page :: "snapshot_view \<Rightarrow> bool" where
  "first_page v \<longleftrightarrow> take 9 (sv_RowInfo v) = ''ROW 0 OF '' \<or> take 9 (sv_RowInfo v) = ''ROW 1 TO ''"

fun first_page_ob :: "observation \<Rightarrow> bool" where
  "first_page_ob (OView (VSnapshot v)) = first_page v"
| "first_page_ob _ = True"

lemma pageBounds_first:
  assumes "pageBounds 0 n rows = (p, st, en, info)" "0 \<le> n"
  shows "take 9 info = ''ROW 0 OF '' \<or> take 9 info = ''ROW 1 TO ''"
proof -
  have "itoa 1 = ''1''" by code_simp
  moreover have "page_window (listPageSize rows) 0 n = (p, 0, en)" "st = 0"
    using assms by (auto simp: pageBounds_def page_window_def Let_def split: prod.splits if_splits)
  ultimately show ?thesis using assms(1) by (auto simp: pageBounds_def split: if_splits)
qed

abbreviation page_log :: "observation list \<Rightarrow> world \<Rightarrow> bool" where
  "page_log pre \<equiv> log_after pre first_page_ob"

abbreviation on_first :: "'a snapshot_state \<Rightarrow> bool" where "on_first s \<equiv> ss_page s = 0"

lemma load_first:
  assumes "keeps (page_log pre) (sc_Fetch sc)" "on_first s"
  shows "hoare (page_log pre) (snapshot_load sc s) (\<lambda>s' w. page_log pre w \<and> on_first s')"
proof (cases "ss_loaded s")
  case False
  show ?thesis unfolding snapshot_load_def if_not_P[OF False]
    by (rule hoare_bind[OF assms(1)]) (use assms(2) in \<open>simp add: hoare_def split: prod.split\<close>)
qed (use assms(2) in \<open>simp add: snapshot_load_def hoare_def\<close>)

lemma shown_first: "first_page v \<Longrightarrow> keeps (page_log pre) (r_Snapshot cfg v)"
  unfolding r_Snapshot_def renderer_call_def by (intro io_keeps keeps_log_screen) simp

lemma dispatch_first:
  assumes "\<forall>f x. sc_OnSelect sc = Some f \<longrightarrow> keeps (page_log pre) (f x)" "sc_OnAct sc = None" "on_first s"
  shows "hoare (page_log pre) (snapshot_dispatch sc s rows act) (round (page_log pre) on_first)"
  unfolding snapshot_dispatch_def Let_def assms(2) option.case
  by (intro round_rules round_bind; (simp add: assms(3); fail)?; (rule assms(1)[rule_format], assumption)?)

lemma step_first:
  fixes sc :: "'a snapshot_config"
  assumes "keeps (page_log pre) (sc_Fetch sc)" "\<forall>f x. sc_OnSelect sc = Some f \<longrightarrow> keeps (page_log pre) (f x)"
    "sc_OnAct sc = None" "on_first s"
  shows "hoare (page_log pre) (snapshot_step cfg sc s) (round (page_log pre) on_first)"
  unfolding snapshot_step_def
proof (rule round_pure[OF load_first[OF assms(1,4)]], rule hoare_prod, rule hoare_prod, rule hoare_prod)
  fix s' :: "'a snapshot_state" and p bc st de en info
  assume s': "on_first s'" and b: "pageBounds (ss_page s') (int (length (ss_rows s'))) (sc_Rows sc) = (p, bc)" "bc = (st, de)" "de = (en, info)"
  let ?rows = "slice (ss_rows s') st en"
  have "take 9 info = ''ROW 0 OF '' \<or> take 9 info = ''ROW 1 TO ''"
    by (rule pageBounds_first[of "int (length (ss_rows s'))" "sc_Rows sc" p st en]) (use b s' in simp_all)
  then have "first_page \<lparr>sv_Title = sc_Title sc, sv_RowInfo = info, sv_AsOf = ss_asOf s', sv_Legend = sc_Legend sc,
                 sv_ErrMsg = ss_errMsg s', sv_PFHelp = sc_PFHelp sc, sv_Empty = sc_Empty sc, sv_Head = sc_Head sc,
                 sv_Rows = map fst ?rows, sv_Wide = sc_Wide sc\<rparr>"
    by (simp add: first_page_def)
  from round_try[OF shown_first[OF this] dispatch_first[OF assms(2,3) s']]
  show "hoare (page_log pre) (let pageRows = ?rows
      in try_bind (r_Snapshot cfg \<lparr>sv_Title = sc_Title sc, sv_RowInfo = info, sv_AsOf = ss_asOf s', sv_Legend = sc_Legend sc,
                 sv_ErrMsg = ss_errMsg s', sv_PFHelp = sc_PFHelp sc, sv_Empty = sc_Empty sc, sv_Head = sc_Head sc,
                 sv_Rows = map fst pageRows, sv_Wide = sc_Wide sc\<rparr>)
               (snapshot_dispatch sc s' pageRows)) (round (page_log pre) on_first)"
    by (simp add: Let_def)
qed

lemma snapshot_first_page:
  assumes "keeps (page_log pre) (sc_Fetch sc)" "\<forall>f x. sc_OnSelect sc = Some f \<longrightarrow> keeps (page_log pre) (f x)"
    "sc_OnAct sc = None"
  shows "keeps (page_log pre) (RunSnapshotList cfg sc)"
  unfolding RunSnapshotList_def by (rule keeps_loop_inv[where P = on_first, OF step_first[OF assms]]) simp_all

lemma detail_screens: "keeps (page_log pre) (r_Detail cfg v)" "keeps (page_log pre) (r_DetailAct cfg v k)"
  unfolding r_Detail_def r_DetailAct_def renderer_call_def by (intro io_keeps keeps_log_screen; simp)+

text \<open>
  C7. The snapshot viewers never leave their first page: whatever the administrator presses in the
  audit log or in the list of active sessions, every view painted is the first page of its
  snapshot; PF8, which the legend offers, changes nothing.
\<close>

theorem snapshot_viewers_never_page:
  "adds first_page_ob (auditLog cfg fl) \<and> adds first_page_ob (activeSessions cfg fl)"
proof (intro conjI addsI)
  fix pre
  show "keeps (page_log pre) (auditLog cfg fl)"
    unfolding auditLog_def
    by (intro keeps_log admin_fetches snapshot_first_page)
      (auto simp: audit_list_def intro!: admin_fetches keeps_log details_log detail_screens)
  have act: "keeps (page_log pre) (session_act cfg v)" for v
    unfolding session_act_def sessions_disconnect_def recordAdmin_def flow_record_def by (intro keeps_log keeps_log_audit) simp
  have "keeps (page_log pre) (handleScreen cfg (VDetail dv) ks)" for dv ks by (rule keeps_log_screen) simp
  then have "keeps (page_log pre) (session_select cfg v)" for v
    unfolding session_select_def by (auto intro!: keeps_log details_log RunDetail_keeps act)
  then show "keeps (page_log pre) (activeSessions cfg fl)"
    unfolding activeSessions_def
    by (intro keeps_log snapshot_first_page) (auto simp: sessions_list_def intro!: admin_fetches)
qed

end
