(* ===== verification/Setup.thy ===== *)
theory Setup
  imports Auth Mfa Store_Facts
begin

text \<open>
  What prepares a database before the gateway serves from it: the rows every \<open>Open\<close> ensures
  (\<open>reconcileDefaults\<close> of migrate.go), the first administrator (bootstrap.go), the bulk load
  (seed.go), and the check of the MFA master key at start-up with its break-glass reset (mfa.go).
\<close>

section \<open>Errors\<close>

datatype prep_error =
    SetupStore store_error
  | SetupAdminExists
  | SetupExists string       \<comment> \<open>seed: the user or service that is already there\<close>
  | SetupPassword string     \<comment> \<open>the user whose password is too long\<close>
  | SetupHash
  | SetupRandom
  | SetupKeyMissing nat      \<comment> \<open>users enrolled, no master key\<close>
  | SetupKey                 \<comment> \<open>the key is not usable\<close>
  | SetupKeyWrong            \<comment> \<open>the sentinel does not open under the key\<close>

type_synonym 'a prep = "(db, prep_error + 'a) state"

definition prep_fail :: "prep_error \<Rightarrow> 'a prep" where "prep_fail e = return_st (Inl e)"
definition prep_return :: "'a \<Rightarrow> 'a prep" where "prep_return x = return_st (Inr x)"

text \<open>A store call whose error is wrapped.\<close>

definition on_store :: "'a st \<Rightarrow> 'a prep" where
  "on_store m = do { r \<leftarrow> m; return_st (case r of Inl e \<Rightarrow> Inl (SetupStore e) | Inr x \<Rightarrow> Inr x) }"

fun each :: "('a \<Rightarrow> unit prep) \<Rightarrow> 'a list \<Rightarrow> unit prep" where
  "each f [] = prep_return ()"
| "each f (x # xs) = try_bind (f x) (\<lambda>_. each f xs)"

section \<open>reconcileDefaults (store/migrate.go)\<close>

definition DefaultHelpMenuContent :: string where
  "DefaultHelpMenuContent = join_with [newline]
     [''The menu lists the services your account may use, one per row:'',
      ''a selection number, the service name, and a description.'',
      [],
      ''SELECTING A SERVICE'',
      [],
      ''  Type the service's number in the Option field and press ENTER.'',
      ''  Your terminal is connected to that service in a bridged session.'',
      [],
      ''WHILE CONNECTED TO A SERVICE'',
      [],
      ''  PA3  ends the bridged session and returns to this menu.'',
      ''       Every other key belongs to the service you are using.'',
      [],
      ''MENU KEYS'',
      [],
      ''  PF1  shows this help.'',
      ''  PF3  logs off and returns to the sign-on screen.'',
      ''  PF7  pages up when the service list spans multiple pages.'',
      ''  PF8  pages down.'',
      [],
      ''OTHER MENU ENTRIES'',
      [],
      ''  0    Settings - change your password or manage MFA.'',
      ''  A    Admin - system administration; shown only to administrators.'',
      [],
      ''Ask your administrator if you need access to another service.'']"

definition documentDefaults :: "string \<Rightarrow> string" where
  "documentDefaults name = (if name = DocHelpMenu then DefaultHelpMenuContent else [])"

text \<open>INSERT OR IGNORE into a table keyed by a COLLATE NOCASE text.\<close>

definition ensure_config :: "string \<Rightarrow> string \<Rightarrow> unit st" where
  "ensure_config key v = exec (\<lambda>_. True) (\<lambda>_. ())
     (\<lambda>d. if find_config key d \<noteq> None then d else d\<lparr>db_config := db_config d @ [(key, v)]\<rparr>)"

definition ensure_document :: "string \<Rightarrow> string \<Rightarrow> unit st" where
  "ensure_document name content = exec (\<lambda>_. True) (\<lambda>_. ())
     (\<lambda>d. if find_document name d \<noteq> None then d
          else d\<lparr>db_documents := db_documents d @ [\<lparr>d_Name = name, d_Content = content, d_UpdatedAt = [], d_UpdatedBy = []\<rparr>]\<rparr>)"

definition reconcileDefaults :: "unit prep" where
  "reconcileDefaults =
     try_bind (on_store (exec (\<lambda>_. True) (\<lambda>_. ()) (insert_group AdminGroup))) (\<lambda>_.
     try_bind (each (\<lambda>e. on_store (ensure_config (se_Key e) (se_Default e))) Catalog) (\<lambda>_.
     each (\<lambda>name. on_store (ensure_document name (documentDefaults name))) KnownDocuments))"

section \<open>bootstrap (cmd/tn3270proxy/bootstrap.go)\<close>

text \<open>\<open>pw\<close> is what the password generator returned, \<open>gen\<close> is bcrypt. The result is the password printed.\<close>

definition bootstrap_account :: "(nat \<Rightarrow> string \<Rightarrow> string option) \<Rightarrow> string \<Rightarrow> string prep" where
  "bootstrap_account gen password =
     (case HashPassword gen 0 password of
        None \<Rightarrow> prep_fail SetupHash
      | Some hash \<Rightarrow>
          try_bind (on_store (CreateUser ''ADMIN'' hash)) (\<lambda>uid.
          try_bind (on_store (SetPassword uid hash)) (\<lambda>_.
          try_bind (on_store (CreateGroup AdminGroup)) (\<lambda>gid.
          try_bind (on_store (AddUserToGroup uid gid)) (\<lambda>_.
          prep_return password)))))"

definition runBootstrap :: "(nat \<Rightarrow> string \<Rightarrow> string option) \<Rightarrow> string option \<Rightarrow> string prep" where
  "runBootstrap gen pw =
     try_bind reconcileDefaults (\<lambda>_.
     try_bind (on_store CountAdminMembers) (\<lambda>n.
       if 0 < n then prep_fail SetupAdminExists
       else case pw of None \<Rightarrow> prep_fail SetupRandom | Some password \<Rightarrow> bootstrap_account gen password))"

text \<open>\<open>warnIfNoAdmin\<close>: whether the warning is written.\<close>

definition warnIfNoAdmin :: "(db, bool) state" where
  "warnIfNoAdmin = do { r \<leftarrow> CountAdminMembers; return_st (case r of Inl _ \<Rightarrow> False | Inr n \<Rightarrow> n = 0) }"

section \<open>The MFA master key (cmd/tn3270proxy/mfa.go)\<close>

definition mfaSentinelPlaintext :: string where "mfaSentinelPlaintext = ''tn3270proxy-mfa-key-check-v1''"

definition mfaStartup :: "(string \<Rightarrow> aead option) \<Rightarrow> string option \<Rightarrow> string \<Rightarrow> aead option prep" where
  "mfaStartup newGCM nonce key =
     try_bind (on_store CountEnrolledUsers) (\<lambda>enrolled.
       if key = [] then (if 0 < enrolled then prep_fail (SetupKeyMissing enrolled) else prep_return None)
       else case NewCipher newGCM key of
         None \<Rightarrow> prep_fail SetupKey
       | Some c \<Rightarrow>
           try_bind (on_store GetMFASentinel) (\<lambda>sentinel.
             if sentinel = [] then
               (case Seal c nonce mfaSentinelPlaintext of
                  None \<Rightarrow> prep_fail SetupRandom
                | Some sealed \<Rightarrow> try_bind (on_store (SetMFASentinel sealed)) (\<lambda>_. prep_return (Some c)))
             else case Open c sentinel of
               None \<Rightarrow> prep_fail SetupKeyWrong
             | Some _ \<Rightarrow> prep_return (Some c)))"

definition runMFAResetAll :: "(string \<Rightarrow> aead option) \<Rightarrow> string option \<Rightarrow> string \<Rightarrow> nat prep" where
  "runMFAResetAll newGCM nonce key =
     (if key = [] then prep_fail SetupKey
      else case NewCipher newGCM key of
        None \<Rightarrow> prep_fail SetupKey
      | Some c \<Rightarrow>
          try_bind reconcileDefaults (\<lambda>_.
          try_bind (on_store ResetAllMFA) (\<lambda>n.
            case Seal c nonce mfaSentinelPlaintext of
              None \<Rightarrow> prep_fail SetupRandom
            | Some sealed \<Rightarrow> try_bind (on_store (SetMFASentinel sealed)) (\<lambda>_. prep_return n))))"

section \<open>Seeding (internal/seed/seed.go)\<close>

record SeedUser =
  su_Username :: string
  su_Password :: string
  su_Groups :: "string list"
  su_UserSettingsLocked :: bool

record SeedService =
  sds_Name :: string
  sds_Description :: string
  sds_Host :: string
  sds_Port :: int
  sds_TLS :: bool
  sds_Verify :: "bool option"
  sds_Groups :: "string list"

record SeedData =
  sd_Groups :: "string list"
  sd_Users :: "SeedUser list"
  sd_Services :: "SeedService list"

text \<open>The map from names to group ids is \<open>ids\<close>; a group is created on its first use.\<close>

type_synonym group_ids = "(string \<times> int) list"

definition ensureGroup :: "group_ids \<Rightarrow> string \<Rightarrow> (int \<times> group_ids) prep" where
  "ensureGroup ids name =
     (case map_of ids name of
        Some i \<Rightarrow> prep_return (i, ids)
      | None \<Rightarrow> try_bind (on_store (CreateGroup name)) (\<lambda>i. prep_return (i, (name, i) # ids)))"

fun link_groups :: "(int \<Rightarrow> unit st) \<Rightarrow> group_ids \<Rightarrow> string list \<Rightarrow> group_ids prep" where
  "link_groups add ids [] = prep_return ids"
| "link_groups add ids (g # gs) =
     try_bind (ensureGroup ids g) (\<lambda>(gid, ids'). try_bind (on_store (add gid)) (\<lambda>_. link_groups add ids' gs))"

fun seed_groups :: "group_ids \<Rightarrow> string list \<Rightarrow> group_ids prep" where
  "seed_groups ids [] = prep_return ids"
| "seed_groups ids (g # gs) = try_bind (ensureGroup ids g) (\<lambda>(_, ids'). seed_groups ids' gs)"

fun seed_users :: "(nat \<Rightarrow> string \<Rightarrow> string option) \<Rightarrow> group_ids \<Rightarrow> SeedUser list \<Rightarrow> group_ids prep" where
  "seed_users gen ids [] = prep_return ids"
| "seed_users gen ids (u # us) =
     (case HashPassword gen (length us) (su_Password u) of
        None \<Rightarrow> prep_fail SetupHash
      | Some hash \<Rightarrow>
          try_bind (on_store (CreateUser (su_Username u) hash)) (\<lambda>uid.
          try_bind (link_groups (AddUserToGroup uid) ids (su_Groups u)) (\<lambda>ids'.
          try_bind (if su_UserSettingsLocked u then on_store (SetUserSettingsLocked uid True) else prep_return ()) (\<lambda>_.
          seed_users gen ids' us))))"

fun seed_services :: "group_ids \<Rightarrow> SeedService list \<Rightarrow> unit prep" where
  "seed_services ids [] = prep_return ()"
| "seed_services ids (s # ss) =
     try_bind (on_store (CreateService (sds_Name s) (sds_Description s) (sds_Host s) (sds_Port s) (sds_TLS s)
         (case sds_Verify s of None \<Rightarrow> True | Some v \<Rightarrow> v))) (\<lambda>sid.
     try_bind (link_groups (\<lambda>gid. LinkGroupService gid sid) ids (sds_Groups s)) (\<lambda>ids'.
     seed_services ids' ss))"

definition check_free :: "'a st \<Rightarrow> string \<Rightarrow> unit prep" where \<comment> \<open>a lookup that must not find\<close>
  "check_free lookup name = do {
     r \<leftarrow> lookup;
     (case r of
        Inr _ \<Rightarrow> prep_fail (SetupExists name)
      | Inl e \<Rightarrow> if e = ErrNotFound then prep_return () else prep_fail (SetupStore e))
   }"

definition check_password :: "SeedUser \<Rightarrow> unit prep" where
  "check_password u = (if ValidatePassword (su_Password u) then prep_return () else prep_fail (SetupPassword (su_Username u)))"

definition seed_preflight :: "SeedData \<Rightarrow> unit prep" where \<comment> \<open>every check comes before the first write\<close>
  "seed_preflight data =
     try_bind (each check_password (sd_Users data)) (\<lambda>_.
     try_bind (each (\<lambda>u. check_free (GetUserByUsername (su_Username u)) (su_Username u)) (sd_Users data)) (\<lambda>_.
     each (\<lambda>s. check_free (GetServiceByName (sds_Name s)) (sds_Name s)) (sd_Services data)))"

definition seed_Apply :: "(nat \<Rightarrow> string \<Rightarrow> string option) \<Rightarrow> SeedData \<Rightarrow> unit prep" where
  "seed_Apply gen data =
     try_bind (seed_preflight data) (\<lambda>_.
     try_bind (seed_groups [] (sd_Groups data)) (\<lambda>ids.
     try_bind (seed_users gen ids (sd_Users data)) (\<lambda>ids'.
     seed_services ids' (sd_Services data))))"

end
