(* ===== verification/Setup_Props.thy ===== *)
theory Setup_Props
  imports Setup
begin

text \<open>
  What the preparation of a database guarantees: the rows every start ensures, the first
  administrator, the check of the MFA master key, and the seeding of a fresh database.
\<close>

section \<open>The rows every start ensures\<close>

lemma hoare_on_store:
  "hoare P m (\<lambda>r d. Q (case r of Inl e \<Rightarrow> Inl (SetupStore e) | Inr x \<Rightarrow> Inr x) d) \<Longrightarrow> hoare P (on_store m) Q"
  unfolding on_store_def by (rule hoare_bind, assumption) (auto intro: hoare_return_st)

text \<open>What holds when a preparation step succeeds.\<close>

abbreviation succeeds :: "('s \<Rightarrow> bool) \<Rightarrow> ('s, 'e + 'a) state \<Rightarrow> ('a \<Rightarrow> 's \<Rightarrow> bool) \<Rightarrow> bool" where
  "succeeds P m Q \<equiv> hoare P m (\<lambda>r d. \<forall>x. r = Inr x \<longrightarrow> Q x d)"

lemma succeeds_store: "succeeds P m R \<Longrightarrow> (\<And>x. succeeds (R x) (k x) Q) \<Longrightarrow> succeeds P (try_bind (on_store m) k) Q"
  by (fastforce simp: hoare_def try_bind_def on_store_def split: prod.splits sum.splits)

lemma succeeds_bind: "succeeds P m R \<Longrightarrow> (\<And>x. succeeds (R x) (k x) Q) \<Longrightarrow> succeeds P (try_bind m k) Q"
  by (rule hoare_try_bind, assumption) simp_all

lemma succeeds_return: "(\<And>d. P d \<Longrightarrow> Q x d) \<Longrightarrow> succeeds P (prep_return x) Q"
  by (auto simp: prep_return_def intro: hoare_return_st)

lemma succeeds_fail: "succeeds P (prep_fail e) Q"
  by (auto simp: prep_fail_def intro: hoare_return_st)

lemma succeeds_weaken: "succeeds P m Q \<Longrightarrow> (\<And>d. P' d \<Longrightarrow> P d) \<Longrightarrow> succeeds P' m Q"
  by (rule hoare_weaken_pre)

lemma keeps_on_store: "keeps P m \<Longrightarrow> keeps P (on_store m)"
  unfolding on_store_def by (intro keeps_rules)

lemma keeps_prep: "keeps P (prep_fail e)" "keeps P (prep_return x)"
  by (simp_all add: prep_fail_def prep_return_def keeps_return)

lemma keeps_each: "(\<And>x. x \<in> set xs \<Longrightarrow> keeps P (f x)) \<Longrightarrow> keeps P (each f xs)"
  by (induction xs) (auto intro: keeps_prep keeps_try_bind)

lemma help_text_size: "length DefaultHelpMenuContent \<le> MaxDocumentBytes"
  by code_simp

lemma KnownDocuments_sizes: "length (documentDefaults name) \<le> MaxDocumentBytes"
  by (simp add: documentDefaults_def help_text_size)

lemma keeps_ensure_config: "keeps wf_db (ensure_config k v)"
  unfolding ensure_config_def
proof (rule keeps_exec)
  fix d assume wf: "wf_db d"
  have "to_lower k \<notin> (to_lower \<circ> fst) ` set (db_config d)" if "find_config k d = None"
    using that by (auto simp: find_config_def find_None_iff nocase_def)
  with wf have "wf_db (d\<lparr>db_config := db_config d @ [(k, v)]\<rparr>)" if "find_config k d = None"
    using that by (intro wf_set_config) (simp_all add: wf_defs)
  with wf show "wf_db (if find_config k d \<noteq> None then d else d\<lparr>db_config := db_config d @ [(k, v)]\<rparr>)" by auto
qed simp

lemma keeps_ensure_document:
  assumes "name \<in> set KnownDocuments" "length content \<le> MaxDocumentBytes"
  shows "keeps wf_db (ensure_document name content)"
  unfolding ensure_document_def
proof (rule keeps_exec)
  fix d assume wf: "wf_db d"
  let ?x = "\<lparr>d_Name = name, d_Content = content, d_UpdatedAt = [], d_UpdatedBy = []\<rparr>"
  have "wf_db (d\<lparr>db_documents := db_documents d @ [?x]\<rparr>)" if "find_document name d = None"
  proof (rule wf_set_documents[OF wf])
    have "to_lower name \<notin> (to_lower \<circ> d_Name) ` set (db_documents d)"
      using that by (auto simp: find_document_def find_None_iff nocase_def)
    then show "distinct (map (to_lower \<circ> d_Name) (db_documents d @ [?x]))" using wf by (simp add: wf_defs)
    show "\<forall>y\<in>set (db_documents d @ [?x]). d_Name y \<in> set KnownDocuments \<and> length (d_Content y) \<le> MaxDocumentBytes"
      using wf assms by (auto simp: wf_defs)
  qed
  with wf show "wf_db (if find_document name d \<noteq> None then d else d\<lparr>db_documents := db_documents d @ [?x]\<rparr>)" by auto
qed simp

lemma AdminGroup_upper: "to_upper AdminGroup = AdminGroup"
  by code_simp

lemma keeps_reconcileDefaults: "keeps wf_db reconcileDefaults"
  unfolding reconcileDefaults_def
  by (intro keeps_try_bind keeps_each keeps_on_store keeps_exec keeps_ensure_config keeps_ensure_document
      wf_insert_group AdminGroup_upper KnownDocuments_sizes; simp)

text \<open>The members of ZZADMIN, as \<open>CountAdminMembers\<close> counts them.\<close>

definition admin_links :: "db \<Rightarrow> (int \<times> int) list" where
  "admin_links d = [ug. ug \<leftarrow> db_user_groups d, g \<leftarrow> db_groups d, g_ID g = snd ug, nocase (g_Name g) AdminGroup]"

lemma CountAdminMembers_alt: "CountAdminMembers = query (\<lambda>d. length (admin_links d))"
  by (simp add: CountAdminMembers_def admin_links_def)

lemma set_admin_links:
  "set (admin_links d) = {ug \<in> set (db_user_groups d). \<exists>g\<in>set (db_groups d). g_ID g = snd ug \<and> nocase (g_Name g) AdminGroup}"
  by (auto simp: admin_links_def)

lemma admin_links_faults [simp]: "admin_links (d\<lparr>db_faults := fs\<rparr>) = admin_links d"
  by (simp add: admin_links_def cong: if_cong)

lemma admin_links_insert_group: "wf_db d \<Longrightarrow> admin_links (insert_group n d) = [] \<longleftrightarrow> admin_links d = []"
proof -
  assume wf: "wf_db d"
  have "set (admin_links (insert_group n d)) = set (admin_links d)"
  proof (cases "find_group n d = None")
    case True
    have "g_ID ` set (db_groups d) \<subseteq> set (map g_ID (db_groups d))" by simp
    then have "next_rowid (map g_ID (db_groups d)) \<noteq> snd ug" if "ug \<in> set (db_user_groups d)" for ug
      using next_rowid_fresh[of "map g_ID (db_groups d)"] wf_user_link[OF wf, of "fst ug" "snd ug"] that
      by (auto simp: has_group_def)
    then show ?thesis using True by (auto simp: set_admin_links insert_group_def)
  qed (simp add: insert_group_def)
  then show ?thesis by (metis set_empty)
qed

lemma reconcile_admin_links:
  "hoare (\<lambda>d. wf_db d \<and> (admin_links d = []) = b) reconcileDefaults (\<lambda>_ d. wf_db d \<and> (admin_links d = []) = b)"
proof -
  have fl: "faultless (\<lambda>d. (admin_links d = []) = b)" "faultless (\<lambda>d. wf_db d \<and> (admin_links d = []) = b)"
    using faultless_wf by (simp_all add: faultless_def)
  have a: "admin_links (d\<lparr>db_config := c\<rparr>) = admin_links d" "admin_links (d\<lparr>db_documents := x\<rparr>) = admin_links d" for d c x
    by (simp_all add: admin_links_def)
  have c: "keeps (\<lambda>d. wf_db d \<and> (admin_links d = []) = b) (ensure_config k v)" for k v
    by (rule hoare_conj[OF keeps_ensure_config]) (simp add: ensure_config_def keeps_exec fl(1) a)
  have x: "keeps (\<lambda>d. wf_db d \<and> (admin_links d = []) = b) (ensure_document n (documentDefaults n))"
    if "n \<in> set KnownDocuments" for n
    by (rule hoare_conj[OF keeps_ensure_document[OF that KnownDocuments_sizes]])
      (simp add: ensure_document_def keeps_exec fl(1) a)
  show ?thesis
    unfolding reconcileDefaults_def
    by (intro keeps_try_bind keeps_each keeps_on_store c x keeps_exec fl(2))
      (auto intro: wf_insert_group AdminGroup_upper simp: admin_links_insert_group)
qed

subsection \<open>The rows are there afterwards\<close>

text \<open>What a later start relies on: the group of the administrators, every parameter, every document.\<close>

definition prepared :: "db \<Rightarrow> bool" where
  "prepared d \<longleftrightarrow> find_group AdminGroup d \<noteq> None \<and> (\<forall>e\<in>set Catalog. find_config (se_Key e) d \<noteq> None) \<and>
     (\<forall>n\<in>set KnownDocuments. find_document n d \<noteq> None)"

lemma each_establishes:
  assumes "\<And>x. succeeds P (f x) (\<lambda>_ d. P d \<and> Q x d)" "\<And>x y. keeps (Q y) (f x)"
  shows "succeeds P (each f xs) (\<lambda>_ d. P d \<and> (\<forall>x\<in>set xs. Q x d))"
proof (induction xs)
  case Nil
  show ?case by (simp add: prep_return_def hoare_return_st)
next
  case (Cons x xs)
  have "keeps (Q x) (each f xs)" by (intro keeps_each assms(2))
  from hoare_conj[OF Cons this] have rest: "succeeds (\<lambda>d. P d \<and> Q x d) (each f xs) (\<lambda>_ d. P d \<and> (\<forall>y\<in>set (x # xs). Q y d))"
    by (rule hoare_strengthen_post) simp
  show ?case unfolding each.simps
    by (rule hoare_try_bind[OF assms(1)]) (use rest in simp_all)
qed

lemma find_snoc: "find P (xs @ [x]) \<noteq> None \<longleftrightarrow> find P xs \<noteq> None \<or> P x"
  by (induction xs) auto

lemma succeeds_exec: "faultless P \<Longrightarrow> (\<And>d. P d \<Longrightarrow> ok d \<Longrightarrow> Q (res d) (upd d)) \<Longrightarrow> succeeds P (on_store (exec ok res upd)) Q"
  by (rule hoare_on_store, rule hoare_exec) auto

lemma faultless_find [simp]:
  "faultless (\<lambda>d. find_group n d \<noteq> None)" "faultless (\<lambda>d. find_config k d \<noteq> None)" "faultless (\<lambda>d. find_document m d \<noteq> None)"
  by (simp_all add: faultless_def find_group_def find_config_def find_document_def)

lemma find_added:
  "find_config k (d\<lparr>db_config := db_config d @ [(k', v)]\<rparr>) \<noteq> None \<longleftrightarrow> find_config k d \<noteq> None \<or> nocase k' k"
  "find_document m (d\<lparr>db_documents := db_documents d @ [x]\<rparr>) \<noteq> None \<longleftrightarrow> find_document m d \<noteq> None \<or> nocase (d_Name x) m"
  "find_group n (d\<lparr>db_config := c\<rparr>) = find_group n d" "find_group n (d\<lparr>db_documents := y\<rparr>) = find_group n d"
  "find_config k (d\<lparr>db_documents := y\<rparr>) = find_config k d"
  using find_snoc[of "\<lambda>kv. nocase (fst kv) k" "db_config d" "(k', v)"] find_snoc[of "\<lambda>x. nocase (d_Name x) m" "db_documents d" x]
  by (simp_all add: find_config_def find_document_def find_group_def)

lemma reconcile_prepares: "succeeds (\<lambda>_. True) reconcileDefaults (\<lambda>_. prepared)"
proof -
  let ?G = "\<lambda>d. find_group AdminGroup d \<noteq> None"
  let ?C = "\<lambda>d. \<forall>e\<in>set Catalog. find_config (se_Key e) d \<noteq> None"
  have fc: "faultless (\<lambda>d. ?G d \<and> ?C d)" by (simp add: faultless_def find_group_def find_config_def)
  have g: "succeeds (\<lambda>_. True) (on_store (exec (\<lambda>_. True) (\<lambda>_. ()) (insert_group AdminGroup))) (\<lambda>_. ?G)"
    by (rule succeeds_exec) (simp_all add: faultless_def insert_group_def find_group_def find_snoc[unfolded not_None_eq])
  have c1: "succeeds ?G (on_store (ensure_config k v)) (\<lambda>_ d. ?G d \<and> find_config k d \<noteq> None)" for k v
    unfolding ensure_config_def by (rule succeeds_exec) (simp_all add: find_added del: not_None_eq)
  have c2: "keeps (\<lambda>d. find_config k' d \<noteq> None) (on_store (ensure_config k v))" for k k' v
    unfolding ensure_config_def by (rule keeps_on_store, rule keeps_exec) (simp_all add: find_added del: not_None_eq)
  have c: "succeeds ?G (each (\<lambda>e. on_store (ensure_config (se_Key e) (se_Default e))) Catalog) (\<lambda>_ d. ?G d \<and> ?C d)"
    by (rule each_establishes[where Q = "\<lambda>e d. find_config (se_Key e) d \<noteq> None"]) (rule c1 c2)+
  have x1: "succeeds (\<lambda>d. ?G d \<and> ?C d) (on_store (ensure_document n v)) (\<lambda>_ d. (?G d \<and> ?C d) \<and> find_document n d \<noteq> None)" for n v
    unfolding ensure_document_def by (rule succeeds_exec[OF fc]) (simp add: find_added del: not_None_eq)
  have x2: "keeps (\<lambda>d. find_document n' d \<noteq> None) (on_store (ensure_document n v))" for n n' v
    unfolding ensure_document_def by (rule keeps_on_store, rule keeps_exec) (simp_all add: find_added del: not_None_eq)
  have x: "succeeds (\<lambda>d. ?G d \<and> ?C d) (each (\<lambda>n. on_store (ensure_document n (documentDefaults n))) KnownDocuments)
      (\<lambda>_ d. (?G d \<and> ?C d) \<and> (\<forall>n\<in>set KnownDocuments. find_document n d \<noteq> None))"
    by (rule each_establishes[where Q = "\<lambda>n d. find_document n d \<noteq> None"]) (rule x1 x2)+
  show ?thesis
    unfolding reconcileDefaults_def
    by (rule succeeds_bind[OF g], rule succeeds_bind[OF c], rule hoare_strengthen_post[OF x]) (simp add: prepared_def)
qed

section \<open>The first administrator\<close>

text \<open>The account with id \<open>i\<close> under a canonical name, with a given password hash.\<close>

definition account_row :: "int \<Rightarrow> string \<Rightarrow> (string \<Rightarrow> bool) \<Rightarrow> db \<Rightarrow> bool" where
  "account_row i name H d \<longleftrightarrow> (\<exists>u\<in>set (db_users d). u_ID u = i \<and> u_Username u = name \<and> H (u_PasswordHash u))"

definition group_row :: "int \<Rightarrow> string \<Rightarrow> db \<Rightarrow> bool" where
  "group_row i name d \<longleftrightarrow> (\<exists>g\<in>set (db_groups d). g_ID g = i \<and> g_Name g = name)"

lemma faultless_rows [simp]: "faultless (account_row i n H)" "faultless (group_row i n)"
  by (simp_all add: faultless_def account_row_def group_row_def)

lemma faultless_conj [simp]: "faultless P \<Longrightarrow> faultless Q \<Longrightarrow> faultless (\<lambda>d. P d \<and> Q d)"
  by (simp add: faultless_def)

lemma find_user_row: "wf_db d \<Longrightarrow> to_upper name = name \<Longrightarrow> find_user name d = Some u \<Longrightarrow> u \<in> set (db_users d) \<and> u_Username u = name"
  by (auto simp: find_user_def find_Some_iff nocase_canonical wf_defs)

lemma find_group_row: "wf_db d \<Longrightarrow> to_upper name = name \<Longrightarrow> find_group name d = Some g \<Longrightarrow> g \<in> set (db_groups d) \<and> g_Name g = name"
  by (auto simp: find_group_def find_Some_iff nocase_canonical wf_defs)

lemma CreateUser_row:
  assumes "to_upper name = name"
  shows "hoare wf_db (CreateUser name hash) (\<lambda>r d. wf_db d \<and> (\<forall>i. r = Inr i \<longrightarrow> account_row i name (\<lambda>_. True) d))"
proof (rule hoareI)
  fix d r d' assume wf: "wf_db d" and run: "run_state (CreateUser name hash) d = (r, d')"
  have wf': "wf_db d'" using hoareD[OF keeps_CreateUser wf run] .
  have f: "find_user n (d\<lparr>db_faults := fs\<rparr>) = find_user n d" for n d fs by (simp add: find_user_def)
  have "account_row i name (\<lambda>_. True) d'" if "r = Inr i" for i
    using run that assms unfolding CreateUser_def Let_def insertOrGet_def
    by (auto simp: run_try_bind fail_st_def f account_row_def new_user_def split: prod.splits sum.splits option.splits if_splits
        elim!: exec_cases query_cases dest!: find_user_row[OF wf, OF assms])
  with wf' show "wf_db d' \<and> (\<forall>i. r = Inr i \<longrightarrow> account_row i name (\<lambda>_. True) d')" by blast
qed

lemma CreateGroup_row:
  assumes "to_upper name = name"
  shows "hoare wf_db (CreateGroup name) (\<lambda>r d. wf_db d \<and> (\<forall>i. r = Inr i \<longrightarrow> group_row i name d))"
proof (rule hoareI)
  fix d r d' assume wf: "wf_db d" and run: "run_state (CreateGroup name) d = (r, d')"
  have wf': "wf_db d'" using hoareD[OF keeps_CreateGroup wf run] .
  have f: "find_group n (d\<lparr>db_faults := fs\<rparr>) = find_group n d" for n d fs by (simp add: find_group_def)
  have "group_row i name d'" if "r = Inr i" for i
    using run that assms unfolding CreateGroup_def Let_def insertOrGet_def
    by (auto simp: run_try_bind fail_st_def f group_row_def insert_group_def split: prod.splits sum.splits option.splits if_splits
        elim!: exec_cases query_cases dest!: find_group_row[OF wf, OF assms])
  with wf' show "wf_db d' \<and> (\<forall>i. r = Inr i \<longrightarrow> group_row i name d')" by blast
qed

lemma SetPassword_row:
  "hoare (\<lambda>d. wf_db d \<and> account_row i name (\<lambda>_. True) d) (SetPassword i hash)
     (\<lambda>r d. wf_db d \<and> (\<forall>x. r = Inr x \<longrightarrow> account_row i name (\<lambda>h. h = hash) d))"
proof -
  have upd: "account_row i name (\<lambda>h. h = hash) (d\<lparr>db_users := map (\<lambda>u. if u_ID u = i then u\<lparr>u_PasswordHash := hash\<rparr> else u) (db_users d)\<rparr>)"
    if row: "account_row i name (\<lambda>_. True) d" for d
  proof -
    obtain u where "u \<in> set (db_users d)" "u_ID u = i" "u_Username u = name" using row by (auto simp: account_row_def)
    then show ?thesis by (auto simp: account_row_def intro!: image_eqI[of _ _ u] bexI[of _ "u\<lparr>u_PasswordHash := hash\<rparr>"])
  qed
  have "hoare (account_row i name (\<lambda>_. True)) (SetPassword i hash) (\<lambda>r d. \<forall>x. r = Inr x \<longrightarrow> account_row i name (\<lambda>h. h = hash) d)"
    unfolding SetPassword_def update_user_def execExpectingRow_def
    by (rule hoare_try_bind, rule hoare_exec[where Q = "\<lambda>r d. \<forall>b. r = Inr b \<longrightarrow> account_row i name (\<lambda>h. h = hash) d"])
      (auto simp: fail_st_def upd intro!: hoare_if hoare_return_st)
  from hoare_conj[OF keeps_SetPassword this] show ?thesis .
qed

lemma CreateGroup_keeps_row: "keeps (account_row i name H) (CreateGroup n)"
  unfolding CreateGroup_def Let_def by (rule keeps_insertOrGet) (simp_all add: account_row_def insert_group_def)

lemma AddUserToGroup_row:
  "hoare (\<lambda>d. wf_db d \<and> account_row u n H d \<and> group_row g m d) (AddUserToGroup u g)
     (\<lambda>r d. wf_db d \<and> (\<forall>x. r = Inr x \<longrightarrow> account_row u n H d \<and> group_row g m d \<and> (u, g) \<in> set (db_user_groups d)))"
proof -
  have "hoare (\<lambda>d. account_row u n H d \<and> group_row g m d) (AddUserToGroup u g)
     (\<lambda>r d. \<forall>x. r = Inr x \<longrightarrow> account_row u n H d \<and> group_row g m d \<and> (u, g) \<in> set (db_user_groups d))"
    unfolding AddUserToGroup_def
    by (rule hoare_exec, simp) (auto simp: account_row_def group_row_def)
  from hoare_conj[OF keeps_AddUserToGroup this] show ?thesis .
qed

text \<open>A well-formed database with such rows lets the account in, as an administrator.\<close>

lemma account_authenticates:
  assumes "wf_db d" "account_row i name (\<lambda>h. h = hash) d" "group_row g m d" "(i, g) \<in> set (db_user_groups d)"
    "to_upper name = name" "cmp hash password"
  shows "\<exists>x e. run_state (Authenticate cmp name password) (d\<lparr>db_faults := []\<rparr>) = (Inr x, e) \<and> id_UserID x = i \<and> m \<in> set (id_Groups x)"
proof -
  obtain u where u: "u \<in> set (db_users d)" "u_ID u = i" "u_Username u = name" "u_PasswordHash u = hash"
    using assms(2) by (auto simp: account_row_def)
  obtain gr where gr: "gr \<in> set (db_groups d)" "g_ID gr = g" "g_Name gr = m" using assms(3) by (auto simp: group_row_def)
  have "find_user name d = Some u"
  proof -
    have "find_user name d \<noteq> None" using u(1,3) by (auto simp: find_user_def find_None_iff)
    then obtain v where v: "find_user name d = Some v" by blast
    have "u = v"
      using find_user_row[OF assms(1,5) v] u(1,3) assms(1)
      by (intro inj_onD[of "to_lower \<circ> u_Username" "set (db_users d)"]) (auto simp: wf_defs table_ok_def distinct_map)
    with v show ?thesis by simp
  qed
  moreover have "m \<in> set (user_group_names i d)"
    using gr assms(4) by (auto simp: user_group_names_def order_by_def image_iff intro!: bexI[of _ gr] bexI[of _ "(i, g)"])
  ultimately show ?thesis
    using u assms(5,6)
    by (simp add: Authenticate_def authenticate_with_def GetUserByUsername_def GetUserGroups_def query_def run_stmt_def
        run_try_bind find_user_def)
qed

lemma ADMIN_upper: "to_upper ''ADMIN'' = ''ADMIN''"
  by code_simp

lemma admin_user: "succeeds wf_db (CreateUser ''ADMIN'' h) (\<lambda>u d. wf_db d \<and> account_row u ''ADMIN'' (\<lambda>_. True) d)"
  by (rule hoare_strengthen_post[OF CreateUser_row[OF ADMIN_upper]]) simp

lemma admin_password:
  "succeeds (\<lambda>d. wf_db d \<and> account_row u n (\<lambda>_. True) d) (SetPassword u h) (\<lambda>_ d. wf_db d \<and> account_row u n (\<lambda>k. k = h) d)"
  by (rule hoare_strengthen_post[OF SetPassword_row]) simp

lemma admin_group:
  "succeeds (\<lambda>d. wf_db d \<and> account_row u n H d) (CreateGroup AdminGroup)
     (\<lambda>g d. wf_db d \<and> account_row u n H d \<and> group_row g AdminGroup d)"
  by (rule hoare_strengthen_post[OF hoare_conj[OF CreateGroup_row[OF AdminGroup_upper] CreateGroup_keeps_row]]) simp

lemma admin_link:
  "succeeds (\<lambda>d. wf_db d \<and> account_row u n H d \<and> group_row g m d) (AddUserToGroup u g)
     (\<lambda>_ d. wf_db d \<and> account_row u n H d \<and> group_row g m d \<and> (u, g) \<in> set (db_user_groups d))"
  by (rule hoare_strengthen_post[OF AddUserToGroup_row]) simp

lemma bootstrap_account_row:
  "succeeds wf_db (bootstrap_account gen password) (\<lambda>x d. x = password \<and> wf_db d \<and>
     (\<exists>u g h. gen 0 password = Some h \<and> account_row u ''ADMIN'' (\<lambda>k. k = h) d \<and> group_row g AdminGroup d \<and>
        (u, g) \<in> set (db_user_groups d)))"
proof (cases "gen 0 password")
  case None
  show ?thesis unfolding bootstrap_account_def HashPassword_def None option.case by (rule succeeds_fail)
next
  case (Some h)
  show ?thesis
    unfolding bootstrap_account_def HashPassword_def Some option.case
    by (rule succeeds_store[OF admin_user], rule succeeds_store[OF admin_password], rule succeeds_store[OF admin_group],
        rule succeeds_store[OF admin_link], rule succeeds_return) blast
qed

lemma runBootstrap_row:
  "succeeds (\<lambda>d. wf_db d \<and> (admin_links d = []) = b) (runBootstrap gen pw) (\<lambda>x d. b \<and> pw = Some x \<and> wf_db d \<and>
     (\<exists>u g h. gen 0 x = Some h \<and> account_row u ''ADMIN'' (\<lambda>k. k = h) d \<and> group_row g AdminGroup d \<and>
        (u, g) \<in> set (db_user_groups d)))" (is "succeeds ?P _ ?Q")
proof -
  have fl: "faultless ?P" using faultless_wf by (simp add: faultless_def)
  have count: "succeeds ?P CountAdminMembers (\<lambda>n d. wf_db d \<and> (n = 0) = b)"
    unfolding CountAdminMembers_alt by (rule hoare_query[OF fl]) simp_all
  have tail: "succeeds (\<lambda>d. wf_db d \<and> (k = 0) = b)
     (if 0 < k then prep_fail SetupAdminExists
      else case pw of None \<Rightarrow> prep_fail SetupRandom | Some p \<Rightarrow> bootstrap_account gen p) ?Q" for k :: nat
  proof (cases b)
    case True
    have "succeeds wf_db (bootstrap_account gen p) ?Q" if "pw = Some p" for p
      by (rule hoare_strengthen_post[OF bootstrap_account_row]) (use True that in auto)
    then have "succeeds wf_db (case pw of None \<Rightarrow> prep_fail SetupRandom | Some p \<Rightarrow> bootstrap_account gen p) ?Q"
      by (intro hoare_option succeeds_fail)
    then show ?thesis by (cases "k = 0") (auto intro: succeeds_fail hoare_weaken_pre)
  next
    case False
    then show ?thesis by (cases "k = 0") (auto simp: hoare_def prep_fail_def)
  qed
  show ?thesis
    unfolding runBootstrap_def
    by (rule hoare_try_bind[OF reconcile_admin_links], simp, rule succeeds_store[OF count], rule tail)
qed

subsection \<open>Without database failures the command succeeds\<close>

definition completes :: "(db \<Rightarrow> bool) \<Rightarrow> (db, 'e + 'a) state \<Rightarrow> ('a \<Rightarrow> db \<Rightarrow> bool) \<Rightarrow> bool" where
  "completes P m Q \<longleftrightarrow> (\<forall>d. P d \<and> db_faults d = [] \<longrightarrow> (\<exists>x d'. run_state m d = (Inr x, d') \<and> db_faults d' = [] \<and> Q x d'))"

lemma completesD: "completes P m Q \<Longrightarrow> P d \<Longrightarrow> db_faults d = [] \<Longrightarrow> \<exists>x d'. run_state m d = (Inr x, d') \<and> db_faults d' = [] \<and> Q x d'"
  by (simp add: completes_def)

lemma completes_bind: "completes P m R \<Longrightarrow> (\<And>x. completes (R x) (k x) Q) \<Longrightarrow> completes P (try_bind m k) Q"
  unfolding completes_def by (fastforce simp: run_try_bind)

lemma completes_unstore: "completes P m Q \<Longrightarrow> completes P (on_store m) Q"
  unfolding completes_def by (fastforce simp: on_store_def)

lemmas completes_store = completes_bind[OF completes_unstore]

lemma completes_return: "(\<And>d. P d \<Longrightarrow> Q x d) \<Longrightarrow> completes P (prep_return x) Q"
  by (simp add: completes_def prep_return_def)

lemma completes_each: "(\<And>x. x \<in> set xs \<Longrightarrow> completes P (f x) (\<lambda>_. P)) \<Longrightarrow> completes P (each f xs) (\<lambda>_. P)"
  by (induction xs) (simp_all add: completes_return completes_bind[where R = "\<lambda>_. P"])

lemma completes_exec:
  "(\<And>d. P d \<Longrightarrow> ok d) \<Longrightarrow> (\<And>d. P d \<Longrightarrow> Q (res d) (upd d)) \<Longrightarrow> (\<And>d. db_faults (upd d) = db_faults d) \<Longrightarrow>
   completes P (exec ok res upd) Q"
  by (simp add: completes_def exec_def run_stmt_def)

lemma completes_query: "(\<And>d. P d \<Longrightarrow> Q (f d) d) \<Longrightarrow> completes P (query f) Q"
  by (simp add: completes_def query_def run_stmt_def)

lemma completes_combine: "succeeds P m Q \<Longrightarrow> completes P m (\<lambda>_ _. True) \<Longrightarrow> completes P m Q"
  unfolding completes_def by (blast dest: hoareD)

lemma completes_weaken: "completes P m Q \<Longrightarrow> (\<And>d. P' d \<Longrightarrow> P d) \<Longrightarrow> completes P' m Q"
  by (simp add: completes_def)

lemma completes_insertOrGet:
  "(\<And>d. dup d \<Longrightarrow> sel d \<noteq> None) \<Longrightarrow> (\<And>d. db_faults (ins d) = db_faults d) \<Longrightarrow>
   completes P (insertOrGet dup newid ins sel) (\<lambda>_ _. True)"
  unfolding insertOrGet_def
  by (rule completes_bind[where R = "\<lambda>r d. r = None \<longrightarrow> dup d"], rule completes_exec)
    (auto simp: completes_def query_def run_stmt_def run_try_bind split: option.split, metis option.distinct(1))

lemma completes_rows:
  "completes P (CreateUser n h) (\<lambda>_ _. True)" "completes P (CreateGroup n) (\<lambda>_ _. True)"
  "completes (\<lambda>d. wf_db d \<and> account_row i n H d) (SetPassword i h) (\<lambda>_ _. True)"
  "completes (\<lambda>d. wf_db d \<and> account_row i n H d \<and> group_row g m d) (AddUserToGroup i g) (\<lambda>_ _. True)"
proof -
  show "completes P (CreateUser n h) (\<lambda>_ _. True)"
    unfolding CreateUser_def Let_def by (rule completes_insertOrGet) auto
  show "completes P (CreateGroup n) (\<lambda>_ _. True)"
    unfolding CreateGroup_def Let_def by (rule completes_insertOrGet) (auto simp: insert_group_def)
  show "completes (\<lambda>d. wf_db d \<and> account_row i n H d) (SetPassword i h) (\<lambda>_ _. True)"
    by (auto simp: completes_def SetPassword_def update_user_def execExpectingRow_def run_try_bind exec_def run_stmt_def
        account_row_def has_user_def)
  show "completes (\<lambda>d. wf_db d \<and> account_row i n H d \<and> group_row g m d) (AddUserToGroup i g) (\<lambda>_ _. True)"
    unfolding AddUserToGroup_def
    by (rule completes_exec) (auto simp: account_row_def group_row_def has_user_def has_group_def)
qed

lemma completes_reconcile: "completes P reconcileDefaults (\<lambda>_ _. True)"
  unfolding reconcileDefaults_def
proof (rule completes_store[where R = "\<lambda>_ _. True"], rule completes_exec, simp_all add: insert_group_def)
  show "completes (\<lambda>_. True) (try_bind (each (\<lambda>e. on_store (ensure_config (se_Key e) (se_Default e))) Catalog)
     (\<lambda>_. each (\<lambda>name. on_store (ensure_document name (documentDefaults name))) KnownDocuments)) (\<lambda>_ _. True)"
    by (rule completes_bind, (rule completes_each completes_unstore)+, simp add: ensure_config_def completes_exec,
        (rule completes_each completes_unstore)+, simp add: ensure_document_def completes_exec)
qed

text \<open>How a step that succeeds, and cannot fail otherwise, is composed.\<close>

lemmas completes_step = completes_store[OF completes_combine]

lemma completes_bootstrap_account:
  assumes "gen 0 password = Some h"
  shows "completes wf_db (bootstrap_account gen password) (\<lambda>x _. x = password)"
  unfolding bootstrap_account_def HashPassword_def assms option.case
  by (rule completes_step[OF admin_user completes_rows(1)], rule completes_step[OF admin_password completes_rows(3)],
      rule completes_step[OF admin_group completes_rows(2)], rule completes_step[OF admin_link completes_rows(4)],
      rule completes_return) simp

lemma completes_bootstrap:
  assumes "gen 0 p = Some h"
  shows "completes (\<lambda>d. wf_db d \<and> admin_links d = []) (runBootstrap gen (Some p)) (\<lambda>x _. x = p)"
proof -
  have r: "completes (\<lambda>d. wf_db d \<and> (admin_links d = []) = True) reconcileDefaults (\<lambda>_ d. wf_db d \<and> admin_links d = [])"
    by (rule completes_combine[OF _ completes_reconcile]) (rule hoare_strengthen_post[OF reconcile_admin_links[where b = True]], simp)
  have tail: "completes (\<lambda>d. wf_db d \<and> n = 0) (if 0 < n then prep_fail SetupAdminExists else bootstrap_account gen p) (\<lambda>x _. x = p)" for n :: nat
    by (cases "n = 0") (use completes_bootstrap_account[of gen p h] assms in \<open>auto simp: completes_def\<close>)
  have count: "completes (\<lambda>d. wf_db d \<and> admin_links d = []) (query (\<lambda>d. length (admin_links d))) (\<lambda>n d. wf_db d \<and> n = 0)"
    by (rule completes_query) simp
  show ?thesis
    unfolding runBootstrap_def CountAdminMembers_alt option.case
  proof (rule completes_bind)
    show "completes (\<lambda>d. wf_db d \<and> admin_links d = []) reconcileDefaults (\<lambda>_ d. wf_db d \<and> admin_links d = [])"
      using r by simp
  qed (rule completes_store[OF count tail])
qed

text \<open>
  C8. The bootstrap command creates an administrator who can log in, and only the first one:
  when it prints a password, no account was in ZZADMIN before, the database is well formed
  after, and signing on as ADMIN with exactly the printed password succeeds with ZZADMIN among
  the groups - also when an account ADMIN existed with another password. The hypothesis on
  bcrypt is that a hash matches the password it was made from.
\<close>

theorem bootstrap_first_admin:
  assumes "wf_db d" "\<And>p h. gen 0 p = Some h \<Longrightarrow> cmp h p" "run_state (runBootstrap gen pw) d = (Inr password, d')"
  shows "admin_links d = [] \<and> pw = Some password \<and> wf_db d' \<and>
    (\<exists>i e. run_state (Authenticate cmp ''ADMIN'' password) (d'\<lparr>db_faults := []\<rparr>) = (Inr i, e) \<and> AdminGroup \<in> set (id_Groups i))"
proof -
  have r: "admin_links d = []" "pw = Some password" "wf_db d'" and
    row: "\<exists>u g h. gen 0 password = Some h \<and> account_row u ''ADMIN'' (\<lambda>k. k = h) d' \<and> group_row g AdminGroup d' \<and>
        (u, g) \<in> set (db_user_groups d')"
    using hoareD[OF runBootstrap_row[where b = "admin_links d = []"] _ assms(3)] assms(1) by simp_all
  from row obtain u g h where u: "gen 0 password = Some h" "account_row u ''ADMIN'' (\<lambda>k. k = h) d'"
    "group_row g AdminGroup d'" "(u, g) \<in> set (db_user_groups d')" by blast
  have "\<exists>i e. run_state (Authenticate cmp ''ADMIN'' password) (d'\<lparr>db_faults := []\<rparr>) = (Inr i, e) \<and> id_UserID i = u \<and> AdminGroup \<in> set (id_Groups i)"
    by (rule account_authenticates[where hash = h and g = g]) (rule r(3) u ADMIN_upper assms(2)[OF u(1)])+
  with r show ?thesis by blast
qed

definition toy_hash :: "nat \<Rightarrow> string \<Rightarrow> string option" where "toy_hash i p = Some (''#'' @ p)"

theorem bootstrap_first_admin_witness:
  "let (r, d') = run_state (runBootstrap toy_hash (Some ''KTF7'')) (sample_db\<lparr>db_user_groups := [(2, 2)]\<rparr>)
   in r = Inr ''KTF7'' \<and> wf_db d' \<and>
      (\<exists>i e. run_state (Authenticate (\<lambda>h p. h = ''#'' @ p) ''ADMIN'' ''KTF7'') (d'\<lparr>db_faults := []\<rparr>) = (Inr i, e) \<and> AdminGroup \<in> set (id_Groups i))"
proof -
  let ?d = "sample_db\<lparr>db_user_groups := [(2, 2)]\<rparr>"
  have wf: "wf_db ?d" and links: "admin_links ?d = []" by code_simp+
  obtain x d' where run: "run_state (runBootstrap toy_hash (Some ''KTF7'')) ?d = (Inr x, d')" and x: "x = ''KTF7''"
    using completesD[OF completes_bootstrap[of toy_hash "''KTF7''" "''#KTF7''"], of ?d] wf links
    by (auto simp: toy_hash_def sample_db_def)
  have h: "h = ''#'' @ p" if "toy_hash 0 p = Some h" for p h using that by (simp add: toy_hash_def)
  from bootstrap_first_admin[of ?d toy_hash "\<lambda>h p. h = ''#'' @ p", OF wf h run] run x show ?thesis by simp
qed

section \<open>The MFA master key\<close>

lemma find_config_faults [simp]: "find_config k (d\<lparr>db_faults := fs\<rparr>) = find_config k d"
  by (simp add: find_config_def)

lemma CountEnrolled_run:
  "run_state (on_store CountEnrolledUsers) d = (Inr n, d') \<Longrightarrow>
     tables d' = tables d \<and> n = length (filter (\<lambda>u. u_MFASecret u \<noteq> []) (db_users d))"
  by (auto simp: CountEnrolledUsers_def on_store_def split: prod.splits sum.splits elim!: query_cases)

lemma GetMFASentinel_run:
  "run_state (on_store GetMFASentinel) d = (Inr s, d') \<Longrightarrow>
     tables d' = tables d \<and> s = (case find_config mfaSentinelKey d of None \<Rightarrow> [] | Some v \<Rightarrow> v)"
  by (auto simp: GetMFASentinel_def on_store_def run_try_bind split: prod.splits sum.splits option.splits elim!: query_cases)

lemma find_replaced: "P x \<Longrightarrow> find P (filter (\<lambda>y. \<not> P y) xs @ [x]) = Some x"
  by (induction xs) auto

lemma SetMFASentinel_run:
  "run_state (on_store (SetMFASentinel v)) d = (Inr x, d') \<Longrightarrow>
     find_config mfaSentinelKey d' = Some v \<and> db_users d' = db_users d"
  by (auto simp: SetMFASentinel_def on_store_def find_config_def find_replaced[of "\<lambda>kv. nocase (fst kv) mfaSentinelKey"]
      split: prod.splits sum.splits option.splits elim!: exec_cases)

lemma tables_users: "tables d = tables e \<Longrightarrow> db_users d = db_users e \<and> find_config k d = find_config k e"
  by (auto simp: tables_eq)

text \<open>With a cipher: the stored check value is opened, or the first one is written.\<close>

lemma sentinel_run:
  assumes "run_state (try_bind (on_store GetMFASentinel) (\<lambda>sentinel.
      if sentinel = [] then
        (case Seal c nonce mfaSentinelPlaintext of
           None \<Rightarrow> prep_fail SetupRandom
         | Some sealed \<Rightarrow> try_bind (on_store (SetMFASentinel sealed)) (\<lambda>_. prep_return (Some c)))
      else case Open c sentinel of None \<Rightarrow> prep_fail SetupKeyWrong | Some _ \<Rightarrow> prep_return (Some c))) d = (Inr r, d')"
  shows "r = Some c \<and> db_users d' = db_users d \<and> (case find_config mfaSentinelKey d' of
      None \<Rightarrow> False
    | Some s \<Rightarrow> (if find_config mfaSentinelKey d \<in> {None, Some []} then Seal c nonce mfaSentinelPlaintext = Some s
                else find_config mfaSentinelKey d = Some s \<and> Open c s \<noteq> None))"
proof -
  obtain s e where g: "run_state (on_store GetMFASentinel) d = (Inr s, e)"
    using assms by (auto simp: run_try_bind split: prod.splits sum.splits)
  note G = GetMFASentinel_run[OF g] and U = tables_users[OF GetMFASentinel_run[OF g, THEN conjunct1]]
  show ?thesis
  proof (cases "s = []")
    case True
    then obtain v where v: "Seal c nonce mfaSentinelPlaintext = Some v" "r = Some c"
      "run_state (on_store (SetMFASentinel v)) e = (Inr (), d')"
      using assms by (auto simp: run_try_bind g prep_fail_def prep_return_def split: prod.splits sum.splits option.splits)
    from SetMFASentinel_run[OF v(3)] v(1,2) True G U show ?thesis by (auto split: option.splits)
  next
    case False
    then have "r = Some c \<and> d' = e \<and> Open c s \<noteq> None"
      using assms by (auto simp: run_try_bind g prep_fail_def prep_return_def split: option.splits)
    with False G U show ?thesis by (auto split: option.splits)
  qed
qed

text \<open>
  C9. The gateway never starts with a key that cannot read what is stored: a start without a
  key happens only when no account is enrolled; a start with a key uses exactly that 32-byte
  key, and either the stored check value opens under it, or there was none and the one now
  stored is sealed under it. No account changes; in every other case the start is refused.
\<close>

theorem mfa_startup_fails_closed:
  assumes "run_state (mfaStartup newGCM nonce key) d = (Inr r, d')"
  shows "db_users d' = db_users d \<and>
    (case r of
       None \<Rightarrow> key = [] \<and> list_all (\<lambda>u. u_MFASecret u = []) (db_users d)
     | Some c \<Rightarrow> length key = KeyLen \<and> newGCM key = Some c \<and>
         (case find_config mfaSentinelKey d' of
            None \<Rightarrow> False
          | Some s \<Rightarrow> (if find_config mfaSentinelKey d \<in> {None, Some []} then Seal c nonce mfaSentinelPlaintext = Some s
                      else find_config mfaSentinelKey d = Some s \<and> Open c s \<noteq> None)))"
proof -
  obtain n d1 where e: "run_state (on_store CountEnrolledUsers) d = (Inr n, d1)"
    using assms by (auto simp: mfaStartup_def run_try_bind split: prod.splits sum.splits)
  note E = CountEnrolled_run[OF e] and T = tables_users[OF CountEnrolled_run[OF e, THEN conjunct1]]
  show ?thesis
  proof (cases "key = []")
    case True
    then have "r = None \<and> d' = d1 \<and> n = 0"
      using assms by (auto simp: mfaStartup_def run_try_bind e prep_fail_def prep_return_def split: if_splits)
    then show ?thesis using E T True by (auto simp: list_all_iff filter_empty_conv)
  next
    case False
    then obtain c where c: "NewCipher newGCM key = Some c"
      using assms by (auto simp: mfaStartup_def run_try_bind e prep_fail_def split: option.splits)
    then have key: "length key = KeyLen" "newGCM key = Some c" by (auto simp: NewCipher_def split: if_splits)
    have "run_state (mfaStartup newGCM nonce key) d = (Inr r, d')" by (fact assms)
    then have "r = Some c \<and> db_users d' = db_users d1 \<and> (case find_config mfaSentinelKey d' of
        None \<Rightarrow> False
      | Some s \<Rightarrow> (if find_config mfaSentinelKey d1 \<in> {None, Some []} then Seal c nonce mfaSentinelPlaintext = Some s
                  else find_config mfaSentinelKey d1 = Some s \<and> Open c s \<noteq> None))"
      using False by (intro sentinel_run) (simp add: mfaStartup_def run_try_bind e c)
    with key T show ?thesis by (auto split: option.splits)
  qed
qed

definition toy_aead :: aead where
  "toy_aead = \<lparr>NonceSize = 1, aead_Seal = (\<lambda>n p. p), aead_Open = (\<lambda>n c. if c = mfaSentinelPlaintext then Some c else None)\<rparr>"

theorem mfa_startup_fails_closed_witness:
  "let (r, d') = run_state (mfaStartup (\<lambda>_. Some toy_aead) (Some ''N'') (replicate 32 CHR ''K'')) sample_db
   in r = Inr (Some toy_aead) \<and> find_config mfaSentinelKey d' = Seal toy_aead (Some ''N'') mfaSentinelPlaintext \<and> db_users d' = db_users sample_db"
  (is "let (r, d') = ?run in _")
proof -
  have 1: "fst ?run = Inr (Some toy_aead)"
    by (simp add: mfaStartup_def run_try_bind on_store_def CountEnrolledUsers_def GetMFASentinel_def SetMFASentinel_def query_def exec_def
        run_stmt_def NewCipher_def KeyLen_def sample_db_def find_config_def mfaSentinelKey_def key_defs nocase_def Seal_def prep_return_def
        to_lower_def lower_char_def)
  obtain d' where run: "?run = (Inr (Some toy_aead), d')" using 1 by (cases ?run) simp
  have "find_config mfaSentinelKey sample_db = None" by code_simp
  with mfa_startup_fails_closed[OF run] run show ?thesis by (auto simp: KeyLen_def split: option.splits)
qed

section \<open>Seeding\<close>

text \<open>What the pre-flight checks of the seed demand of the data and of the database.\<close>

definition seed_free :: "SeedData \<Rightarrow> db \<Rightarrow> bool" where
  "seed_free data d \<longleftrightarrow>
     list_all (\<lambda>u. length (su_Password u) \<le> MaxPasswordLen \<and> find_user (to_upper (su_Username u)) d = None) (sd_Users data) \<and>
     list_all (\<lambda>s. case NormalizeServiceName (sds_Name s) of Inl _ \<Rightarrow> False | Inr n \<Rightarrow> find_service n d = None) (sd_Services data)"

lemma find_service_tables [simp]: "find_service n (d\<lparr>db_faults := fs\<rparr>) = find_service n d"
  by (simp add: find_service_def)

lemma seed_free_tables [simp]: "seed_free data (tables d) = seed_free data d"
proof -
  have "find_user n (tables d) = find_user n d" "find_service m (tables d) = find_service m d" for n m
    by (simp_all add: tables_def find_user_def find_service_def)
  then show ?thesis by (simp add: seed_free_def cong: sum.case_cong)
qed

lemma GetServiceByName_cases:
  assumes "run_state (GetServiceByName n) d = (r, d')"
  shows "tables d' = tables d \<and> (r = Inl ErrNotFound \<longrightarrow> (case NormalizeServiceName n of Inl _ \<Rightarrow> False | Inr m \<Rightarrow> find_service m d = None))"
  using assms unfolding GetServiceByName_def first_service_def
  by (auto simp: run_try_bind fail_st_def find_service_def find_None_iff filter_empty_conv empty_filter_conv
      split: prod.splits sum.splits list.splits elim!: query_cases)

text \<open>The checks only read: with the tables \<open>t\<close> throughout, success establishes the fact checked.\<close>

definition checks :: "db \<Rightarrow> unit prep \<Rightarrow> bool \<Rightarrow> bool" where
  "checks t m A \<longleftrightarrow> hoare (\<lambda>d. tables d = t) m (\<lambda>r d. tables d = t \<and> (r = Inr () \<longrightarrow> A))"

lemma checks_bind: "checks t m A \<Longrightarrow> checks t n B \<Longrightarrow> checks t (try_bind m (\<lambda>_. n)) (A \<and> B)"
  unfolding checks_def by (rule hoare_try_bind, assumption, simp) (fastforce simp: hoare_def split: prod.splits)

lemma checks_each: "(\<And>x. checks t (f x) (A x)) \<Longrightarrow> checks t (each f xs) (list_all A xs)"
  by (induction xs) (simp_all add: checks_bind, simp add: checks_def prep_return_def hoare_return_st)

lemma checks_password: "checks t (check_password u) (length (su_Password u) \<le> MaxPasswordLen)"
  by (simp add: checks_def check_password_def ValidatePassword_def prep_return_def prep_fail_def hoare_return_st)

lemma checks_user: "checks t (check_free (GetUserByUsername n) m) (find_user (to_upper n) t = None)"
  unfolding checks_def check_free_def
  by (rule hoareI) (auto simp: prep_fail_def prep_return_def split: prod.splits sum.splits if_splits option.splits
      dest!: GetUserByUsername_cases)

lemma checks_service:
  "checks t (check_free (GetServiceByName n) m) (case NormalizeServiceName n of Inl _ \<Rightarrow> False | Inr k \<Rightarrow> find_service k t = None)"
proof -
  have t: "find_service k (tables d) = find_service k d" for k d by (simp add: tables_def)
  show ?thesis unfolding checks_def check_free_def
    by (rule hoareI) (auto simp: prep_fail_def prep_return_def t split: prod.splits sum.splits if_splits
        dest!: GetServiceByName_cases)
qed

lemma checks_preflight: "checks t (seed_preflight data) (seed_free data t)"
proof -
  have "checks t (seed_preflight data) (list_all (\<lambda>u. length (su_Password u) \<le> MaxPasswordLen) (sd_Users data) \<and>
     list_all (\<lambda>u. find_user (to_upper (su_Username u)) t = None) (sd_Users data) \<and>
     list_all (\<lambda>s. case NormalizeServiceName (sds_Name s) of Inl _ \<Rightarrow> False | Inr n \<Rightarrow> find_service n t = None) (sd_Services data))"
    unfolding seed_preflight_def
    by (intro checks_bind checks_each checks_password checks_user checks_service)
  then show ?thesis by (simp add: seed_free_def list_all_iff ball_conj_distrib cong: conj_cong)
qed

subsection \<open>Seeding keeps the database well formed\<close>

lemma keeps_ensureGroup: "keeps wf_db (ensureGroup ids n)"
  unfolding ensureGroup_def by (intro hoare_option keeps_prep keeps_try_bind keeps_on_store keeps_CreateGroup)

lemma keeps_link_groups: "(\<And>g. keeps wf_db (add g)) \<Longrightarrow> keeps wf_db (link_groups add ids gs)"
  by (induction gs arbitrary: ids)
    (auto intro!: keeps_prep keeps_try_bind keeps_on_store keeps_ensureGroup split: prod.split)

lemma keeps_seed_groups: "keeps wf_db (seed_groups ids gs)"
  by (induction gs arbitrary: ids) (auto intro!: keeps_prep keeps_try_bind keeps_ensureGroup split: prod.split)

lemma keeps_seed_users: "keeps wf_db (seed_users gen ids us)"
  by (induction us arbitrary: ids)
    (auto intro!: keeps_prep keeps_try_bind keeps_on_store keeps_CreateUser keeps_link_groups keeps_AddUserToGroup
      keeps_SetUserSettingsLocked split: option.split)

lemma keeps_seed_services: "keeps wf_db (seed_services ids ss)"
  by (induction ss arbitrary: ids)
    (auto intro!: keeps_prep keeps_try_bind keeps_on_store keeps_CreateService keeps_link_groups keeps_LinkGroupService)

text \<open>
  Seeding is all checks before the first write: when a listed user or service exists
  already, a service name is not valid or a password is too long, the command fails and not
  one table has changed; otherwise whatever happens, a database error in the middle included,
  leaves the database well formed.
\<close>

theorem seed_checks_before_writing:
  assumes "wf_db d" "run_state (seed_Apply gen data) d = (r, d')"
  shows "wf_db d' \<and> (seed_free data d \<or> (\<exists>e. r = Inl e) \<and> tables d' = tables d)"
proof -
  obtain r1 d1 where p: "run_state (seed_preflight data) d = (r1, d1)" by (cases "run_state (seed_preflight data) d")
  have c: "tables d1 = tables d" "r1 = Inr () \<longrightarrow> seed_free data d"
    using hoareD[OF checks_preflight[of "tables d" data, unfolded checks_def] _ p]
    by simp_all
  have wf1: "wf_db d1" using c(1) assms(1) faultless_wf by (auto simp: tables_eq faultless_def)
  show ?thesis
  proof (cases r1)
    case (Inl e)
    then have "r = Inl e \<and> d' = d1" using assms(2) by (simp add: seed_Apply_def run_try_bind p)
    with c(1) wf1 show ?thesis by simp
  next
    case (Inr x)
    have "keeps wf_db (try_bind (seed_groups [] (sd_Groups data)) (\<lambda>ids.
       try_bind (seed_users gen ids (sd_Users data)) (\<lambda>ids'. seed_services ids' (sd_Services data))))"
      by (intro keeps_try_bind keeps_seed_groups keeps_seed_users keeps_seed_services)
    from hoareD[OF this wf1] assms(2) Inr have "wf_db d'" by (simp add: seed_Apply_def run_try_bind p)
    with c(2) Inr show ?thesis by simp
  qed
qed

definition sample_seed :: SeedData where
  "sample_seed = \<lparr>sd_Groups = [''OPS''], sd_Users = [\<lparr>su_Username = ''carol'', su_Password = ''pw'', su_Groups = [''ops''], su_UserSettingsLocked = False\<rparr>],
     sd_Services = [\<lparr>sds_Name = ''tso'', sds_Description = ''Again'', sds_Host = ''h'', sds_Port = 23, sds_TLS = False, sds_Verify = None,
                     sds_Groups = [''OPS'']\<rparr>]\<rparr>"

theorem seed_checks_before_writing_witness:
  "\<not> seed_free sample_seed sample_db \<and> (\<exists>e. fst (run_state (seed_Apply toy_hash sample_seed) sample_db) = Inl e) \<and>
     tables (snd (run_state (seed_Apply toy_hash sample_seed) sample_db)) = tables sample_db"
proof -
  have "\<not> seed_free sample_seed sample_db" by code_simp
  with seed_checks_before_writing[OF sample_db_wf prod.collapse[symmetric]] show ?thesis by blast
qed

text \<open>
  The same name twice in one seed file goes unnoticed: the second password is dropped.
\<close>

definition twice_seed :: SeedData where
  "twice_seed = \<lparr>sd_Groups = [],
     sd_Users = [\<lparr>su_Username = ''carol'', su_Password = ''first'', su_Groups = [], su_UserSettingsLocked = False\<rparr>,
                 \<lparr>su_Username = ''CAROL'', su_Password = ''second'', su_Groups = [], su_UserSettingsLocked = False\<rparr>],
     sd_Services = []\<rparr>"

lemma seed_duplicate_user:
  "let (r, d) = run_state (seed_Apply toy_hash twice_seed) sample_db
   in r = Inr () \<and> map_option u_PasswordHash (find_user ''CAROL'' d) = Some ''#first''"
  by code_simp

end
