(* ===== verification/GoText.thy ===== *)
theory GoText
  imports Prelude
begin

text \<open>
  The parts of Go's library that the configuration reads its text with: \<open>strconv.ParseInt\<close> with
  base 0 (what an integer flag accepts), \<open>time.ParseDuration\<close>, and \<open>flag.FlagSet.Parse\<close>.

  The fractional part of a duration is computed in floating point by the library; that one
  computation is the argument \<open>frac digits_value digits unit\<close>, in nanoseconds.
\<close>

section \<open>strconv.ParseInt(s, 0, 64)\<close>

definition digit_value :: "char \<Rightarrow> nat option" where
  "digit_value c =
     (if is_digit c then Some (of_char c - 48)
      else let l = lower_char c
           in if (97 :: nat) \<le> of_char l \<and> of_char l \<le> (122 :: nat) then Some (of_char l - 87) else None)"

text \<open>The value of the digits in the given base; underscores are skipped.\<close>

fun uint_loop :: "nat \<Rightarrow> string \<Rightarrow> nat \<Rightarrow> nat option" where
  "uint_loop base [] n = Some n"
| "uint_loop base (c # cs) n =
     (if c = CHR ''_'' then uint_loop base cs n
      else case digit_value c of
        None \<Rightarrow> None
      | Some d \<Rightarrow> if base \<le> d then None else uint_loop base cs (n * base + d))"

text \<open>\<open>underscoreOK\<close>: underscores only between digits, or after a base prefix.\<close>

fun underscore_loop :: "bool \<Rightarrow> char \<Rightarrow> string \<Rightarrow> bool" where
  "underscore_loop hex i [] \<longleftrightarrow> i \<noteq> CHR ''_''"
| "underscore_loop hex i (c # cs) \<longleftrightarrow>
     (if is_digit c \<or> hex \<and> lower_char c \<in> set ''abcdef'' then underscore_loop hex (CHR ''0'') cs
      else if c = CHR ''_'' then i = CHR ''0'' \<and> underscore_loop hex (CHR ''_'') cs
      else i \<noteq> CHR ''_'' \<and> underscore_loop hex (CHR ''!'') cs)"

definition underscoreOK :: "string \<Rightarrow> bool" where
  "underscoreOK s =
     (if 2 \<le> length s \<and> s ! 0 = CHR ''0'' \<and> lower_char (s ! 1) \<in> set ''box''
      then underscore_loop (lower_char (s ! 1) = CHR ''x'') (CHR ''0'') (drop 2 s)
      else underscore_loop False (CHR ''^'') s)"

definition base_prefix :: "string \<Rightarrow> nat \<times> string" where
  "base_prefix s =
     (if s \<noteq> [] \<and> hd s = CHR ''0'' then
        (if 3 \<le> length s \<and> lower_char (s ! 1) = CHR ''b'' then (2, drop 2 s)
         else if 3 \<le> length s \<and> lower_char (s ! 1) = CHR ''o'' then (8, drop 2 s)
         else if 3 \<le> length s \<and> lower_char (s ! 1) = CHR ''x'' then (16, drop 2 s)
         else (8, drop 1 s))
      else (10, s))"

definition parse_uint0 :: "string \<Rightarrow> nat option" where
  "parse_uint0 s =
     (if s = [] then None
      else case base_prefix s of (base, ds) \<Rightarrow>
        if CHR ''_'' \<in> set ds \<and> \<not> underscoreOK s then None else uint_loop base ds 0)"

definition parse_int0 :: "string \<Rightarrow> int option" where
  "parse_int0 s =
     (let neg = (prefix ''-'' s); ds = (if prefix ''-'' s \<or> prefix ''+'' s then drop 1 s else s)
      in case parse_uint0 ds of
           None \<Rightarrow> None
         | Some n \<Rightarrow> let v = (if neg then - int n else int n) in if min_int64 \<le> v \<and> v \<le> max_int64 then Some v else None)"

section \<open>time.ParseDuration\<close>

definition two63 :: int where "two63 = 9223372036854775808"

definition unit_value :: "string \<Rightarrow> int option" where
  "unit_value u =
     map_of [(''ns'', 1), (''us'', 1000), ([CHR 0xC2, CHR 0xB5, CHR ''s''], 1000),
       ([CHR 0xCE, CHR 0xBC, CHR ''s''], 1000), (''ms'', 1000000), (''s'', 1000000000),
       (''m'', 60000000000), (''h'', 3600000000000)] u"

text \<open>\<open>leadingFraction\<close>: digits beyond the 63-bit range are dropped. The value and the digits kept.\<close>

fun fraction :: "string \<Rightarrow> int \<times> nat \<Rightarrow> int \<times> nat" where
  "fraction [] acc = acc"
| "fraction (c # cs) (x, k) =
     (if (two63 - 1) div 10 < x \<or> two63 < x * 10 + int (of_char c - 48) then (x, k)
      else fraction cs (x * 10 + int (of_char c - 48), k + 1))"

definition is_unit_char :: "char \<Rightarrow> bool" where
  "is_unit_char c \<longleftrightarrow> c \<noteq> CHR ''.'' \<and> \<not> is_digit c"

text \<open>One number with its unit, in nanoseconds, and the text after it.\<close>

definition duration_term :: "(int \<Rightarrow> nat \<Rightarrow> int \<Rightarrow> int) \<Rightarrow> string \<Rightarrow> (int \<times> string) option" where
  "duration_term frac s =
     (if s = [] \<or> is_unit_char (hd s) then None
      else
        let ds = takeWhile is_digit s; s1 = dropWhile is_digit s;
            dot = (s1 \<noteq> [] \<and> hd s1 = CHR ''.'');
            fs = (if dot then takeWhile is_digit (tl s1) else []);
            s2 = (if dot then dropWhile is_digit (tl s1) else s1);
            u = takeWhile is_unit_char s2
        in if two63 < int (digits_value ds) \<or> ds = [] \<and> fs = [] \<or> u = [] then None
           else case unit_value u of
             None \<Rightarrow> None
           | Some un \<Rightarrow>
               if two63 div un < int (digits_value ds) then None
               else
                 let (f, k) = fraction fs (0, 0);
                     v = int (digits_value ds) * un + (if 0 < f then frac f k un else 0)
                 in if two63 < v then None else Some (v, dropWhile is_unit_char s2))"

lemma takeWhile_consumes: "takeWhile P t \<noteq> [] \<Longrightarrow> length (dropWhile P t) < length t"
  using arg_cong[OF takeWhile_dropWhile_id[of P t], of length] by (cases "takeWhile P t") simp_all

lemma duration_term_consumes:
  assumes "duration_term frac s = Some (v, r)"
  shows "length r < length s"
proof -
  let ?s1 = "dropWhile is_digit s"
  let ?s2 = "if ?s1 \<noteq> [] \<and> hd ?s1 = CHR ''.'' then dropWhile is_digit (tl ?s1) else ?s1"
  have u: "takeWhile is_unit_char ?s2 \<noteq> []" and r: "r = dropWhile is_unit_char ?s2"
    using assms by (auto simp: duration_term_def Let_def split: if_splits option.splits prod.splits)
  have "length ?s1 \<le> length s" "length (dropWhile is_digit (tl ?s1)) \<le> length (tl ?s1)" by (rule length_dropWhile_le)+
  then have 2: "length ?s2 \<le> length s" by (auto split: if_splits)
  have "length (dropWhile is_unit_char ?s2) < length ?s2" by (rule takeWhile_consumes[OF u])
  with 2 show ?thesis unfolding r by (rule less_le_trans[rotated])
qed

function duration_loop :: "(int \<Rightarrow> nat \<Rightarrow> int \<Rightarrow> int) \<Rightarrow> string \<Rightarrow> int \<Rightarrow> int option" where
  "duration_loop frac s d =
     (if s = [] then Some d
      else case duration_term frac s of
        None \<Rightarrow> None
      | Some (v, r) \<Rightarrow>
          let d' = (d + v) mod 18446744073709551616 in if two63 < d' then None else duration_loop frac r d')"
  by pat_completeness auto
termination
  by (relation "measure (\<lambda>(frac, s, d). length s)") (auto dest: duration_term_consumes)

declare duration_loop.simps [simp del]

definition ParseDuration :: "(int \<Rightarrow> nat \<Rightarrow> int \<Rightarrow> int) \<Rightarrow> string \<Rightarrow> duration option" where
  "ParseDuration frac s0 =
     (let neg = (prefix ''-'' s0); s = (if prefix ''-'' s0 \<or> prefix ''+'' s0 then drop 1 s0 else s0)
      in if s = ''0'' then Some 0
         else if s = [] then None
         else case duration_loop frac s 0 of
                None \<Rightarrow> None
              | Some d \<Rightarrow> if neg then Some (- d) else if two63 - 1 < d then None else Some d)"

lemma duration_loop_bound: "duration_loop frac s d = Some r \<Longrightarrow> 0 \<le> d \<Longrightarrow> d \<le> two63 \<Longrightarrow> 0 \<le> r \<and> r \<le> two63"
proof (induction frac s d rule: duration_loop.induct)
  case (1 frac s d)
  show ?case
  proof (cases "s = []")
    case True
    with "1.prems" show ?thesis by (simp add: duration_loop.simps[of frac "[]" d])
  next
    case False
    with "1.prems"(1) obtain v t where t: "duration_term frac s = Some (v, t)"
      "\<not> two63 < (d + v) mod 18446744073709551616" "duration_loop frac t ((d + v) mod 18446744073709551616) = Some r"
      by (auto simp: duration_loop.simps[of frac s d] Let_def split: option.splits if_splits)
    then show ?thesis by (intro "1.IH"[OF False t(1) refl refl]) simp_all
  qed
qed

lemma ParseDuration_range:
  assumes "ParseDuration frac s = Some d"
  shows "min_int64 \<le> d \<and> d \<le> max_int64"
proof (cases "\<exists>t k. duration_loop frac t 0 = Some k \<and> (d = - k \<or> k \<le> two63 - 1 \<and> d = k)")
  case True
  then obtain t k where k: "duration_loop frac t 0 = Some k" "d = - k \<or> k \<le> two63 - 1 \<and> d = k" by blast
  have "0 \<le> k \<and> k \<le> two63" by (rule duration_loop_bound[OF k(1)]) (simp_all add: two63_def)
  with k(2) show ?thesis by (auto simp: min_int64_def max_int64_def two63_def)
next
  case False
  with assms have "d = 0" by (fastforce simp: ParseDuration_def Let_def not_less split: if_splits option.splits)
  then show ?thesis by (simp add: min_int64_def max_int64_def)
qed

lemma duration_samples:
  "ParseDuration frac ''2m'' = Some (2 * minute)" "ParseDuration frac ''1h30m'' = Some (hour + 30 * minute)"
  "ParseDuration frac ''-5s'' = Some (- 5 * second)" "ParseDuration frac ''10'' = None" "ParseDuration frac ''m'' = None"
  by code_simp+

section \<open>flag.FlagSet.Parse\<close>

text \<open>
  A flag that takes a value comes with the check of its text; a boolean flag may stand alone.
  \<open>formal name\<close> is \<open>None\<close> for an unknown flag (\<open>-h\<close> and \<open>-help\<close> are errors of their own kind).
  The result is what was set, in order; parsing stops without an error at the first argument
  that is not a flag.
\<close>

datatype flag_kind = BoolFlag | ValueFlag "string \<Rightarrow> bool"

definition parse_bool :: "string \<Rightarrow> bool option" where \<comment> \<open>\<open>strconv.ParseBool\<close>\<close>
  "parse_bool s =
     (if s \<in> set [''1'', ''t'', ''T'', ''TRUE'', ''true'', ''True''] then Some True
      else if s \<in> set [''0'', ''f'', ''F'', ''FALSE'', ''false'', ''False''] then Some False else None)"

fun accepts :: "flag_kind \<Rightarrow> string \<Rightarrow> bool" where
  "accepts BoolFlag v \<longleftrightarrow> parse_bool v \<noteq> None"
| "accepts (ValueFlag ok) v \<longleftrightarrow> ok v"

fun parse_flags :: "(string \<Rightarrow> flag_kind option) \<Rightarrow> string list \<Rightarrow> (string \<times> string) list option" where
  "parse_flags formal [] = Some []"
| "parse_flags formal (s # args) =
     (if length s < 2 \<or> hd s \<noteq> CHR ''-'' \<or> s = ''--'' then Some []
      else
        let name0 = drop (if s ! 1 = CHR ''-'' then 2 else 1) s
        in if name0 = [] \<or> hd name0 = CHR ''-'' \<or> hd name0 = CHR ''='' then None
           else case index_byte (CHR ''='') name0 of
             Some i \<Rightarrow>
               (case formal (take i name0) of
                  None \<Rightarrow> None
                | Some k \<Rightarrow>
                    if accepts k (drop (i + 1) name0)
                    then map_option ((#) (take i name0, drop (i + 1) name0)) (parse_flags formal args) else None)
           | None \<Rightarrow>
               (case formal name0 of
                  None \<Rightarrow> None
                | Some BoolFlag \<Rightarrow> map_option ((#) (name0, ''true'')) (parse_flags formal args)
                | Some (ValueFlag ok) \<Rightarrow>
                    (case args of
                       [] \<Rightarrow> None
                     | v # args' \<Rightarrow> if ok v then map_option ((#) (name0, v)) (parse_flags formal args') else None)))"

text \<open>The last setting of a flag wins.\<close>

definition flag_value :: "(string \<times> string) list \<Rightarrow> string \<Rightarrow> string option" where
  "flag_value acts name = map_of (rev acts) name"

lemma parse_flags_checked:
  "parse_flags formal args = Some acts \<Longrightarrow> (n, v) \<in> set acts \<Longrightarrow> \<exists>k. formal n = Some k \<and> accepts k v"
  by (induction formal args arbitrary: acts rule: parse_flags.induct)
    (auto simp: Let_def parse_bool_def split: if_splits option.splits list.splits flag_kind.splits)

lemma flag_value_checked:
  "parse_flags formal args = Some acts \<Longrightarrow> flag_value acts n = Some v \<Longrightarrow> \<exists>k. formal n = Some k \<and> accepts k v"
  unfolding flag_value_def by (rule parse_flags_checked) (auto dest: map_of_SomeD)

end
