(* ===== verification/Config.thy ===== *)
theory Config
  imports GoText Mfa
begin

text \<open>
  The deployment configuration, internal/config/config.go: defaults, overlaid by the JSON file,
  overlaid by the flags, with the environment variable for the MFA key on top, and the validation
  of the merged result (with \<open>ParseLevel\<close> of internal/logging).

  Decoding JSON text to the file's shape is an argument, \<open>decode\<close> (\<open>None\<close>: not valid, or with an
  unknown key), as is what reading a file gives.
\<close>

section \<open>Configuration\<close>

record Listener =
  ln_Enabled :: bool
  ln_Addr :: string

record TLSListener =
  tl_Enabled :: bool
  tl_Addr :: string
  tl_Cert :: string
  tl_Key :: string

record config_Limits =
  cl_PreAuthIdle :: duration
  cl_Idle :: duration
  cl_MaxConns :: int
  cl_MaxPerIP :: int
  cl_PreAuthMax :: duration
  cl_BridgeIdleExempt :: bool

record config_Log =
  lg_Level :: string
  lg_File :: string

record Config =
  cf_DBPath :: string
  cf_Plain :: Listener
  cf_TLS :: TLSListener
  cf_Limits :: config_Limits
  cf_Log :: config_Log
  cf_MFAKey :: string \<comment> \<open>\<open>[]\<close> is nil\<close>

section \<open>The file\<close>

text \<open>A pointer field is an option: absent or present.\<close>

record file_plain =
  fp_Enabled :: "bool option"
  fp_Addr :: "string option"

record file_tls =
  ft_Enabled :: "bool option"
  ft_Addr :: "string option"
  ft_Cert :: "string option"
  ft_Key :: "string option"

record file_limits =
  fl_PreAuthIdle :: "string option"
  fl_Idle :: "string option"
  fl_MaxConns :: "int option"
  fl_MaxPerIP :: "int option"
  fl_PreAuthMax :: "string option"
  fl_BridgeIdle :: "string option"

record file_log =
  fg_Level :: "string option"
  fg_File :: "string option"

record file_mfa =
  fm_Key :: "string option"
  fm_KeyFile :: "string option"

record fileConfig =
  fc_DB :: "string option"
  fc_Plain :: "file_plain option"
  fc_TLS :: "file_tls option"
  fc_Limits :: "file_limits option"
  fc_Log :: "file_log option"
  fc_MFA :: "file_mfa option"

datatype file_read = ReadOK string | ReadNotExist | ReadFailed

datatype config_error =
    ErrFlags                    \<comment> \<open>an unknown flag, a bad value, -h\<close>
  | ErrReadConfig string
  | ErrParseConfig string
  | ErrMFAKeyBase64
  | ErrMFAKeyLength nat
  | ErrMFAKeyFile
  | ErrLimit string             \<comment> \<open>the field whose text is not acceptable\<close>
  | ErrListenDisabled
  | ErrNotValid string

definition defaultDBPath :: string where "defaultDBPath = ''tn3270proxy.db''"
definition defaultPlainAddr :: string where "defaultPlainAddr = '':2323''"
definition defaultConfigFile :: string where "defaultConfigFile = ''tn3270proxy.json''"
definition defaultPreAuthIdle :: duration where "defaultPreAuthIdle = 2 * minute"
definition defaultIdle :: duration where "defaultIdle = 30 * minute"
definition defaultMaxConns :: int where "defaultMaxConns = 512"
definition defaultMaxPerIP :: int where "defaultMaxPerIP = 16"
definition defaultPreAuthMax :: duration where "defaultPreAuthMax = 5 * minute"

definition defaults :: Config where
  "defaults = \<lparr>cf_DBPath = defaultDBPath,
     cf_Plain = \<lparr>ln_Enabled = True, ln_Addr = defaultPlainAddr\<rparr>,
     cf_TLS = \<lparr>tl_Enabled = False, tl_Addr = [], tl_Cert = [], tl_Key = []\<rparr>,
     cf_Limits = \<lparr>cl_PreAuthIdle = defaultPreAuthIdle, cl_Idle = defaultIdle, cl_MaxConns = defaultMaxConns,
       cl_MaxPerIP = defaultMaxPerIP, cl_PreAuthMax = defaultPreAuthMax, cl_BridgeIdleExempt = False\<rparr>,
     cf_Log = \<lparr>lg_Level = ''info'', lg_File = []\<rparr>, cf_MFAKey = []\<rparr>"

section \<open>Merging the file\<close>

definition decodeMFAKey :: "string \<Rightarrow> config_error + string" where
  "decodeMFAKey b64 =
     (case b64_decode (trim_space b64) of
        None \<Rightarrow> Inl ErrMFAKeyBase64
      | Some raw \<Rightarrow> if length raw \<noteq> 32 then Inl (ErrMFAKeyLength (length raw)) else Inr raw)"

definition or_else :: "'a option \<Rightarrow> 'a \<Rightarrow> 'a" where \<comment> \<open>\<open>if p != nil { x = *p }\<close>\<close>
  "or_else p x = (case p of None \<Rightarrow> x | Some y \<Rightarrow> y)"

definition merge_plain :: "file_plain option \<Rightarrow> Listener \<Rightarrow> Listener" where
  "merge_plain p l =
     (case p of None \<Rightarrow> l | Some f \<Rightarrow> l\<lparr>ln_Enabled := or_else (fp_Enabled f) (ln_Enabled l), ln_Addr := or_else (fp_Addr f) (ln_Addr l)\<rparr>)"

definition merge_tls :: "file_tls option \<Rightarrow> TLSListener \<Rightarrow> TLSListener" where
  "merge_tls p l =
     (case p of None \<Rightarrow> l
      | Some f \<Rightarrow> l\<lparr>tl_Enabled := or_else (ft_Enabled f) (tl_Enabled l), tl_Addr := or_else (ft_Addr f) (tl_Addr l),
                    tl_Cert := or_else (ft_Cert f) (tl_Cert l), tl_Key := or_else (ft_Key f) (tl_Key l)\<rparr>)"

definition merge_log :: "file_log option \<Rightarrow> config_Log \<Rightarrow> config_Log" where
  "merge_log p l =
     (case p of None \<Rightarrow> l | Some f \<Rightarrow> l\<lparr>lg_Level := or_else (fg_Level f) (lg_Level l), lg_File := or_else (fg_File f) (lg_File l)\<rparr>)"

definition merge_mfa :: "(string \<Rightarrow> file_read) \<Rightarrow> file_mfa option \<Rightarrow> string \<Rightarrow> config_error + string" where
  "merge_mfa read_file p key =
     (case p of
        None \<Rightarrow> Inr key
      | Some m \<Rightarrow>
          if or_else (fm_Key m) [] \<noteq> [] then decodeMFAKey (or_else (fm_Key m) [])
          else if or_else (fm_KeyFile m) [] \<noteq> [] then
            (case read_file (or_else (fm_KeyFile m) []) of ReadOK raw \<Rightarrow> decodeMFAKey raw | _ \<Rightarrow> Inl ErrMFAKeyFile)
          else Inr key)"

type_synonym duration_parser = "string \<Rightarrow> duration option"

definition merge_duration :: "duration_parser \<Rightarrow> string \<Rightarrow> string option \<Rightarrow> duration \<Rightarrow> config_error + duration" where
  "merge_duration parse name p x =
     (case p of None \<Rightarrow> Inr x | Some s \<Rightarrow> (case parse s of None \<Rightarrow> Inl (ErrLimit name) | Some d \<Rightarrow> Inr d))"

definition merge_bridge :: "string option \<Rightarrow> bool \<Rightarrow> config_error + bool" where
  "merge_bridge p x =
     (case p of None \<Rightarrow> Inr x
      | Some s \<Rightarrow> if s = ''disconnect'' then Inr False else if s = ''exempt'' then Inr True else Inl (ErrLimit ''limits.bridge_idle''))"

definition and_then :: "'e + 'a \<Rightarrow> ('a \<Rightarrow> 'e + 'b) \<Rightarrow> 'e + 'b" where
  "and_then r k = (case r of Inl e \<Rightarrow> Inl e | Inr x \<Rightarrow> k x)"

definition merge_limits :: "duration_parser \<Rightarrow> file_limits option \<Rightarrow> config_Limits \<Rightarrow> config_error + config_Limits" where
  "merge_limits parse p l =
     (case p of
        None \<Rightarrow> Inr l
      | Some f \<Rightarrow>
          and_then (merge_duration parse ''limits.pre_auth_idle'' (fl_PreAuthIdle f) (cl_PreAuthIdle l)) (\<lambda>pre.
          and_then (merge_duration parse ''limits.idle'' (fl_Idle f) (cl_Idle l)) (\<lambda>idl.
          and_then (merge_duration parse ''limits.pre_auth_max'' (fl_PreAuthMax f) (cl_PreAuthMax l)) (\<lambda>mx.
          and_then (merge_bridge (fl_BridgeIdle f) (cl_BridgeIdleExempt l)) (\<lambda>ex.
          Inr \<lparr>cl_PreAuthIdle = pre, cl_Idle = idl, cl_MaxConns = or_else (fl_MaxConns f) (cl_MaxConns l),
               cl_MaxPerIP = or_else (fl_MaxPerIP f) (cl_MaxPerIP l), cl_PreAuthMax = mx, cl_BridgeIdleExempt = ex\<rparr>)))))"

definition merge_decoded :: "duration_parser \<Rightarrow> (string \<Rightarrow> file_read) \<Rightarrow> fileConfig \<Rightarrow> Config \<Rightarrow> config_error + Config" where
  "merge_decoded parse read_file fc cfg =
     and_then (merge_mfa read_file (fc_MFA fc) (cf_MFAKey cfg)) (\<lambda>key.
     and_then (merge_limits parse (fc_Limits fc) (cf_Limits cfg)) (\<lambda>lim.
     Inr \<lparr>cf_DBPath = or_else (fc_DB fc) (cf_DBPath cfg), cf_Plain = merge_plain (fc_Plain fc) (cf_Plain cfg),
          cf_TLS = merge_tls (fc_TLS fc) (cf_TLS cfg), cf_Limits = lim, cf_Log = merge_log (fc_Log fc) (cf_Log cfg), cf_MFAKey = key\<rparr>))"

definition mergeFile ::
  "duration_parser \<Rightarrow> (string \<Rightarrow> fileConfig option) \<Rightarrow> (string \<Rightarrow> file_read) \<Rightarrow> string \<Rightarrow> bool \<Rightarrow> Config \<Rightarrow> config_error + Config" where
  "mergeFile parse decode read_file path explicit cfg =
     (case read_file path of
        ReadNotExist \<Rightarrow> if \<not> explicit then Inr cfg else Inl (ErrReadConfig path)
      | ReadFailed \<Rightarrow> Inl (ErrReadConfig path)
      | ReadOK data \<Rightarrow> (case decode data of None \<Rightarrow> Inl (ErrParseConfig path) | Some fc \<Rightarrow> merge_decoded parse read_file fc cfg))"

section \<open>Validation\<close>

definition ParseLevel :: "string \<Rightarrow> string option" where \<comment> \<open>internal/logging; the level by its name\<close>
  "ParseLevel s =
     (let l = to_lower s
      in if l = ''error'' \<or> l = ''warn'' \<or> l = ''info'' \<or> l = ''debug'' then Some l else None)"

definition validate :: "Config \<Rightarrow> config_error option" where
  "validate cfg =
     (if ParseLevel (lg_Level (cf_Log cfg)) = None then Some (ErrNotValid ''log.level'')
      else if \<not> ln_Enabled (cf_Plain cfg) \<and> \<not> tl_Enabled (cf_TLS cfg) then Some (ErrNotValid ''no listener enabled'')
      else if ln_Enabled (cf_Plain cfg) \<and> ln_Addr (cf_Plain cfg) = [] then Some (ErrNotValid ''plain addr'')
      else if tl_Enabled (cf_TLS cfg) \<and> tl_Addr (cf_TLS cfg) = [] then Some (ErrNotValid ''tls addr'')
      else if tl_Enabled (cf_TLS cfg) \<and> (tl_Cert (cf_TLS cfg) = [] \<or> tl_Key (cf_TLS cfg) = []) then Some (ErrNotValid ''tls cert/key'')
      else if cl_PreAuthIdle (cf_Limits cfg) \<le> 0 then Some (ErrNotValid ''limits.pre_auth_idle'')
      else if cl_PreAuthMax (cf_Limits cfg) \<le> 0 then Some (ErrNotValid ''limits.pre_auth_max'')
      else if cl_Idle (cf_Limits cfg) \<le> 0 then Some (ErrNotValid ''limits.idle'')
      else if cl_MaxConns (cf_Limits cfg) \<le> 0 then Some (ErrNotValid ''limits.max_conns'')
      else if cl_MaxPerIP (cf_Limits cfg) < 0 then Some (ErrNotValid ''limits.max_per_ip'')
      else None)"

section \<open>Load\<close>

definition serve_flags :: "duration_parser \<Rightarrow> string \<Rightarrow> flag_kind option" where
  "serve_flags parse name =
     (if name \<in> set [''config'', ''listen'', ''db'', ''log-level'', ''log-file''] then Some (ValueFlag (\<lambda>_. True))
      else if name \<in> set [''pre-auth-idle'', ''idle'', ''pre-auth-max''] then Some (ValueFlag (\<lambda>v. parse v \<noteq> None))
      else if name \<in> set [''max-conns'', ''max-per-ip''] then Some (ValueFlag (\<lambda>v. parse_int0 v \<noteq> None))
      else None)"

text \<open>What a flag gives: \<open>None\<close> when it is not on the command line.\<close>

definition string_flag :: "(string \<times> string) list \<Rightarrow> string \<Rightarrow> string option" where
  "string_flag acts n = flag_value acts n"

definition duration_flag :: "duration_parser \<Rightarrow> (string \<times> string) list \<Rightarrow> string \<Rightarrow> duration option" where
  "duration_flag parse acts n = (case flag_value acts n of None \<Rightarrow> None | Some v \<Rightarrow> parse v)"

definition int_flag :: "(string \<times> string) list \<Rightarrow> string \<Rightarrow> int option" where
  "int_flag acts n = (case flag_value acts n of None \<Rightarrow> None | Some v \<Rightarrow> parse_int0 v)"

definition apply_flags :: "duration_parser \<Rightarrow> (string \<times> string) list \<Rightarrow> Config \<Rightarrow> config_error + Config" where
  "apply_flags parse acts cfg =
     (if string_flag acts ''listen'' \<noteq> None \<and> \<not> ln_Enabled (cf_Plain cfg) then Inl ErrListenDisabled
      else Inr (cfg\<lparr>cf_DBPath := or_else (string_flag acts ''db'') (cf_DBPath cfg),
        cf_Plain := (cf_Plain cfg)\<lparr>ln_Addr := or_else (string_flag acts ''listen'') (ln_Addr (cf_Plain cfg))\<rparr>,
        cf_Limits := (cf_Limits cfg)\<lparr>
          cl_PreAuthIdle := or_else (duration_flag parse acts ''pre-auth-idle'') (cl_PreAuthIdle (cf_Limits cfg)),
          cl_PreAuthMax := or_else (duration_flag parse acts ''pre-auth-max'') (cl_PreAuthMax (cf_Limits cfg)),
          cl_Idle := or_else (duration_flag parse acts ''idle'') (cl_Idle (cf_Limits cfg)),
          cl_MaxConns := or_else (int_flag acts ''max-conns'') (cl_MaxConns (cf_Limits cfg)),
          cl_MaxPerIP := or_else (int_flag acts ''max-per-ip'') (cl_MaxPerIP (cf_Limits cfg))\<rparr>,
        cf_Log := (cf_Log cfg)\<lparr>lg_Level := or_else (string_flag acts ''log-level'') (lg_Level (cf_Log cfg)),
          lg_File := or_else (string_flag acts ''log-file'') (lg_File (cf_Log cfg))\<rparr>\<rparr>))"

definition apply_env :: "string \<Rightarrow> Config \<Rightarrow> config_error + Config" where
  "apply_env env cfg =
     (if env \<noteq> [] then and_then (decodeMFAKey env) (\<lambda>k. Inr (cfg\<lparr>cf_MFAKey := k\<rparr>)) else Inr cfg)"

definition Load ::
  "duration_parser \<Rightarrow> (string \<Rightarrow> fileConfig option) \<Rightarrow> (string \<Rightarrow> file_read) \<Rightarrow> string \<Rightarrow> string list \<Rightarrow> config_error + Config" where
  "Load parse decode read_file env args =
     (case parse_flags (serve_flags parse) args of
        None \<Rightarrow> Inl ErrFlags
      | Some acts \<Rightarrow>
          and_then (mergeFile parse decode read_file (or_else (string_flag acts ''config'') defaultConfigFile)
              (string_flag acts ''config'' \<noteq> None) defaults) (\<lambda>c1.
          and_then (apply_flags parse acts c1) (\<lambda>c2.
          and_then (apply_env env c2) (\<lambda>c3.
          case validate c3 of Some e \<Rightarrow> Inl e | None \<Rightarrow> Inr c3))))"

end
