(* ===== verification/Config_Props.thy ===== *)
theory Config_Props
  imports Config
begin

text \<open>
  What a loaded configuration is: every setting by the precedence flags over file over defaults,
  and only values the validation accepts.
\<close>

section \<open>Layers\<close>

lemma and_then_Inr [simp]: "and_then r k = Inr y \<longleftrightarrow> (\<exists>x. r = Inr x \<and> k x = Inr y)"
  by (simp add: and_then_def split: sum.split)

lemma or_else_simps [simp]: "or_else None x = x" "or_else (Some y) x = y"
  by (simp_all add: or_else_def)

text \<open>The first of flag, file and default that is there.\<close>

definition layered :: "'a option \<Rightarrow> 'a option \<Rightarrow> 'a \<Rightarrow> 'a" where
  "layered flag used dflt = or_else flag (or_else used dflt)"

text \<open>A field of the file, through its section: absent when the file or the section is.\<close>

definition in_section :: "fileConfig option \<Rightarrow> (fileConfig \<Rightarrow> 's option) \<Rightarrow> ('s \<Rightarrow> 'a option) \<Rightarrow> 'a option" where
  "in_section used sec fld = Option.bind (Option.bind used sec) fld"

lemma in_section_simps [simp]:
  "in_section None sec fld = None"
  "in_section (Some fc) sec fld = (case sec fc of None \<Rightarrow> None | Some s \<Rightarrow> fld s)"
  by (auto simp: in_section_def split: option.split)

text \<open>The file that took part: none, when the default file does not exist.\<close>

definition file_used :: "(string \<Rightarrow> fileConfig option) \<Rightarrow> (string \<Rightarrow> file_read) \<Rightarrow> string option \<Rightarrow> fileConfig option \<Rightarrow> bool" where
  "file_used decode read_file flag used \<longleftrightarrow>
     (case read_file (or_else flag defaultConfigFile) of
        ReadOK data \<Rightarrow> used \<noteq> None \<and> decode data = used
      | ReadNotExist \<Rightarrow> flag = None \<and> used = None
      | ReadFailed \<Rightarrow> False)"

lemma merge_duration_Inr: "merge_duration parse n p x = Inr d \<longleftrightarrow> (case p of None \<Rightarrow> d = x | Some s \<Rightarrow> parse s = Some d)"
  by (auto simp: merge_duration_def split: option.splits)

lemma merge_bridge_Inr: "merge_bridge p x = Inr b \<longleftrightarrow> (case p of None \<Rightarrow> b = x | Some s \<Rightarrow> s = ''exempt'' \<and> b \<or> s = ''disconnect'' \<and> \<not> b)"
  by (auto simp: merge_bridge_def split: option.splits)

lemma merge_limits_Inr:
  assumes "merge_limits parse p l = Inr l'"
  shows "cl_PreAuthIdle l' = or_else (Option.bind (Option.bind p fl_PreAuthIdle) parse) (cl_PreAuthIdle l) \<and>
    cl_Idle l' = or_else (Option.bind (Option.bind p fl_Idle) parse) (cl_Idle l) \<and>
    cl_PreAuthMax l' = or_else (Option.bind (Option.bind p fl_PreAuthMax) parse) (cl_PreAuthMax l) \<and>
    cl_MaxConns l' = or_else (Option.bind p fl_MaxConns) (cl_MaxConns l) \<and>
    cl_MaxPerIP l' = or_else (Option.bind p fl_MaxPerIP) (cl_MaxPerIP l) \<and>
    cl_BridgeIdleExempt l' = or_else (map_option (\<lambda>s. s = ''exempt'') (Option.bind p fl_BridgeIdle)) (cl_BridgeIdleExempt l)"
proof -
  have dur: "d = or_else (Option.bind q parse) x" if "merge_duration parse n q x = Inr d" for n q x d
    using that by (auto simp: merge_duration_Inr split: option.splits)
  have bri: "b = or_else (map_option (\<lambda>s. s = ''exempt'') q) x" if "merge_bridge q x = Inr b" for q x b
    using that by (auto simp: merge_bridge_Inr split: option.splits)
  show ?thesis
  proof (cases p)
    case (Some f)
    with assms obtain pre idl mx ex where
      "merge_duration parse ''limits.pre_auth_idle'' (fl_PreAuthIdle f) (cl_PreAuthIdle l) = Inr pre"
      "merge_duration parse ''limits.idle'' (fl_Idle f) (cl_Idle l) = Inr idl"
      "merge_duration parse ''limits.pre_auth_max'' (fl_PreAuthMax f) (cl_PreAuthMax l) = Inr mx"
      "merge_bridge (fl_BridgeIdle f) (cl_BridgeIdleExempt l) = Inr ex"
      and l': "l' = \<lparr>cl_PreAuthIdle = pre, cl_Idle = idl, cl_MaxConns = or_else (fl_MaxConns f) (cl_MaxConns l),
               cl_MaxPerIP = or_else (fl_MaxPerIP f) (cl_MaxPerIP l), cl_PreAuthMax = mx, cl_BridgeIdleExempt = ex\<rparr>"
      by (auto simp: merge_limits_def)
    from dur[OF this(1)] dur[OF this(2)] dur[OF this(3)] bri[OF this(4)] Some show ?thesis by (simp add: l')
  qed (use assms in \<open>simp add: merge_limits_def\<close>)
qed

lemma mergeFile_Inr:
  assumes "mergeFile parse decode read_file (or_else flag defaultConfigFile) (flag \<noteq> None) cfg = Inr c"
  obtains used where "file_used decode read_file flag used"
    "case used of None \<Rightarrow> c = cfg | Some fc \<Rightarrow> merge_decoded parse read_file fc cfg = Inr c"
proof (cases "read_file (or_else flag defaultConfigFile)")
  case (ReadOK data)
  with assms obtain fc where "decode data = Some fc" "merge_decoded parse read_file fc cfg = Inr c"
    by (auto simp: mergeFile_def split: option.splits)
  with ReadOK that[of "Some fc"] show ?thesis by (simp add: file_used_def)
next
  case ReadNotExist
  with assms that[of None] show ?thesis by (auto simp: mergeFile_def file_used_def split: if_splits)
qed (use assms in \<open>simp add: mergeFile_def\<close>)

text \<open>What the default configuration becomes under the file.\<close>

definition file_layer :: "duration_parser \<Rightarrow> fileConfig option \<Rightarrow> Config \<Rightarrow> bool" where
  "file_layer parse used c \<longleftrightarrow>
     cf_DBPath c = or_else (Option.bind used fc_DB) defaultDBPath \<and>
     ln_Enabled (cf_Plain c) = or_else (in_section used fc_Plain fp_Enabled) True \<and>
     ln_Addr (cf_Plain c) = or_else (in_section used fc_Plain fp_Addr) defaultPlainAddr \<and>
     tl_Enabled (cf_TLS c) = or_else (in_section used fc_TLS ft_Enabled) False \<and>
     tl_Addr (cf_TLS c) = or_else (in_section used fc_TLS ft_Addr) [] \<and>
     tl_Cert (cf_TLS c) = or_else (in_section used fc_TLS ft_Cert) [] \<and>
     tl_Key (cf_TLS c) = or_else (in_section used fc_TLS ft_Key) [] \<and>
     cl_PreAuthIdle (cf_Limits c) = or_else (Option.bind (in_section used fc_Limits fl_PreAuthIdle) parse) defaultPreAuthIdle \<and>
     cl_Idle (cf_Limits c) = or_else (Option.bind (in_section used fc_Limits fl_Idle) parse) defaultIdle \<and>
     cl_PreAuthMax (cf_Limits c) = or_else (Option.bind (in_section used fc_Limits fl_PreAuthMax) parse) defaultPreAuthMax \<and>
     cl_MaxConns (cf_Limits c) = or_else (in_section used fc_Limits fl_MaxConns) defaultMaxConns \<and>
     cl_MaxPerIP (cf_Limits c) = or_else (in_section used fc_Limits fl_MaxPerIP) defaultMaxPerIP \<and>
     cl_BridgeIdleExempt (cf_Limits c) = (in_section used fc_Limits fl_BridgeIdle = Some ''exempt'') \<and>
     lg_Level (cf_Log c) = or_else (in_section used fc_Log fg_Level) ''info'' \<and>
     lg_File (cf_Log c) = or_else (in_section used fc_Log fg_File) []"

lemma merge_default_layer:
  assumes "case used of None \<Rightarrow> c = defaults | Some fc \<Rightarrow> merge_decoded parse read_file fc defaults = Inr c"
  shows "file_layer parse used c"
proof (cases used)
  case None
  with assms show ?thesis by (simp add: file_layer_def defaults_def)
next
  case (Some fc)
  with assms obtain key lim where m: "merge_limits parse (fc_Limits fc) (cf_Limits defaults) = Inr lim"
    and c: "c = \<lparr>cf_DBPath = or_else (fc_DB fc) (cf_DBPath defaults), cf_Plain = merge_plain (fc_Plain fc) (cf_Plain defaults),
          cf_TLS = merge_tls (fc_TLS fc) (cf_TLS defaults), cf_Limits = lim, cf_Log = merge_log (fc_Log fc) (cf_Log defaults), cf_MFAKey = key\<rparr>"
    by (auto simp: merge_decoded_def)
  show ?thesis
    unfolding file_layer_def c Some Config.simps
    using merge_limits_Inr[OF m]
    by (auto simp: defaults_def merge_plain_def merge_tls_def merge_log_def in_section_def or_else_def split: option.splits)
qed

text \<open>What the flags and the environment make of it.\<close>

lemma apply_flags_Inr:
  assumes "apply_flags parse acts c = Inr c'"
  shows "cf_DBPath c' = or_else (string_flag acts ''db'') (cf_DBPath c) \<and>
    cf_Plain c' = (cf_Plain c)\<lparr>ln_Addr := or_else (string_flag acts ''listen'') (ln_Addr (cf_Plain c))\<rparr> \<and> cf_TLS c' = cf_TLS c \<and>
    cf_Limits c' = (cf_Limits c)\<lparr>
          cl_PreAuthIdle := or_else (duration_flag parse acts ''pre-auth-idle'') (cl_PreAuthIdle (cf_Limits c)),
          cl_PreAuthMax := or_else (duration_flag parse acts ''pre-auth-max'') (cl_PreAuthMax (cf_Limits c)),
          cl_Idle := or_else (duration_flag parse acts ''idle'') (cl_Idle (cf_Limits c)),
          cl_MaxConns := or_else (int_flag acts ''max-conns'') (cl_MaxConns (cf_Limits c)),
          cl_MaxPerIP := or_else (int_flag acts ''max-per-ip'') (cl_MaxPerIP (cf_Limits c))\<rparr> \<and>
    lg_Level (cf_Log c') = or_else (string_flag acts ''log-level'') (lg_Level (cf_Log c)) \<and>
    lg_File (cf_Log c') = or_else (string_flag acts ''log-file'') (lg_File (cf_Log c)) \<and>
    cf_MFAKey c' = cf_MFAKey c \<and> (string_flag acts ''listen'' = None \<or> ln_Enabled (cf_Plain c))"
  using assms by (auto simp: apply_flags_def split: if_splits)

lemma apply_env_Inr:
  "apply_env env c = Inr c' \<longleftrightarrow>
     (if env = [] then c' = c else \<exists>k. decodeMFAKey env = Inr k \<and> c' = c\<lparr>cf_MFAKey := k\<rparr>)"
  by (auto simp: apply_env_def)

lemma Load_Inr:
  assumes "Load parse decode read_file env args = Inr cfg"
  obtains acts used c1 c2 where
    "parse_flags (serve_flags parse) args = Some acts"
    "file_used decode read_file (string_flag acts ''config'') used"
    "case used of None \<Rightarrow> c1 = defaults | Some fc \<Rightarrow> merge_decoded parse read_file fc defaults = Inr c1"
    "apply_flags parse acts c1 = Inr c2" "apply_env env c2 = Inr cfg" "validate cfg = None"
proof -
  obtain acts c1 c2 where p: "parse_flags (serve_flags parse) args = Some acts"
    and m: "mergeFile parse decode read_file (or_else (string_flag acts ''config'') defaultConfigFile)
              (string_flag acts ''config'' \<noteq> None) defaults = Inr c1"
    and f: "apply_flags parse acts c1 = Inr c2" "apply_env env c2 = Inr cfg" "validate cfg = None"
    using assms by (auto simp: Load_def split: option.splits)
  from m show ?thesis by (rule mergeFile_Inr) (rule that[OF p _ _ f])
qed

section \<open>The key\<close>

lemma decodeMFAKey_Inr: "decodeMFAKey s = Inr k \<Longrightarrow> length k = 32"
  by (auto simp: decodeMFAKey_def split: option.splits if_splits)

lemma merge_mfa_Inr: "merge_mfa read_file p key = Inr k \<Longrightarrow> k = key \<or> length k = 32"
  by (auto simp: merge_mfa_def dest: decodeMFAKey_Inr split: option.splits if_splits file_read.splits)

lemma Load_key:
  assumes "case used of None \<Rightarrow> c1 = defaults | Some fc \<Rightarrow> merge_decoded parse read_file fc defaults = Inr c1"
    "apply_flags parse acts c1 = Inr c2" "apply_env env c2 = Inr cfg"
  shows "cf_MFAKey cfg = [] \<or> length (cf_MFAKey cfg) = 32"
proof -
  have "cf_MFAKey c1 = [] \<or> length (cf_MFAKey c1) = 32"
    using assms(1) by (auto simp: merge_decoded_def defaults_def dest: merge_mfa_Inr split: option.splits)
  with apply_flags_Inr[OF assms(2)] assms(3) show ?thesis
    by (auto simp: apply_env_Inr dest: decodeMFAKey_Inr split: if_splits)
qed

section \<open>A sample\<close>

text \<open>An empty file system: the defaults, with two settings on the command line.\<close>

definition sample_args :: "string list" where "sample_args = [''-listen'', ''h:23'', ''--max-conns=0x10'', ''-idle'', ''45s'']"

definition sample_load :: "config_error + Config" where
  "sample_load = Load (ParseDuration (\<lambda>_ _ _. 0)) (\<lambda>_. None) (\<lambda>_. ReadNotExist) [] sample_args"

lemma sample_load_value:
  "case sample_load of Inl _ \<Rightarrow> False
   | Inr cfg \<Rightarrow> ln_Addr (cf_Plain cfg) = ''h:23'' \<and> cl_MaxConns (cf_Limits cfg) = 16 \<and> cl_Idle (cf_Limits cfg) = 45 * second"
  by code_simp

section \<open>Properties\<close>



text \<open>
  C16. Only usable configurations are accepted, wherever the values came from: at least one
  listener, each enabled one with its address and TLS with both certificate and key; idle and
  login limits strictly positive 64-bit durations, at least one connection, a per-address limit
  of zero (off) or more; a log level that exists; and an MFA key of none or exactly 32 bytes,
  the length the cipher demands.
\<close>

theorem config_accepted_safe:
  assumes "Load (ParseDuration frac) decode read_file env args = Inr cfg"
  shows "(ln_Enabled (cf_Plain cfg) \<or> tl_Enabled (cf_TLS cfg)) \<and>
    \<not> (ln_Enabled (cf_Plain cfg) \<and> ln_Addr (cf_Plain cfg) = []) \<and>
    \<not> (tl_Enabled (cf_TLS cfg) \<and> (tl_Addr (cf_TLS cfg) = [] \<or> tl_Cert (cf_TLS cfg) = [] \<or> tl_Key (cf_TLS cfg) = [])) \<and>
    list_all (\<lambda>d. 0 < d \<and> d \<le> max_int64) [cl_PreAuthIdle (cf_Limits cfg), cl_PreAuthMax (cf_Limits cfg), cl_Idle (cf_Limits cfg)] \<and>
    1 \<le> cl_MaxConns (cf_Limits cfg) \<and> 0 \<le> cl_MaxPerIP (cf_Limits cfg) \<and> ParseLevel (lg_Level (cf_Log cfg)) \<noteq> None \<and>
    (cf_MFAKey cfg = [] \<or> NewCipher newGCM (cf_MFAKey cfg) = newGCM (cf_MFAKey cfg))"
  using assms
proof (rule Load_Inr)
  fix acts used c1 c2
  assume m: "case used of None \<Rightarrow> c1 = defaults | Some fc \<Rightarrow> merge_decoded (ParseDuration frac) read_file fc defaults = Inr c1"
    and f: "apply_flags (ParseDuration frac) acts c1 = Inr c2" and e: "apply_env env c2 = Inr cfg" and v: "validate cfg = None"
  have lim: "cf_Limits cfg = cf_Limits c2" using e by (auto simp: apply_env_Inr split: if_splits)
  have top: "or_else (duration_flag (ParseDuration frac) acts n) x \<le> max_int64" if "x \<le> max_int64" for n x
    using that ParseDuration_range by (auto simp: duration_flag_def or_else_def split: option.splits)
  have fopt: "or_else (Option.bind o1 (ParseDuration frac)) x \<le> max_int64" if "x \<le> max_int64" for o1 x
    using that ParseDuration_range by (auto simp: or_else_def bind_eq_Some_conv split: option.splits)
  have "defaultPreAuthIdle \<le> max_int64" "defaultPreAuthMax \<le> max_int64" "defaultIdle \<le> max_int64" by code_simp+
  then have "cl_PreAuthIdle (cf_Limits cfg) \<le> max_int64" "cl_PreAuthMax (cf_Limits cfg) \<le> max_int64" "cl_Idle (cf_Limits cfg) \<le> max_int64"
    using merge_default_layer[OF m, unfolded file_layer_def] apply_flags_Inr[OF f] by (simp_all add: lim top fopt)
  with v Load_key[OF m f e] show ?thesis
    by (auto simp: validate_def NewCipher_def KeyLen_def split: if_splits)
qed

theorem config_accepted_safe_witness:
  "\<exists>cfg. sample_load = Inr cfg \<and> 0 < cl_Idle (cf_Limits cfg) \<and> cl_Idle (cf_Limits cfg) \<le> max_int64 \<and> ln_Addr (cf_Plain cfg) \<noteq> []"
proof -
  obtain cfg where cfg: "sample_load = Inr cfg" "ln_Addr (cf_Plain cfg) = ''h:23''"
    using sample_load_value by (simp split: sum.splits)
  from config_accepted_safe[OF cfg(1)[unfolded sample_load_def], of "\<lambda>_. None"] cfg show ?thesis by (intro exI[of _ cfg]) simp
qed

end
