(* ===== verification/Commands.thy ===== *)
theory Commands
  imports Config Setup World
begin

text \<open>
  The command line, cmd/tn3270proxy: the dispatch on the first argument, the audit and document
  subcommands, and the start of the gateway up to the accept loops (with listen.Build of
  internal/listen). \<open>open_store\<close> is what store.Open does to a database whose schema is up to date;
  opening sockets and key pairs, the clock and the file system are arguments.
\<close>

section \<open>Dispatch (main.go)\<close>

datatype command = CmdSeed | CmdAudit | CmdDoc | CmdBootstrap | CmdQuickstart | CmdMFA | CmdVersion | CmdServe

definition run_command :: "string list \<Rightarrow> command \<times> string list" where \<comment> \<open>\<open>run\<close>: what is called, with what\<close>
  "run_command args =
     (if args \<noteq> [] \<and> hd args = ''seed'' then (CmdSeed, tl args)
      else if args \<noteq> [] \<and> hd args = ''audit'' then (CmdAudit, tl args)
      else if args \<noteq> [] \<and> hd args = ''doc'' then (CmdDoc, tl args)
      else if args \<noteq> [] \<and> hd args = ''bootstrap'' then (CmdBootstrap, tl args)
      else if args \<noteq> [] \<and> hd args = ''quickstart'' then (CmdQuickstart, tl args)
      else if args \<noteq> [] \<and> hd args = ''mfa'' then (CmdMFA, tl args)
      else if args \<noteq> [] \<and> hd args = ''version'' then (CmdVersion, [])
      else if args \<noteq> [] \<and> hd args = ''serve'' then (CmdServe, tl args)
      else (CmdServe, args))"

section \<open>Errors\<close>

datatype cmd_error =
    CmdFlags
  | CmdUsage string
  | CmdConfig config_error
  | CmdPrep prep_error
  | CmdFile string          \<comment> \<open>a file cannot be read or written\<close>
  | CmdListen string        \<comment> \<open>a socket or a key pair\<close>

type_synonym 'a cmd = "(db, cmd_error + 'a) state"

definition cmd_fail :: "cmd_error \<Rightarrow> 'a cmd" where "cmd_fail e = return_st (Inl e)"
definition cmd_return :: "'a \<Rightarrow> 'a cmd" where "cmd_return x = return_st (Inr x)"

definition prepare :: "'a prep \<Rightarrow> 'a cmd" where
  "prepare m = do { r \<leftarrow> m; return_st (case r of Inl e \<Rightarrow> Inl (CmdPrep e) | Inr x \<Rightarrow> Inr x) }"

abbreviation on_db :: "'a st \<Rightarrow> 'a cmd" where "on_db m \<equiv> prepare (on_store m)"

definition open_store :: "unit cmd" where "open_store = prepare reconcileDefaults"

definition with_flags :: "(string \<Rightarrow> flag_kind option) \<Rightarrow> string list \<Rightarrow> ((string \<times> string) list \<Rightarrow> 'a cmd) \<Rightarrow> 'a cmd" where
  "with_flags formal args k = (case parse_flags formal args of None \<Rightarrow> cmd_fail CmdFlags | Some acts \<Rightarrow> k acts)"

definition flag_string :: "(string \<times> string) list \<Rightarrow> string \<Rightarrow> string" where \<comment> \<open>the default is empty\<close>
  "flag_string acts n = or_else (string_flag acts n) []"

section \<open>audit (audit.go)\<close>

definition maxDays :: int where "maxDays = 36500"

definition parseDuration :: "duration_parser \<Rightarrow> string \<Rightarrow> duration option" where
  "parseDuration parse s =
     (if suffix ''d'' s then
        (case atoi (trim_suffix ''d'' s) of
           None \<Rightarrow> None
         | Some n \<Rightarrow> if n < 0 then None else if maxDays < n then None else Some (n * 24 * hour))
      else case parse s of None \<Rightarrow> None | Some d \<Rightarrow> if d < 0 then None else Some d)"

definition string_formal :: "string list \<Rightarrow> string \<Rightarrow> flag_kind option" where
  "string_formal names n = (if n \<in> set names then Some (ValueFlag (\<lambda>_. True)) else None)"

definition runAuditList :: "duration_parser \<Rightarrow> go_time \<Rightarrow> string list \<Rightarrow> audit_event list cmd" where
  "runAuditList parse now args =
     with_flags (\<lambda>n. if n = ''limit'' then Some (ValueFlag (\<lambda>v. parse_int0 v \<noteq> None))
                     else string_formal [''db'', ''user'', ''actor'', ''kind'', ''since''] n) args (\<lambda>acts.
       let f = \<lparr>af_Username = flag_string acts ''user'', af_Actor = flag_string acts ''actor'', af_Kind = flag_string acts ''kind'',
                af_Since = None, af_Limit = or_else (int_flag acts ''limit'') 100\<rparr>
       in case (if flag_string acts ''since'' = [] then Some f
                else map_option (\<lambda>d. f\<lparr>af_Since := Some (time_unix (now - d))\<rparr>) (parseDuration parse (flag_string acts ''since''))) of
            None \<Rightarrow> cmd_fail (CmdUsage ''since'')
          | Some f' \<Rightarrow> try_bind open_store (\<lambda>_. on_db (ListAudit f')))"

definition runAuditPrune :: "duration_parser \<Rightarrow> go_time \<Rightarrow> string list \<Rightarrow> nat cmd" where
  "runAuditPrune parse now args =
     with_flags (string_formal [''db'', ''older-than'']) args (\<lambda>acts.
       if flag_string acts ''older-than'' = [] then cmd_fail (CmdUsage ''older-than is required'')
       else case parseDuration parse (flag_string acts ''older-than'') of
         None \<Rightarrow> cmd_fail (CmdUsage ''older-than'')
       | Some d \<Rightarrow>
           if d = 0 then cmd_fail (CmdUsage ''older-than must be positive'')
           else try_bind open_store (\<lambda>_. on_db (PruneAudit (time_unix (now - d)))))"

datatype audit_result = AuditRows "audit_event list" | AuditPruned nat

definition runAudit :: "duration_parser \<Rightarrow> go_time \<Rightarrow> string list \<Rightarrow> audit_result cmd" where
  "runAudit parse now args =
     (case args of
        [] \<Rightarrow> cmd_fail (CmdUsage ''audit list|prune'')
      | v # rest \<Rightarrow>
          if v = ''list'' then try_bind (runAuditList parse now rest) (\<lambda>es. cmd_return (AuditRows es))
          else if v = ''prune'' then try_bind (runAuditPrune parse now rest) (\<lambda>n. cmd_return (AuditPruned n))
          else cmd_fail (CmdUsage v))"

section \<open>doc (doc.go)\<close>

definition runDocImport ::
  "(string \<Rightarrow> file_state) \<Rightarrow> (string \<Rightarrow> string option) \<Rightarrow> go_time \<Rightarrow> string list \<Rightarrow> nat cmd" where
  "runDocImport fs absolute now args =
     with_flags (string_formal [''db'', ''name'', ''file'']) args (\<lambda>acts.
       if flag_string acts ''name'' = [] \<or> flag_string acts ''file'' = [] then cmd_fail (CmdUsage ''-name and -file are required'')
       else case NormalizeDocName (flag_string acts ''name'') of
         None \<Rightarrow> cmd_fail (CmdUsage ''name'')
       | Some n \<Rightarrow>
           (case absolute (flag_string acts ''file'') of
              None \<Rightarrow> cmd_fail (CmdFile ''abs'')
            | Some path \<Rightarrow>
                (case ReadDocumentFile fs path of
                   Inl m \<Rightarrow> cmd_fail (CmdFile m)
                 | Inr content \<Rightarrow>
                     try_bind open_store (\<lambda>_.
                     try_bind (on_db (SetDocument n content ''cli'' now)) (\<lambda>_. do {
                       _ \<leftarrow> RecordAudit \<lparr>ae_ID = 0, ae_At = time_unix now, ae_SessionID = ''cli'', ae_Kind = AuditDocImport,
                              ae_Username = [], ae_Actor = ''cli'', ae_RemoteAddr = [], ae_Service = [],
                              ae_Detail = n @ '' from '' @ path @ '' ('' @ show_nat (doc_LineCount content) @ '' lines)''\<rparr>;
                       cmd_return (doc_LineCount content) })))))"

text \<open>The result is the file to write; \<open>write_ok\<close> says whether writing it succeeds.\<close>

definition runDocExport ::
  "(string \<Rightarrow> file_state) \<Rightarrow> (string \<Rightarrow> bool) \<Rightarrow> string list \<Rightarrow> (string \<times> string) cmd" where
  "runDocExport fs write_ok args =
     with_flags (\<lambda>n. if n = ''force'' then Some BoolFlag else string_formal [''db'', ''name'', ''file''] n) args (\<lambda>acts.
       let target = flag_string acts ''file'';
           forced = (case flag_value acts ''force'' of None \<Rightarrow> False | Some v \<Rightarrow> parse_bool v = Some True)
       in if flag_string acts ''name'' = [] \<or> target = [] then cmd_fail (CmdUsage ''-name and -file are required'')
          else case NormalizeDocName (flag_string acts ''name'') of
            None \<Rightarrow> cmd_fail (CmdUsage ''name'')
          | Some n \<Rightarrow>
              if \<not> forced \<and> (case fs target of FileMissing _ \<Rightarrow> False | _ \<Rightarrow> True) then cmd_fail (CmdFile ''exists'')
              else
                try_bind open_store (\<lambda>_.
                try_bind (on_db (GetDocument n)) (\<lambda>d.
                if write_ok target then cmd_return (target, d_Content d) else cmd_fail (CmdFile ''write''))))"

datatype doc_result = DocImported nat | DocExported string string

definition runDoc ::
  "(string \<Rightarrow> file_state) \<Rightarrow> (string \<Rightarrow> string option) \<Rightarrow> (string \<Rightarrow> bool) \<Rightarrow> go_time \<Rightarrow> string list \<Rightarrow> doc_result cmd" where
  "runDoc fs absolute write_ok now args =
     (case args of
        [] \<Rightarrow> cmd_fail (CmdUsage ''doc import|export'')
      | v # rest \<Rightarrow>
          if v = ''import'' then try_bind (runDocImport fs absolute now rest) (\<lambda>n. cmd_return (DocImported n))
          else if v = ''export'' then try_bind (runDocExport fs write_ok rest) (\<lambda>(p, c). cmd_return (DocExported p c))
          else cmd_fail (CmdUsage v))"

section \<open>seed (main.go)\<close>

text \<open>The result says whether the warning about a missing administrator follows.\<close>

definition runSeed ::
  "(string \<Rightarrow> file_read) \<Rightarrow> (string \<Rightarrow> SeedData option) \<Rightarrow> (nat \<Rightarrow> string \<Rightarrow> string option) \<Rightarrow> string list \<Rightarrow> bool cmd" where
  "runSeed read_file decode gen args =
     with_flags (string_formal [''db'', ''file'']) args (\<lambda>acts.
       if flag_string acts ''file'' = [] then cmd_fail (CmdUsage ''-file is required'')
       else case read_file (flag_string acts ''file'') of
         ReadOK raw \<Rightarrow>
           (case decode raw of
              None \<Rightarrow> cmd_fail (CmdFile ''parse seed file'')
            | Some data \<Rightarrow>
                try_bind open_store (\<lambda>_.
                try_bind (prepare (seed_Apply gen data)) (\<lambda>_. do { warned \<leftarrow> warnIfNoAdmin; cmd_return warned })))
       | _ \<Rightarrow> cmd_fail (CmdFile (flag_string acts ''file'')))"

section \<open>Listeners (internal/listen)\<close>

text \<open>
  \<open>listen_ok addr\<close>: the socket can be opened; \<open>pair_ok cert key\<close>: the key pair loads. The state is
  the list of sockets that are open; the result is the listeners handed to the server.
\<close>

datatype transport = PlainTransport | TLSTransport

definition net_Listen :: "(string \<Rightarrow> bool) \<Rightarrow> string \<Rightarrow> (string list, bool) state" where
  "net_Listen listen_ok addr = State (\<lambda>open_socks. if listen_ok addr then (True, open_socks @ [addr]) else (False, open_socks))"

fun closeAll :: "(transport \<times> string) list \<Rightarrow> (string list, unit) state" where
  "closeAll [] = return_st ()"
| "closeAll (l # ls) = do { _ \<leftarrow> modify (remove1 (snd l)); closeAll ls }"

definition Build_plain :: "(string \<Rightarrow> bool) \<Rightarrow> Config \<Rightarrow> (string list, string + (transport \<times> string) list) state" where
  "Build_plain listen_ok cfg =
     (if ln_Enabled (cf_Plain cfg) then do {
        opened \<leftarrow> net_Listen listen_ok (ln_Addr (cf_Plain cfg));
        (if opened then return_st (Inr [(PlainTransport, ln_Addr (cf_Plain cfg))])
         else do { _ \<leftarrow> closeAll []; return_st (Inl ''plain listener'') }) }
      else return_st (Inr []))"

definition Build_tls ::
  "(string \<Rightarrow> bool) \<Rightarrow> (string \<Rightarrow> string \<Rightarrow> bool) \<Rightarrow> Config \<Rightarrow> (transport \<times> string) list \<Rightarrow> (string list, string + (transport \<times> string) list) state" where
  "Build_tls listen_ok pair_ok cfg lns =
     (if tl_Enabled (cf_TLS cfg) then
        (if \<not> pair_ok (tl_Cert (cf_TLS cfg)) (tl_Key (cf_TLS cfg)) then do { _ \<leftarrow> closeAll lns; return_st (Inl ''load tls keypair'') }
         else do {
           opened \<leftarrow> net_Listen listen_ok (tl_Addr (cf_TLS cfg));
           (if opened then return_st (Inr (lns @ [(TLSTransport, tl_Addr (cf_TLS cfg))]))
            else do { _ \<leftarrow> closeAll lns; return_st (Inl ''tls listener'') }) })
      else return_st (Inr lns))"

definition Build ::
  "(string \<Rightarrow> bool) \<Rightarrow> (string \<Rightarrow> string \<Rightarrow> bool) \<Rightarrow> Config \<Rightarrow> (string list, string + (transport \<times> string) list) state" where
  "Build listen_ok pair_ok cfg =
     try_bind (Build_plain listen_ok cfg) (\<lambda>lns.
     try_bind (Build_tls listen_ok pair_ok cfg lns) (\<lambda>lns'.
     return_st (if lns' = [] then Inl ''no listeners enabled'' else Inr lns')))"

section \<open>serve (main.go)\<close>

record serve_env =
  sv_parse :: duration_parser
  sv_decode :: "string \<Rightarrow> fileConfig option"
  sv_read :: "string \<Rightarrow> file_read"
  sv_env :: string                            \<comment> \<open>TN3270PROXY_MFA_KEY\<close>
  sv_log_opens :: "string \<Rightarrow> bool"
  sv_newGCM :: "string \<Rightarrow> aead option"
  sv_nonce :: "string option"
  sv_listen_ok :: "string \<Rightarrow> bool"
  sv_pair_ok :: "string \<Rightarrow> string \<Rightarrow> bool"

text \<open>What runServe hands to the accept loops.\<close>

record serving =
  rs_Listeners :: "(transport \<times> string) list"
  rs_Limits :: config_Limits
  rs_Cipher :: "aead option"
  rs_Warned :: bool

definition runServe :: "serve_env \<Rightarrow> string list \<Rightarrow> serving cmd" where
  "runServe e args =
     (case Load (sv_parse e) (sv_decode e) (sv_read e) (sv_env e) args of
        Inl err \<Rightarrow> cmd_fail (CmdConfig err)
      | Inr cfg \<Rightarrow>
          if lg_File (cf_Log cfg) \<noteq> [] \<and> \<not> sv_log_opens e (lg_File (cf_Log cfg)) then cmd_fail (CmdFile ''log file'')
          else
            try_bind open_store (\<lambda>_.
            try_bind (prepare (mfaStartup (sv_newGCM e) (sv_nonce e) (cf_MFAKey cfg))) (\<lambda>cipher. do {
              warned \<leftarrow> warnIfNoAdmin;
              (case fst (run_state (Build (sv_listen_ok e) (sv_pair_ok e) cfg) []) of
                 Inl m \<Rightarrow> cmd_fail (CmdListen m)
               | Inr lns \<Rightarrow> cmd_return \<lparr>rs_Listeners = lns, rs_Limits = cf_Limits cfg, rs_Cipher = cipher, rs_Warned = warned\<rparr>) })))"

end
