(* ===== verification/Commands_Props.thy ===== *)
theory Commands_Props
  imports Commands Config_Props Setup_Props "HOL-Library.Multiset"
begin

text \<open>
  What the subcommands guarantee: retention never touches a recent record, a document survives an
  import and an export byte for byte, sockets do not leak, and what is true when the gateway
  starts to serve.
\<close>

section \<open>Steps\<close>

lemma succeeds_prepare: "succeeds P m Q \<Longrightarrow> succeeds P (prepare m) Q"
  by (fastforce simp: hoare_def prepare_def split: prod.splits sum.splits)

lemma run_prepare: "run_state (prepare m) d = (case run_state m d of (r, d') \<Rightarrow> (case r of Inl e \<Rightarrow> Inl (CmdPrep e) | Inr x \<Rightarrow> Inr x, d'))"
  by (simp add: prepare_def split: prod.split)

lemma keeps_prepare: "keeps P m \<Longrightarrow> keeps P (prepare m)"
  unfolding prepare_def by (intro keeps_rules)

lemma keeps_cmd: "keeps P (cmd_fail e)" "keeps P (cmd_return x)"
  by (simp_all add: cmd_fail_def cmd_return_def keeps_return)

text \<open>Opening the database adds rows to three tables and leaves the others alone.\<close>

lemma open_store_keeps:
  assumes "faultless P" "\<And>d. P d \<Longrightarrow> P (insert_group AdminGroup d)"
    "\<And>d k v. find_config k d = None \<Longrightarrow> P d \<Longrightarrow> P (d\<lparr>db_config := db_config d @ [(k, v)]\<rparr>)"
    "\<And>d x. find_document (d_Name x) d = None \<Longrightarrow> P d \<Longrightarrow> P (d\<lparr>db_documents := db_documents d @ [x]\<rparr>)"
  shows "keeps P open_store"
  unfolding open_store_def reconcileDefaults_def ensure_config_def ensure_document_def
  by (intro keeps_prepare keeps_try_bind keeps_each keeps_on_store keeps_exec assms(1)) (auto intro: assms)

lemma open_store_audit: "keeps (\<lambda>d. db_audit d = a) open_store"
  by (rule open_store_keeps) (simp_all add: faultless_def insert_group_def)

lemma run_open:
  assumes "run_state (try_bind open_store k) d = (r, d')"
  obtains e where "r = Inl e" "run_state open_store d = (Inl e, d')"
  | d1 where "run_state open_store d = (Inr (), d1)" "run_state (k ()) d1 = (r, d')"
proof -
  obtain x d1 where x: "run_state open_store d = (x, d1)" by (cases "run_state open_store d")
  show thesis
  proof (cases x)
    case (Inl e)
    with assms x that(1)[of e] show thesis by (simp add: run_try_bind)
  next
    case (Inr u)
    with assms x that(2)[of d1] show thesis by (simp add: run_try_bind)
  qed
qed

lemma run_on_db:
  "run_state (on_db m) d = (case run_state m d of (r, d') \<Rightarrow> (case r of Inl e \<Rightarrow> Inl (CmdPrep (SetupStore e)) | Inr x \<Rightarrow> Inr x, d'))"
  by (simp add: prepare_def on_store_def split: prod.split sum.split)

lemma on_db_Inr: "run_state (on_db m) d = (Inr x, d') \<Longrightarrow> run_state m d = (Inr x, d')"
  by (simp add: run_on_db split: prod.splits sum.splits)

lemma on_db_Inl: "run_state (on_db m) d = (Inl e, d') \<Longrightarrow> \<exists>e'. run_state m d = (Inl e', d')"
  by (simp add: run_on_db split: prod.splits sum.splits)

lemma prune_step:
  assumes "run_state (on_db (PruneAudit t)) d = (r, d')"
  shows "case r of Inl _ \<Rightarrow> db_audit d' = db_audit d
    | Inr n \<Rightarrow> db_audit d' = filter (\<lambda>ev. t \<le> ae_At ev) (db_audit d) \<and> n + length (db_audit d') = length (db_audit d)"
proof (cases r)
  case (Inl e)
  then obtain e' where "run_state (PruneAudit t) d = (Inl e', d')" using on_db_Inl assms by blast
  then show ?thesis unfolding Inl PruneAudit_def by (auto elim!: exec_cases)
next
  case (Inr n)
  have "run_state (PruneAudit t) d = (Inr n, d')" by (rule on_db_Inr[OF assms[unfolded Inr]])
  then have "db_audit d' = filter (\<lambda>ev. \<not> ae_At ev < t) (db_audit d) \<and> n = length (filter (\<lambda>ev. ae_At ev < t) (db_audit d))"
    unfolding PruneAudit_def by (auto elim!: exec_cases)
  with Inr show ?thesis using sum_length_filter_compl[of "\<lambda>ev. ae_At ev < t" "db_audit d"] by (simp add: not_less)
qed

section \<open>Properties\<close>

text \<open>
  A mistyped subcommand starts the gateway: a first word that is no subcommand and no flag
  falls through to serve, and there the flag parsing stops at it without an error, so that it
  and everything after it is ignored - the configuration is the one of no arguments at all.
\<close>

theorem mistyped_command_serves:
  assumes "w \<notin> set [''seed'', ''audit'', ''doc'', ''bootstrap'', ''quickstart'', ''mfa'', ''version'', ''serve'']" "\<not> prefix ''-'' w"
  shows "run_command (w # rest) = (CmdServe, w # rest) \<and>
    Load parse decode read_file env (w # rest) = Load parse decode read_file env []"
proof -
  have "length w < 2 \<or> hd w \<noteq> CHR ''-'' \<or> w = ''--''" using assms(2) by (cases w) auto
  then have "parse_flags (serve_flags parse) (w # rest) = Some []" by simp
  with assms(1) show ?thesis by (simp add: run_command_def Load_def)
qed

theorem mistyped_command_serves_witness:
  "run_command [''bootstarp'', ''-db'', ''x''] = (CmdServe, [''bootstarp'', ''-db'', ''x'']) \<and>
   Load (ParseDuration (\<lambda>_ _ _. 0)) (\<lambda>_. None) (\<lambda>_. ReadNotExist) [] [''bootstarp'', ''-db'', ''x''] =
   Load (ParseDuration (\<lambda>_ _ _. 0)) (\<lambda>_. None) (\<lambda>_. ReadNotExist) [] []"
  by (rule mistyped_command_serves) simp_all

text \<open>
  Retention: pruning deletes exactly the audit records older than the age given, which is
  strictly positive and written as the text of -older-than, and reports how many; when the
  command fails, the text not being an age included, no record is gone.
\<close>

theorem audit_prune_exact:
  assumes "run_state (runAuditPrune parse now args) d = (r, d')"
  shows "case r of
      Inl _ \<Rightarrow> db_audit d' = db_audit d
    | Inr n \<Rightarrow> \<exists>acts age. parse_flags (string_formal [''db'', ''older-than'']) args = Some acts \<and>
        parseDuration parse (flag_string acts ''older-than'') = Some age \<and> 0 < age \<and>
        db_audit d' = filter (\<lambda>ev. time_unix (now - age) \<le> ae_At ev) (db_audit d) \<and>
        n + length (db_audit d') = length (db_audit d)"
proof -
  have age: "0 \<le> a" if "parseDuration parse s = Some a" for s a
    using that by (auto simp: parseDuration_def hour_def minute_def second_def split: if_splits option.splits)
  have opened: "db_audit e = db_audit d" if "run_state open_store d = (x, e)" for x e
    using hoareD[OF open_store_audit refl that] .
  show ?thesis
  proof (cases "parse_flags (string_formal [''db'', ''older-than'']) args")
    case None
    then have "r = Inl CmdFlags \<and> d' = d" using assms by (simp add: runAuditPrune_def with_flags_def cmd_fail_def)
    then show ?thesis by simp
  next
    case (Some acts)
    let ?t = "flag_string acts ''older-than''"
    show ?thesis
    proof (cases "?t = [] \<or> parseDuration parse ?t = None \<or> parseDuration parse ?t = Some 0")
      case True
      then have "run_state (runAuditPrune parse now args) d = (Inl (CmdUsage ''older-than is required''), d) \<or>
        run_state (runAuditPrune parse now args) d = (Inl (CmdUsage ''older-than''), d) \<or>
        run_state (runAuditPrune parse now args) d = (Inl (CmdUsage ''older-than must be positive''), d)"
        using Some by (auto simp: runAuditPrune_def with_flags_def cmd_fail_def)
      with assms show ?thesis by auto
    next
      case False
      then obtain a where a: "?t \<noteq> []" "parseDuration parse ?t = Some a" "a \<noteq> 0" by auto
      with assms Some have run: "run_state (try_bind open_store (\<lambda>_. on_db (PruneAudit (time_unix (now - a))))) d = (r, d')"
        by (simp add: runAuditPrune_def with_flags_def)
      have exact: "case r of Inl _ \<Rightarrow> db_audit d' = db_audit d
        | Inr n \<Rightarrow> db_audit d' = filter (\<lambda>ev. time_unix (now - a) \<le> ae_At ev) (db_audit d) \<and> n + length (db_audit d') = length (db_audit d)"
        using run
      proof (cases rule: run_open)
        case (2 d1)
        from prune_step[OF 2(2)] show ?thesis unfolding opened[OF 2(1)] .
      qed (use opened in auto)
      show ?thesis
      proof (cases r)
        case (Inr n)
        show ?thesis unfolding Inr sum.case
          by (rule exI[of _ acts], rule exI[of _ a]) (use exact[unfolded Inr sum.case] a(2,3) age[OF a(2)] Some in auto)
      qed (use exact in simp)
    qed
  qed
qed

lemma completes_prepare: "completes P m Q \<Longrightarrow> completes P (prepare m) Q"
  unfolding completes_def by (fastforce simp: prepare_def)

lemma completes_open: "completes P open_store (\<lambda>_ _. True)"
  unfolding open_store_def by (rule completes_prepare[OF completes_reconcile])

lemma completes_on_db: "completes P m Q \<Longrightarrow> completes P (on_db m) Q"
  by (intro completes_prepare completes_unstore)

definition audit_row :: "int \<Rightarrow> int \<Rightarrow> audit_event" where
  "audit_row i at = \<lparr>ae_ID = i, ae_At = at, ae_SessionID = ''s'', ae_Kind = ''login'', ae_Username = ''BOB'', ae_Actor = ''BOB'',
     ae_RemoteAddr = [], ae_Service = [], ae_Detail = []\<rparr>"

theorem audit_prune_exact_witness:
  "\<exists>n d'. run_state (runAuditPrune (ParseDuration (\<lambda>_ _ _. 0)) (unix_time 1000000) [''-older-than'', ''1d''])
       (sample_db\<lparr>db_audit := [audit_row 1 900000, audit_row 2 950000], db_audit_seq := 2\<rparr>) = (Inr n, d') \<and>
     n = 1 \<and> db_audit d' = [audit_row 2 950000]"
proof -
  let ?P = "ParseDuration (\<lambda>_ _ _. 0)" and ?now = "unix_time 1000000" and ?args = "[''-older-than'', ''1d'']"
  let ?d = "sample_db\<lparr>db_audit := [audit_row 1 900000, audit_row 2 950000], db_audit_seq := 2\<rparr>"
  have acts: "parse_flags (string_formal [''db'', ''older-than'']) ?args = Some [(''older-than'', ''1d'')]" by code_simp
  have age: "parseDuration ?P (flag_string [(''older-than'', ''1d'')] ''older-than'') = Some (24 * hour)" by code_simp
  have old: "flag_string [(''older-than'', ''1d'')] ''older-than'' \<noteq> []" by code_simp
  have "completes (\<lambda>_. True) (try_bind open_store (\<lambda>_. on_db (PruneAudit t))) (\<lambda>_ _. True)" for t
    unfolding PruneAudit_def by (rule completes_bind[OF completes_open], rule completes_on_db, rule completes_exec) simp_all
  then have "completes (\<lambda>_. True) (runAuditPrune ?P ?now ?args) (\<lambda>_ _. True)"
    using old unfolding runAuditPrune_def with_flags_def acts option.case age by (simp add: hour_def minute_def second_def)
  then obtain n d' where run: "run_state (runAuditPrune ?P ?now ?args) ?d = (Inr n, d')"
    using completesD[of "\<lambda>_. True" _ _ ?d] by (force simp: sample_db_def)
  from audit_prune_exact[OF run] acts age
  have "db_audit d' = filter (\<lambda>ev. time_unix (?now - 24 * hour) \<le> ae_At ev) (db_audit ?d)" "n + length (db_audit d') = length (db_audit ?d)"
    by auto
  then show ?thesis using run by (simp add: audit_row_def time_unix_def unix_time_def hour_def minute_def second_def)
qed

section \<open>Documents\<close>

lemma find_map_nocase:
  "find (\<lambda>y. nocase (d_Name y) n) (map (\<lambda>y. if nocase (d_Name y) m then x\<lparr>d_Name := d_Name y\<rparr> else y) ds) =
     map_option (\<lambda>y. if nocase (d_Name y) m then x\<lparr>d_Name := d_Name y\<rparr> else y) (find (\<lambda>y. nocase (d_Name y) n) ds)"
  by (induction ds) auto

lemma find_last: "find P xs = None \<Longrightarrow> P x \<Longrightarrow> find P (xs @ [x]) = Some x"
  by (induction xs) (auto split: if_splits)

lemma find_document_upsert: "map_option d_Content (find_document (d_Name x) (upsert_document x d)) = Some (d_Content x)"
proof (cases "find_document (d_Name x) d")
  case None
  then have "find (\<lambda>y. nocase (d_Name y) (d_Name x)) (db_documents d @ [x]) = Some x"
    by (intro find_last) (simp_all add: find_document_def)
  then show ?thesis using None by (simp add: upsert_document_def find_document_def)
next
  case (Some y)
  then have "nocase (d_Name y) (d_Name x)" by (auto simp: find_document_def find_Some_iff)
  with Some show ?thesis by (simp add: upsert_document_def find_document_def find_map_nocase)
qed

text \<open>The document under a canonical name has this content.\<close>

definition has_content :: "string \<Rightarrow> string \<Rightarrow> db \<Rightarrow> bool" where
  "has_content n c d \<longleftrightarrow> map_option d_Content (find_document n d) = Some c"

lemma find_document_other [simp]:
  "find_document n (d\<lparr>db_faults := fs\<rparr>) = find_document n d" "find_document n (d\<lparr>db_config := k\<rparr>) = find_document n d"
  "find_document n (d\<lparr>db_groups := g\<rparr>) = find_document n d" "find_document n (d\<lparr>db_audit := a\<rparr>) = find_document n d"
  "find_document n (d\<lparr>db_audit_seq := q\<rparr>) = find_document n d"
  by (simp_all add: find_document_def)

lemma faultless_content [simp]: "faultless (has_content n c)"
  by (simp add: faultless_def has_content_def)

lemma find_first: "find P xs = Some x \<Longrightarrow> find P (xs @ ys) = Some x"
  by (induction xs) (auto split: if_splits)

lemma open_store_content: "keeps (has_content n c) open_store"
  by (rule open_store_keeps) (auto simp: has_content_def insert_group_def find_document_def find_first)

lemma NormalizeDocName_idem: "NormalizeDocName name = Some n \<Longrightarrow> NormalizeDocName n = Some n"
proof -
  have "\<forall>n\<in>set KnownDocuments. to_upper (trim_space n) = n" by code_simp
  then show "NormalizeDocName name = Some n \<Longrightarrow> NormalizeDocName n = Some n"
    by (auto simp: NormalizeDocName_def Let_def split: if_splits)
qed

lemma SetDocument_content:
  "NormalizeDocName n = Some n \<Longrightarrow> succeeds (\<lambda>_. True) (SetDocument n c actor now) (\<lambda>_. has_content n c)"
  unfolding SetDocument_def
  by (auto simp: fail_st_def hoare_return_st has_content_def find_document_upsert[of "\<lparr>d_Name = n, d_Content = c, d_UpdatedAt = rfc3339 now, d_UpdatedBy = actor\<rparr>", simplified]
      faultless_def intro!: hoare_exec)

lemma RecordAudit_content: "keeps (has_content n c) (RecordAudit ev)"
  unfolding RecordAudit_def by (rule keeps_exec) (simp_all add: has_content_def)

lemma run_cmd_fail: "run_state (cmd_fail e) d = (Inl e, d)"
  by (simp add: cmd_fail_def)

lemma import_step:
  assumes "NormalizeDocName n = Some n" "\<And>d. ok d"
  shows "succeeds (\<lambda>_. True) (try_bind open_store (\<lambda>_. try_bind (on_db (SetDocument n content ''cli'' now)) (\<lambda>_. do {
      _ \<leftarrow> RecordAudit ev; cmd_return k }))) (\<lambda>x d. x = k \<and> has_content n content d)"
proof (rule succeeds_bind[where R = "\<lambda>_ _. True"])
  show "succeeds (\<lambda>_. True) open_store (\<lambda>_ _. True)" by (simp add: hoare_def)
  have s: "succeeds (\<lambda>_. True) (on_db (SetDocument n content ''cli'' now)) (\<lambda>_. has_content n content)"
    by (intro succeeds_prepare hoare_on_store hoare_strengthen_post[OF SetDocument_content[OF assms(1)]]) (auto split: sum.splits)
  have r: "succeeds (has_content n content) (do { _ \<leftarrow> RecordAudit ev; cmd_return k }) (\<lambda>x d. x = k \<and> has_content n content d)"
    by (rule hoare_bind[OF RecordAudit_content]) (auto simp: cmd_return_def intro: hoare_return_st)
  show "succeeds (\<lambda>_. True) (try_bind (on_db (SetDocument n content ''cli'' now)) (\<lambda>_. do { _ \<leftarrow> RecordAudit ev; cmd_return k }))
     (\<lambda>x d. x = k \<and> has_content n content d)"
    by (rule succeeds_bind[OF s r])
qed

lemma runDocImport_content:
  assumes "run_state (runDocImport fs absolute now [''-name'', name, ''-file'', path]) d = (Inr k, d')"
  shows "\<exists>n abs_path content. NormalizeDocName name = Some n \<and> absolute path = Some abs_path \<and>
    ReadDocumentFile fs abs_path = Inr content \<and> has_content n content d' \<and> k = doc_LineCount content"
proof -
  let ?acts = "[(''name'', name), (''file'', path)]"
  have acts: "parse_flags (string_formal [''db'', ''name'', ''file'']) [''-name'', name, ''-file'', path] = Some ?acts"
    by (simp add: string_formal_def index_byte_def Let_def)
  have vals: "flag_string ?acts ''name'' = name" "flag_string ?acts ''file'' = path"
    by (simp_all add: flag_string_def string_flag_def flag_value_def)
  obtain n p content where n: "NormalizeDocName name = Some n" "absolute path = Some p" "ReadDocumentFile fs p = Inr content"
    using assms unfolding runDocImport_def with_flags_def acts option.case vals
    by (auto simp: run_cmd_fail split: if_splits option.splits sum.splits)
  have "name \<noteq> [] \<and> path \<noteq> []"
    using assms unfolding runDocImport_def with_flags_def acts option.case vals by (auto simp: run_cmd_fail split: if_splits)
  with assms have run: "run_state (try_bind open_store (\<lambda>_. try_bind (on_db (SetDocument n content ''cli'' now)) (\<lambda>_. do {
      _ \<leftarrow> RecordAudit \<lparr>ae_ID = 0, ae_At = time_unix now, ae_SessionID = ''cli'', ae_Kind = AuditDocImport,
             ae_Username = [], ae_Actor = ''cli'', ae_RemoteAddr = [], ae_Service = [],
             ae_Detail = n @ '' from '' @ p @ '' ('' @ show_nat (doc_LineCount content) @ '' lines)''\<rparr>;
      cmd_return (doc_LineCount content) }))) d = (Inr k, d')"
    unfolding runDocImport_def with_flags_def acts option.case vals by (simp add: n)
  from hoareD[OF import_step[OF NormalizeDocName_idem[OF n(1)]] TrueI run] n show ?thesis by blast
qed

lemma GetDocument_content:
  assumes "NormalizeDocName n = Some n" "has_content n c d" "run_state (on_db (GetDocument n)) d = (Inr x, d')"
  shows "d_Content x = c"
proof -
  have "run_state (GetDocument n) d = (Inr x, d')" by (rule on_db_Inr[OF assms(3)])
  then show ?thesis using assms(1,2)
    by (auto simp: GetDocument_def run_try_bind has_content_def fail_st_def split: prod.splits sum.splits option.splits elim!: query_cases)
qed

lemma export_flags:
  "parse_flags (\<lambda>n. if n = ''force'' then Some BoolFlag else string_formal [''db'', ''name'', ''file''] n) [''-name'', name, ''-file'', path] =
     Some [(''name'', name), (''file'', path)]"
  by (simp add: string_formal_def index_byte_def Let_def)

lemma runDocExport_content:
  assumes "NormalizeDocName name = Some n" "has_content n c d"
    "run_state (runDocExport fs write_ok [''-name'', name, ''-file'', path]) d = (Inr (t, content), d')"
  shows "t = path \<and> content = c \<and> (case fs path of FileMissing _ \<Rightarrow> True | _ \<Rightarrow> False)"
proof -
  let ?acts = "[(''name'', name), (''file'', path)]"
  have vals: "flag_string ?acts ''name'' = name" "flag_string ?acts ''file'' = path" "flag_value ?acts ''force'' = None"
    by (simp_all add: flag_string_def string_flag_def flag_value_def)
  have free: "case fs path of FileMissing _ \<Rightarrow> True | _ \<Rightarrow> False"
    and run: "run_state (try_bind open_store (\<lambda>_. try_bind (on_db (GetDocument n)) (\<lambda>x.
        if write_ok path then cmd_return (path, d_Content x) else cmd_fail (CmdFile ''write'')))) d = (Inr (t, content), d')"
    using assms(1,3) unfolding runDocExport_def with_flags_def export_flags option.case vals Let_def
    by (auto simp: run_cmd_fail split: if_splits file_state.splits)
  from run show ?thesis
  proof (cases rule: run_open)
    case (2 d1)
    have c: "has_content n c d1" using hoareD[OF open_store_content assms(2) 2(1)] .
    obtain x d2 where g: "run_state (on_db (GetDocument n)) d1 = (Inr x, d2)"
      and t: "t = path" "content = d_Content x"
      using 2(2) by (auto simp: run_try_bind cmd_return_def run_cmd_fail split: prod.splits sum.splits if_splits)
    from GetDocument_content[OF NormalizeDocName_idem[OF assms(1)] c g] t free show ?thesis by simp
  qed simp
qed

text \<open>
  C17. A document imported from a file and exported again is the file, byte for byte, whatever
  case and spacing its name is given in; the export goes to the file asked for, and without
  -force only where none exists.
\<close>

theorem doc_import_export_roundtrip:
  assumes "run_state (runDocImport fs absolute now [''-name'', name, ''-file'', source]) d = (Inr k, d1)"
    "NormalizeDocName name' = NormalizeDocName name"
    "run_state (runDocExport fs' write_ok [''-name'', name', ''-file'', target]) d1 = (Inr (t, content), d2)"
  shows "\<exists>p. absolute source = Some p \<and> ReadDocumentFile fs p = Inr content \<and> t = target \<and>
    (case fs' target of FileMissing _ \<Rightarrow> True | _ \<Rightarrow> False) \<and> length content \<le> MaxDocumentBytes"
proof -
  obtain n p c where n: "NormalizeDocName name = Some n" "absolute source = Some p" "ReadDocumentFile fs p = Inr c" "has_content n c d1"
    using runDocImport_content[OF assms(1)] by blast
  have "length c \<le> MaxDocumentBytes"
    using n(3) by (auto simp: ReadDocumentFile_def Let_def not_less split: if_splits file_state.splits)
  with runDocExport_content[OF assms(2)[unfolded n(1)] n(4) assms(3)] n show ?thesis by auto
qed

definition motd_fs :: "string \<Rightarrow> file_state" where
  "motd_fs p = (if p = ''/motd'' then FileData ''HELLO'' else FileMissing ''no such file'')"

lemma completes_import:
  "completes (\<lambda>_. True) (runDocImport motd_fs Some now [''-name'', ''motd'', ''-file'', ''/motd'']) (\<lambda>_ _. True)"
proof -
  have acts: "parse_flags (string_formal [''db'', ''name'', ''file'']) [''-name'', ''motd'', ''-file'', ''/motd''] =
      Some [(''name'', ''motd''), (''file'', ''/motd'')]"
    by (simp add: string_formal_def index_byte_def Let_def)
  have facts: "flag_string [(''name'', ''motd''), (''file'', ''/motd'')] ''name'' = ''motd''"
    "flag_string [(''name'', ''motd''), (''file'', ''/motd'')] ''file'' = ''/motd''"
    "NormalizeDocName ''motd'' = Some DocMOTD" "NormalizeDocName DocMOTD = Some DocMOTD" "ReadDocumentFile motd_fs ''/motd'' = Inr ''HELLO''"
    by code_simp+
  have set: "completes P (SetDocument DocMOTD ''HELLO'' a now) (\<lambda>_ _. True)" for P a
    unfolding SetDocument_def facts option.case
    by (simp add: MaxDocumentBytes_def, rule completes_exec) (simp_all add: upsert_document_def)
  have rec: "completes P (do { _ \<leftarrow> RecordAudit ev; cmd_return k }) (\<lambda>_ _. True)" for P ev k
    by (simp add: completes_def RecordAudit_def exec_def run_stmt_def cmd_return_def)
  show ?thesis
    unfolding runDocImport_def with_flags_def acts option.case facts sum.case
    by (simp, rule completes_bind[OF completes_open], rule completes_bind[OF completes_on_db[OF set]], rule rec)
qed

lemma completes_export:
  assumes "NormalizeDocName n = Some n" "n \<noteq> []"
  shows "completes (has_content n c) (runDocExport motd_fs (\<lambda>_. True) [''-name'', n, ''-file'', ''/copy'']) (\<lambda>_ _. True)"
proof -
  have vals: "flag_string [(''name'', n), (''file'', ''/copy'')] ''name'' = n" "flag_string [(''name'', n), (''file'', ''/copy'')] ''file'' = ''/copy''"
    "flag_value [(''name'', n), (''file'', ''/copy'')] ''force'' = None" "motd_fs ''/copy'' = FileMissing ''no such file''"
    by (simp_all add: flag_string_def string_flag_def flag_value_def motd_fs_def)
  have get: "completes (has_content n c) (GetDocument n) (\<lambda>_ _. True)"
    unfolding GetDocument_def assms(1) option.case
    by (auto simp: completes_def run_try_bind query_def run_stmt_def has_content_def)
  have open_c: "completes (has_content n c) open_store (\<lambda>_. has_content n c)"
    by (rule completes_combine[OF _ completes_open], rule hoare_strengthen_post[OF open_store_content], simp)
  show ?thesis
    unfolding runDocExport_def with_flags_def export_flags option.case vals Let_def
    by (simp add: assms, rule completes_bind[OF open_c], rule completes_bind[OF completes_on_db[OF get]])
      (simp add: completes_def cmd_return_def)
qed

theorem doc_import_export_roundtrip_witness:
  "\<exists>k d1 t content d2.
     run_state (runDocImport motd_fs Some 0 [''-name'', ''motd'', ''-file'', ''/motd'']) sample_db = (Inr k, d1) \<and>
     run_state (runDocExport motd_fs (\<lambda>_. True) [''-name'', ''MOTD'', ''-file'', ''/copy'']) d1 = (Inr (t, content), d2) \<and>
     t = ''/copy'' \<and> content = ''HELLO''"
proof -
  obtain k d1 where i: "run_state (runDocImport motd_fs Some 0 [''-name'', ''motd'', ''-file'', ''/motd'']) sample_db = (Inr k, d1)"
    and f: "db_faults d1 = []"
    using completesD[OF completes_import, of sample_db] by (force simp: sample_db_def)
  have n: "NormalizeDocName ''motd'' = Some ''MOTD''" "NormalizeDocName ''MOTD'' = Some ''MOTD''" "ReadDocumentFile motd_fs ''/motd'' = Inr ''HELLO''"
    by code_simp+
  obtain c where "has_content ''MOTD'' c d1" using runDocImport_content[OF i] n by auto
  then obtain r d2 where e: "run_state (runDocExport motd_fs (\<lambda>_. True) [''-name'', ''MOTD'', ''-file'', ''/copy'']) d1 = (Inr r, d2)"
    using completesD[OF completes_export[of "''MOTD''" c], of d1] n f by auto
  obtain t content where r: "r = (t, content)" by (cases r)
  from doc_import_export_roundtrip[OF i _ e[unfolded r]] n r e i show ?thesis by fastforce
qed

section \<open>Listeners\<close>

lemma Build_no_leak:
  assumes "run_state (Build listen_ok pair_ok cfg) socks = (r, socks')"
  shows "case r of Inl _ \<Rightarrow> mset socks' = mset socks
    | Inr lns \<Rightarrow> lns \<noteq> [] \<and> socks' = socks @ map snd lns \<and>
        lns = (if ln_Enabled (cf_Plain cfg) then [(PlainTransport, ln_Addr (cf_Plain cfg))] else []) @
              (if tl_Enabled (cf_TLS cfg) then [(TLSTransport, tl_Addr (cf_TLS cfg))] else [])"
  using assms
  by (auto simp: Build_def Build_plain_def Build_tls_def net_Listen_def run_try_bind mset_remove1 split: if_splits)

section \<open>Starting to serve\<close>

lemma mfaStartup_none:
  assumes "run_state (mfaStartup newGCM nonce key) d = (Inr None, d')"
  shows "key = [] \<and> list_all (\<lambda>u. u_MFASecret u = []) (db_users d')"
proof -
  have k: "key = []"
    using assms
    by (auto simp: mfaStartup_def run_try_bind prep_fail_def prep_return_def split: prod.splits sum.splits if_splits option.splits)
  obtain n where c: "run_state (on_store CountEnrolledUsers) d = (Inr n, d')" "n = 0"
    using assms k by (auto simp: mfaStartup_def run_try_bind prep_fail_def prep_return_def split: prod.splits sum.splits if_splits)
  from CountEnrolled_run[OF c(1)] c(2) tables_users[of d' d] k show ?thesis
    by (auto simp: list_all_iff filter_empty_conv)
qed

lemma mfaStartup_some:
  assumes "run_state (mfaStartup newGCM nonce key) d = (Inr (Some c), d')"
  shows "NewCipher newGCM key = Some c"
  using assms
  by (auto simp: mfaStartup_def run_try_bind prep_fail_def prep_return_def split: prod.splits sum.splits if_splits option.splits)

lemma mfaStartup_keeps: "(\<And>v. keeps P (SetMFASentinel v)) \<Longrightarrow> faultless P \<Longrightarrow> keeps P (mfaStartup newGCM nonce key)"
  unfolding mfaStartup_def CountEnrolledUsers_def GetMFASentinel_def
  by (intro keeps_try_bind keeps_on_store keeps_query hoare_if hoare_option keeps_prep keeps_fail_st keeps_return) simp_all

lemma warnIfNoAdmin_run: "run_state warnIfNoAdmin d = (w, d') \<Longrightarrow> tables d' = tables d"
  by (auto simp: warnIfNoAdmin_def CountAdminMembers_def split: prod.splits elim!: query_cases)

lemma runServe_Inr:
  assumes "run_state (runServe e args) d = (Inr s, d')"
  obtains cfg cipher d1 d2 lns where
    "Load (sv_parse e) (sv_decode e) (sv_read e) (sv_env e) args = Inr cfg"
    "run_state open_store d = (Inr (), d1)"
    "run_state (mfaStartup (sv_newGCM e) (sv_nonce e) (cf_MFAKey cfg)) d1 = (Inr cipher, d2)"
    "run_state (Build (sv_listen_ok e) (sv_pair_ok e) cfg) [] = (Inr lns, map snd lns)"
    "tables d' = tables d2" "rs_Listeners s = lns" "rs_Limits s = cf_Limits cfg" "rs_Cipher s = cipher"
proof -
  have "\<exists>cfg. Load (sv_parse e) (sv_decode e) (sv_read e) (sv_env e) args = Inr cfg"
  proof (cases "Load (sv_parse e) (sv_decode e) (sv_read e) (sv_env e) args")
    case (Inl err)
    with assms show ?thesis by (simp add: runServe_def run_cmd_fail)
  qed simp
  then obtain cfg where cfg: "Load (sv_parse e) (sv_decode e) (sv_read e) (sv_env e) args = Inr cfg" ..
  let ?rest = "\<lambda>cipher. do {
     warned \<leftarrow> warnIfNoAdmin;
     (case fst (run_state (Build (sv_listen_ok e) (sv_pair_ok e) cfg) []) of
        Inl m \<Rightarrow> cmd_fail (CmdListen m)
      | Inr lns \<Rightarrow> cmd_return \<lparr>rs_Listeners = lns, rs_Limits = cf_Limits cfg, rs_Cipher = cipher, rs_Warned = warned\<rparr>) }"
  have run: "run_state (try_bind open_store (\<lambda>_. try_bind (prepare (mfaStartup (sv_newGCM e) (sv_nonce e) (cf_MFAKey cfg))) ?rest)) d = (Inr s, d')"
  proof (cases "lg_File (cf_Log cfg) \<noteq> [] \<and> \<not> sv_log_opens e (lg_File (cf_Log cfg))")
    case True
    with assms show ?thesis by (simp add: runServe_def cfg run_cmd_fail)
  next
    case False
    with assms show ?thesis unfolding runServe_def cfg sum.case by (simp only: if_False)
  qed
  then obtain d1 where d1: "run_state open_store d = (Inr (), d1)"
    "run_state (try_bind (prepare (mfaStartup (sv_newGCM e) (sv_nonce e) (cf_MFAKey cfg))) ?rest) d1 = (Inr s, d')"
    by (rule run_open) simp_all
  obtain m d2 where m: "run_state (mfaStartup (sv_newGCM e) (sv_nonce e) (cf_MFAKey cfg)) d1 = (m, d2)"
    by (cases "run_state (mfaStartup (sv_newGCM e) (sv_nonce e) (cf_MFAKey cfg)) d1")
  have "\<exists>cipher. m = Inr cipher \<and> run_state (?rest cipher) d2 = (Inr s, d')"
  proof (cases m)
    case (Inl err)
    then have "run_state (prepare (mfaStartup (sv_newGCM e) (sv_nonce e) (cf_MFAKey cfg))) d1 = (Inl (CmdPrep err), d2)"
      using m by (simp add: run_prepare)
    with d1(2) show ?thesis unfolding run_try_bind by simp
  next
    case (Inr cipher)
    then have "run_state (prepare (mfaStartup (sv_newGCM e) (sv_nonce e) (cf_MFAKey cfg))) d1 = (Inr cipher, d2)"
      using m by (simp add: run_prepare)
    with d1(2) Inr show ?thesis unfolding run_try_bind by (simp only: prod.case sum.case sum.inject ex_simps simp_thms)
  qed
  then obtain cipher where c: "m = Inr cipher" "run_state (?rest cipher) d2 = (Inr s, d')" by (elim exE conjE)
  obtain w d3 where w: "run_state warnIfNoAdmin d2 = (w, d3)" by (cases "run_state warnIfNoAdmin d2")
  obtain b socks where b: "run_state (Build (sv_listen_ok e) (sv_pair_ok e) cfg) [] = (b, socks)"
    by (cases "run_state (Build (sv_listen_ok e) (sv_pair_ok e) cfg) []")
  have "\<exists>lns. b = Inr lns \<and> s = \<lparr>rs_Listeners = lns, rs_Limits = cf_Limits cfg, rs_Cipher = cipher, rs_Warned = w\<rparr> \<and> d' = d3"
    using c(2) by (cases b) (simp_all add: w b run_cmd_fail cmd_return_def)
  then obtain lns where l: "b = Inr lns"
    and s: "s = \<lparr>rs_Listeners = lns, rs_Limits = cf_Limits cfg, rs_Cipher = cipher, rs_Warned = w\<rparr>" "d' = d3" by blast
  have "socks = map snd lns" using Build_no_leak[OF b] l by simp
  from that[OF cfg d1(1) m[unfolded c(1)] b[unfolded l this]] warnIfNoAdmin_run[OF w] s show thesis by simp
qed

lemma prepared_tables: "tables d = tables e \<Longrightarrow> prepared d = prepared e"
  by (auto simp: prepared_def tables_eq find_group_def find_config_def find_document_def)

lemma faultless_prepared: "faultless prepared"
  by (simp add: faultless_def prepared_def find_group_def find_config_def find_document_def)

lemma wf_tables: "tables d = tables e \<Longrightarrow> wf_db d = wf_db e"
  using faultless_wf by (auto simp: tables_eq faultless_def)

lemma SetMFASentinel_prepared: "keeps prepared (SetMFASentinel v)"
  unfolding SetMFASentinel_def
proof (rule keeps_exec)
  show "faultless prepared" by (rule faultless_prepared)
  fix d assume p: "prepared d"
  have "list_all (\<lambda>k. \<not> nocase k mfaSentinelKey) (map se_Key Catalog)" unfolding catalog_keys by code_simp
  then have other: "list_all (\<lambda>e. \<not> nocase (se_Key e) mfaSentinelKey) Catalog" by (simp add: list_all_iff)
  let ?d = "d\<lparr>db_config := filter (\<lambda>kv. \<not> nocase (fst kv) mfaSentinelKey) (db_config d) @ [(mfaSentinelKey, v)]\<rparr>"
  have "find_config (se_Key e) ?d \<noteq> None" if e: "e \<in> set Catalog" for e
  proof -
    have "find_config (se_Key e) d \<noteq> None" using p e by (simp add: prepared_def)
    then obtain kv where kv: "kv \<in> set (db_config d)" "nocase (fst kv) (se_Key e)" by (auto simp: find_config_def find_None_iff)
    have "\<not> nocase (fst kv) mfaSentinelKey" using kv(2) other e by (simp add: nocase_def list_all_iff)
    with kv(1) have "kv \<in> set (db_config ?d)" by simp
    with kv(2) have "find (\<lambda>kv. nocase (fst kv) (se_Key e)) (db_config ?d) \<noteq> None" unfolding find_None_iff by blast
    then show ?thesis by (simp add: find_config_def)
  qed
  then show "prepared ?d" using p by (simp add: prepared_def find_group_def find_document_def)
qed


definition sample_env :: serve_env where
  "sample_env = \<lparr>sv_parse = ParseDuration (\<lambda>_ _ _. 0), sv_decode = (\<lambda>_. None), sv_read = (\<lambda>_. ReadNotExist), sv_env = [],
     sv_log_opens = (\<lambda>_. True), sv_newGCM = (\<lambda>_. None), sv_nonce = None, sv_listen_ok = (\<lambda>_. True), sv_pair_ok = (\<lambda>_ _. True)\<rparr>"

lemma sample_config:
  "case Load (sv_parse sample_env) (sv_decode sample_env) (sv_read sample_env) (sv_env sample_env) [] of Inl _ \<Rightarrow> False
   | Inr cfg \<Rightarrow> cf_MFAKey cfg = [] \<and> lg_File (cf_Log cfg) = [] \<and> ln_Enabled (cf_Plain cfg) \<and> \<not> tl_Enabled (cf_TLS cfg)"
  by code_simp

lemma completes_serve: "completes (\<lambda>d. list_all (\<lambda>u. u_MFASecret u = []) (db_users d)) (runServe sample_env []) (\<lambda>_ _. True)"
proof -
  let ?P = "\<lambda>d. list_all (\<lambda>u. u_MFASecret u = []) (db_users d)"
  obtain cfg where cfg: "Load (sv_parse sample_env) (sv_decode sample_env) (sv_read sample_env) (sv_env sample_env) [] = Inr cfg"
    "cf_MFAKey cfg = []" "lg_File (cf_Log cfg) = []" "ln_Enabled (cf_Plain cfg)" "\<not> tl_Enabled (cf_TLS cfg)"
    using sample_config by (simp split: sum.splits)
  have o: "completes ?P open_store (\<lambda>_. ?P)"
    by (rule completes_combine[OF _ completes_open], rule hoare_strengthen_post[OF open_store_keeps[of ?P]])
      (simp_all add: faultless_def insert_group_def)
  have m: "completes ?P (mfaStartup g n []) (\<lambda>_ _. True)" for g n
    by (simp add: completes_def mfaStartup_def run_try_bind on_store_def CountEnrolledUsers_def query_def run_stmt_def prep_return_def
        list_all_iff filter_False)
  have b: "fst (run_state (Build (sv_listen_ok sample_env) (sv_pair_ok sample_env) cfg) []) = Inr [(PlainTransport, ln_Addr (cf_Plain cfg))]"
    by (simp add: Build_def Build_plain_def Build_tls_def net_Listen_def run_try_bind cfg sample_env_def)
  have r: "completes Q (do { warned \<leftarrow> warnIfNoAdmin; cmd_return (f warned) }) (\<lambda>_ _. True)" for Q and f :: "bool \<Rightarrow> serving"
    by (simp add: completes_def warnIfNoAdmin_def CountAdminMembers_def query_def run_stmt_def cmd_return_def)
  show ?thesis
    unfolding runServe_def cfg sum.case b
    by (simp add: cfg(3), rule completes_bind[OF o], rule completes_bind[OF completes_prepare[OF m]], rule r)
qed


end
