(* ===== verification/Quickstart.thy ===== *)
theory Quickstart
  imports Config Setup
begin

text \<open>
  Provisioning of a fresh data directory, internal/quickstart. The directory is its files, by
  path, next to the database behind the file of the database; \<open>dd_writes\<close> says what happens to
  the next file writes (a failed write may leave a part of the file). The path join, the random
  source, bcrypt, the certificate and the JSON encoding are arguments.
\<close>

section \<open>Paths (paths.go)\<close>

definition PlainAddr :: string where "PlainAddr = '':2323''"
definition TLSAddr :: string where "TLSAddr = '':2324''"
definition AdminUser :: string where "AdminUser = ''ADMIN''"
definition DemoGroup :: string where "DemoGroup = ''DEMO''"
definition DemoServiceName :: string where "DemoServiceName = ''DEMO''"
definition DemoBackendHost :: string where "DemoBackendHost = ''dummy3270''"
definition DemoBackendPort :: int where "DemoBackendPort = 3300"
definition SampleUsers :: "string list" where "SampleUsers = [''OPERATOR'', ''GUEST'']"

record Layout =
  ly_Dir :: string
  ly_DB :: string
  ly_Config :: string
  ly_MFAKey :: string
  ly_CertDir :: string
  ly_Cert :: string
  ly_Key :: string
  ly_MOTD :: string
  ly_Branding :: string
  ly_SetupFile :: string

definition NewLayout :: "(string list \<Rightarrow> string) \<Rightarrow> string \<Rightarrow> Layout" where
  "NewLayout join dir =
     \<lparr>ly_Dir = dir, ly_DB = join [dir, ''proxy.db''], ly_Config = join [dir, ''tn3270proxy.json''], ly_MFAKey = join [dir, ''mfa.key''],
      ly_CertDir = join [dir, ''tls''], ly_Cert = join [dir, ''tls'', ''cert.pem''], ly_Key = join [dir, ''tls'', ''key.pem''],
      ly_MOTD = join [dir, ''motd.txt''], ly_Branding = join [dir, ''branding.txt''], ly_SetupFile = join [dir, ''SETUP-DEFAULTS.TXT'']\<rparr>"

section \<open>Credentials (password.go, setup.go, seeddata.go)\<close>

definition PasswordCharset :: string where "PasswordCharset = ''ABCDEFGHJKMNPQRSTVWXYZ23456789''"

text \<open>\<open>rnd i\<close> is the i-th draw below the length of the set, \<open>None\<close> when the source failed.\<close>

fun draw_chars :: "(nat \<Rightarrow> nat option) \<Rightarrow> nat \<Rightarrow> string option" where
  "draw_chars rnd 0 = Some []"
| "draw_chars rnd (Suc n) =
     (case draw_chars rnd n of
        None \<Rightarrow> None
      | Some s \<Rightarrow> (case rnd n of None \<Rightarrow> None | Some i \<Rightarrow> Some (s @ [PasswordCharset ! (i mod length PasswordCharset)])))"

definition GenPassword :: "(nat \<Rightarrow> nat option) \<Rightarrow> string option" where
  "GenPassword rnd =
     map_option (\<lambda>b. take 4 b @ ''-'' @ take 4 (drop 4 b) @ ''-'' @ take 4 (drop 8 b)) (draw_chars rnd 12)"

record Cred =
  cr_Username :: string
  cr_Password :: string
  cr_Groups :: "string list"

record qs_Result =
  rq_DataDir :: string
  rq_Admin :: Cred
  rq_Samples :: "Cred list"
  rq_PlainAddr :: string
  rq_TLSAddr :: string
  rq_DemoService :: string

definition cred_user :: "Cred \<Rightarrow> SeedUser" where
  "cred_user c = \<lparr>su_Username = cr_Username c, su_Password = cr_Password c, su_Groups = cr_Groups c, su_UserSettingsLocked = False\<rparr>"

definition buildSeedData :: "qs_Result \<Rightarrow> SeedData" where
  "buildSeedData r =
     \<lparr>sd_Groups = [DemoGroup], sd_Users = cred_user (rq_Admin r) # map cred_user (rq_Samples r),
      sd_Services = [\<lparr>sds_Name = DemoServiceName, sds_Description = ''Demo service (dummy3270)'', sds_Host = DemoBackendHost,
        sds_Port = DemoBackendPort, sds_TLS = False, sds_Verify = None, sds_Groups = [DemoGroup]\<rparr>]\<rparr>"

definition nl :: string where "nl = [newline]"
definition em_dash :: string where "em_dash = [CHR 0xE2, CHR 0x80, CHR 0x94]"
definition quoted :: "string \<Rightarrow> string" where \<comment> \<open>\<open>%q\<close> of text that needs no escape\<close>
  "quoted s = CHR 0x22 # s @ [CHR 0x22]"

definition setup_rule :: string where "setup_rule = replicate 64 CHR ''='' @ nl"

definition sample_line :: "Cred \<Rightarrow> string" where
  "sample_line s = ''  user: '' @ cr_Username s @ ''  password: '' @ cr_Password s @ ''  groups: '' @ join_with '', '' (cr_Groups s) @ nl"

definition renderSetupFile :: "qs_Result \<Rightarrow> string" where
  "renderSetupFile r =
     setup_rule @ '' tn3270proxy '' @ em_dash @ '' FRESH INSTALL, quick-start defaults generated'' @ nl @ setup_rule @ nl @
     ''This is the QUICK START. It is convenient, NOT a production setup.'' @ nl @
     ''To secure this deployment, see the security-hardening guide'' @ nl @
     ''in the project documentation (Setup / Installation manual).'' @ nl @ nl @
     ''ADMIN LOGIN'' @ nl @
     ''  user: '' @ cr_Username (rq_Admin r) @ nl @ ''  password: '' @ cr_Password (rq_Admin r) @ nl @
     ''  groups: '' @ join_with '', '' (cr_Groups (rq_Admin r)) @ nl @ nl @
     ''SAMPLE USERS'' @ nl @ concat (map sample_line (rq_Samples r)) @
     nl @ ''CONNECT WITH A 3270 EMULATOR'' @ nl @
     ''  plaintext : <host>'' @ rq_PlainAddr r @ nl @
     ''  TLS       : <host>'' @ rq_TLSAddr r @ ''  (self-signed; expect a trust prompt)'' @ nl @ nl @
     ''DEMO SERVICE'' @ nl @ ''  The '' @ quoted (rq_DemoService r) @ '' menu entry bridges to the throwaway dummy3270 backend.'' @ nl @
     ''  Press PA3 on the dummy screen to return to the menu.'' @ nl @ nl @
     ''MFA'' @ nl @ ''  Enabled and OPT-IN (no account is enrolled yet). The master key is'' @ nl @
     ''  stored at mfa.key in this directory. BACK IT UP '' @ em_dash @ '' losing it makes any'' @ nl @
     ''  future enrollments unrecoverable.'' @ nl @ nl @
     ''!!! CHANGE THESE PASSWORDS !!!'' @ nl @
     ''  Log in as ADMIN, press 'A' for the admin UI, change the passwords,'' @ nl @
     ''  then DELETE this file once you have recorded the credentials.'' @ nl"

section \<open>Starter texts (motd.go, branding.go)\<close>

definition DefaultMOTD :: string where
  "DefaultMOTD =
     ''WELCOME TO TN3270PROXY (QUICK-START DEMO DEPLOYMENT)'' @ nl @ nl @
     ''This gateway was provisioned with quick-start defaults.'' @ nl @
     ''PLEASE CHANGE THE ADMIN AND SAMPLE PASSWORDS NOW:'' @ nl @
     ''  log in, press A for the admin UI, and update each account.'' @ nl @ nl @
     ''This is NOT a hardened production setup. To secure it, see the'' @ nl @
     ''security-hardening guide in the project documentation.'' @ nl"

definition DefaultBranding :: string where
  "DefaultBranding =
     ''            ____________________________________________            '' @ nl @
     ''           |                                            |           '' @ nl @
     ''           |        T N 3 2 7 0   G A T E W A Y         |           '' @ nl @
     ''           |                                            |           '' @ nl @
     ''           |            QUICK-START DEMO HOST           |           '' @ nl @
     ''           |____________________________________________|           '' @ nl @ nl @
     ''              Edit BRANDING_FILE to customize this art.'' @ nl"

section \<open>The configuration written (config.go)\<close>

record configDoc =
  cd_DB :: string
  cd_Plain_Enabled :: bool
  cd_Plain_Addr :: string
  cd_TLS_Enabled :: bool
  cd_TLS_Addr :: string
  cd_TLS_Cert :: string
  cd_TLS_Key :: string
  cd_MFA_KeyFile :: string

definition config_doc :: "Layout \<Rightarrow> configDoc" where
  "config_doc l =
     \<lparr>cd_DB = ly_DB l, cd_Plain_Enabled = True, cd_Plain_Addr = PlainAddr, cd_TLS_Enabled = True, cd_TLS_Addr = TLSAddr,
      cd_TLS_Cert = ly_Cert l, cd_TLS_Key = ly_Key l, cd_MFA_KeyFile = ly_MFAKey l\<rparr>"

definition renderConfigJSON :: "(configDoc \<Rightarrow> string option) \<Rightarrow> Layout \<Rightarrow> string option" where
  "renderConfigJSON encode l = encode (config_doc l)"

text \<open>The same JSON text in the shape that \<open>Load\<close> decodes: matching keys, all else absent.\<close>

definition doc_file :: "configDoc \<Rightarrow> fileConfig" where
  "doc_file d =
     \<lparr>fc_DB = Some (cd_DB d), fc_Plain = Some \<lparr>fp_Enabled = Some (cd_Plain_Enabled d), fp_Addr = Some (cd_Plain_Addr d)\<rparr>,
      fc_TLS = Some \<lparr>ft_Enabled = Some (cd_TLS_Enabled d), ft_Addr = Some (cd_TLS_Addr d), ft_Cert = Some (cd_TLS_Cert d), ft_Key = Some (cd_TLS_Key d)\<rparr>,
      fc_Limits = None, fc_Log = None, fc_MFA = Some \<lparr>fm_Key = None, fm_KeyFile = Some (cd_MFA_KeyFile d)\<rparr>\<rparr>"

section \<open>Provision (provision.go)\<close>

datatype write_outcome = WriteNone | WritePart nat | WriteAll

record data_dir =
  dd_files :: "string \<rightharpoonup> string"
  dd_writes :: "write_outcome list"
  dd_db :: db

datatype qs_error =
    QsAlreadyProvisioned
  | QsPartial
  | QsMkdir
  | QsRandom
  | QsCert
  | QsEncode
  | QsWrite string
  | QsDB prep_error
  | QsClose

type_synonym 'a qs = "(data_dir, qs_error + 'a) state"

definition qs_fail :: "qs_error \<Rightarrow> 'a qs" where "qs_fail e = return_st (Inl e)"
definition qs_return :: "'a \<Rightarrow> 'a qs" where "qs_return x = return_st (Inr x)"

definition qs_need :: "qs_error \<Rightarrow> 'a option \<Rightarrow> 'a qs" where
  "qs_need e r = (case r of None \<Rightarrow> qs_fail e | Some x \<Rightarrow> qs_return x)"

definition qs_db :: "'a prep \<Rightarrow> 'a qs" where
  "qs_db m = do {
     r \<leftarrow> zoom dd_db (\<lambda>d s. s\<lparr>dd_db := d\<rparr>) m;
     return_st (case r of Inl e \<Rightarrow> Inl (QsDB e) | Inr x \<Rightarrow> Inr x) }"

definition WriteFile :: "string \<Rightarrow> string \<Rightarrow> unit qs" where
  "WriteFile path content = State (\<lambda>s.
     case dd_writes s of
       [] \<Rightarrow> (Inr (), s\<lparr>dd_files := (dd_files s)(path \<mapsto> content)\<rparr>)
     | w # ws \<Rightarrow>
         let s' = s\<lparr>dd_writes := ws\<rparr>
         in case w of
              WriteAll \<Rightarrow> (Inr (), s'\<lparr>dd_files := (dd_files s)(path \<mapsto> content)\<rparr>)
            | WritePart k \<Rightarrow> (Inl (QsWrite path), s'\<lparr>dd_files := (dd_files s)(path \<mapsto> take k content)\<rparr>)
            | WriteNone \<Rightarrow> (Inl (QsWrite path), s'))"

record qs_lib =
  ql_join :: "string list \<Rightarrow> string"
  ql_mkdir_ok :: bool
  ql_rnd :: "nat \<Rightarrow> nat \<Rightarrow> nat option" \<comment> \<open>the draws of the n-th password\<close>
  ql_hash :: "nat \<Rightarrow> string \<Rightarrow> string option"
  ql_key :: "string option"              \<comment> \<open>32 random bytes\<close>
  ql_cert :: "(string \<times> string) option"
  ql_encode :: "configDoc \<Rightarrow> string option"
  ql_now :: go_time
  ql_close_ok :: bool

fun sample_creds :: "(nat \<Rightarrow> nat \<Rightarrow> nat option) \<Rightarrow> nat \<Rightarrow> string list \<Rightarrow> Cred list option" where
  "sample_creds rnd n [] = Some []"
| "sample_creds rnd n (u # us) =
     (case GenPassword (rnd n) of
        None \<Rightarrow> None
      | Some pw \<Rightarrow> map_option ((#) \<lparr>cr_Username = u, cr_Password = pw, cr_Groups = [DemoGroup]\<rparr>) (sample_creds rnd (n + 1) us))"

definition qs_result :: "qs_lib \<Rightarrow> string \<Rightarrow> qs_Result option" where
  "qs_result lib dir =
     (case GenPassword (ql_rnd lib 0) of
        None \<Rightarrow> None
      | Some pw \<Rightarrow>
          map_option (\<lambda>samples. \<lparr>rq_DataDir = dir,
             rq_Admin = \<lparr>cr_Username = AdminUser, cr_Password = pw, cr_Groups = [AdminGroup, DemoGroup]\<rparr>,
             rq_Samples = samples, rq_PlainAddr = PlainAddr, rq_TLSAddr = TLSAddr, rq_DemoService = DemoServiceName\<rparr>)
           (sample_creds (ql_rnd lib) 1 SampleUsers))"

text \<open>The artifacts between the database and the configuration file, in order.\<close>

definition write_artifacts :: "qs_lib \<Rightarrow> Layout \<Rightarrow> qs_Result \<Rightarrow> unit qs" where
  "write_artifacts lib l res =
     try_bind (qs_need QsRandom (ql_key lib)) (\<lambda>key.
     try_bind (WriteFile (ly_MFAKey l) (b64_encode key)) (\<lambda>_.
     try_bind (qs_need QsCert (ql_cert lib)) (\<lambda>(cert, tls_key).
     try_bind (WriteFile (ly_Cert l) cert) (\<lambda>_.
     try_bind (WriteFile (ly_Key l) tls_key) (\<lambda>_.
     try_bind (WriteFile (ly_MOTD l) DefaultMOTD) (\<lambda>_.
     try_bind (qs_db (on_store (SetConfig KeyMOTDFile (ly_MOTD l)))) (\<lambda>_.
     try_bind (WriteFile (ly_Branding l) DefaultBranding) (\<lambda>_.
     try_bind (qs_db (on_store (SetConfig KeyBrandingFile (ly_Branding l)))) (\<lambda>_.
     try_bind (qs_db (on_store (SetDocument DocMOTD DefaultMOTD ''quickstart'' (ql_now lib)))) (\<lambda>_.
     try_bind (qs_db (on_store (SetDocument DocBranding DefaultBranding ''quickstart'' (ql_now lib)))) (\<lambda>_.
     WriteFile (ly_SetupFile l) (renderSetupFile res))))))))))))"

definition provision_fresh :: "qs_lib \<Rightarrow> string \<Rightarrow> Layout \<Rightarrow> qs_Result qs" where
  "provision_fresh lib dir l =
     (if \<not> ql_mkdir_ok lib then qs_fail QsMkdir
      else do {
        _ \<leftarrow> modify (\<lambda>s. s\<lparr>dd_files := (dd_files s)(ly_DB l \<mapsto> [])\<rparr>);
        try_bind (qs_db reconcileDefaults) (\<lambda>_.
        try_bind (qs_need QsRandom (qs_result lib dir)) (\<lambda>res.
        try_bind (qs_db (seed_Apply (ql_hash lib) (buildSeedData res))) (\<lambda>_.
        try_bind (write_artifacts lib l res) (\<lambda>_.
        if \<not> ql_close_ok lib then qs_fail QsClose
        else
          try_bind (qs_need QsEncode (renderConfigJSON (ql_encode lib) l)) (\<lambda>cfg.
          try_bind (WriteFile (ly_Config l) cfg) (\<lambda>_. qs_return res)))))) })"

definition Provision :: "qs_lib \<Rightarrow> string \<Rightarrow> qs_Result qs" where
  "Provision lib dir =
     (let l = NewLayout (ql_join lib) dir
      in do {
        files \<leftarrow> gets dd_files;
        (if files (ly_Config l) \<noteq> None then qs_fail QsAlreadyProvisioned
         else if files (ly_DB l) \<noteq> None then qs_fail QsPartial
         else provision_fresh lib dir l) })"

text \<open>The subcommand (cmd/tn3270proxy/quickstart.go): a second run is not an error.\<close>

definition runQuickstart :: "qs_lib \<Rightarrow> string \<Rightarrow> (qs_Result option) qs" where
  "runQuickstart lib dir = do {
     r \<leftarrow> Provision lib dir;
     return_st (case r of
        Inl e \<Rightarrow> if e = QsAlreadyProvisioned then Inr None else Inl e
      | Inr res \<Rightarrow> Inr (Some res)) }"

end
