(* ===== verification/Quickstart_Props.thy ===== *)
theory Quickstart_Props
  imports Quickstart Config_Props Setup_Props
begin

text \<open>
  What provisioning leaves behind: the configuration file is the commit point, every artifact it
  refers to is on disk before it, and the gateway starts from what was written.
\<close>

section \<open>Files\<close>

definition layout_paths :: "Layout \<Rightarrow> string list" where
  "layout_paths l = [ly_Config l, ly_SetupFile l, ly_Branding l, ly_MOTD l, ly_Key l, ly_Cert l, ly_MFAKey l, ly_DB l]"

definition on_disk :: "(string \<times> string) list \<Rightarrow> data_dir \<Rightarrow> bool" where
  "on_disk ps s \<longleftrightarrow> list_all (\<lambda>(p, c). dd_files s p = Some c) ps"

lemma on_disk_simps [simp]: "on_disk [] s" "on_disk ((p, c) # ps) s \<longleftrightarrow> dd_files s p = Some c \<and> on_disk ps s"
  by (simp_all add: on_disk_def)

lemma on_disk_cong: "(\<And>p. p \<in> fst ` set ps \<Longrightarrow> dd_files s' p = dd_files s p) \<Longrightarrow> on_disk ps s' = on_disk ps s"
  by (force simp: on_disk_def list_all_iff)

lemma run_WriteFile_cases:
  assumes "run_state (WriteFile p c) s = (r, s')"
  obtains "r = Inr ()" "dd_files s' = (dd_files s)(p \<mapsto> c)" "dd_db s' = dd_db s"
  | "r = Inl (QsWrite p)" "\<And>q. q \<noteq> p \<Longrightarrow> dd_files s' q = dd_files s q" "dd_db s' = dd_db s"
  using assms by (auto simp: WriteFile_def Let_def split: list.splits write_outcome.splits)

lemma write_adds:
  assumes "p \<notin> fst ` set ps"
  shows "succeeds (\<lambda>s. on_disk ps s \<and> D (dd_db s)) (WriteFile p c) (\<lambda>_ s. on_disk ((p, c) # ps) s \<and> D (dd_db s))"
proof (rule hoareI)
  fix s r s' assume a: "on_disk ps s \<and> D (dd_db s)" "run_state (WriteFile p c) s = (r, s')"
  from a(2) show "\<forall>x. r = Inr x \<longrightarrow> on_disk ((p, c) # ps) s' \<and> D (dd_db s')"
  proof (cases rule: run_WriteFile_cases)
    case 1
    then have "on_disk ps s' = on_disk ps s" using assms by (intro on_disk_cong) auto
    with 1 a(1) show ?thesis by simp
  qed simp
qed

lemma write_elsewhere: "p \<noteq> q \<Longrightarrow> keeps (\<lambda>s. dd_files s q = x) (WriteFile p c)"
  by (rule hoareI) (erule run_WriteFile_cases, simp_all)

lemma run_qs_db:
  "run_state (qs_db m) s = (case run_state m (dd_db s) of (r, d) \<Rightarrow>
     ((case r of Inl e \<Rightarrow> Inl (QsDB e) | Inr x \<Rightarrow> Inr x), s\<lparr>dd_db := d\<rparr>))"
  by (simp add: qs_db_def run_zoom split: prod.split)

lemma db_step:
  "succeeds D m Q \<Longrightarrow> succeeds (\<lambda>s. on_disk ps s \<and> D (dd_db s)) (qs_db m) (\<lambda>x s. on_disk ps s \<and> Q x (dd_db s))"
  by (fastforce simp: hoare_def run_qs_db on_disk_def split: prod.splits sum.splits)

lemma db_elsewhere: "keeps (\<lambda>s. dd_files s q = x) (qs_db m)"
  by (auto simp: hoare_def run_qs_db split: prod.splits)

lemma need_step: "(\<And>x. r = Some x \<Longrightarrow> succeeds P (k x) Q) \<Longrightarrow> succeeds P (try_bind (qs_need e r) k) Q"
  by (cases r) (auto simp: qs_need_def qs_fail_def qs_return_def hoare_def run_try_bind)

lemma keeps_qs: "keeps P (qs_fail e)" "keeps P (qs_return x)" "keeps P (qs_need e r)"
  by (auto simp: qs_fail_def qs_return_def qs_need_def keeps_return split: option.split)

section \<open>The first administrator of the seed\<close>

definition admin_ready :: "int \<Rightarrow> string \<Rightarrow> int \<Rightarrow> db \<Rightarrow> bool" where
  "admin_ready u h g d \<longleftrightarrow> account_row u AdminUser (\<lambda>k. k = h) d \<and> group_row g AdminGroup d \<and> (u, g) \<in> set (db_user_groups d)"

lemma faultless_admin_ready [simp]: "faultless (admin_ready u h g)"
  by (simp add: faultless_def admin_ready_def account_row_def group_row_def)

lemma account_row_map:
  assumes "\<And>u. u_ID (f u) = u_ID u" "\<And>u. u_Username (f u) = u_Username u" "\<And>u. u_PasswordHash (f u) = u_PasswordHash u"
  shows "account_row i n H (d\<lparr>db_users := map f (db_users d)\<rparr>) = account_row i n H d"
  using assms by (simp add: account_row_def)

lemma added_rows_ready:
  "keeps (admin_ready u h g) (CreateUser n p)" "keeps (admin_ready u h g) (CreateGroup n)"
  "keeps (admin_ready u h g) (AddUserToGroup i j)" "keeps (admin_ready u h g) (SetUserSettingsLocked i b)"
  "keeps (admin_ready u h g) (LinkGroupService i j)" "keeps (admin_ready u h g) (SetConfig k v)"
  "keeps (admin_ready u h g) (SetDocument k v a now)"
  unfolding CreateUser_def CreateGroup_def Let_def
proof -
  show "keeps (admin_ready u h g) (insertOrGet (\<lambda>d. find_user (to_upper n) d \<noteq> None) (\<lambda>d. next_rowid (map u_ID (db_users d)))
     (\<lambda>d. d\<lparr>db_users := db_users d @ [new_user (next_rowid (map u_ID (db_users d))) (to_upper n) p]\<rparr>)
     (\<lambda>d. map_option u_ID (find_user (to_upper n) d)))"
    by (rule keeps_insertOrGet) (auto simp: admin_ready_def account_row_def group_row_def)
  show "keeps (admin_ready u h g) (insertOrGet (\<lambda>d. find_group (to_upper n) d \<noteq> None) (\<lambda>d. next_rowid (map g_ID (db_groups d)))
     (insert_group (to_upper n)) (\<lambda>d. map_option g_ID (find_group (to_upper n) d)))"
    by (rule keeps_insertOrGet) (auto simp: admin_ready_def account_row_def group_row_def insert_group_def)
  show "keeps (admin_ready u h g) (AddUserToGroup i j)"
    unfolding AddUserToGroup_def by (rule keeps_exec) (auto simp: admin_ready_def account_row_def group_row_def)
  show "keeps (admin_ready u h g) (LinkGroupService i j)"
    unfolding LinkGroupService_def by (rule keeps_exec) (auto simp: admin_ready_def account_row_def group_row_def)
  show "keeps (admin_ready u h g) (SetUserSettingsLocked i b)"
    unfolding SetUserSettingsLocked_def update_user_def
    by (rule keeps_execExpectingRow) (simp_all add: admin_ready_def account_row_map group_row_def)
  show "keeps (admin_ready u h g) (SetConfig k v)"
    unfolding SetConfig_def by (rule keeps_execExpectingRow) (auto simp: admin_ready_def account_row_def group_row_def)
  show "keeps (admin_ready u h g) (SetDocument k v a now)"
    unfolding SetDocument_def
    by (intro hoare_option hoare_if keeps_exec keeps_fail_st) (auto simp: admin_ready_def account_row_def group_row_def upsert_document_def)
qed

lemma CreateService_ready: "keeps (admin_ready u h g) (CreateService n ds ho po t v)"
  unfolding CreateService_def
  by (intro hoare_sum hoare_option keeps_fail_st keeps_insertOrGet) (auto simp: admin_ready_def account_row_def group_row_def)

lemma ensureGroup_ready: "keeps (admin_ready u h g) (ensureGroup ids n)"
  unfolding ensureGroup_def by (intro hoare_option keeps_prep keeps_try_bind keeps_on_store added_rows_ready)

lemma link_groups_ready: "(\<And>j. keeps (admin_ready u h g) (add j)) \<Longrightarrow> keeps (admin_ready u h g) (link_groups add ids gs)"
  by (induction gs arbitrary: ids) (auto intro!: keeps_prep keeps_try_bind keeps_on_store ensureGroup_ready split: prod.split)

lemma seed_rest_ready:
  "keeps (admin_ready u h g) (seed_users gen ids us)" "keeps (admin_ready u h g) (seed_services ids ss)"
proof -
  show "keeps (admin_ready u h g) (seed_users gen ids us)"
    by (induction us arbitrary: ids)
      (auto intro!: keeps_prep keeps_try_bind keeps_on_store link_groups_ready added_rows_ready split: option.split)
  show "keeps (admin_ready u h g) (seed_services ids ss)"
    by (induction ss arbitrary: ids)
      (auto intro!: keeps_prep keeps_try_bind keeps_on_store link_groups_ready added_rows_ready CreateService_ready)
qed

lemma CreateUser_fresh:
  assumes "to_upper name = name"
  shows "succeeds (\<lambda>d. find_user name d = None) (CreateUser name h) (\<lambda>i. account_row i name (\<lambda>k. k = h))"
proof (rule hoareI, intro allI impI)
  fix d r d' i assume run: "find_user name d = None" "run_state (CreateUser name h) d = (r, d')" "r = Inr i"
  have f: "find_user n (d\<lparr>db_faults := fs\<rparr>) = find_user n d" for n d fs by (simp add: find_user_def)
  show "account_row i name (\<lambda>k. k = h) d'"
    using run assms unfolding CreateUser_def Let_def insertOrGet_def
    by (auto simp: run_try_bind fail_st_def f account_row_def new_user_def split: prod.splits sum.splits option.splits if_splits
        elim!: exec_cases query_cases)
qed

abbreviation no_admin :: "db \<Rightarrow> bool" where
  "no_admin d \<equiv> wf_db d \<and> find_user AdminUser d = None"

lemma names_upper: "to_upper AdminUser = AdminUser" "AdminGroup \<noteq> DemoGroup"
  by code_simp+

lemma faultless_no_admin: "faultless no_admin"
  using faultless_wf by (simp add: faultless_def find_user_def)

lemma CreateGroup_no_admin: "keeps no_admin (CreateGroup n)"
proof (rule hoare_conj[OF keeps_CreateGroup])
  show "keeps (\<lambda>d. find_user AdminUser d = None) (CreateGroup n)"
    unfolding CreateGroup_def Let_def by (rule keeps_insertOrGet) (simp_all add: faultless_def find_user_def insert_group_def)
qed

lemma seed_preflight_no_admin:
  assumes "su_Username (hd (sd_Users data)) = AdminUser" "sd_Users data \<noteq> []"
  shows "succeeds wf_db (seed_preflight data) (\<lambda>_. no_admin)"
proof (rule hoareI, intro allI impI)
  fix d r d' x assume wf: "wf_db d" and run: "run_state (seed_preflight data) d = (r, d')" "r = Inr x"
  from hoareD[OF checks_preflight[of "tables d" data, unfolded checks_def] _ run(1)] run(2)
  have t: "tables d' = tables d" "seed_free data d" by simp_all
  then have "find_user (to_upper AdminUser) d = None"
    using assms by (cases "sd_Users data") (auto simp: seed_free_def)
  moreover from t(1) wf have "wf_db d'" using faultless_wf by (auto simp: tables_eq faultless_def)
  moreover have "find_user AdminUser d' = find_user AdminUser d"
    using t(1) by (auto simp: tables_eq find_user_def)
  ultimately show "no_admin d'" by (simp add: names_upper)
qed

lemma seed_demo_group:
  "succeeds no_admin (seed_groups [] [DemoGroup]) (\<lambda>ids d. no_admin d \<and> map_of ids AdminGroup = None)"
  unfolding seed_groups.simps ensureGroup_def map_of.simps option.case
proof (rule succeeds_bind[where R = "\<lambda>p d. no_admin d \<and> map_of (snd p) AdminGroup = None"])
  show "succeeds no_admin (try_bind (on_store (CreateGroup DemoGroup)) (\<lambda>i. prep_return (i, [(DemoGroup, i)])))
     (\<lambda>p d. no_admin d \<and> map_of (snd p) AdminGroup = None)"
    by (rule succeeds_store[where R = "\<lambda>_. no_admin"], rule hoare_strengthen_post[OF CreateGroup_no_admin], simp)
      (rule succeeds_return, simp add: names_upper(2))
qed (auto split: prod.split intro: succeeds_return)

lemma first_user_ready:
  assumes "map_of ids AdminGroup = None"
  shows "succeeds no_admin (try_bind (on_store (CreateUser AdminUser h)) (\<lambda>u. link_groups (AddUserToGroup u) ids (AdminGroup # gs)))
    (\<lambda>_ d. wf_db d \<and> (\<exists>u g. admin_ready u h g d))"
proof -
  have c: "succeeds no_admin (CreateUser AdminUser h) (\<lambda>u d. wf_db d \<and> account_row u AdminUser (\<lambda>k. k = h) d)"
    by (rule hoare_strengthen_post[OF hoare_conj[OF keeps_CreateUser CreateUser_fresh[OF names_upper(1)]]]) simp
  have e: "ensureGroup ids AdminGroup = try_bind (on_store (CreateGroup AdminGroup)) (\<lambda>i. prep_return (i, (AdminGroup, i) # ids))"
    using assms by (simp add: ensureGroup_def)
  have r: "keeps (\<lambda>d. wf_db d \<and> admin_ready u h g d) (link_groups (AddUserToGroup u) ids' gs)" for u g ids'
    by (intro hoare_conj keeps_link_groups link_groups_ready added_rows_ready keeps_AddUserToGroup)
  have g: "succeeds (\<lambda>d. wf_db d \<and> account_row u AdminUser (\<lambda>k. k = h) d) (ensureGroup ids AdminGroup)
     (\<lambda>p d. wf_db d \<and> account_row u AdminUser (\<lambda>k. k = h) d \<and> group_row (fst p) AdminGroup d)" for u
    unfolding e by (rule succeeds_store[OF admin_group], rule succeeds_return) simp
  have t: "succeeds (\<lambda>d. wf_db d \<and> account_row u AdminUser (\<lambda>k. k = h) d \<and> group_row i AdminGroup d)
     (try_bind (on_store (AddUserToGroup u i)) (\<lambda>_. link_groups (AddUserToGroup u) ids' gs))
     (\<lambda>_ d. wf_db d \<and> (\<exists>u g. admin_ready u h g d))" for u i ids'
    by (rule succeeds_store[OF admin_link], rule hoare_weaken_pre[OF hoare_strengthen_post[OF r[of u i]]])
      (auto simp: admin_ready_def)
  show ?thesis
    unfolding link_groups.simps
    by (rule succeeds_store[OF c], rule succeeds_bind[OF g]) (simp only: split_beta fst_conv, rule t)
qed

lemma try_bind_assoc: "try_bind (try_bind m k) n = try_bind m (\<lambda>x. try_bind (k x) n)"
  by (rule state.expand) (auto simp: run_try_bind fun_eq_iff split: prod.split sum.split)

lemma seed_admin:
  assumes "cr_Username (rq_Admin r) = AdminUser" "cr_Groups (rq_Admin r) = AdminGroup # gs"
  shows "succeeds wf_db (seed_Apply gen (buildSeedData r)) (\<lambda>_ d. wf_db d \<and>
    (\<exists>u g h. gen (length (rq_Samples r)) (cr_Password (rq_Admin r)) = Some h \<and> admin_ready u h g d))" (is "succeeds _ _ (\<lambda>_. ?Q)")
proof -
  let ?us = "map cred_user (rq_Samples r)" and ?pw = "cr_Password (rq_Admin r)" and ?n = "length (rq_Samples r)"
  have users: "succeeds (\<lambda>d. no_admin d \<and> map_of ids AdminGroup = None) (seed_users gen ids (cred_user (rq_Admin r) # ?us)) (\<lambda>_. ?Q)" for ids
  proof (cases "gen ?n ?pw")
    case None
    then show ?thesis by (simp add: cred_user_def HashPassword_def prep_fail_def hoare_def)
  next
    case (Some h)
    let ?R = "\<lambda>(_ :: group_ids) d. wf_db d \<and> (\<exists>u g. admin_ready u h g d)"
    have rest: "succeeds (?R ids') (seed_users gen ids' ?us) (\<lambda>_. ?Q)" for ids'
    proof (rule hoareI, intro allI impI)
      fix d x d' y assume a: "?R ids' d" "run_state (seed_users gen ids' ?us) d = (x, d')"
      from a(1) obtain u g where ad: "wf_db d" "admin_ready u h g d" by blast
      have "wf_db d'" "admin_ready u h g d'"
        using hoareD[OF keeps_seed_users ad(1) a(2)] hoareD[OF seed_rest_ready(1) ad(2) a(2)] by simp_all
      with Some show "?Q d'" by blast
    qed
    have eq: "seed_users gen ids (cred_user (rq_Admin r) # ?us) =
       try_bind (try_bind (on_store (CreateUser AdminUser h)) (\<lambda>u. link_groups (AddUserToGroup u) ids (AdminGroup # gs)))
         (\<lambda>ids'. try_bind (prep_return ()) (\<lambda>_. seed_users gen ids' ?us))"
      using Some assms by (simp add: cred_user_def HashPassword_def try_bind_assoc)
    show ?thesis
    proof (cases "map_of ids AdminGroup")
      case None
      then show ?thesis
        unfolding eq
        by (intro succeeds_weaken[OF succeeds_bind[OF first_user_ready[OF None] succeeds_bind[OF succeeds_return rest]]]) auto
    qed (simp add: hoare_def)
  qed
  have svc: "succeeds ?Q (seed_services ids ss) (\<lambda>_. ?Q)" for ids ss
  proof (rule hoareI, intro allI impI)
    fix d x d' y assume a: "?Q d" "run_state (seed_services ids ss) d = (x, d')"
    from a(1) obtain u g h where ad: "wf_db d" "gen ?n ?pw = Some h" "admin_ready u h g d" by blast
    have "wf_db d'" "admin_ready u h g d'"
      using hoareD[OF keeps_seed_services ad(1) a(2)] hoareD[OF seed_rest_ready(2) ad(3) a(2)] by simp_all
    with ad(2) show "?Q d'" by blast
  qed
  have pre: "succeeds wf_db (seed_preflight (buildSeedData r)) (\<lambda>_. no_admin)"
    by (rule seed_preflight_no_admin) (simp_all add: buildSeedData_def cred_user_def assms(1))
  show ?thesis
    unfolding seed_Apply_def
    by (rule succeeds_bind[OF pre], simp only: buildSeedData_def SeedData.simps,
        rule succeeds_bind[OF seed_demo_group], rule succeeds_bind[OF users], rule svc)
qed

section \<open>The commit point\<close>

text \<open>The files a provisioned directory holds beside the database.\<close>

definition provisioned :: "Layout \<Rightarrow> qs_Result \<Rightarrow> string \<Rightarrow> string \<Rightarrow> string \<Rightarrow> string \<Rightarrow> (string \<times> string) list" where
  "provisioned l res key cert tls_key cfg =
     [(ly_Config l, cfg), (ly_SetupFile l, renderSetupFile res), (ly_Branding l, DefaultBranding), (ly_MOTD l, DefaultMOTD),
      (ly_Key l, tls_key), (ly_Cert l, cert), (ly_MFAKey l, b64_encode key)]"

abbreviation db_ready :: "string \<Rightarrow> db \<Rightarrow> bool" where
  "db_ready h d \<equiv> wf_db d \<and> (\<exists>u g. admin_ready u h g d)"

lemma db_ready_kept:
  assumes "keeps wf_db m" "\<And>u g. keeps (admin_ready u h g) m"
  shows "succeeds (db_ready h) (on_store m) (\<lambda>_. db_ready h)"
proof (rule hoareI, intro allI impI)
  fix d r d' x assume a: "db_ready h d" "run_state (on_store m) d = (r, d')"
  from a(1) obtain u g where "wf_db d" "admin_ready u h g d" by blast
  then show "db_ready h d'"
    using hoareD[OF keeps_on_store[OF assms(1)] _ a(2)] hoareD[OF keeps_on_store[OF assms(2)] _ a(2)] by blast
qed

lemma artifacts_written:
  assumes "distinct (layout_paths l)"
  shows "succeeds (\<lambda>s. on_disk [] s \<and> db_ready h (dd_db s)) (write_artifacts lib l res) (\<lambda>_ s.
    \<exists>key cert tls_key. ql_key lib = Some key \<and> ql_cert lib = Some (cert, tls_key) \<and>
      on_disk (tl (provisioned l res key cert tls_key [])) s \<and> db_ready h (dd_db s))"
proof -
  note add = write_adds[where D = "db_ready h"]
  note cfg = db_step[OF db_ready_kept[where h = h, OF keeps_SetConfig added_rows_ready(6)]]
  note doc = db_step[OF db_ready_kept[where h = h, OF keeps_SetDocument added_rows_ready(7)]]
  have fin: "succeeds (\<lambda>s. on_disk [(ly_Branding l, DefaultBranding), (ly_MOTD l, DefaultMOTD), (ly_Key l, k), (ly_Cert l, c),
        (ly_MFAKey l, b64_encode key)] s \<and> db_ready h (dd_db s))
     (WriteFile (ly_SetupFile l) (renderSetupFile res)) (\<lambda>_ s. \<exists>key cert tls_key. ql_key lib = Some key \<and>
        ql_cert lib = Some (cert, tls_key) \<and> on_disk (tl (provisioned l res key cert tls_key [])) s \<and> db_ready h (dd_db s))"
    if "ql_key lib = Some key" "ql_cert lib = Some (c, k)" for key c k
    by (rule hoare_strengthen_post[OF add]) (use assms that in \<open>auto simp: layout_paths_def provisioned_def\<close>)
  show ?thesis
    unfolding write_artifacts_def
    by (rule need_step, rule succeeds_bind[OF add], use assms in \<open>simp add: layout_paths_def\<close>,
        rule need_step, unfold split_beta,
        rule succeeds_bind[OF add], use assms in \<open>simp add: layout_paths_def\<close>,
        rule succeeds_bind[OF add], use assms in \<open>simp add: layout_paths_def\<close>,
        rule succeeds_bind[OF add], use assms in \<open>simp add: layout_paths_def\<close>,
        rule succeeds_bind[OF cfg],
        rule succeeds_bind[OF add], use assms in \<open>simp add: layout_paths_def\<close>,
        rule succeeds_bind[OF cfg], rule succeeds_bind[OF doc], rule succeeds_bind[OF doc], rule fin)
      (simp_all add: prod_eq_iff)
qed

lemma qs_result_parts:
  assumes "qs_result lib dir = Some res"
  shows "cr_Username (rq_Admin res) = AdminUser" "cr_Groups (rq_Admin res) = [AdminGroup, DemoGroup]" "length (rq_Samples res) = 2"
    "Some (cr_Password (rq_Admin res)) = GenPassword (ql_rnd lib 0)"
  using assms by (auto simp: qs_result_def SampleUsers_def split: option.splits)

text \<open>A success: every file in place, and an administrator with the printed password in the database.\<close>

definition provision_done :: "qs_lib \<Rightarrow> string \<Rightarrow> Layout \<Rightarrow> qs_Result \<Rightarrow> data_dir \<Rightarrow> bool" where
  "provision_done lib dir l res s \<longleftrightarrow> qs_result lib dir = Some res \<and>
     (\<exists>key cert tls_key cfg. ql_key lib = Some key \<and> ql_cert lib = Some (cert, tls_key) \<and>
        renderConfigJSON (ql_encode lib) l = Some cfg \<and> on_disk (provisioned l res key cert tls_key cfg) s) \<and>
     (\<exists>h. ql_hash lib 2 (cr_Password (rq_Admin res)) = Some h \<and> db_ready h (dd_db s))"

lemma provision_fresh_done:
  assumes "distinct (layout_paths l)"
  shows "succeeds (\<lambda>s. wf_db (dd_db s)) (provision_fresh lib dir l) (\<lambda>res. provision_done lib dir l res)"
proof -
  have touch: "hoare (\<lambda>s. wf_db (dd_db s)) (modify (\<lambda>s. s\<lparr>dd_files := (dd_files s)(ly_DB l \<mapsto> [])\<rparr>)) (\<lambda>_ s. on_disk [] s \<and> wf_db (dd_db s))"
    by (rule hoare_modify) simp
  have rec: "succeeds wf_db reconcileDefaults (\<lambda>_. wf_db)"
    by (rule hoare_strengthen_post[OF keeps_reconcileDefaults]) simp
  have seed: "succeeds wf_db (seed_Apply (ql_hash lib) (buildSeedData res))
      (\<lambda>_ d. \<exists>h. ql_hash lib 2 (cr_Password (rq_Admin res)) = Some h \<and> db_ready h d)" if "qs_result lib dir = Some res" for res
    by (rule hoare_strengthen_post[OF seed_admin[OF qs_result_parts(1,2)[OF that]]]) (use qs_result_parts(3)[OF that] in auto)
  have art: "succeeds (\<lambda>s. on_disk [] s \<and> (\<exists>h. ql_hash lib 2 p = Some h \<and> db_ready h (dd_db s))) (write_artifacts lib l res)
      (\<lambda>_ s. \<exists>h key cert tls_key. ql_hash lib 2 p = Some h \<and> ql_key lib = Some key \<and> ql_cert lib = Some (cert, tls_key) \<and>
        on_disk (tl (provisioned l res key cert tls_key [])) s \<and> db_ready h (dd_db s))" for res p
  proof (rule hoareI, intro allI impI)
    fix s r s' x assume a: "on_disk [] s \<and> (\<exists>h. ql_hash lib 2 p = Some h \<and> db_ready h (dd_db s))"
      "run_state (write_artifacts lib l res) s = (r, s')" "r = Inr x"
    from a(1) obtain h where h: "ql_hash lib 2 p = Some h" "db_ready h (dd_db s)" by blast
    show "\<exists>h key cert tls_key. ql_hash lib 2 p = Some h \<and> ql_key lib = Some key \<and> ql_cert lib = Some (cert, tls_key) \<and>
        on_disk (tl (provisioned l res key cert tls_key [])) s' \<and> db_ready h (dd_db s')"
      using hoareD[OF artifacts_written[OF assms, of h lib res] _ a(2)] h a(3) by auto
  qed
  have last: "succeeds (\<lambda>s. \<exists>h key cert tls_key. ql_hash lib 2 (cr_Password (rq_Admin res)) = Some h \<and> ql_key lib = Some key \<and>
        ql_cert lib = Some (cert, tls_key) \<and> on_disk (tl (provisioned l res key cert tls_key [])) s \<and> db_ready h (dd_db s))
      (try_bind (WriteFile (ly_Config l) cfg) (\<lambda>_. qs_return res)) (provision_done lib dir l)"
    if "qs_result lib dir = Some res" "renderConfigJSON (ql_encode lib) l = Some cfg" for res cfg
  proof (rule hoareI, intro allI impI)
    fix s r s' x assume a: "\<exists>h key cert tls_key. ql_hash lib 2 (cr_Password (rq_Admin res)) = Some h \<and> ql_key lib = Some key \<and>
        ql_cert lib = Some (cert, tls_key) \<and> on_disk (tl (provisioned l res key cert tls_key [])) s \<and> db_ready h (dd_db s)"
      "run_state (try_bind (WriteFile (ly_Config l) cfg) (\<lambda>_. qs_return res)) s = (r, s')" "r = Inr x"
    from a(1) obtain h key cert tls_key where o: "ql_hash lib 2 (cr_Password (rq_Admin res)) = Some h" "ql_key lib = Some key"
        "ql_cert lib = Some (cert, tls_key)" "on_disk (tl (provisioned l res key cert tls_key [])) s" "db_ready h (dd_db s)" by blast
    obtain r1 s1 where w: "run_state (WriteFile (ly_Config l) cfg) s = (r1, s1)" by (cases "run_state (WriteFile (ly_Config l) cfg) s")
    with a(2,3) have r1: "r1 = Inr ()" "s1 = s'" "x = res" by (cases r1; simp add: run_try_bind qs_return_def)+
    have "ly_Config l \<notin> fst ` set (tl (provisioned l res key cert tls_key []))"
      using assms by (simp add: layout_paths_def provisioned_def)
    from hoareD[OF write_adds[OF this, of "db_ready h"] _ w] o(4,5) r1
    have "on_disk ((ly_Config l, cfg) # tl (provisioned l res key cert tls_key [])) s' \<and> db_ready h (dd_db s')" by simp
    then have "on_disk (provisioned l res key cert tls_key cfg) s' \<and> db_ready h (dd_db s')" by (simp add: provisioned_def)
    then show "provision_done lib dir l x s'" using o that r1 unfolding provision_done_def by blast
  qed
  show ?thesis
    unfolding provision_fresh_def
    by (rule hoare_if, simp add: qs_fail_def hoare_def, rule hoare_bind[OF touch], rule succeeds_bind[OF db_step[OF rec]],
        rule need_step, rule succeeds_bind[OF db_step[OF seed]], assumption, rule succeeds_bind[OF art],
        rule hoare_if, simp add: qs_fail_def hoare_def, rule need_step, rule last)
qed

text \<open>Nothing before the last write touches the configuration file, and the database file is there from the start.\<close>

lemma fresh_uncommitted:
  assumes "distinct (layout_paths l)"
  shows "hoare (\<lambda>s. dd_files s (ly_Config l) = None) (provision_fresh lib dir l)
    (\<lambda>r s. (dd_files s (ly_Config l) = None \<or> r = Inl (QsWrite (ly_Config l)) \<or> (\<exists>x. r = Inr x)) \<and>
       (r = Inl QsMkdir \<or> dd_files s (ly_DB l) \<noteq> None))"
proof -
  let ?I = "\<lambda>s. dd_files s (ly_Config l) = None \<and> dd_files s (ly_DB l) = Some []"
  have ne: "p \<noteq> ly_Config l" "p \<noteq> ly_DB l" if "p \<in> set [ly_MFAKey l, ly_Cert l, ly_Key l, ly_MOTD l, ly_Branding l, ly_SetupFile l]" for p
    using assms that by (auto simp: layout_paths_def)
  have w: "keeps ?I (WriteFile p c)" if "p \<in> set [ly_MFAKey l, ly_Cert l, ly_Key l, ly_MOTD l, ly_Branding l, ly_SetupFile l]" for p c
    by (intro hoare_conj write_elsewhere ne that)
  have d: "keeps ?I (qs_db m)" for m :: "'x prep"
    by (intro hoare_conj db_elsewhere)
  have art: "keeps ?I (write_artifacts lib l res)" for res
    unfolding write_artifacts_def
    by (intro keeps_try_bind keeps_qs w hoare_prod d) simp_all
  have last: "hoare ?I (try_bind (WriteFile (ly_Config l) cfg) (\<lambda>_. qs_return res))
     (\<lambda>r s. (dd_files s (ly_Config l) = None \<or> r = Inl (QsWrite (ly_Config l)) \<or> (\<exists>x. r = Inr x)) \<and>
       (r = Inl QsMkdir \<or> dd_files s (ly_DB l) \<noteq> None))" (is "hoare _ _ ?Q") for res cfg
  proof (rule hoareI)
    fix s r s' assume a: "?I s" "run_state (try_bind (WriteFile (ly_Config l) cfg) (\<lambda>_. qs_return res)) s = (r, s')"
    obtain r1 s1 where run: "run_state (WriteFile (ly_Config l) cfg) s = (r1, s1)" by (cases "run_state (WriteFile (ly_Config l) cfg) s")
    have ne': "ly_DB l \<noteq> ly_Config l" using assms by (auto simp: layout_paths_def)
    from run show "?Q r s'"
    proof (cases rule: run_WriteFile_cases)
      case 1
      with a run ne' show ?thesis by (auto simp: run_try_bind qs_return_def)
    next
      case 2
      then have "dd_files s1 (ly_DB l) \<noteq> None" using a(1) ne' by simp
      with 2 a(2) run show ?thesis by (simp add: run_try_bind)
    qed
  qed
  have q: "?Q r s" if "?I s" for r :: "qs_error + qs_Result" and s using that by simp
  have rest: "hoare ?I (try_bind m k) ?Q" if "keeps ?I m" "\<And>x. hoare ?I (k x) ?Q" for m :: "'y qs" and k :: "'y \<Rightarrow> qs_Result qs"
    by (rule hoare_try_bind[OF that(1)]) (use q that(2) in simp_all)
  have touch: "hoare (\<lambda>s. dd_files s (ly_Config l) = None) (modify (\<lambda>s. s\<lparr>dd_files := (dd_files s)(ly_DB l \<mapsto> [])\<rparr>)) (\<lambda>_. ?I)"
    by (rule hoare_modify) (use assms in \<open>auto simp: layout_paths_def\<close>)
  show ?thesis
    unfolding provision_fresh_def
  proof (rule hoare_if)
    show "hoare (\<lambda>s. dd_files s (ly_Config l) = None) (qs_fail QsMkdir) ?Q"
      by (simp add: qs_fail_def hoare_return_st)
  qed (rule hoare_bind[OF touch], rule rest[OF d], rule rest[OF keeps_qs(3)], rule rest[OF d], rule rest[OF art], rule hoare_if,
      simp add: qs_fail_def hoare_def, rule rest[OF keeps_qs(3)], rule last)
qed

definition bcrypt_matches :: "(string \<Rightarrow> string \<Rightarrow> bool) \<Rightarrow> (nat \<Rightarrow> string \<Rightarrow> string option) \<Rightarrow> bool" where
  "bcrypt_matches cmp hash \<longleftrightarrow> (\<forall>i p h. hash i p = Some h \<longrightarrow> cmp h p)"


section \<open>The gateway starts from what was written\<close>

lemma b64_no_space: "x \<in> set (b64_encode s) \<Longrightarrow> \<not> is_space x"
proof -
  assume "x \<in> set (b64_encode s)"
  then consider "x = CHR ''=''" | n where "n < 64" "x = b64_char n" using b64_encode_chars by blast
  then show ?thesis
  proof cases
    case 2
    then have "b64_value x \<noteq> None" by (simp add: b64_value_char)
    then show ?thesis by (auto simp: b64_value_def is_space_def Let_def split: if_splits)
  qed (simp add: is_space_def)
qed

lemma trim_none: "(\<And>x. x \<in> set s \<Longrightarrow> \<not> is_space x) \<Longrightarrow> trim_space s = s"
proof -
  assume a: "\<And>x. x \<in> set s \<Longrightarrow> \<not> is_space x"
  have d: "dropWhile is_space t = t" if "\<And>x. x \<in> set t \<Longrightarrow> \<not> is_space x" for t
    using that by (cases t) simp_all
  have "dropWhile is_space s = s" "dropWhile is_space (rev s) = rev s" by (rule d, simp add: a)+
  then show ?thesis by (simp add: trim_space_def trim_left_def trim_right_def)
qed

lemma decodeMFAKey_written: "length key = 32 \<Longrightarrow> decodeMFAKey (b64_encode key) = Inr key"
  by (simp add: decodeMFAKey_def trim_none[OF b64_no_space] b64_decode_encode)

lemma config_flag: "parse_flags (serve_flags parse) [''-config'', path] = Some [(''config'', path)]"
proof -
  have i: "index_byte (CHR ''='') ''config'' = None" by code_simp
  have f: "serve_flags parse ''config'' = Some (ValueFlag (\<lambda>_. True))" by (simp add: serve_flags_def)
  have "parse_flags (serve_flags parse) [''-config'', path] =
      (if True then map_option ((#) (''config'', path)) (parse_flags (serve_flags parse) []) else None)"
    by (subst parse_flags.simps(2)) (simp add: i f del: parse_flags.simps(2))
  then show ?thesis by (simp del: parse_flags.simps(2))
qed

definition disk_reader :: "data_dir \<Rightarrow> string \<Rightarrow> file_read" where
  "disk_reader s p = (case dd_files s p of None \<Rightarrow> ReadNotExist | Some c \<Rightarrow> ReadOK c)"

definition served_config :: "Layout \<Rightarrow> string \<Rightarrow> Config" where
  "served_config l key = defaults\<lparr>cf_DBPath := ly_DB l, cf_TLS := \<lparr>tl_Enabled = True, tl_Addr = TLSAddr, tl_Cert = ly_Cert l, tl_Key = ly_Key l\<rparr>,
     cf_MFAKey := key\<rparr>"

lemma merge_written:
  assumes "length key = 32" "read_file (ly_MFAKey l) = ReadOK (b64_encode key)" "ly_MFAKey l \<noteq> []"
  shows "merge_decoded parse read_file (doc_file (config_doc l)) defaults = Inr (served_config l key)"
  using assms
  by (simp add: merge_decoded_def doc_file_def config_doc_def merge_mfa_def decodeMFAKey_written merge_limits_def and_then_def
      merge_plain_def merge_tls_def merge_log_def served_config_def defaults_def PlainAddr_def defaultPlainAddr_def)

lemma served_config_validates:
  assumes "ly_Cert l \<noteq> []" "ly_Key l \<noteq> []"
  shows "validate (served_config l key) = None"
proof -
  have "ParseLevel ''info'' \<noteq> None" "TLSAddr \<noteq> []" "defaultPlainAddr \<noteq> []"
    "0 < defaultPreAuthIdle" "0 < defaultPreAuthMax" "0 < defaultIdle" "0 < defaultMaxConns" "0 \<le> defaultMaxPerIP"
    by code_simp+
  with assms show ?thesis
    by (simp add: validate_def served_config_def defaults_def)
qed

lemma Provision_done:
  assumes "distinct (layout_paths (NewLayout (ql_join lib) dir))" "wf_db (dd_db s)" "run_state (Provision lib dir) s = (Inr res, s')"
  shows "provision_done lib dir (NewLayout (ql_join lib) dir) res s'"
proof -
  from assms(3) have "run_state (provision_fresh lib dir (NewLayout (ql_join lib) dir)) s = (Inr res, s')"
    by (auto simp: Provision_def Let_def qs_fail_def split: if_splits)
  from hoareD[OF provision_fresh_done[OF assms(1)] _ this] assms(2) show ?thesis by simp
qed

text \<open>
  What the quick start writes, the gateway loads: serve with -config naming the written file
  accepts it, whatever follows in the directory, with the database, both listeners, the
  certificate, the generated MFA key and otherwise the defaults. The hypotheses are that the
  paths are distinct and not empty, the random key has 32 bytes, and decoding undoes encoding.
\<close>

theorem quickstart_config_loads:
  fixes lib :: qs_lib and dir :: string
  defines "l \<equiv> NewLayout (ql_join lib) dir"
  assumes "distinct (layout_paths l)" "[] \<notin> set (layout_paths l)" "wf_db (dd_db s)"
    "\<And>t. ql_encode lib (config_doc l) = Some t \<Longrightarrow> decode t = Some (doc_file (config_doc l))" "\<And>k. ql_key lib = Some k \<Longrightarrow> length k = 32"
    "run_state (Provision lib dir) s = (Inr res, s')"
  shows "\<exists>key. ql_key lib = Some key \<and>
    Load parse decode (disk_reader s') [] [''-config'', ly_Config l] = Inr
      (defaults\<lparr>cf_DBPath := ly_DB l, cf_TLS := \<lparr>tl_Enabled = True, tl_Addr = TLSAddr, tl_Cert = ly_Cert l, tl_Key = ly_Key l\<rparr>,
        cf_MFAKey := key\<rparr>)"
proof -
  obtain key cert tls_key cfg where w: "ql_key lib = Some key" "ql_encode lib (config_doc l) = Some cfg"
    "on_disk (provisioned l res key cert tls_key cfg) s'"
    using Provision_done[OF assms(2)[unfolded l_def] assms(4,7)]
    by (auto simp: provision_done_def renderConfigJSON_def l_def)
  from w(3) have rd: "disk_reader s' (ly_Config l) = ReadOK cfg" "disk_reader s' (ly_MFAKey l) = ReadOK (b64_encode key)"
    by (simp_all add: provisioned_def disk_reader_def)
  have ne: "ly_MFAKey l \<noteq> []" "ly_Cert l \<noteq> []" "ly_Key l \<noteq> []" using assms(3) by (auto simp: layout_paths_def)
  have flags: "string_flag [(''config'', p)] n = (if n = ''config'' then Some p else None)" for p n
    by (simp add: string_flag_def flag_value_def)
  have ap: "apply_flags parse [(''config'', p)] c = Inr c" for p c
    by (simp add: apply_flags_def duration_flag_def int_flag_def string_flag_def flag_value_def)
  have m: "mergeFile parse decode (disk_reader s') (ly_Config l) True defaults = Inr (served_config l key)"
    using assms(5)[OF w(2)] merge_written[of key "disk_reader s'" l, OF assms(6)[OF w(1)] rd(2) ne(1)] by (simp add: mergeFile_def rd(1))
  have "Load parse decode (disk_reader s') [] [''-config'', ly_Config l] = Inr (served_config l key)"
    unfolding Load_def config_flag
    by (simp add: flags ap m and_then_def apply_env_def served_config_validates[OF ne(2,3)])
  with w(1) show ?thesis unfolding served_config_def by blast
qed

section \<open>Without failures the quick start succeeds\<close>

text \<open>The rows an insert or a link needs: accounts, groups and services by id, and the two file parameters.\<close>

definition rows_there :: "int list \<Rightarrow> int list \<Rightarrow> int list \<Rightarrow> db \<Rightarrow> bool" where
  "rows_there us gs ss d \<longleftrightarrow> find_config KeyMOTDFile d \<noteq> None \<and> find_config KeyBrandingFile d \<noteq> None \<and>
     (\<forall>i\<in>set us. has_user i d) \<and> (\<forall>i\<in>set gs. has_group i d) \<and> (\<forall>i\<in>set ss. has_service i d)"

lemmas row_defs = rows_there_def has_user_def has_group_def has_service_def find_config_def

lemma faultless_rows_there [simp]: "faultless (rows_there us gs ss)"
  by (simp add: faultless_def row_defs)

lemma completes_pure: "(A \<Longrightarrow> completes P m Q) \<Longrightarrow> completes (\<lambda>d. A \<and> P d) m Q"
  by (auto simp: completes_def)

lemma insertOrGet_has:
  assumes "faultless H" "\<And>d. H d \<Longrightarrow> \<not> dup d \<Longrightarrow> Q (newid d) (ins d)" "\<And>d i. H d \<Longrightarrow> sel d = Some i \<Longrightarrow> Q i d"
  shows "succeeds H (insertOrGet dup newid ins sel) Q"
proof -
  have q: "succeeds H (try_bind (query sel) (\<lambda>r. case r of Some i \<Rightarrow> return_st (Inr i) | None \<Rightarrow> fail_st ErrDB)) Q"
    by (rule succeeds_bind[OF hoare_query[where Q = "\<lambda>r d. \<forall>x. r = Inr x \<longrightarrow> H d \<and> x = sel d"]])
      (use assms(1,3) in \<open>auto simp: fail_st_def hoare_def split: option.split\<close>)
  have c: "succeeds (\<lambda>d. case x of Some i \<Rightarrow> Q i d | None \<Rightarrow> H d) (case x of
      Some i \<Rightarrow> return_st (Inr i)
    | None \<Rightarrow> try_bind (query sel) (\<lambda>r. case r of Some i \<Rightarrow> return_st (Inr i) | None \<Rightarrow> fail_st ErrDB)) Q" for x
    using q by (cases x) (simp_all add: hoare_return_st)
  show ?thesis
    unfolding insertOrGet_def
    by (rule succeeds_bind[OF _ c], rule hoare_exec) (use assms(1,2) in auto)
qed

lemma find_has:
  "find_user n d = Some u \<Longrightarrow> has_user (u_ID u) d" "find_group n d = Some g \<Longrightarrow> has_group (g_ID g) d"
  "find_service n d = Some s \<Longrightarrow> has_service (s_ID s) d"
  by (auto simp: find_user_def find_group_def find_service_def row_defs find_Some_iff)

lemma completes_inserts:
  "completes (rows_there us gs ss) (CreateUser n h) (\<lambda>i. rows_there (i # us) gs ss)"
  "completes (rows_there us gs ss) (CreateGroup n) (\<lambda>i. rows_there us (i # gs) ss)"
proof -
  show "completes (rows_there us gs ss) (CreateUser n h) (\<lambda>i. rows_there (i # us) gs ss)"
  proof (rule completes_combine[OF _ completes_rows(1)])
    show "succeeds (rows_there us gs ss) (CreateUser n h) (\<lambda>i. rows_there (i # us) gs ss)"
      unfolding CreateUser_def Let_def
      by (rule insertOrGet_has) (auto simp: rows_there_def dest!: find_has, auto simp: row_defs new_user_def)
  qed
  show "completes (rows_there us gs ss) (CreateGroup n) (\<lambda>i. rows_there us (i # gs) ss)"
  proof (rule completes_combine[OF _ completes_rows(2)])
    show "succeeds (rows_there us gs ss) (CreateGroup n) (\<lambda>i. rows_there us (i # gs) ss)"
      unfolding CreateGroup_def Let_def
      by (rule insertOrGet_has) (auto simp: rows_there_def insert_group_def dest!: find_has, auto simp: row_defs)
  qed
qed

lemma completes_CreateService:
  assumes "NormalizeServiceName n = Inr k" "ValidateDescription ds = None"
  shows "completes (rows_there us gs ss) (CreateService n ds ho po t v) (\<lambda>i. rows_there us gs (i # ss))"
  unfolding CreateService_def assms sum.case option.case
proof (rule completes_combine)
  show "completes P (insertOrGet (\<lambda>d. find_service k d \<noteq> None) newid
      (\<lambda>d. d\<lparr>db_services := db_services d @ [x d]\<rparr>) (\<lambda>d. map_option s_ID (find_service k d))) (\<lambda>_ _. True)" for P newid x
    by (rule completes_insertOrGet) auto
qed (rule insertOrGet_has; auto simp: rows_there_def dest!: find_has; auto simp: row_defs)

lemma completes_links:
  "i \<in> set us \<Longrightarrow> g \<in> set gs \<Longrightarrow> completes (rows_there us gs ss) (AddUserToGroup i g) (\<lambda>_. rows_there us gs ss)"
  "k \<in> set ss \<Longrightarrow> g \<in> set gs \<Longrightarrow> completes (rows_there us gs ss) (LinkGroupService g k) (\<lambda>_. rows_there us gs ss)"
  unfolding AddUserToGroup_def LinkGroupService_def by (rule completes_exec; auto simp: row_defs)+

lemma completes_ensureGroup:
  "completes (rows_there us (map snd ids) ss) (ensureGroup ids n)
     (\<lambda>p d. fst p \<in> set (map snd (snd p)) \<and> rows_there us (map snd (snd p)) ss d)"
proof (cases "map_of ids n")
  case None
  have eq: "ensureGroup ids n = try_bind (on_store (CreateGroup n)) (\<lambda>i. prep_return (i, (n, i) # ids))" by (simp add: ensureGroup_def None)
  show ?thesis unfolding eq by (rule completes_store[OF completes_inserts(2)], rule completes_return) simp
next
  case (Some i)
  then have "i \<in> set (map snd ids)" by (force dest: map_of_SomeD)
  then show ?thesis unfolding ensureGroup_def Some option.case by (intro completes_return) simp
qed

lemma completes_link_groups:
  assumes "\<And>g gs. g \<in> set gs \<Longrightarrow> completes (rows_there us gs ss) (add g) (\<lambda>_. rows_there us gs ss)"
  shows "completes (rows_there us (map snd ids) ss) (link_groups add ids names) (\<lambda>ids'. rows_there us (map snd ids') ss)"
proof (induction names arbitrary: ids)
  case (Cons g gs)
  show ?case unfolding link_groups.simps
    by (rule completes_bind[OF completes_ensureGroup], unfold split_beta, rule completes_pure,
        rule completes_store[OF assms], assumption, rule Cons)
qed (simp add: completes_return)

lemma completes_seed_users:
  assumes "\<And>i p. gen i p \<noteq> None" "\<And>u. u \<in> set us \<Longrightarrow> \<not> su_UserSettingsLocked u"
  shows "completes (rows_there vs (map snd ids) ss) (seed_users gen ids us) (\<lambda>ids'. rows_there [] (map snd ids') ss)"
  using assms(2)
proof (induction us arbitrary: ids vs)
  case Nil
  show ?case by (simp, rule completes_return) (simp add: rows_there_def)
next
  case (Cons u us)
  obtain h where h: "gen (length us) (su_Password u) = Some h" using assms(1) by blast
  have link: "completes (rows_there (i # vs) (map snd ids) ss) (link_groups (AddUserToGroup i) ids gs) (\<lambda>ids'. rows_there (i # vs) (map snd ids') ss)" for i ids gs
    by (rule completes_link_groups[OF completes_links(1)]) simp_all
  show ?case unfolding seed_users.simps HashPassword_def h option.case
  proof (rule completes_store[OF completes_inserts(1)], rule completes_bind[OF link])
    fix i ids'
    show "completes (rows_there (i # vs) (map snd ids') ss)
       (try_bind (if su_UserSettingsLocked u then on_store (SetUserSettingsLocked i True) else prep_return ()) (\<lambda>_. seed_users gen ids' us))
       (\<lambda>ids'. rows_there [] (map snd ids') ss)"
      by (rule completes_bind[where R = "\<lambda>_. rows_there (i # vs) (map snd ids') ss"])
        (use Cons.prems in \<open>auto intro!: completes_return Cons.IH\<close>)
  qed
qed

lemma completes_seed_services:
  assumes "\<And>s. s \<in> set xs \<Longrightarrow> (\<exists>k. NormalizeServiceName (sds_Name s) = Inr k) \<and> ValidateDescription (sds_Description s) = None"
  shows "completes (rows_there [] (map snd ids) ss) (seed_services ids xs) (\<lambda>_. rows_there [] [] [])"
  using assms
proof (induction xs arbitrary: ids ss)
  case Nil
  show ?case by (simp, rule completes_return) (simp add: rows_there_def)
next
  case (Cons s xs)
  obtain k where k: "NormalizeServiceName (sds_Name s) = Inr k" "ValidateDescription (sds_Description s) = None"
    using Cons.prems[of s] by auto
  have link: "completes (rows_there [] (map snd ids) (i # ss)) (link_groups (\<lambda>g. LinkGroupService g i) ids gs)
      (\<lambda>ids'. rows_there [] (map snd ids') (i # ss))" for i ids gs
    by (rule completes_link_groups[OF completes_links(2)]) simp_all
  show ?case unfolding seed_services.simps
    by (rule completes_store[OF completes_CreateService[OF k]], rule completes_bind[OF link], rule Cons.IH) (use Cons.prems in simp)
qed


lemma draw_chars_length: "draw_chars rnd n = Some s \<Longrightarrow> length s = n"
  by (induction n arbitrary: s) (auto split: option.splits)

lemma GenPassword_length: "GenPassword rnd = Some p \<Longrightarrow> length p = 14"
  by (auto simp: GenPassword_def dest!: draw_chars_length)

lemma draw_chars_total: "(\<And>i. rnd i \<noteq> None) \<Longrightarrow> draw_chars rnd n \<noteq> None"
  by (induction n) (auto split: option.split, metis option.distinct(1))

lemma GenPassword_total: "(\<And>i. rnd i \<noteq> None) \<Longrightarrow> \<exists>p. GenPassword rnd = Some p"
  using draw_chars_total[of rnd 12] by (auto simp: GenPassword_def)

lemma sample_creds_total: "(\<And>n i. rnd n i \<noteq> None) \<Longrightarrow> \<exists>cs. sample_creds rnd n us = Some cs \<and> (\<forall>c\<in>set cs. length (cr_Password c) = 14)"
proof (induction us arbitrary: n)
  case (Cons u us)
  obtain p cs where "GenPassword (rnd n) = Some p" "sample_creds rnd (n + 1) us = Some cs" "\<forall>c\<in>set cs. length (cr_Password c) = 14"
    using Cons.IH[of "n + 1", OF Cons.prems] GenPassword_total[of "rnd n", OF Cons.prems] by blast
  then show ?case using GenPassword_length by auto
qed simp

lemma qs_result_total:
  assumes "\<And>n i. ql_rnd lib n i \<noteq> None"
  obtains res where "qs_result lib dir = Some res" "length (cr_Password (rq_Admin res)) = 14"
    "\<And>c. c \<in> set (rq_Samples res) \<Longrightarrow> length (cr_Password c) = 14"
proof -
  obtain p where p: "GenPassword (ql_rnd lib 0) = Some p" using GenPassword_total[of "ql_rnd lib 0", OF assms] by blast
  obtain cs where cs: "sample_creds (ql_rnd lib) 1 SampleUsers = Some cs" "\<forall>c\<in>set cs. length (cr_Password c) = 14"
    using sample_creds_total[of "ql_rnd lib" 1 SampleUsers, OF assms] by blast
  show ?thesis by (rule that) (use p cs GenPassword_length in \<open>auto simp: qs_result_def\<close>)
qed

definition fresh_db :: "db \<Rightarrow> bool" where
  "fresh_db d \<longleftrightarrow> db_users d = [] \<and> db_services d = []"

lemma reconcile_fresh: "completes fresh_db reconcileDefaults (\<lambda>_ d. fresh_db d \<and> rows_there [] [] [] d)"
proof (rule completes_combine[OF _ completes_reconcile])
  have k: "keeps fresh_db reconcileDefaults"
    unfolding reconcileDefaults_def
    by (intro keeps_try_bind keeps_each keeps_on_store keeps_exec)
      (auto simp: fresh_db_def faultless_def insert_group_def ensure_config_def ensure_document_def intro!: keeps_exec)
  have "KeyMOTDFile \<in> se_Key ` set Catalog" "KeyBrandingFile \<in> se_Key ` set Catalog"
    by (simp_all add: Catalog_def)
  then have r: "rows_there [] [] [] d" if "prepared d" for d
    using that by (auto simp: prepared_def rows_there_def)
  show "succeeds fresh_db reconcileDefaults (\<lambda>_ d. fresh_db d \<and> rows_there [] [] [] d)"
    by (rule hoare_weaken_pre, rule hoare_strengthen_post[OF hoare_conj[OF k reconcile_prepares]]) (use r in auto)
qed

lemma preflight_fresh:
  assumes "\<And>u. u \<in> set (sd_Users data) \<Longrightarrow> length (su_Password u) \<le> MaxPasswordLen"
    "\<And>s. s \<in> set (sd_Services data) \<Longrightarrow> \<exists>k. NormalizeServiceName (sds_Name s) = Inr k"
  shows "completes (\<lambda>d. fresh_db d \<and> rows_there [] [] [] d) (seed_preflight data) (\<lambda>_. rows_there [] [] [])"
proof -
  let ?P = "\<lambda>d. fresh_db d \<and> rows_there [] [] [] d"
  have p: "completes ?P (check_password u) (\<lambda>_. ?P)" if "u \<in> set (sd_Users data)" for u
    using assms(1)[OF that] by (auto simp: check_password_def ValidatePassword_def intro: completes_return)
  have u: "completes ?P (check_free (GetUserByUsername n) m) (\<lambda>_. ?P)" for n m
    by (auto simp: completes_def check_free_def GetUserByUsername_def query_def run_stmt_def run_try_bind find_user_def fresh_db_def
        fail_st_def prep_return_def Let_def)
  have s: "completes ?P (check_free (GetServiceByName (sds_Name s)) m) (\<lambda>_. ?P)" if "s \<in> set (sd_Services data)" for s m
    using assms(2)[OF that]
    by (auto simp: completes_def check_free_def GetServiceByName_def first_service_def query_def run_stmt_def run_try_bind
        fresh_db_def fail_st_def prep_return_def)
  have "completes ?P (seed_preflight data) (\<lambda>_. ?P)"
    unfolding seed_preflight_def by (intro completes_bind[OF completes_each] completes_each p u s)
  then show ?thesis by (auto simp: completes_def)
qed

lemma demo_service_valid:
  "\<exists>k. NormalizeServiceName DemoServiceName = Inr k" "ValidateDescription ''Demo service (dummy3270)'' = None"
proof -
  have "(case NormalizeServiceName DemoServiceName of Inl _ \<Rightarrow> False | Inr _ \<Rightarrow> True)" by code_simp
  then show "\<exists>k. NormalizeServiceName DemoServiceName = Inr k" by (cases "NormalizeServiceName DemoServiceName") auto
  show "ValidateDescription ''Demo service (dummy3270)'' = None" by code_simp
qed

lemma completes_seed:
  assumes "\<And>i p. gen i p \<noteq> None" "length (cr_Password (rq_Admin r)) = 14" "\<And>c. c \<in> set (rq_Samples r) \<Longrightarrow> length (cr_Password c) = 14"
  shows "completes (\<lambda>d. fresh_db d \<and> rows_there [] [] [] d) (seed_Apply gen (buildSeedData r)) (\<lambda>_. rows_there [] [] [])"
proof -
  let ?data = "buildSeedData r"
  have users: "length (su_Password u) \<le> MaxPasswordLen" "\<not> su_UserSettingsLocked u" if "u \<in> set (sd_Users ?data)" for u
    using that assms(2,3) by (auto simp: buildSeedData_def cred_user_def MaxPasswordLen_def)
  have svcs: "(\<exists>k. NormalizeServiceName (sds_Name s) = Inr k) \<and> ValidateDescription (sds_Description s) = None"
    if "s \<in> set (sd_Services ?data)" for s
    using that demo_service_valid by (simp add: buildSeedData_def)
  have grp: "completes (rows_there [] [] []) (seed_groups [] (sd_Groups ?data)) (\<lambda>ids. rows_there [] (map snd ids) [])"
  proof -
    have "completes (rows_there [] (map snd ids) []) (seed_groups ids gs) (\<lambda>ids'. rows_there [] (map snd ids') [])" for ids gs
    proof (induction gs arbitrary: ids)
      case (Cons g gs)
      show ?case unfolding seed_groups.simps
        by (rule completes_bind[OF completes_ensureGroup], unfold split_beta, rule completes_pure, rule Cons)
    qed (simp add: completes_return)
    from this[of "[]"] show ?thesis by simp
  qed
  show ?thesis unfolding seed_Apply_def
    by (rule completes_bind[OF preflight_fresh[OF users(1)]], assumption, use svcs in blast, rule completes_bind[OF grp],
        rule completes_bind[OF completes_seed_users[OF assms(1) users(2)]], assumption, rule completes_seed_services[OF svcs])
qed


definition qs_completes :: "(db \<Rightarrow> bool) \<Rightarrow> 'a qs \<Rightarrow> ('a \<Rightarrow> db \<Rightarrow> bool) \<Rightarrow> bool" where
  "qs_completes D m Q \<longleftrightarrow> (\<forall>s. D (dd_db s) \<and> db_faults (dd_db s) = [] \<and> dd_writes s = [] \<longrightarrow>
     (\<exists>x s'. run_state m s = (Inr x, s') \<and> db_faults (dd_db s') = [] \<and> dd_writes s' = [] \<and> Q x (dd_db s')))"

lemma qs_completesD:
  "qs_completes D m Q \<Longrightarrow> D (dd_db s) \<Longrightarrow> db_faults (dd_db s) = [] \<Longrightarrow> dd_writes s = [] \<Longrightarrow> \<exists>x s'. run_state m s = (Inr x, s')"
  unfolding qs_completes_def by blast

lemma qs_completes_bind: "qs_completes D m R \<Longrightarrow> (\<And>x. qs_completes (R x) (k x) Q) \<Longrightarrow> qs_completes D (try_bind m k) Q"
  unfolding qs_completes_def by (fastforce simp: run_try_bind)

lemma qs_completes_need: "r = Some x \<Longrightarrow> qs_completes D (k x) Q \<Longrightarrow> qs_completes D (try_bind (qs_need e r) k) Q"
  by (simp add: qs_completes_def run_try_bind qs_need_def qs_return_def)

lemma qs_completes_write: "qs_completes D (WriteFile p c) (\<lambda>_. D)"
  by (simp add: qs_completes_def WriteFile_def)

lemma qs_completes_db: "completes D m Q \<Longrightarrow> qs_completes D (qs_db m) Q"
  unfolding qs_completes_def completes_def by (fastforce simp: run_qs_db)

lemma qs_completes_return: "qs_completes D (qs_return x) (\<lambda>_. D)"
  by (simp add: qs_completes_def qs_return_def)

lemma completes_SetConfig:
  assumes "k \<in> set [KeyMOTDFile, KeyBrandingFile]"
  shows "completes (rows_there [] [] []) (on_store (SetConfig k v)) (\<lambda>_. rows_there [] [] [])"
proof (rule completes_unstore)
  have kept: "find_config k' d \<noteq> None \<Longrightarrow> find_config k' (d\<lparr>db_config := map (\<lambda>kv. if nocase (fst kv) k then (fst kv, v) else kv) (db_config d)\<rparr>) \<noteq> None" for k' d
  proof -
    have has: "find_config k' e \<noteq> None \<longleftrightarrow> (\<exists>a\<in>set (map fst (db_config e)). nocase a k')" for e
      by (auto simp: find_config_def find_None_iff) (metis fst_conv)
    have names: "map fst (db_config (d\<lparr>db_config := map (\<lambda>kv. if nocase (fst kv) k then (fst kv, v) else kv) (db_config d)\<rparr>)) =
        map fst (db_config d)" by simp
    assume "find_config k' d \<noteq> None"
    then show "find_config k' (d\<lparr>db_config := map (\<lambda>kv. if nocase (fst kv) k then (fst kv, v) else kv) (db_config d)\<rparr>) \<noteq> None"
      unfolding has names .
  qed
  have "completes (rows_there [] [] []) (exec (\<lambda>d. find_config k d \<noteq> None \<longrightarrow> True) (\<lambda>d. find_config k d \<noteq> None)
      (\<lambda>d. d\<lparr>db_config := map (\<lambda>kv. if nocase (fst kv) k then (fst kv, v) else kv) (db_config d)\<rparr>)) (\<lambda>n d. n \<and> rows_there [] [] [] d)"
    by (rule completes_exec) (use assms kept in \<open>auto simp: rows_there_def\<close>)
  then show "completes (rows_there [] [] []) (SetConfig k v) (\<lambda>_. rows_there [] [] [])"
    unfolding SetConfig_def execExpectingRow_def
    by (rule completes_bind) (auto simp: completes_def)
qed

lemma completes_SetDocument:
  assumes "NormalizeDocName n = Some k" "length c \<le> MaxDocumentBytes"
  shows "completes (rows_there [] [] []) (on_store (SetDocument n c a now)) (\<lambda>_. rows_there [] [] [])"
proof (rule completes_unstore)
  show "completes (rows_there [] [] []) (SetDocument n c a now) (\<lambda>_. rows_there [] [] [])"
    using assms unfolding SetDocument_def by (auto simp: upsert_document_def rows_there_def find_config_def intro!: completes_exec)
qed

lemma starter_texts:
  "length DefaultMOTD \<le> MaxDocumentBytes" "length DefaultBranding \<le> MaxDocumentBytes"
  "NormalizeDocName DocMOTD = Some DocMOTD" "NormalizeDocName DocBranding = Some DocBranding"
proof -
  show "length DefaultMOTD \<le> MaxDocumentBytes" "length DefaultBranding \<le> MaxDocumentBytes"
    by (simp_all add: DefaultMOTD_def DefaultBranding_def nl_def MaxDocumentBytes_def)
qed code_simp+

lemma completes_artifacts:
  assumes "ql_key lib = Some key" "ql_cert lib = Some ct"
  shows "qs_completes (rows_there [] [] []) (write_artifacts lib l res) (\<lambda>_. rows_there [] [] [])"
proof -
  note cfg = qs_completes_bind[OF qs_completes_db[OF completes_SetConfig]]
  note doc = qs_completes_bind[OF qs_completes_db[OF completes_SetDocument]]
  note wr = qs_completes_bind[OF qs_completes_write]
  show ?thesis
    unfolding write_artifacts_def
    by (rule qs_completes_need[OF assms(1)], rule wr, rule qs_completes_need[OF assms(2)], unfold split_beta, rule wr, rule wr, rule wr,
        rule cfg, simp, rule wr, rule cfg, simp, rule doc[OF starter_texts(3,1)], rule doc[OF starter_texts(4,2)], rule qs_completes_write)
qed

text \<open>What has to work: the random source, bcrypt, the certificate, the encoding and the directory.\<close>

definition lib_works :: "qs_lib \<Rightarrow> Layout \<Rightarrow> bool" where
  "lib_works lib l \<longleftrightarrow> ql_mkdir_ok lib \<and> ql_close_ok lib \<and> (\<forall>n i. ql_rnd lib n i \<noteq> None) \<and> (\<forall>n p. ql_hash lib n p \<noteq> None) \<and>
     ql_key lib \<noteq> None \<and> ql_cert lib \<noteq> None \<and> ql_encode lib (config_doc l) \<noteq> None"

lemma Provision_completes:
  fixes lib :: qs_lib and dir :: string
  defines "l \<equiv> NewLayout (ql_join lib) dir"
  assumes lib: "lib_works lib l" and s: "dd_files s (ly_Config l) = None" "dd_files s (ly_DB l) = None" "dd_writes s = []"
    "fresh_db (dd_db s)" "db_faults (dd_db s) = []"
  shows "\<exists>res s'. run_state (Provision lib dir) s = (Inr res, s')"
proof -
  obtain key ct cfg where k: "ql_key lib = Some key" "ql_cert lib = Some ct" "renderConfigJSON (ql_encode lib) l = Some cfg"
    using lib by (auto simp: lib_works_def renderConfigJSON_def)
  obtain res where res: "qs_result lib dir = Some res" "length (cr_Password (rq_Admin res)) = 14"
    "\<And>c. c \<in> set (rq_Samples res) \<Longrightarrow> length (cr_Password c) = 14"
    using qs_result_total[of lib dir] lib by (auto simp: lib_works_def)
  have hash: "ql_hash lib i p \<noteq> None" for i p using lib by (simp add: lib_works_def)
  let ?rest = "try_bind (qs_db reconcileDefaults) (\<lambda>_. try_bind (qs_need QsRandom (qs_result lib dir)) (\<lambda>res.
      try_bind (qs_db (seed_Apply (ql_hash lib) (buildSeedData res))) (\<lambda>_. try_bind (write_artifacts lib l res) (\<lambda>_.
      if \<not> ql_close_ok lib then qs_fail QsClose
      else try_bind (qs_need QsEncode (renderConfigJSON (ql_encode lib) l)) (\<lambda>cfg. try_bind (WriteFile (ly_Config l) cfg) (\<lambda>_. qs_return res))))))"
  have fin: "qs_completes (rows_there [] [] []) (if \<not> ql_close_ok lib then qs_fail QsClose
      else try_bind (qs_need QsEncode (renderConfigJSON (ql_encode lib) l)) (\<lambda>cfg. try_bind (WriteFile (ly_Config l) cfg) (\<lambda>_. qs_return res)))
      (\<lambda>_. rows_there [] [] [])"
    using lib by (simp add: lib_works_def qs_completes_need[OF k(3)] qs_completes_bind[OF qs_completes_write qs_completes_return])
  have "qs_completes fresh_db ?rest (\<lambda>_. rows_there [] [] [])"
    by (rule qs_completes_bind[OF qs_completes_db[OF reconcile_fresh]], rule qs_completes_need[OF res(1)],
        rule qs_completes_bind[OF qs_completes_db[OF completes_seed[OF hash res(2,3)]]], assumption,
        rule qs_completes_bind[OF completes_artifacts[OF k(1,2)]], rule fin)
  from qs_completesD[OF this, of "s\<lparr>dd_files := (dd_files s)(ly_DB l \<mapsto> [])\<rparr>"]
  have "\<exists>x s'. run_state ?rest (s\<lparr>dd_files := (dd_files s)(ly_DB l \<mapsto> [])\<rparr>) = (Inr x, s')"
    using s(3-5) by simp
  then show ?thesis
    using s(1,2) lib by (simp add: Provision_def Let_def l_def[symmetric] provision_fresh_def lib_works_def)
qed

text \<open>
  On a fresh directory the quick start succeeds when nothing it calls fails: with the files
  and the database working, the random source, bcrypt and the certificate giving values, it ends
  with the credentials, the configuration file holds the encoded configuration of the directory,
  and running it again reports the directory as provisioned.
\<close>

theorem quickstart_succeeds:
  fixes lib :: qs_lib and dir :: string
  defines "l \<equiv> NewLayout (ql_join lib) dir"
  assumes "lib_works lib l" "distinct (layout_paths l)" "dd_files s (ly_Config l) = None" "dd_files s (ly_DB l) = None" "dd_writes s = []"
    "wf_db (dd_db s)" "db_users (dd_db s) = []" "db_services (dd_db s) = []" "db_faults (dd_db s) = []"
  shows "\<exists>res s'. run_state (runQuickstart lib dir) s = (Inr (Some res), s') \<and> dd_files s' (ly_Config l) = ql_encode lib (config_doc l) \<and>
    run_state (runQuickstart lib dir) s' = (Inr None, s')"
proof -
  obtain res s' where run: "run_state (Provision lib dir) s = (Inr res, s')"
    using Provision_completes[of lib dir s] assms(2,4-6,8-10) by (auto simp: l_def fresh_db_def)
  from Provision_done[OF assms(3)[unfolded l_def] assms(7) run]
  have cfg: "dd_files s' (ly_Config l) = ql_encode lib (config_doc l)" "dd_files s' (ly_Config l) \<noteq> None"
    by (auto simp: provision_done_def provisioned_def renderConfigJSON_def l_def)
  have "run_state (runQuickstart lib dir) s = (Inr (Some res), s')"
    by (simp add: runQuickstart_def run)
  moreover have "run_state (runQuickstart lib dir) s' = (Inr None, s')"
    using cfg(2) by (auto simp: runQuickstart_def Provision_def Let_def l_def[symmetric] qs_fail_def)
  ultimately show ?thesis using cfg(1) by blast
qed

section \<open>A first start\<close>

definition toy_encode :: "configDoc \<Rightarrow> string option" where
  "toy_encode d = Some (join_with [newline] [cd_DB d, cd_TLS_Cert d, cd_TLS_Key d, cd_MFA_KeyFile d])"

definition toy_lib :: qs_lib where
  "toy_lib = \<lparr>ql_join = join_with ''/'', ql_mkdir_ok = True, ql_rnd = (\<lambda>n i. Some (7 * n + 5 * i)), ql_hash = toy_hash,
     ql_key = Some (replicate 32 CHR ''k''), ql_cert = Some (''certificate'', ''private key''), ql_encode = toy_encode,
     ql_now = 0, ql_close_ok = True\<rparr>"

definition empty_db :: db where
  "empty_db = \<lparr>db_users = [], db_groups = [], db_user_groups = [], db_services = [], db_group_services = [], db_audit = [],
     db_audit_seq = 0, db_config = [], db_networks = [], db_networks_seq = 0, db_documents = [], db_faults = []\<rparr>"

definition empty_dir :: data_dir where
  "empty_dir = \<lparr>dd_files = (\<lambda>_. None), dd_writes = [], dd_db = empty_db\<rparr>"

abbreviation toy_layout :: Layout where
  "toy_layout \<equiv> NewLayout (ql_join toy_lib) ''/data''"

lemma toy_layout_ok: "distinct (layout_paths toy_layout)" "[] \<notin> set (layout_paths toy_layout)"
  by code_simp+

lemma toy_start:
  "lib_works toy_lib toy_layout" "wf_db empty_db" "dd_files empty_dir p = None" "dd_writes empty_dir = []" "dd_db empty_dir = empty_db"
  "db_users empty_db = []" "db_services empty_db = []" "db_faults empty_db = []"
proof -
  show "wf_db empty_db" by code_simp
qed (simp_all add: lib_works_def toy_lib_def toy_hash_def toy_encode_def empty_dir_def empty_db_def)

lemma toy_run: "\<exists>res s'. run_state (Provision toy_lib ''/data'') empty_dir = (Inr res, s')"
  using Provision_completes[of toy_lib "''/data''" empty_dir] by (simp add: toy_start fresh_db_def)

theorem quickstart_succeeds_witness:
  "\<exists>res s'. run_state (runQuickstart toy_lib ''/data'') empty_dir = (Inr (Some res), s') \<and>
    dd_files s' (ly_Config toy_layout) = toy_encode (config_doc toy_layout) \<and>
    run_state (runQuickstart toy_lib ''/data'') s' = (Inr None, s')"
  using quickstart_succeeds[OF toy_start(1) toy_layout_ok(1), of empty_dir] by (simp add: toy_start) (simp add: toy_lib_def)


definition toy_decode :: "string \<Rightarrow> fileConfig option" where
  "toy_decode t = (case split_on newline t of
     [a, b, c, e] \<Rightarrow> Some (doc_file \<lparr>cd_DB = a, cd_Plain_Enabled = True, cd_Plain_Addr = PlainAddr, cd_TLS_Enabled = True,
       cd_TLS_Addr = TLSAddr, cd_TLS_Cert = b, cd_TLS_Key = c, cd_MFA_KeyFile = e\<rparr>)
   | _ \<Rightarrow> None)"

theorem quickstart_config_loads_witness:
  "\<exists>res s'. run_state (Provision toy_lib ''/data'') empty_dir = (Inr res, s') \<and>
    Load (\<lambda>_. None) toy_decode (disk_reader s') [] [''-config'', ''/data/tn3270proxy.json''] = Inr
      (defaults\<lparr>cf_DBPath := ''/data/proxy.db'',
        cf_TLS := \<lparr>tl_Enabled = True, tl_Addr = '':2324'', tl_Cert = ''/data/tls/cert.pem'', tl_Key = ''/data/tls/key.pem''\<rparr>,
        cf_MFAKey := replicate 32 CHR ''k''\<rparr>)"
proof -
  obtain res s' where run: "run_state (Provision toy_lib ''/data'') empty_dir = (Inr res, s')" using toy_run by blast
  have paths: "ly_Config toy_layout = ''/data/tn3270proxy.json''" "ly_DB toy_layout = ''/data/proxy.db''" "TLSAddr = '':2324''"
    "ly_Cert toy_layout = ''/data/tls/cert.pem''" "ly_Key toy_layout = ''/data/tls/key.pem''"
    by code_simp+
  have "toy_decode (the (toy_encode (config_doc toy_layout))) = Some (doc_file (config_doc toy_layout))" by code_simp
  then have dec: "toy_decode t = Some (doc_file (config_doc toy_layout))" if "ql_encode toy_lib (config_doc toy_layout) = Some t" for t
    using that by (simp add: toy_lib_def)
  have key: "ql_key toy_lib = Some (replicate 32 CHR ''k'')" by (simp add: toy_lib_def)
  have len: "length k = 32" if "ql_key toy_lib = Some k" for k using that by (auto simp: toy_lib_def)
  have wf: "wf_db (dd_db empty_dir)" by (simp add: toy_start)
  from quickstart_config_loads[of toy_lib "''/data''" empty_dir toy_decode, OF toy_layout_ok wf dec len run, of "\<lambda>_. None"] run key
  show ?thesis by (simp only: paths) auto
qed

end
