(* ===== verification/Migrate.thy ===== *)
theory Migrate
  imports Effects Store
begin

text \<open>
  The schema migrations, internal/store/migrate.go, with the backup of maintenance.go and the
  first half of \<open>Open\<close>. Here the database is what SQLite stores, before the tables have the
  shape of the store model: tables by name with their columns and rows, the indexes, and
  \<open>PRAGMA user_version\<close>. Every statement may fail, by the script \<open>mg_faults\<close> as in the store.
\<close>

section \<open>The database file\<close>

datatype sval = SInt int | STxt string | SNull

type_synonym sql_row = "(string \<times> sval) list"

record sql_table =
  tb_cols :: "(string \<times> sval option) list"   \<comment> \<open>with the default of the column\<close>
  tb_fks :: "(string \<times> string) list"         \<comment> \<open>a column and the table whose id it references\<close>
  tb_rows :: "sql_row list"

record sql_db =
  sq_tables :: "(string \<times> sql_table) list"
  sq_indexes :: "string list"
  sq_version :: int

record mig_state =
  mg_db :: sql_db
  mg_fk :: bool                         \<comment> \<open>foreign_keys of the connection\<close>
  mg_backups :: "string \<rightharpoonup> sql_db"         \<comment> \<open>the files backups are written to\<close>
  mg_faults :: "bool list"

datatype mig_error =
    MigNewer int
  | MigRead             \<comment> \<open>user_version, sqlite_master\<close>
  | MigBackup
  | MigConn             \<comment> \<open>acquiring the connection, switching foreign keys off\<close>
  | MigStep int         \<comment> \<open>the step whose transaction failed\<close>
  | MigCheck            \<comment> \<open>the check itself failed\<close>
  | MigViolations

type_synonym 'a mig = "(mig_state, mig_error + 'a) state"

text \<open>A statement: it fails by the script, or by itself (\<open>None\<close>).\<close>

definition sql :: "mig_error \<Rightarrow> (sql_db \<Rightarrow> (sql_db \<times> 'a) option) \<Rightarrow> 'a mig" where
  "sql e f = State (\<lambda>s.
     let s1 = s\<lparr>mg_faults := tl (mg_faults s)\<rparr>
     in if mg_faults s \<noteq> [] \<and> hd (mg_faults s) then (Inl e, s1)
        else case f (mg_db s1) of None \<Rightarrow> (Inl e, s1) | Some (d, x) \<Rightarrow> (Inr x, s1\<lparr>mg_db := d\<rparr>))"

definition sql_read :: "mig_error \<Rightarrow> (sql_db \<Rightarrow> 'a) \<Rightarrow> 'a mig" where
  "sql_read e f = sql e (\<lambda>d. Some (d, f d))"

definition sql_do :: "mig_error \<Rightarrow> (sql_db \<Rightarrow> sql_db option) \<Rightarrow> unit mig" where
  "sql_do e f = sql e (\<lambda>d. map_option (\<lambda>d'. (d', ())) (f d))"

definition mig_return :: "'a \<Rightarrow> 'a mig" where "mig_return x = return_st (Inr x)"
definition mig_fail :: "mig_error \<Rightarrow> 'a mig" where "mig_fail e = return_st (Inl e)"

fun mig_each :: "('a \<Rightarrow> unit mig) \<Rightarrow> 'a list \<Rightarrow> unit mig" where
  "mig_each f [] = mig_return ()"
| "mig_each f (x # xs) = try_bind (f x) (\<lambda>_. mig_each f xs)"

section \<open>Statements\<close>

definition sql_find :: "string \<Rightarrow> sql_db \<Rightarrow> sql_table option" where
  "sql_find t d = map_of (sq_tables d) t"

definition columns :: "string \<Rightarrow> sql_db \<Rightarrow> string list" where \<comment> \<open>\<open>PRAGMA table_info\<close>: no rows for no table\<close>
  "columns t d = (case sql_find t d of None \<Rightarrow> [] | Some tb \<Rightarrow> map fst (tb_cols tb))"

definition sql_update :: "string \<Rightarrow> (sql_table \<Rightarrow> sql_table) \<Rightarrow> sql_db \<Rightarrow> sql_db" where
  "sql_update t f d = d\<lparr>sq_tables := map (\<lambda>(n, tb). (n, if n = t then f tb else tb)) (sq_tables d)\<rparr>"

definition create_table :: "string \<Rightarrow> (string \<times> sval option) list \<Rightarrow> (string \<times> string) list \<Rightarrow> sql_db \<Rightarrow> sql_db" where
  "create_table t cols fks d =
     (if sql_find t d \<noteq> None then d else d\<lparr>sq_tables := sq_tables d @ [(t, \<lparr>tb_cols = cols, tb_fks = fks, tb_rows = []\<rparr>)]\<rparr>)"

definition create_index :: "string \<Rightarrow> string \<Rightarrow> string \<Rightarrow> sql_db \<Rightarrow> sql_db option" where
  "create_index name t c d =
     (if name \<in> set (sq_indexes d) then Some d
      else if c \<in> set (columns t d) then Some (d\<lparr>sq_indexes := sq_indexes d @ [name]\<rparr>) else None)"

definition add_column :: "string \<Rightarrow> string \<Rightarrow> sval \<Rightarrow> sql_db \<Rightarrow> sql_db option" where
  "add_column t c v d =
     (if sql_find t d = None \<or> (\<exists>x\<in>set (columns t d). nocase x c) then None
      else Some (sql_update t (\<lambda>tb. tb\<lparr>tb_cols := tb_cols tb @ [(c, Some v)], tb_rows := map (\<lambda>r. r @ [(c, v)]) (tb_rows tb)\<rparr>) d))"

definition ensureColumnTx :: "mig_error \<Rightarrow> string \<Rightarrow> string \<Rightarrow> sval \<Rightarrow> unit mig" where
  "ensureColumnTx e t c v =
     try_bind (sql_read e (columns t)) (\<lambda>cs.
       if c \<in> set cs then mig_return () else sql_do e (add_column t c v))"

section \<open>The steps\<close>

definition req_col :: "string \<Rightarrow> string \<times> sval option" where "req_col c = (c, None)"
definition txt_col :: "string \<Rightarrow> string \<times> sval option" where "txt_col c = (c, Some (STxt []))"
definition num_col :: "string \<Rightarrow> int \<Rightarrow> string \<times> sval option" where "num_col c n = (c, Some (SInt n))"

definition schema_tables :: "(string \<times> (string \<times> sval option) list \<times> (string \<times> string) list) list" where
  "schema_tables =
     [(''users'', [req_col ''id'', req_col ''username'', req_col ''password_hash'', txt_col ''full_name'', txt_col ''email'', num_col ''mfa_required'' 0,
         txt_col ''mfa_secret'', txt_col ''mfa_enrolled_at'', num_col ''mfa_last_step'' 0, num_col ''user_settings_locked'' 0], []),
      (''groups'', [req_col ''id'', req_col ''name''], []),
      (''user_groups'', [req_col ''user_id'', req_col ''group_id''], [(''user_id'', ''users''), (''group_id'', ''groups'')]),
      (''services'', [req_col ''id'', req_col ''name'', txt_col ''description'', req_col ''host'', req_col ''port'', num_col ''tls'' 0, num_col ''tls_verify'' 1], []),
      (''group_services'', [req_col ''group_id'', req_col ''service_id''], [(''group_id'', ''groups''), (''service_id'', ''services'')]),
      (''audit'', [req_col ''id'', req_col ''at'', req_col ''session_id'', req_col ''kind'', txt_col ''username'', txt_col ''remote_addr'', txt_col ''service'', txt_col ''detail''], []),
      (''system_config'', [req_col ''key'', txt_col ''value''], []),
      (''trusted_networks'', [req_col ''id'', req_col ''cidr'', req_col ''comment''], [])]"

definition apply_schema :: "sql_db \<Rightarrow> sql_db option" where
  "apply_schema d =
     (let d1 = fold (\<lambda>(t, cols, fks). create_table t cols fks) schema_tables d
      in Option.bind (create_index ''audit_at'' ''audit'' ''at'' d1) (create_index ''audit_username'' ''audit'' ''username''))"

definition legacy_columns :: "(string \<times> string \<times> sval) list" where
  "legacy_columns =
     [(''services'', ''tls_verify'', SInt 1), (''services'', ''description'', STxt []), (''users'', ''full_name'', STxt []),
      (''users'', ''email'', STxt []), (''users'', ''mfa_required'', SInt 0), (''users'', ''mfa_secret'', STxt []),
      (''users'', ''mfa_enrolled_at'', STxt []), (''users'', ''mfa_last_step'', SInt 0), (''users'', ''user_settings_locked'', SInt 0)]"

definition migrateV1Baseline :: "unit mig" where
  "migrateV1Baseline =
     try_bind (sql_do (MigStep 1) apply_schema) (\<lambda>_.
     mig_each (\<lambda>(t, c, v). ensureColumnTx (MigStep 1) t c v) legacy_columns)"

definition cell :: "sql_row \<Rightarrow> string \<Rightarrow> sval" where
  "cell r c = (case map_of r c of None \<Rightarrow> SNull | Some v \<Rightarrow> v)"

definition set_cell :: "string \<Rightarrow> sval \<Rightarrow> sql_row \<Rightarrow> sql_row" where
  "set_cell c v r = map (\<lambda>(n, x). (n, if n = c then v else x)) r"

definition backfill_actor :: "sql_db \<Rightarrow> sql_db option" where \<comment> \<open>\<open>UPDATE audit SET actor = username\<close>\<close>
  "backfill_actor d =
     (if ''actor'' \<in> set (columns ''audit'' d) \<and> ''username'' \<in> set (columns ''audit'' d)
      then Some (sql_update ''audit'' (\<lambda>tb. tb\<lparr>tb_rows := map (\<lambda>r. set_cell ''actor'' (cell r ''username'') r) (tb_rows tb)\<rparr>) d)
      else None)"

definition migrateV2AuditActor :: "unit mig" where
  "migrateV2AuditActor =
     try_bind (ensureColumnTx (MigStep 2) ''audit'' ''actor'' (STxt [])) (\<lambda>_.
     try_bind (sql_do (MigStep 2) backfill_actor) (\<lambda>_.
     sql_do (MigStep 2) (create_index ''audit_actor'' ''audit'' ''actor'')))"

definition is_named :: "string \<Rightarrow> string \<Rightarrow> sql_row \<Rightarrow> bool" where \<comment> \<open>a text column with COLLATE NOCASE\<close>
  "is_named c v r = (case cell r c of STxt x \<Rightarrow> nocase x v | _ \<Rightarrow> False)"

text \<open>The value of a parameter: the outer option is the failure of the statement or of the scan, the inner one \<open>sql.ErrNoRows\<close>.\<close>

definition legacy_path :: "string \<Rightarrow> sql_db \<Rightarrow> string option option" where
  "legacy_path key d =
     (case sql_find ''system_config'' d of
        None \<Rightarrow> None
      | Some tb \<Rightarrow>
          if \<not> {''key'', ''value''} \<subseteq> set (columns ''system_config'' d) then None
          else (case find (is_named ''key'' key) (tb_rows tb) of
             None \<Rightarrow> Some None
           | Some r \<Rightarrow> (case cell r ''value'' of STxt v \<Rightarrow> Some (Some v) | SInt n \<Rightarrow> Some (Some (itoa n)) | SNull \<Rightarrow> None)))"

definition readLegacyDocFile :: "(string \<Rightarrow> file_state) \<Rightarrow> string \<Rightarrow> string option" where
  "readLegacyDocFile fs path = (case fs path of FileData bs \<Rightarrow> Some (take MaxDocumentBytes bs) | _ \<Rightarrow> None)"

definition replace_document :: "string \<Rightarrow> string \<Rightarrow> go_time \<Rightarrow> sql_db \<Rightarrow> sql_db option" where
  "replace_document name content now d =
     (if sql_find ''documents'' d = None then None
      else Some (sql_update ''documents'' (\<lambda>tb. tb\<lparr>tb_rows := filter (\<lambda>r. \<not> is_named ''name'' name r) (tb_rows tb) @
        [[(''name'', STxt name), (''content'', STxt content), (''updated_at'', STxt (rfc3339 now)), (''updated_by'', STxt ''migration'')]]\<rparr>) d))"

definition import_document :: "(string \<Rightarrow> file_state) \<Rightarrow> go_time \<Rightarrow> string \<times> string \<Rightarrow> unit mig" where
  "import_document fs now im =
     (case im of (name, key) \<Rightarrow>
        try_bind (sql (MigStep 3) (\<lambda>d. map_option (\<lambda>p. (d, p)) (legacy_path key d))) (\<lambda>r.
          case r of
            None \<Rightarrow> mig_return ()
          | Some path0 \<Rightarrow>
              let path = trim_space path0
              in if path = [] \<or> hd path \<noteq> CHR ''/'' then mig_return ()
                 else (case readLegacyDocFile fs path of
                         None \<Rightarrow> mig_return ()
                       | Some content \<Rightarrow> sql_do (MigStep 3) (replace_document name content now))))"

definition document_imports :: "(string \<times> string) list" where
  "document_imports = [(DocMOTD, KeyMOTDFile), (DocBranding, KeyBrandingFile)]"

definition documents_table :: "sql_db \<Rightarrow> sql_db" where
  "documents_table = create_table ''documents'' [req_col ''name'', txt_col ''content'', txt_col ''updated_at'', txt_col ''updated_by''] []"

definition migrateV3Documents :: "(string \<Rightarrow> file_state) \<Rightarrow> go_time \<Rightarrow> unit mig" where
  "migrateV3Documents fs now =
     try_bind (sql_do (MigStep 3) (\<lambda>d. Some (documents_table d))) (\<lambda>_.
     mig_each (import_document fs now) document_imports)"

section \<open>Running them\<close>

definition migrations :: "(string \<Rightarrow> file_state) \<Rightarrow> go_time \<Rightarrow> (int \<times> unit mig) list" where
  "migrations fs now = [(1, migrateV1Baseline), (2, migrateV2AuditActor), (3, migrateV3Documents fs now)]"

definition maxKnownVersion :: int where
  "maxKnownVersion = fst (last (migrations (\<lambda>_. FileIrregular) 0))"

text \<open>A transaction: the deferred rollback puts the file back, the version included.\<close>

definition rolled_back :: "sql_db \<Rightarrow> mig_error + 'a \<Rightarrow> 'a mig" where
  "rolled_back d r = (case r of Inl e \<Rightarrow> do { _ \<leftarrow> modify (\<lambda>s. s\<lparr>mg_db := d\<rparr>); mig_fail e } | Inr x \<Rightarrow> mig_return x)"

definition runOne :: "int \<times> unit mig \<Rightarrow> unit mig" where
  "runOne m =
     (case m of (v, step) \<Rightarrow> do {
        d \<leftarrow> gets mg_db;
        r \<leftarrow> try_bind (sql_read (MigStep v) (\<lambda>_. ())) (\<lambda>_. \<comment> \<open>BEGIN\<close>
             try_bind step (\<lambda>_.
             try_bind (sql_do (MigStep v) (\<lambda>e. Some (e\<lparr>sq_version := v\<rparr>))) (\<lambda>_.
             sql_read (MigStep v) (\<lambda>_. ())))); \<comment> \<open>COMMIT\<close>
        rolled_back d r })"

text \<open>A violation: a reference that is not null and names no id of the parent table.\<close>

definition violates :: "sql_db \<Rightarrow> bool" where
  "violates d \<longleftrightarrow> list_ex (\<lambda>(_, tb). list_ex (\<lambda>(c, parent). list_ex (\<lambda>r. cell r c \<noteq> SNull \<and>
       (case sql_find parent d of None \<Rightarrow> True | Some p \<Rightarrow> cell r c \<notin> set (map (\<lambda>q. cell q ''id'') (tb_rows p))))
     (tb_rows tb)) (tb_fks tb)) (sq_tables d)"

definition foreignKeyCheck :: "unit mig" where
  "foreignKeyCheck = try_bind (sql_read MigCheck violates) (\<lambda>b. if b then mig_fail MigViolations else mig_return ())"

definition isFresh :: "sql_db \<Rightarrow> bool" where \<comment> \<open>\<open>_\<close> in LIKE is any one character\<close>
  "isFresh d \<longleftrightarrow> filter (\<lambda>(n, _). \<not> (prefix ''sqlite'' (to_lower n) \<and> 7 \<le> length n)) (sq_tables d) = []"

definition backup_path :: "string \<Rightarrow> int \<Rightarrow> go_time \<Rightarrow> string" where
  "backup_path path cur now = path @ ''.pre-migrate-v'' @ itoa cur @ ''-'' @ itoa (time_unix now) @ ''.bak''"

definition vacuumInto :: "string \<Rightarrow> unit mig" where
  "vacuumInto dest = do {
     files \<leftarrow> gets mg_backups;
     (if files dest \<noteq> None then mig_fail MigBackup
      else try_bind (sql_read MigBackup (\<lambda>d. d)) (\<lambda>d. do {
             _ \<leftarrow> modify (\<lambda>s. s\<lparr>mg_backups := (mg_backups s)(dest \<mapsto> d)\<rparr>);
             mig_return () })) }"

text \<open>The deferred restore runs on every path; its failure is only logged.\<close>

definition restore_foreign_keys :: "mig_error + unit \<Rightarrow> unit mig" where
  "restore_foreign_keys r = do {
     b \<leftarrow> sql_read MigConn (\<lambda>_. ());
     (case b of Inl _ \<Rightarrow> return_st r | Inr _ \<Rightarrow> do { _ \<leftarrow> modify (\<lambda>s. s\<lparr>mg_fk := True\<rparr>); return_st r }) }"

definition apply_pending :: "(string \<Rightarrow> file_state) \<Rightarrow> go_time \<Rightarrow> int \<Rightarrow> unit mig" where
  "apply_pending fs now cur =
     try_bind (mig_each runOne (filter (\<lambda>m. cur < fst m) (migrations fs now))) (\<lambda>_. foreignKeyCheck)"

definition runMigrations :: "(string \<Rightarrow> file_state) \<Rightarrow> go_time \<Rightarrow> string \<Rightarrow> unit mig" where
  "runMigrations fs now path =
     try_bind (sql_read MigRead sq_version) (\<lambda>cur.
       if maxKnownVersion < cur then mig_fail (MigNewer cur)
       else if cur = maxKnownVersion then mig_return ()
       else
         try_bind (sql_read MigRead isFresh) (\<lambda>fresh.
         try_bind (if fresh then mig_return () else vacuumInto (backup_path path cur now)) (\<lambda>_.
         try_bind (sql_read MigConn (\<lambda>_. ())) (\<lambda>_. \<comment> \<open>the dedicated connection, foreign_keys = OFF\<close>
         do {
           _ \<leftarrow> modify (\<lambda>s. s\<lparr>mg_fk := False\<rparr>);
           r \<leftarrow> apply_pending fs now cur;
           restore_foreign_keys r }))))"

end
