(* ===== verification/Migrate_Props.thy ===== *)
theory Migrate_Props
  imports Migrate
begin

text \<open>
  What the migrations guarantee: each step is applied completely and once or not at all, whatever
  fails, no row is lost on the way, and the schema at the end has every column the store names.
\<close>

section \<open>Running a statement\<close>

named_theorems mig_rules "rules for relations between the database before and after"

text \<open>
  \<open>relates R m\<close>: whenever \<open>m\<close> succeeds, the database before and after are related;
  \<open>faithful m\<close>: a success is what the same text gives when nothing fails.
\<close>

definition relates :: "(sql_db \<Rightarrow> sql_db \<Rightarrow> bool) \<Rightarrow> 'a mig \<Rightarrow> bool" where
  "relates R m \<longleftrightarrow> (\<forall>s x s'. run_state m s = (Inr x, s') \<longrightarrow> R (mg_db s) (mg_db s'))"

definition quiet :: "sql_db \<Rightarrow> mig_state" where
  "quiet d = \<lparr>mg_db = d, mg_fk = False, mg_backups = Map.empty, mg_faults = []\<rparr>"

definition faithful :: "'a mig \<Rightarrow> bool" where
  "faithful m \<longleftrightarrow> (\<forall>s x s'. run_state m s = (Inr x, s') \<longrightarrow> run_state m (quiet (mg_db s)) = (Inr x, quiet (mg_db s')))"

definition order :: "(sql_db \<Rightarrow> sql_db \<Rightarrow> bool) \<Rightarrow> bool" where
  "order R \<longleftrightarrow> (\<forall>d. R d d) \<and> (\<forall>a b c. R a b \<longrightarrow> R b c \<longrightarrow> R a c)"

lemma run_sql_Inr:
  "run_state (sql e f) s = (Inr x, s') \<longleftrightarrow>
     \<not> (mg_faults s \<noteq> [] \<and> hd (mg_faults s)) \<and> f (mg_db s) = Some (mg_db s', x) \<and> s' = s\<lparr>mg_faults := tl (mg_faults s), mg_db := mg_db s'\<rparr>"
  by (auto simp: sql_def Let_def split: option.splits)

lemma run_sql_Inl: "run_state (sql e f) s = (Inl e', s') \<Longrightarrow> e' = e \<and> s' = s\<lparr>mg_faults := tl (mg_faults s)\<rparr>"
  by (auto simp: sql_def Let_def split: option.splits if_splits)

lemma relates_sql: "order R \<Longrightarrow> (\<And>d d' x. f d = Some (d', x) \<Longrightarrow> R d d') \<Longrightarrow> relates R (sql e f)"
  by (auto simp: relates_def run_sql_Inr)

lemma relates_read: "order R \<Longrightarrow> relates R (sql_read e f)"
  unfolding sql_read_def by (rule relates_sql) (auto simp: order_def)

lemma relates_do: "order R \<Longrightarrow> (\<And>d d'. f d = Some d' \<Longrightarrow> R d d') \<Longrightarrow> relates R (sql_do e f)"
  unfolding sql_do_def by (rule relates_sql) (auto simp: order_def)

lemma relates_return: "order R \<Longrightarrow> relates R (mig_return x)"
  by (auto simp: relates_def mig_return_def order_def)

lemma relates_bind: "order R \<Longrightarrow> relates R m \<Longrightarrow> (\<And>x. relates R (k x)) \<Longrightarrow> relates R (try_bind m k)"
  unfolding relates_def order_def by (fastforce simp: run_try_bind split: prod.splits sum.splits)

lemma relates_each: "order R \<Longrightarrow> (\<And>x. x \<in> set xs \<Longrightarrow> relates R (f x)) \<Longrightarrow> relates R (mig_each f xs)"
  by (induction xs) (simp_all add: relates_return relates_bind)

lemma relates_ensure:
  "order R \<Longrightarrow> (\<And>d d'. add_column t c v d = Some d' \<Longrightarrow> R d d') \<Longrightarrow> relates R (ensureColumnTx e t c v)"
  unfolding ensureColumnTx_def by (intro relates_bind relates_read) (auto intro: relates_return relates_do)

lemma relates_import:
  assumes "order R" "\<And>n c d d'. replace_document n c now d = Some d' \<Longrightarrow> R d d'"
  shows "relates R (import_document fs now im)"
proof -
  obtain name key where im: "im = (name, key)" by (cases im)
  have tail: "relates R (case r of None \<Rightarrow> mig_return () | Some path0 \<Rightarrow>
     let path = trim_space path0 in if path = [] \<or> hd path \<noteq> CHR ''/'' then mig_return ()
       else (case readLegacyDocFile fs path of None \<Rightarrow> mig_return () | Some c \<Rightarrow> sql_do (MigStep 3) (replace_document name c now)))" for r
  proof -
    have ret: "relates R (mig_return ())" by (rule relates_return[OF assms(1)])
    have doc: "relates R (sql_do e (replace_document name c now))" for e c by (rule relates_do[OF assms(1) assms(2)])
    show ?thesis by (cases r) (auto simp: Let_def ret doc split: option.split)
  qed
  show ?thesis
    unfolding import_document_def im prod.case
    by (rule relates_bind[OF assms(1) relates_sql[OF assms(1)] tail]) (use assms(1) in \<open>auto simp: order_def\<close>)
qed

text \<open>All that the steps do to the database.\<close>

lemma relates_steps:
  assumes "order R" "\<And>d d'. apply_schema d = Some d' \<Longrightarrow> R d d'" "\<And>t c v d d'. add_column t c v d = Some d' \<Longrightarrow> R d d'"
    "\<And>d d'. backfill_actor d = Some d' \<Longrightarrow> R d d'" "\<And>n t c d d'. create_index n t c d = Some d' \<Longrightarrow> R d d'"
    "\<And>d. R d (documents_table d)" "\<And>n c now d d'. replace_document n c now d = Some d' \<Longrightarrow> R d d'"
  shows "m \<in> snd ` set (migrations fs now) \<Longrightarrow> relates R m"
proof -
  have "relates R migrateV1Baseline"
    unfolding migrateV1Baseline_def split_def using assms(1-3) by (intro relates_bind relates_do relates_each relates_ensure)
  moreover have "relates R migrateV2AuditActor"
    unfolding migrateV2AuditActor_def using assms(1,3,4,5) by (intro relates_bind relates_do relates_ensure)
  moreover have "relates R (migrateV3Documents fs now)"
    unfolding migrateV3Documents_def using assms(1,6,7) by (intro relates_bind relates_do relates_each relates_import) auto
  ultimately show "m \<in> snd ` set (migrations fs now) \<Longrightarrow> relates R m" by (auto simp: migrations_def)
qed

lemma faithful_sql: "faithful (sql e f)"
  by (auto simp: faithful_def sql_def quiet_def Let_def split: option.splits if_splits)

lemma faithful_return: "faithful (mig_return x)"
  by (auto simp: faithful_def mig_return_def)

lemma faithful_bind: "faithful m \<Longrightarrow> (\<And>x. faithful (k x)) \<Longrightarrow> faithful (try_bind m k)"
  unfolding faithful_def by (fastforce simp: run_try_bind split: prod.splits sum.splits)

lemma faithful_each: "(\<And>x. faithful (f x)) \<Longrightarrow> faithful (mig_each f xs)"
  by (induction xs) (simp_all add: faithful_return faithful_bind)

lemma faithful_steps: "m \<in> snd ` set (migrations fs now) \<Longrightarrow> faithful m"
proof -
  have e: "faithful (ensureColumnTx e t c v)" for e t c v
    unfolding ensureColumnTx_def sql_read_def sql_do_def by (intro faithful_bind faithful_sql) (auto intro: faithful_return faithful_sql)
  have i: "faithful (import_document fs now im)" for im
  proof -
    obtain name key where im: "im = (name, key)" by (cases im)
    have tail: "faithful (case r of None \<Rightarrow> mig_return () | Some path0 \<Rightarrow>
       let path = trim_space path0 in if path = [] \<or> hd path \<noteq> CHR ''/'' then mig_return ()
         else (case readLegacyDocFile fs path of None \<Rightarrow> mig_return () | Some c \<Rightarrow> sql_do (MigStep 3) (replace_document name c now)))" for r
      by (cases r) (auto simp: Let_def sql_do_def faithful_return faithful_sql split: option.split)
    show ?thesis unfolding import_document_def im prod.case by (rule faithful_bind[OF faithful_sql tail])
  qed
  have "faithful migrateV1Baseline" "faithful migrateV2AuditActor" "faithful (migrateV3Documents fs now)"
    unfolding migrateV1Baseline_def migrateV2AuditActor_def migrateV3Documents_def sql_do_def split_def
    by (intro faithful_bind faithful_sql faithful_each e i)+
  then show "m \<in> snd ` set (migrations fs now) \<Longrightarrow> faithful m" by (auto simp: migrations_def)
qed

section \<open>One step, one transaction\<close>

text \<open>What step \<open>v\<close> makes of a database when nothing fails, stamped with its version.\<close>

definition step_result :: "(string \<Rightarrow> file_state) \<Rightarrow> go_time \<Rightarrow> int \<Rightarrow> sql_db \<Rightarrow> sql_db option" where
  "step_result fs now v d =
     (case map_of (migrations fs now) v of
        None \<Rightarrow> None
      | Some step \<Rightarrow> (case run_state step (quiet d) of (Inl _, _) \<Rightarrow> None | (Inr _, s) \<Rightarrow> Some ((mg_db s)\<lparr>sq_version := v\<rparr>)))"

text \<open>A start that took a step, by the files and the time it had.\<close>

type_synonym taken_step = "((string \<Rightarrow> file_state) \<times> go_time) \<times> int"

fun ladder :: "taken_step list \<Rightarrow> sql_db \<Rightarrow> sql_db option" where
  "ladder [] d = Some d"
| "ladder (((fs, now), v) # es) d = Option.bind (step_result fs now v d) (ladder es)"

lemma ladder_append: "ladder (es @ fs) d = Option.bind (ladder es d) (ladder fs)"
  by (induction es d rule: ladder.induct) (auto simp: bind_eq_Some_conv split: bind_splits)

text \<open>The error of a step, and what a statement leaves alone.\<close>

definition fails_as :: "mig_error \<Rightarrow> 'a mig \<Rightarrow> bool" where
  "fails_as e m \<longleftrightarrow> (\<forall>s e' s'. run_state m s = (Inl e', s') \<longrightarrow> e' = e)"

lemma fails_sql: "fails_as e (sql e f)"
  by (auto simp: fails_as_def dest: run_sql_Inl)

lemma fails_return: "fails_as e (mig_return x)"
  by (simp add: fails_as_def mig_return_def)

lemma fails_bind: "fails_as e m \<Longrightarrow> (\<And>x. fails_as e (k x)) \<Longrightarrow> fails_as e (try_bind m k)"
  unfolding fails_as_def by (fastforce simp: run_try_bind split: prod.splits sum.splits)

lemma fails_each: "(\<And>x. fails_as e (f x)) \<Longrightarrow> fails_as e (mig_each f xs)"
  by (induction xs) (simp_all add: fails_return fails_bind)

lemma fails_steps: "(v, m) \<in> set (migrations fs now) \<Longrightarrow> fails_as (MigStep v) m"
proof -
  have e: "fails_as e (ensureColumnTx e t c v)" for e t c v
    unfolding ensureColumnTx_def sql_read_def sql_do_def by (intro fails_bind fails_sql) (auto intro: fails_return fails_sql)
  have i: "fails_as (MigStep 3) (import_document fs now im)" for im
  proof -
    obtain name key where im: "im = (name, key)" by (cases im)
    have tail: "fails_as (MigStep 3) (case r of None \<Rightarrow> mig_return () | Some path0 \<Rightarrow>
       let path = trim_space path0 in if path = [] \<or> hd path \<noteq> CHR ''/'' then mig_return ()
         else (case readLegacyDocFile fs path of None \<Rightarrow> mig_return () | Some c \<Rightarrow> sql_do (MigStep 3) (replace_document name c now)))" for r
      by (cases r) (auto simp: Let_def sql_do_def fails_return fails_sql split: option.split)
    show ?thesis unfolding import_document_def im prod.case by (rule fails_bind[OF fails_sql tail])
  qed
  have "fails_as (MigStep 1) migrateV1Baseline" "fails_as (MigStep 2) migrateV2AuditActor" "fails_as (MigStep 3) (migrateV3Documents fs now)"
    unfolding migrateV1Baseline_def migrateV2AuditActor_def migrateV3Documents_def sql_do_def split_def
    by (intro fails_bind fails_sql fails_each e i)+
  then show "(v, m) \<in> set (migrations fs now) \<Longrightarrow> fails_as (MigStep v) m" by (auto simp: migrations_def)
qed

lemma keeps_sql: "(\<And>s f d. P (s\<lparr>mg_faults := f\<rparr>) = P s \<and> P (s\<lparr>mg_faults := f, mg_db := d\<rparr>) = P s) \<Longrightarrow> keeps P (sql e g)"
  by (rule hoareI) (auto simp: sql_def Let_def split: if_splits option.splits)

definition elsewhere :: "(mig_state \<Rightarrow> bool) \<Rightarrow> bool" where \<comment> \<open>looks neither at the database nor at the faults\<close>
  "elsewhere P \<longleftrightarrow> (\<forall>s f d. P (s\<lparr>mg_faults := f\<rparr>) = P s \<and> P (s\<lparr>mg_db := d\<rparr>) = P s)"

lemma keeps_elsewhere:
  assumes "elsewhere P"
  shows "keeps P (sql e f)" "keeps P (sql_read e g)" "keeps P (sql_do e h)" "keeps P (mig_return x)" "keeps P (mig_fail e)"
proof -
  have s: "keeps P (sql e f)" for e and f :: "sql_db \<Rightarrow> (sql_db \<times> 'y) option"
    using assms by (intro keeps_sql) (simp add: elsewhere_def)
  show "keeps P (sql e f)" by (rule s)
  show "keeps P (sql_do e h)" unfolding sql_do_def using assms by (intro keeps_sql) (simp add: elsewhere_def)
  show "keeps P (sql_read e g)" unfolding sql_read_def using assms by (intro keeps_sql) (simp add: elsewhere_def)
  show "keeps P (mig_return x)" "keeps P (mig_fail e)" by (simp_all add: mig_return_def mig_fail_def keeps_return)
qed

lemma keeps_mig_each: "(\<And>x. x \<in> set xs \<Longrightarrow> keeps P (f x)) \<Longrightarrow> elsewhere P \<Longrightarrow> keeps P (mig_each f xs)"
  by (induction xs) (simp_all add: keeps_elsewhere keeps_try_bind)

lemma keeps_steps: "elsewhere P \<Longrightarrow> m \<in> snd ` set (migrations fs now) \<Longrightarrow> keeps P m"
proof -
  assume P: "elsewhere P"
  have e: "keeps P (ensureColumnTx e t c v)" for e t c v
    unfolding ensureColumnTx_def by (intro keeps_try_bind hoare_if keeps_elsewhere P)
  have i: "keeps P (import_document fs now im)" for im
    unfolding import_document_def Let_def
    by (intro hoare_prod keeps_try_bind hoare_option hoare_if keeps_elsewhere P)
  have "keeps P migrateV1Baseline" "keeps P migrateV2AuditActor" "keeps P (migrateV3Documents fs now)"
    unfolding migrateV1Baseline_def migrateV2AuditActor_def migrateV3Documents_def split_def
    by (intro keeps_try_bind keeps_mig_each keeps_elsewhere e i P)+
  then show "m \<in> snd ` set (migrations fs now) \<Longrightarrow> keeps P m" by (auto simp: migrations_def)
qed

lemma runOne_result:
  assumes "(v, step) \<in> set (migrations fs now)" "run_state (runOne (v, step)) s = (r, s')"
  shows "case r of Inr _ \<Rightarrow> step_result fs now v (mg_db s) = Some (mg_db s') | Inl e \<Rightarrow> mg_db s' = mg_db s \<and> e = MigStep v"
proof -
  let ?body = "try_bind (sql_read (MigStep v) (\<lambda>_. ())) (\<lambda>_. try_bind step (\<lambda>_.
     try_bind (sql_do (MigStep v) (\<lambda>e. Some (e\<lparr>sq_version := v\<rparr>))) (\<lambda>_. sql_read (MigStep v) (\<lambda>_. ()))))"
  obtain b s1 where body: "run_state ?body s = (b, s1)" by (cases "run_state ?body s")
  with assms(2) have run: "run_state (rolled_back (mg_db s) b) s1 = (r, s')" by (simp add: runOne_def)
  have map: "map_of (migrations fs now) v = Some step" using assms(1) by (auto simp: migrations_def)
  show ?thesis
  proof (cases b)
    case (Inl e)
    have "fails_as (MigStep v) ?body"
      unfolding sql_read_def sql_do_def by (intro fails_bind fails_sql fails_steps[OF assms(1)])
    then have "e = MigStep v" using body Inl by (auto simp: fails_as_def)
    then show ?thesis using run Inl by (auto simp: rolled_back_def mig_fail_def)
  next
    case (Inr u)
    obtain s2 x s3 where a: "run_state (sql_read (MigStep v) (\<lambda>_. ())) s = (Inr (), s2)" "run_state step s2 = (Inr x, s3)"
      "run_state (try_bind (sql_do (MigStep v) (\<lambda>e. Some (e\<lparr>sq_version := v\<rparr>))) (\<lambda>_. sql_read (MigStep v) (\<lambda>_. ()))) s3 = (Inr u, s1)"
      using body Inr by (auto simp: run_try_bind split: prod.splits sum.splits)
    have "mg_db s2 = mg_db s" using a(1) by (simp add: sql_read_def run_sql_Inr)
    moreover have "mg_db s1 = (mg_db s3)\<lparr>sq_version := v\<rparr>"
      using a(3) by (auto simp: run_try_bind sql_read_def sql_do_def run_sql_Inr split: prod.splits sum.splits)
    moreover have "run_state step (quiet (mg_db s2)) = (Inr x, quiet (mg_db s3))"
      using faithful_steps[of step fs now] assms(1) a(2) by (force simp: faithful_def)
    moreover have "r = Inr u" "s' = s1" using run Inr by (simp_all add: rolled_back_def mig_return_def)
    ultimately show ?thesis using map by (simp add: step_result_def quiet_def)
  qed
qed

lemma step_result_version: "step_result fs now v d = Some d' \<Longrightarrow> sq_version d' = v"
  by (auto simp: step_result_def split: option.splits prod.splits sum.splits)

section \<open>The pending steps of a start\<close>

definition pending :: "int \<Rightarrow> int list" where
  "pending v = filter (\<lambda>n. v < n) [1, 2, 3]"

lemma pending_migrations: "map fst (filter (\<lambda>m. v < fst m) (migrations fs now)) = pending v"
  by (simp add: migrations_def pending_def)

lemma pending_cases: "pending v = [1, 2, 3] \<and> v < 1 \<or> pending v = [2, 3] \<and> v = 1 \<or> pending v = [3] \<and> v = 2 \<or> pending v = [] \<and> 3 \<le> v"
  by (auto simp: pending_def)

lemma in_pending: "n \<in> set (pending v) \<Longrightarrow> v < n \<and> (n = 1 \<or> n = 2 \<or> n = 3)"
  unfolding pending_def set_filter by auto

lemma max_version: "maxKnownVersion = 3"
  by (simp add: maxKnownVersion_def migrations_def)

definition taken :: "(string \<Rightarrow> file_state) \<Rightarrow> go_time \<Rightarrow> int list \<Rightarrow> taken_step list" where
  "taken fs now vs = map (\<lambda>v. ((fs, now), v)) vs"

lemma taken_simps [simp]: "taken fs now [] = []" "taken fs now (v # vs) = ((fs, now), v) # taken fs now vs"
  by (simp_all add: taken_def)

lemma each_runOne:
  assumes "set ms \<subseteq> set (migrations fs now)" "run_state (mig_each runOne ms) s = (r, s')"
  shows "\<exists>k\<le>length ms. ladder (taken fs now (take k (map fst ms))) (mg_db s) = Some (mg_db s') \<and>
    (case r of Inr _ \<Rightarrow> k = length ms | Inl e \<Rightarrow> \<exists>v. e = MigStep v)"
  using assms
proof (induction ms arbitrary: s)
  case Nil
  then show ?case by (auto simp: mig_return_def)
next
  case (Cons m ms)
  obtain v step where m: "m = (v, step)" by (cases m)
  obtain r1 s1 where one: "run_state (runOne m) s = (r1, s1)" by (cases "run_state (runOne m) s")
  have res: "case r1 of Inr _ \<Rightarrow> step_result fs now v (mg_db s) = Some (mg_db s1) | Inl e \<Rightarrow> mg_db s1 = mg_db s \<and> e = MigStep v"
    using runOne_result[of v step fs now s r1 s1] Cons.prems(1) one m by auto
  show ?case
  proof (cases r1)
    case (Inl e)
    with Cons.prems(2) one res show ?thesis by (intro exI[of _ 0]) (auto simp: run_try_bind)
  next
    case (Inr u)
    with Cons.prems(2) one have "run_state (mig_each runOne ms) s1 = (r, s')" by (simp add: run_try_bind)
    from Cons.IH[OF _ this] Cons.prems(1) obtain k where k: "k \<le> length ms"
      "ladder (taken fs now (take k (map fst ms))) (mg_db s1) = Some (mg_db s')" "case r of Inr _ \<Rightarrow> k = length ms | Inl e \<Rightarrow> \<exists>v. e = MigStep v"
      by auto
    with Inr res show ?thesis by (intro exI[of _ "Suc k"]) (simp add: m split: sum.splits)
  qed
qed

lemma run_read: "run_state (sql_read e f) s = (r, s') \<Longrightarrow>
  mg_db s' = mg_db s \<and> mg_backups s' = mg_backups s \<and> mg_fk s' = mg_fk s \<and> (case r of Inl e' \<Rightarrow> e' = e | Inr x \<Rightarrow> x = f (mg_db s))"
  by (auto simp: sql_read_def sql_def Let_def split: if_splits)

text \<open>The part of a start after the backup.\<close>

lemma apply_pending_result:
  assumes "run_state (apply_pending fs now v) s = (r, s')"
  shows "\<exists>k\<le>length (pending v). ladder (taken fs now (take k (pending v))) (mg_db s) = Some (mg_db s') \<and>
    (case r of Inr _ \<Rightarrow> k = length (pending v) \<and> \<not> violates (mg_db s')
     | Inl e \<Rightarrow> (\<exists>n. e = MigStep n) \<or> k = length (pending v) \<and> (e = MigCheck \<or> e = MigViolations \<and> violates (mg_db s')))"
proof -
  let ?ms = "filter (\<lambda>m. v < fst m) (migrations fs now)"
  obtain r1 s1 where each: "run_state (mig_each runOne ?ms) s = (r1, s1)" by (cases "run_state (mig_each runOne ?ms) s")
  from each_runOne[OF _ each, of fs now] obtain k where k: "k \<le> length ?ms" "ladder (taken fs now (take k (map fst ?ms))) (mg_db s) = Some (mg_db s1)"
    "case r1 of Inr _ \<Rightarrow> k = length ?ms | Inl e \<Rightarrow> \<exists>v. e = MigStep v" by auto
  have len: "length ?ms = length (pending v)" using arg_cong[OF pending_migrations[of v fs now], of length] by simp
  show ?thesis
  proof (cases r1)
    case (Inl e)
    with assms each k len show ?thesis
      by (intro exI[of _ k]) (auto simp: apply_pending_def run_try_bind pending_migrations)
  next
    case (Inr u)
    obtain r2 s2 where read: "run_state (sql_read MigCheck violates) s1 = (r2, s2)" by (cases "run_state (sql_read MigCheck violates) s1")
    have "mg_db s' = mg_db s1 \<and> (case r of Inr _ \<Rightarrow> \<not> violates (mg_db s1) | Inl e \<Rightarrow> e = MigCheck \<or> e = MigViolations \<and> violates (mg_db s1))"
      using assms each Inr read run_read[OF read]
      by (cases r2) (auto simp: apply_pending_def run_try_bind foreignKeyCheck_def mig_fail_def mig_return_def split: if_splits)
    with k Inr len show ?thesis
      by (intro exI[of _ k]) (auto simp: pending_migrations split: sum.splits)
  qed
qed

lemma keeps_apply_pending:
  assumes "elsewhere P"
  shows "keeps P (apply_pending fs now v)"
proof -
  have one: "keeps P (runOne m)" if m: "m \<in> set (migrations fs now)" for m
  proof -
    obtain n step where eq: "m = (n, step)" by (cases m)
    have st: "keeps P step" using keeps_steps[OF assms, of step fs now] m eq by force
    have rb: "keeps P (rolled_back d r)" for d and r :: "mig_error + unit"
      unfolding rolled_back_def
      by (intro hoare_sum keeps_bind keeps_modify keeps_elsewhere assms) (use assms in \<open>simp add: elsewhere_def\<close>)
    show ?thesis unfolding runOne_def eq prod.case
      by (intro keeps_bind keeps_gets keeps_try_bind keeps_elsewhere assms st rb)
  qed
  show ?thesis
    unfolding apply_pending_def foreignKeyCheck_def
    by (intro keeps_try_bind keeps_mig_each hoare_if keeps_elsewhere assms one) auto
qed

definition backed_up :: "string \<Rightarrow> go_time \<Rightarrow> mig_state \<Rightarrow> mig_state \<Rightarrow> bool" where
  "backed_up path now s s' \<longleftrightarrow>
     (let dest = backup_path path (sq_version (mg_db s)) now
      in mg_backups s dest = None \<and> mg_backups s' = (mg_backups s)(dest \<mapsto> mg_db s))"

lemma runMigrations_result:
  assumes "run_state (runMigrations fs now path) s = (r, s')"
  defines "v \<equiv> sq_version (mg_db s)"
  shows "\<exists>k\<le>length (pending v). ladder (taken fs now (take k (pending v))) (mg_db s) = Some (mg_db s') \<and>
    (mg_backups s' = mg_backups s \<and> (k = 0 \<or> isFresh (mg_db s)) \<or> backed_up path now s s') \<and>
    (case r of Inr _ \<Rightarrow> v \<le> 3 \<and> k = length (pending v) \<and> (v = 3 \<or> \<not> violates (mg_db s'))
     | Inl e \<Rightarrow> (3 < v \<longrightarrow> mg_backups s' = mg_backups s \<and> (e = MigNewer v \<or> e = MigRead)) \<and>
         (e = MigViolations \<longrightarrow> v < 3 \<and> k = length (pending v) \<and> violates (mg_db s')))" (is "\<exists>k\<le>_. ?Q k")
proof -
  obtain r0 s0 where read: "run_state (sql_read MigRead sq_version) s = (r0, s0)" by (cases "run_state (sql_read MigRead sq_version) s")
  note rd0 = run_read[OF read]
  show ?thesis
  proof (cases r0)
    case (Inl e)
    with assms(1) read rd0 show ?thesis by (intro exI[of _ 0]) (auto simp: runMigrations_def run_try_bind)
  next
    case (Inr cur)
    with rd0 have cur: "cur = v" by (simp add: v_def)
    consider (newer) "3 < v" | (same) "v = 3" | (older) "v < 3" by linarith
    then show ?thesis
    proof cases
      case newer
      with assms(1) read Inr rd0 cur show ?thesis
        by (intro exI[of _ 0]) (auto simp: runMigrations_def run_try_bind max_version mig_fail_def)
    next
      case same
      with assms(1) read Inr rd0 cur show ?thesis
        by (intro exI[of _ 0]) (auto simp: runMigrations_def run_try_bind max_version mig_return_def pending_def)
    next
      case older
      obtain r1 s1 where fr: "run_state (sql_read MigRead isFresh) s0 = (r1, s1)" by (cases "run_state (sql_read MigRead isFresh) s0")
      note rd1 = run_read[OF fr]
      show ?thesis
      proof (cases r1)
        case (Inl e)
        with assms(1) read \<open>r0 = Inr cur\<close> fr rd0 rd1 cur older show ?thesis
          by (intro exI[of _ 0]) (auto simp: runMigrations_def run_try_bind max_version)
      next
        case (Inr fresh)
        then have fresh: "fresh = isFresh (mg_db s)" "mg_db s1 = mg_db s" "mg_backups s1 = mg_backups s" using rd0 rd1 by auto
        let ?bak = "if fresh then mig_return () else vacuumInto (backup_path path cur now)"
        obtain r2 s2 where bak: "run_state ?bak s1 = (r2, s2)" by (cases "run_state ?bak s1")
        have b: "mg_db s2 = mg_db s" "case r2 of Inl e \<Rightarrow> e = MigBackup \<and> mg_backups s2 = mg_backups s
            | Inr _ \<Rightarrow> mg_backups s2 = mg_backups s \<and> isFresh (mg_db s) \<or> backed_up path now s s2"
        proof -
          have "mg_db s2 = mg_db s \<and> (case r2 of Inl e \<Rightarrow> e = MigBackup \<and> mg_backups s2 = mg_backups s
            | Inr _ \<Rightarrow> mg_backups s2 = mg_backups s \<and> isFresh (mg_db s) \<or> backed_up path now s s2)"
            using bak fresh cur
            by (auto simp: vacuumInto_def mig_return_def mig_fail_def run_try_bind backed_up_def Let_def v_def
                split: if_splits prod.splits sum.splits dest!: run_read)
          then show "mg_db s2 = mg_db s" "case r2 of Inl e \<Rightarrow> e = MigBackup \<and> mg_backups s2 = mg_backups s
            | Inr _ \<Rightarrow> mg_backups s2 = mg_backups s \<and> isFresh (mg_db s) \<or> backed_up path now s s2" by simp_all
        qed
        show ?thesis
        proof (cases r2)
          case (Inl e)
          with assms(1) read \<open>r0 = Inr cur\<close> fr \<open>r1 = Inr fresh\<close> bak b cur older show ?thesis
            by (intro exI[of _ 0]) (auto simp: runMigrations_def run_try_bind max_version)
        next
          case (Inr u2)
          obtain r3 s3 where con: "run_state (sql_read MigConn (\<lambda>_. ())) s2 = (r3, s3)" by (cases "run_state (sql_read MigConn (\<lambda>_. ())) s2")
          note rd3 = run_read[OF con]
          have b3: "mg_backups s3 = mg_backups s \<and> isFresh (mg_db s) \<or> backed_up path now s s3"
            using b(2) Inr rd3 by (auto simp: backed_up_def Let_def)
          show ?thesis
          proof (cases r3)
            case (Inl e)
            with assms(1) read \<open>r0 = Inr cur\<close> fr \<open>r1 = Inr fresh\<close> bak Inr con b(1) b3 rd3 cur older show ?thesis
              by (intro exI[of _ 0]) (auto simp: runMigrations_def run_try_bind max_version)
          next
            case (Inr u3)
            let ?s4 = "s3\<lparr>mg_fk := False\<rparr>"
            obtain r5 s5 where ap: "run_state (apply_pending fs now cur) ?s4 = (r5, s5)" by (cases "run_state (apply_pending fs now cur) ?s4")
            have run: "run_state (restore_foreign_keys r5) s5 = (r, s')"
              using assms(1) read \<open>r0 = Inr cur\<close> fr \<open>r1 = Inr fresh\<close> bak[unfolded cur] \<open>r2 = Inr u2\<close> con Inr ap[unfolded cur] cur older
              by (simp add: runMigrations_def run_try_bind max_version)
            have fin: "r = r5" "mg_db s' = mg_db s5" "mg_backups s' = mg_backups s5"
              using run by (auto simp: restore_foreign_keys_def split: prod.splits sum.splits dest!: run_read)
            have "keeps (\<lambda>s. mg_backups s = mg_backups s3) (apply_pending fs now cur)"
              by (rule keeps_apply_pending) (simp add: elsewhere_def)
            from hoareD[OF this _ ap] have "mg_backups s5 = mg_backups s3" by simp
            then have b5: "mg_backups s' = mg_backups s \<and> isFresh (mg_db s) \<or> backed_up path now s s'"
              using b3 fin(3) by (auto simp: backed_up_def Let_def)
            have "mg_db ?s4 = mg_db s" using rd3 b(1) by simp
            then have "\<exists>k\<le>length (pending v). ladder (taken fs now (take k (pending v))) (mg_db s) = Some (mg_db s') \<and>
               (case r of Inr _ \<Rightarrow> k = length (pending v) \<and> \<not> violates (mg_db s')
                | Inl e \<Rightarrow> (\<exists>n. e = MigStep n) \<or> k = length (pending v) \<and> (e = MigCheck \<or> e = MigViolations \<and> violates (mg_db s')))"
              using apply_pending_result[OF ap] by (simp only: cur fin)
            then obtain k where "k \<le> length (pending v)"
              "ladder (taken fs now (take k (pending v))) (mg_db s) = Some (mg_db s')"
              "case r of Inr _ \<Rightarrow> k = length (pending v) \<and> \<not> violates (mg_db s')
               | Inl e \<Rightarrow> (\<exists>n. e = MigStep n) \<or> k = length (pending v) \<and> (e = MigCheck \<or> e = MigViolations \<and> violates (mg_db s'))"
              by blast
            with b5 older show ?thesis by (intro exI[of _ k]) (auto split: sum.splits)
          qed
        qed
      qed
    qed
  qed
qed

section \<open>Any number of starts\<close>

text \<open>One start after the other, each with its own files, time and failures; \<open>mg_backups\<close> stays.\<close>

record start =
  st_files :: "string \<Rightarrow> file_state"
  st_now :: go_time
  st_faults :: "bool list"

fun starts :: "string \<Rightarrow> start list \<Rightarrow> mig_state \<Rightarrow> mig_state" where
  "starts path [] s = s"
| "starts path (a # as) s =
     starts path as (snd (run_state (runMigrations (st_files a) (st_now a) path) (s\<lparr>mg_faults := st_faults a\<rparr>)))"

lemma taken_envs: "set (map fst (taken fs now vs)) \<subseteq> {(fs, now)}" "map snd (taken fs now vs) = vs"
  by (induction vs) auto

lemma ladder_version:
  "ladder es d = Some d' \<Longrightarrow> sq_version d' = (if es = [] then sq_version d else snd (last es))"
  by (induction es d rule: ladder.induct) (auto simp: bind_eq_Some_conv dest: step_result_version split: if_splits)

lemma pending_after: "k \<le> length (pending v) \<Longrightarrow> v' = (if k = 0 then v else last (take k (pending v))) \<Longrightarrow> pending v' = drop k (pending v)"
  using pending_cases[of v]
  by (elim disjE conjE) (auto simp: pending_def le_Suc_eq numeral_3_eq_3)

text \<open>
  However often the gateway is started and whatever fails on the way, every schema step is
  applied completely, in order, and at most once: after any sequence of starts the database file
  is what a prefix of the steps its version had not seen makes of it, each taken at one of the
  starts with the files and the time of that start, with nothing failing; and its version is the
  number of the last step taken.
\<close>

theorem migration_steps_once:
  "\<exists>es. map snd es = take (length es) (filter (\<lambda>n. sq_version (mg_db s) < n) [1, 2, 3]) \<and>
     set (map fst es) \<subseteq> set (map (\<lambda>a. (st_files a, st_now a)) as) \<and>
     ladder es (mg_db s) = Some (mg_db (starts path as s)) \<and>
     sq_version (mg_db (starts path as s)) = (if es = [] then sq_version (mg_db s) else snd (last es))"
proof -
  have "\<exists>es. map snd es = take (length es) (pending (sq_version (mg_db s))) \<and>
     set (map fst es) \<subseteq> set (map (\<lambda>a. (st_files a, st_now a)) as) \<and> ladder es (mg_db s) = Some (mg_db (starts path as s))"
  proof (induction as arbitrary: s)
    case Nil
    show ?case by (intro exI[of _ "[]"]) simp
  next
    case (Cons a as)
    let ?s = "s\<lparr>mg_faults := st_faults a\<rparr>" and ?v = "sq_version (mg_db s)"
    obtain r s1 where run: "run_state (runMigrations (st_files a) (st_now a) path) ?s = (r, s1)"
      by (cases "run_state (runMigrations (st_files a) (st_now a) path) ?s")
    from runMigrations_result[OF run] obtain k where k: "k \<le> length (pending ?v)"
      "ladder (taken (st_files a) (st_now a) (take k (pending ?v))) (mg_db s) = Some (mg_db s1)" by auto
    let ?e = "taken (st_files a) (st_now a) (take k (pending ?v))"
    have len: "length ?e = k" using k(1) by (simp add: taken_def)
    have "sq_version (mg_db s1) = (if k = 0 then ?v else last (take k (pending ?v)))"
      using ladder_version[OF k(2)] len k(1) by (auto simp: taken_def last_map)
    from pending_after[OF k(1) this] have pend: "pending (sq_version (mg_db s1)) = drop k (pending ?v)" .
    obtain es where es: "map snd es = take (length es) (pending (sq_version (mg_db s1)))"
      "set (map fst es) \<subseteq> set (map (\<lambda>a. (st_files a, st_now a)) as)" "ladder es (mg_db s1) = Some (mg_db (starts path as s1))"
      using Cons.IH[of s1] by blast
    show ?case
    proof (intro exI[of _ "?e @ es"] conjI)
      show "map snd (?e @ es) = take (length (?e @ es)) (pending ?v)"
        using es(1) len k(1) by (simp add: taken_envs(2) pend take_add)
      show "set (map fst (?e @ es)) \<subseteq> set (map (\<lambda>a. (st_files a, st_now a)) (a # as))"
        using es(2) taken_envs(1)[of "st_files a" "st_now a" "take k (pending ?v)"] by (auto simp: subset_iff)
      show "ladder (?e @ es) (mg_db s) = Some (mg_db (starts path (a # as) s))"
        using k(2) es(3) by (simp add: ladder_append run)
    qed
  qed
  then obtain es where "map snd es = take (length es) (pending (sq_version (mg_db s)))"
     "set (map fst es) \<subseteq> set (map (\<lambda>a. (st_files a, st_now a)) as)" "ladder es (mg_db s) = Some (mg_db (starts path as s))" by blast
  then show ?thesis
    using ladder_version[of es "mg_db s"] unfolding pending_def by (intro exI[of _ es]) simp
qed

text \<open>
  C13. What a start makes of the schema version. A database newer than the build is refused and
  neither it nor a backup file is written. A start that succeeds leaves the version of this
  build and, when a step was due, no broken reference. And no step runs on data without a net: unless
  the file had no tables, a start that changed it has first copied it, as it was, to a backup
  file that did not exist.
\<close>

theorem migration_outcome:
  assumes "run_state (runMigrations fs now path) s = (r, s')"
  shows "(sq_version (mg_db s) \<le> 3 \<or> mg_db s' = mg_db s \<and> mg_backups s' = mg_backups s \<and> (r = Inl (MigNewer (sq_version (mg_db s))) \<or> r = Inl MigRead)) \<and>
    (r = Inr () \<longrightarrow> sq_version (mg_db s') = 3 \<and> (sq_version (mg_db s) = 3 \<or> \<not> violates (mg_db s'))) \<and>
    (mg_db s' = mg_db s \<or> isFresh (mg_db s) \<or>
       (let dest = backup_path path (sq_version (mg_db s)) now
        in mg_backups s dest = None \<and> mg_backups s' = (mg_backups s)(dest \<mapsto> mg_db s)))"
proof -
  let ?v = "sq_version (mg_db s)"
  obtain k where k: "k \<le> length (pending ?v)"
    "ladder (taken fs now (take k (pending ?v))) (mg_db s) = Some (mg_db s')"
    "mg_backups s' = mg_backups s \<and> (k = 0 \<or> isFresh (mg_db s)) \<or> backed_up path now s s'"
    "case r of Inr _ \<Rightarrow> ?v \<le> 3 \<and> k = length (pending ?v) \<and> (?v = 3 \<or> \<not> violates (mg_db s'))
     | Inl e \<Rightarrow> (3 < ?v \<longrightarrow> mg_backups s' = mg_backups s \<and> (e = MigNewer ?v \<or> e = MigRead)) \<and>
         (e = MigViolations \<longrightarrow> ?v < 3 \<and> k = length (pending ?v) \<and> violates (mg_db s'))"
    using runMigrations_result[OF assms] by blast
  have none: "mg_db s' = mg_db s" if "k = 0 \<or> pending ?v = []" using that k(2) by auto
  have newer: "mg_db s' = mg_db s \<and> mg_backups s' = mg_backups s \<and> (r = Inl (MigNewer ?v) \<or> r = Inl MigRead)" if "3 < ?v"
  proof -
    have "pending ?v = []" using that by (simp add: pending_def)
    with none k(4) that show ?thesis by (cases r) auto
  qed
  have ok: "sq_version (mg_db s') = 3 \<and> (?v = 3 \<or> \<not> violates (mg_db s'))" if r: "r = Inr ()"
  proof -
    have "?v \<le> 3" "k = length (pending ?v)" "?v = 3 \<or> \<not> violates (mg_db s')" using k(4) r by simp_all
    then show ?thesis using ladder_version[OF k(2)] pending_cases[of ?v] by (auto simp: taken_def)
  qed
  have bak: "mg_db s' = mg_db s \<or> isFresh (mg_db s) \<or> backed_up path now s s'" using none k(3) by blast
  show ?thesis using newer ok bak by (fastforce simp: backed_up_def)
qed

text \<open>
  A broken reference that the migrations leave is reported at one start only: that start
  fails, but the steps and the version are committed by then, so the next start, with no failing
  statement, finds the version of this build, checks nothing and succeeds on the same data, the
  broken reference included.
\<close>

theorem fk_violation_reported_once:
  assumes "run_state (runMigrations fs now path) s = (Inl MigViolations, s')"
  shows "violates (mg_db s') \<and> sq_version (mg_db s') = 3 \<and>
    run_state (runMigrations fs' now' path') (s'\<lparr>mg_faults := []\<rparr>) = (Inr (), s'\<lparr>mg_faults := []\<rparr>)"
proof -
  let ?v = "sq_version (mg_db s)"
  obtain k where k: "k \<le> length (pending ?v)" "ladder (taken fs now (take k (pending ?v))) (mg_db s) = Some (mg_db s')"
    "?v < 3" "k = length (pending ?v)" "violates (mg_db s')"
    using runMigrations_result[OF assms] by auto
  have v3: "sq_version (mg_db s') = 3"
    using ladder_version[OF k(2)] k(3,4) pending_cases[of ?v] by (auto simp: taken_def)
  then have "run_state (runMigrations fs' now' path') (s'\<lparr>mg_faults := []\<rparr>) = (Inr (), s'\<lparr>mg_faults := []\<rparr>)"
    by (simp add: runMigrations_def run_try_bind sql_read_def sql_def max_version mig_return_def)
  with k(5) v3 show ?thesis by simp
qed

section \<open>No row is lost\<close>

lemma find_map_table: "map_of (map (\<lambda>(n, x). (n, if n = t then f x else x)) xs) u = (if u = t then map_option f (map_of xs u) else map_of xs u)"
  by (induction xs) auto

lemma sql_find_update: "sql_find u (sql_update t f d) = (if u = t then map_option f (sql_find u d) else sql_find u d)"
  by (simp add: sql_find_def sql_update_def find_map_table)

lemma sql_find_create: "sql_find u (create_table t cols fks d) =
    (if sql_find u d = None \<and> u = t then Some \<lparr>tb_cols = cols, tb_fks = fks, tb_rows = []\<rparr> else sql_find u d)"
  by (auto simp: sql_find_def create_table_def map_add_def split: option.splits)

lemma sql_find_index: "create_index n t c d = Some d' \<Longrightarrow> sql_find u d' = sql_find u d"
  by (auto simp: create_index_def sql_find_def split: if_splits)

lemma sql_find_version [simp]: "sql_find u (d\<lparr>sq_version := v\<rparr>) = sql_find u d"
  by (simp add: sql_find_def)

text \<open>A relation the steps keep: what each change to the tables has to respect.\<close>

definition row_kept :: "string set \<Rightarrow> sql_row \<Rightarrow> sql_row \<Rightarrow> bool" where
  "row_kept cs r r' \<longleftrightarrow> (\<forall>c. c \<notin> cs \<and> map_of r c \<noteq> None \<longrightarrow> map_of r' c = map_of r c)"

text \<open>Every row is still there, in order, with what it held, the columns \<open>cs\<close> apart.\<close>

definition rows_kept :: "string \<Rightarrow> string set \<Rightarrow> sql_db \<Rightarrow> sql_db \<Rightarrow> bool" where
  "rows_kept t cs d d' \<longleftrightarrow>
     (case sql_find t d of
        None \<Rightarrow> True
      | Some tb \<Rightarrow> (case sql_find t d' of None \<Rightarrow> False | Some tb' \<Rightarrow> list_all2 (row_kept cs) (tb_rows tb) (tb_rows tb')))"

lemma row_kept_refl: "row_kept cs r r"
  by (simp add: row_kept_def)

lemma row_kept_trans: "row_kept cs a b \<Longrightarrow> row_kept cs b c \<Longrightarrow> row_kept cs a c"
  by (auto simp: row_kept_def)

lemma order_rows: "order (rows_kept t cs)"
  unfolding order_def rows_kept_def
  by (auto intro: list_all2_refl row_kept_refl list_all2_trans[OF row_kept_trans] split: option.splits)

lemma rows_same: "sql_find t d' = sql_find t d \<Longrightarrow> rows_kept t cs d d'"
  by (auto simp: rows_kept_def intro: list_all2_refl row_kept_refl split: option.splits)

lemma rows_updated:
  "(\<And>tb. list_all2 (row_kept cs) (tb_rows tb) (tb_rows (f tb))) \<Longrightarrow> rows_kept t cs d (sql_update u f d)"
  by (auto simp: rows_kept_def sql_find_update intro: list_all2_refl row_kept_refl split: option.splits)

lemma rows_create: "rows_kept t cs d (create_table u cols fks d)"
  by (cases "sql_find t d") (simp_all add: rows_kept_def sql_find_create list_all2_refl row_kept_refl)

lemma rows_schema: "apply_schema d = Some d' \<Longrightarrow> rows_kept t cs d d'"
proof -
  assume a: "apply_schema d = Some d'"
  have f: "rows_kept t cs d (fold (\<lambda>(t, cols, fks). create_table t cols fks) ts d)" for ts d
  proof (induction ts arbitrary: d)
    case Nil
    show ?case by (simp add: rows_same)
  next
    case (Cons x ts)
    obtain u cols fks where x: "x = (u, cols, fks)" by (cases x)
    show ?case using rows_create[of t cs d u cols fks] Cons[of "create_table u cols fks d"] order_rows[of t cs]
      unfolding order_def by (simp add: x)
  qed
  let ?d1 = "fold (\<lambda>(t, cols, fks). create_table t cols fks) schema_tables d"
  obtain d2 where "create_index ''audit_at'' ''audit'' ''at'' ?d1 = Some d2" "create_index ''audit_username'' ''audit'' ''username'' d2 = Some d'"
    using a unfolding apply_schema_def Let_def by (auto simp: bind_eq_Some_conv)
  then have same: "sql_find t d' = sql_find t ?d1" by (simp add: sql_find_index)
  show ?thesis using f[of d schema_tables] unfolding rows_kept_def same .
qed

lemma rows_add_column: "add_column u c v d = Some d' \<Longrightarrow> rows_kept t cs d d'"
  by (auto simp: add_column_def list_all2_map2 row_kept_def list_all2_same map_add_def intro!: rows_updated split: if_splits option.splits)

lemma map_of_set_cell: "map_of (set_cell c v r) k = (if k = c then map_option (\<lambda>_. v) (map_of r k) else map_of r k)"
  by (induction r) (auto simp: set_cell_def)

lemma rows_backfill: "backfill_actor d = Some d' \<Longrightarrow> t \<noteq> ''audit'' \<or> ''actor'' \<in> cs \<Longrightarrow> rows_kept t cs d d'"
proof (cases "t = ''audit''")
  case True
  assume "backfill_actor d = Some d'" "t \<noteq> ''audit'' \<or> ''actor'' \<in> cs"
  with True show ?thesis
    by (auto simp: backfill_actor_def list_all2_map2 list_all2_same row_kept_def map_of_set_cell intro!: rows_updated split: if_splits)
next
  case False
  assume "backfill_actor d = Some d'"
  with False show ?thesis by (auto simp: backfill_actor_def sql_find_update intro!: rows_same split: if_splits)
qed

lemma rows_replace: "replace_document n c now d = Some d' \<Longrightarrow> t \<noteq> ''documents'' \<Longrightarrow> rows_kept t cs d d'"
  by (auto simp: replace_document_def sql_find_update intro!: rows_same split: if_splits)

lemma step_relates:
  assumes "order R" "\<And>d v. R d (d\<lparr>sq_version := v\<rparr>)" "\<And>m. (v, m) \<in> set (migrations fs now) \<Longrightarrow> relates R m"
    "step_result fs now v d = Some d'"
  shows "R d d'"
proof -
  obtain m x s where m: "map_of (migrations fs now) v = Some m" "run_state m (quiet d) = (Inr x, s)" "d' = (mg_db s)\<lparr>sq_version := v\<rparr>"
    using assms(4) by (auto simp: step_result_def split: option.splits prod.splits sum.splits)
  have "relates R m" using assms(3) m(1) by (blast dest: map_of_SomeD)
  then have "R d (mg_db s)" using m(2) by (fastforce simp: relates_def quiet_def)
  with assms(1,2) m(3) show ?thesis unfolding order_def by blast
qed

lemma ladder_relates:
  assumes "order R" "\<And>d d' fs now v. v \<in> set (map snd es) \<Longrightarrow> step_result fs now v d = Some d' \<Longrightarrow> R d d'" "ladder es d = Some d'"
  shows "R d d'"
  using assms(2,3)
proof (induction es arbitrary: d)
  case Nil
  then show ?case using assms(1) by (simp add: order_def)
next
  case (Cons e es)
  obtain fs now v where e: "e = ((fs, now), v)" by (metis prod.collapse)
  with Cons.prems(2) obtain d1 where d1: "step_result fs now v d = Some d1" "ladder es d1 = Some d'" by (auto simp: bind_eq_Some_conv)
  have "R d d1" using Cons.prems(1)[OF _ d1(1)] e by simp
  moreover have "R d1 d'" by (rule Cons.IH[OF _ d1(2)]) (rule Cons.prems(1), simp_all)
  ultimately show ?case using assms(1) unfolding order_def by blast
qed

lemma step_keeps_rows:
  assumes "step_result fs now v d = Some d'" "t \<noteq> ''documents''" "t \<noteq> ''audit'' \<or> v = 3 \<or> ''actor'' \<in> cs"
  shows "rows_kept t cs d d'"
proof (rule step_relates[OF order_rows _ _ assms(1)])
  fix m assume m: "(v, m) \<in> set (migrations fs now)"
  show "relates (rows_kept t cs) m"
  proof (cases "v = 3")
    case True
    then have "m = migrateV3Documents fs now" using m by (simp add: migrations_def)
    then show ?thesis unfolding migrateV3Documents_def
      by (auto intro!: relates_bind relates_do relates_each relates_import order_rows intro: rows_replace[OF _ assms(2)] simp: documents_table_def rows_create)
  next
    case False
    then have "t \<noteq> ''audit'' \<or> ''actor'' \<in> cs" using assms(3) by simp
    then show ?thesis
      by (intro relates_steps[OF order_rows, where fs = fs and now = now])
        (use m in \<open>auto intro: rev_image_eqI rows_schema rows_add_column rows_backfill rows_replace[OF _ assms(2)] rows_same sql_find_index
          simp: documents_table_def rows_create\<close>)
  qed
qed (simp add: rows_same)

subsection \<open>The actor of the audit trail\<close>

text \<open>Every row has a value for each column of its table.\<close>

definition rows_full :: "sql_db \<Rightarrow> bool" where
  "rows_full d \<longleftrightarrow> list_all (\<lambda>(_, tb). list_all (\<lambda>r. list_all (\<lambda>c. map_of r c \<noteq> None) (map fst (tb_cols tb))) (tb_rows tb)) (sq_tables d)"

lemma rows_fullD:
  assumes "rows_full d" "sql_find t d = Some tb" "r \<in> set (tb_rows tb)" "c \<in> fst ` set (tb_cols tb)"
  shows "map_of r c \<noteq> None"
proof -
  have "(t, tb) \<in> set (sq_tables d)" using assms(2) by (simp add: sql_find_def map_of_SomeD)
  with assms(1) have "list_all (\<lambda>r. list_all (\<lambda>c. map_of r c \<noteq> None) (map fst (tb_cols tb))) (tb_rows tb)"
    unfolding rows_full_def list_all_iff[of "\<lambda>(_, tb). _ tb"] by blast
  with assms(3,4) show ?thesis by (force simp: list_all_iff)
qed

definition full_kept :: "sql_db \<Rightarrow> sql_db \<Rightarrow> bool" where
  "full_kept d d' \<longleftrightarrow> (rows_full d \<longrightarrow> rows_full d')"

lemma order_full: "order full_kept"
  by (simp add: order_def full_kept_def)

lemma full_create: "full_kept d (create_table t cols fks d)"
  by (simp add: full_kept_def rows_full_def create_table_def)

lemma full_index: "create_index n t c d = Some d' \<Longrightarrow> full_kept d d'"
  by (auto simp: full_kept_def rows_full_def create_index_def split: if_splits)

lemma full_add_column: "add_column t c v d = Some d' \<Longrightarrow> full_kept d d'"
proof -
  assume a: "add_column t c v d = Some d'"
  define full where "full = (\<lambda>tb :: sql_table. \<forall>r\<in>set (tb_rows tb). \<forall>c\<in>fst ` set (tb_cols tb). map_of r c \<noteq> None)"
  have rows: "rows_full e \<longleftrightarrow> (\<forall>(n, tb)\<in>set (sq_tables e). full tb)" for e
    by (auto simp: rows_full_def full_def list_all_iff split: prod.splits)
  have upd: "full (tb\<lparr>tb_cols := tb_cols tb @ [(c, Some v)], tb_rows := map (\<lambda>r. r @ [(c, v)]) (tb_rows tb)\<rparr>)" if "full tb" for tb
    using that by (fastforce simp: full_def map_add_def split: option.splits)
  show ?thesis
    using a upd by (fastforce simp: full_kept_def rows add_column_def sql_update_def split: if_splits)
qed

lemma full_schema: "apply_schema d = Some d' \<Longrightarrow> full_kept d d'"
proof -
  assume a: "apply_schema d = Some d'"
  have f: "full_kept d (fold (\<lambda>(t, cols, fks). create_table t cols fks) ts d)" for ts d
  proof (induction ts arbitrary: d)
    case (Cons x ts)
    obtain u cols fks where x: "x = (u, cols, fks)" by (cases x)
    show ?case using full_create[of d u cols fks] Cons[of "create_table u cols fks d"] by (simp add: x full_kept_def)
  qed (simp add: full_kept_def)
  let ?d1 = "fold (\<lambda>(t, cols, fks). create_table t cols fks) schema_tables d"
  obtain d2 where "create_index ''audit_at'' ''audit'' ''at'' ?d1 = Some d2" "create_index ''audit_username'' ''audit'' ''username'' d2 = Some d'"
    using a unfolding apply_schema_def Let_def by (auto simp: bind_eq_Some_conv)
  then have "full_kept ?d1 d2" "full_kept d2 d'" using full_index by blast+
  with f[of d schema_tables] show ?thesis by (simp add: full_kept_def)
qed

lemma step_full: "step_result fs now 1 d = Some d' \<Longrightarrow> rows_full d \<Longrightarrow> rows_full d'"
proof -
  assume a: "step_result fs now 1 d = Some d'" "rows_full d"
  have "relates full_kept migrateV1Baseline"
    unfolding migrateV1Baseline_def split_def
    by (intro relates_bind relates_do relates_each relates_ensure order_full full_schema full_add_column)
  then have "full_kept d d'"
    by (intro step_relates[OF order_full _ _ a(1)]) (auto simp: migrations_def full_kept_def rows_full_def)
  with a(2) show ?thesis by (simp add: full_kept_def)
qed

definition actors_filled :: "sql_db \<Rightarrow> bool" where
  "actors_filled d \<longleftrightarrow> (case sql_find ''audit'' d of None \<Rightarrow> False | Some tb \<Rightarrow> list_all (\<lambda>r. cell r ''actor'' = cell r ''username'') (tb_rows tb))"

lemma step_fills_actors:
  assumes "step_result fs now 2 d = Some d'" "rows_full d"
  shows "actors_filled d'"
proof -
  obtain s where "run_state migrateV2AuditActor (quiet d) = (Inr (), s)" "d' = (mg_db s)\<lparr>sq_version := 2\<rparr>"
    using assms(1) by (auto simp: step_result_def migrations_def split: prod.splits sum.splits)
  then obtain s1 d2 where st: "run_state (ensureColumnTx (MigStep 2) ''audit'' ''actor'' (STxt [])) (quiet d) = (Inr (), s1)"
    "backfill_actor (mg_db s1) = Some d2" "create_index ''audit_actor'' ''audit'' ''actor'' d2 = Some (mg_db s)"
    by (auto simp: migrateV2AuditActor_def run_try_bind sql_do_def run_sql_Inr split: prod.splits sum.splits)
  have "relates full_kept (ensureColumnTx (MigStep 2) ''audit'' ''actor'' (STxt []))"
    by (intro relates_ensure order_full full_add_column)
  with st(1) assms(2) have full: "rows_full (mg_db s1)" by (fastforce simp: relates_def full_kept_def quiet_def)
  from st(2) obtain tb where tb: "sql_find ''audit'' (mg_db s1) = Some tb" "''actor'' \<in> fst ` set (tb_cols tb)"
    "d2 = sql_update ''audit'' (\<lambda>tb. tb\<lparr>tb_rows := map (\<lambda>r. set_cell ''actor'' (cell r ''username'') r) (tb_rows tb)\<rparr>) (mg_db s1)"
    by (cases "sql_find ''audit'' (mg_db s1)") (auto simp: backfill_actor_def columns_def split: if_splits)
  have "map_of r ''actor'' \<noteq> None" if "r \<in> set (tb_rows tb)" for r
    by (rule rows_fullD[OF full tb(1) that tb(2)])
  then have "actors_filled d2"
    using tb by (fastforce simp: actors_filled_def sql_find_update list_all_iff cell_def map_of_set_cell)
  then show ?thesis
    using sql_find_index[OF st(3)] \<open>d' = (mg_db s)\<lparr>sq_version := 2\<rparr>\<close> by (simp add: actors_filled_def)
qed

lemma replace_find: "replace_document n c now d = Some d' \<Longrightarrow> t \<noteq> ''documents'' \<Longrightarrow> sql_find t d' = sql_find t d"
  by (auto simp: replace_document_def sql_find_update split: if_splits)

lemma step3_other_tables:
  assumes "step_result fs now 3 d = Some d'" "t \<noteq> ''documents''" "sql_find t d \<noteq> None"
  shows "sql_find t d' = sql_find t d"
proof -
  let ?R = "\<lambda>d d'. sql_find t d \<noteq> None \<longrightarrow> sql_find t d' = sql_find t d"
  have o: "order ?R" by (auto simp: order_def)
  have "relates ?R (migrateV3Documents fs now)"
    unfolding migrateV3Documents_def
    by (intro relates_bind relates_do relates_each relates_import o)
      (use assms(2) in \<open>auto simp: documents_table_def sql_find_create dest!: replace_find\<close>)
  then have "?R d d'" by (intro step_relates[OF o _ _ assms(1)]) (auto simp: migrations_def)
  with assms(3) show ?thesis by simp
qed

lemma ladder_fills_actors:
  assumes "ladder (taken fs now (pending v)) d = Some d'" "v < 2" "rows_full d"
  shows "actors_filled d'"
proof -
  obtain d1 d2 where d: "rows_full d1" "step_result fs now 2 d1 = Some d2" "step_result fs now 3 d2 = Some d'"
  proof (cases "v < 1")
    case True
    then have "pending v = [1, 2, 3]" by (simp add: pending_def)
    then show ?thesis using that assms(1,3) by (auto simp: bind_eq_Some_conv dest: step_full)
  next
    case False
    with assms(2) have "pending v = [2, 3]" by (simp add: pending_def)
    then show ?thesis using that assms(1,3) by (auto simp: bind_eq_Some_conv)
  qed
  have a: "actors_filled d2" by (rule step_fills_actors[OF d(2,1)])
  then have "sql_find ''audit'' d' = sql_find ''audit'' d2"
    by (intro step3_other_tables[OF d(3)]) (auto simp: actors_filled_def split: option.splits)
  with a show ?thesis by (simp add: actors_filled_def)
qed

text \<open>
  C11. A start loses no row and no value, whether it succeeds or fails at any point: every table but
  the documents still has all its rows in their order, and each row has for every column it had
  the value it had; only the actor of an audit row may differ, and only when the step that
  introduces that column was still due. When that step was due and the start succeeds, the
  actor of every audit row is its username (given rows with a value in every column).
\<close>

theorem migration_keeps_rows:
  assumes "run_state (runMigrations fs now path) s = (r, s')"
  shows "(\<forall>t tb. sql_find t (mg_db s) = Some tb \<and> t \<noteq> ''documents'' \<longrightarrow>
      (\<exists>tb'. sql_find t (mg_db s') = Some tb' \<and>
         list_all2 (\<lambda>row row'. \<forall>c v. map_of row c = Some v \<and> (t, c) \<noteq> (''audit'', ''actor'') \<longrightarrow> map_of row' c = Some v) (tb_rows tb) (tb_rows tb') \<and>
         (sq_version (mg_db s) < 2 \<or> list_all2 (\<lambda>row row'. \<forall>c v. map_of row c = Some v \<longrightarrow> map_of row' c = Some v) (tb_rows tb) (tb_rows tb')))) \<and>
    (r = Inr () \<and> sq_version (mg_db s) < 2 \<and> rows_full (mg_db s) \<longrightarrow>
      (\<exists>tb. sql_find ''audit'' (mg_db s') = Some tb \<and> list_all (\<lambda>row. cell row ''actor'' = cell row ''username'') (tb_rows tb)))"
proof -
  let ?v = "sq_version (mg_db s)"
  obtain k where k: "k \<le> length (pending ?v)" "ladder (taken fs now (take k (pending ?v))) (mg_db s) = Some (mg_db s')"
    "case r of Inr _ \<Rightarrow> k = length (pending ?v) | Inl e \<Rightarrow> True"
    using runMigrations_result[OF assms] by (cases r) auto
  have rows: "rows_kept t cs (mg_db s) (mg_db s')" if "t \<noteq> ''documents''" "t \<noteq> ''audit'' \<or> ''actor'' \<in> cs \<or> \<not> ?v < 2" for t cs
  proof (rule ladder_relates[OF order_rows _ k(2)])
    fix d d' fs' now' v assume v: "v \<in> set (map snd (taken fs now (take k (pending ?v))))" "step_result fs' now' v d = Some d'"
    have "v \<in> set (pending ?v)" using v(1) by (auto simp: taken_envs(2) dest: in_set_takeD)
    then show "rows_kept t cs d d'"
      using that by (intro step_keeps_rows[OF v(2)]) (auto dest: in_pending)
  qed
  have row: "(\<forall>c v. map_of a c = Some v \<and> (t, c) \<noteq> (''audit'', ''actor'') \<longrightarrow> map_of b c = Some v)"
    if "row_kept (if t = ''audit'' then {''actor''} else {}) a b" for a b t
    using that by (auto simp: row_kept_def split: if_splits)
  have row0: "(\<forall>c v. map_of a c = Some v \<longrightarrow> map_of b c = Some v)" if "row_kept {} a b" for a b
    using that by (auto simp: row_kept_def)
  have kept: "\<exists>tb'. sql_find t (mg_db s') = Some tb' \<and>
      list_all2 (\<lambda>row row'. \<forall>c v. map_of row c = Some v \<and> (t, c) \<noteq> (''audit'', ''actor'') \<longrightarrow> map_of row' c = Some v) (tb_rows tb) (tb_rows tb') \<and>
      (?v < 2 \<or> list_all2 (\<lambda>row row'. \<forall>c v. map_of row c = Some v \<longrightarrow> map_of row' c = Some v) (tb_rows tb) (tb_rows tb'))"
    if t: "sql_find t (mg_db s) = Some tb" "t \<noteq> ''documents''" for t tb
  proof -
    from rows[OF t(2), of "if t = ''audit'' then {''actor''} else {}"] t(1) obtain tb' where tb': "sql_find t (mg_db s') = Some tb'"
      "list_all2 (row_kept (if t = ''audit'' then {''actor''} else {})) (tb_rows tb) (tb_rows tb')"
      by (auto simp: rows_kept_def split: option.splits)
    have "list_all2 (row_kept {}) (tb_rows tb) (tb_rows tb')" if "\<not> ?v < 2"
      using rows[OF t(2), of "{}"] that t(1) tb'(1) by (simp add: rows_kept_def)
    then have "?v < 2 \<or> list_all2 (\<lambda>row row'. \<forall>c v. map_of row c = Some v \<longrightarrow> map_of row' c = Some v) (tb_rows tb) (tb_rows tb')"
      using row0 by (blast intro: list_all2_mono)
    moreover have "list_all2 (\<lambda>row row'. \<forall>c v. map_of row c = Some v \<and> (t, c) \<noteq> (''audit'', ''actor'') \<longrightarrow> map_of row' c = Some v) (tb_rows tb) (tb_rows tb')"
      by (rule list_all2_mono[OF tb'(2)]) (rule row)
    ultimately show ?thesis using tb'(1) by blast
  qed
  have "\<exists>tb. sql_find ''audit'' (mg_db s') = Some tb \<and> list_all (\<lambda>row. cell row ''actor'' = cell row ''username'') (tb_rows tb)"
    if "r = Inr ()" "?v < 2" "rows_full (mg_db s)"
    using ladder_fills_actors[of fs now ?v "mg_db s" "mg_db s'"] that k by (auto simp: actors_filled_def split: option.splits)
  with kept show ?thesis by blast
qed

section \<open>The schema is complete\<close>

text \<open>The columns the store names, table by table.\<close>

definition has_columns :: "(string \<times> string) list \<Rightarrow> sql_db \<Rightarrow> bool" where
  "has_columns tcs d \<longleftrightarrow> (\<forall>(t, c)\<in>set tcs. c \<in> set (columns t d))"

definition baseline_columns :: "(string \<times> string) list" where
  "baseline_columns = concat (map (\<lambda>(t, cols, _). map (\<lambda>c. (t, fst c)) cols) schema_tables)"

definition document_columns :: "(string \<times> string) list" where
  "document_columns = map (\<lambda>c. (''documents'', c)) [''name'', ''content'', ''updated_at'', ''updated_by'']"

text \<open>
  A file at version \<open>v\<close>: what its steps have made. Before the ledger a table may lack the
  columns added later, never those of its first version.
\<close>

definition schema_at :: "int \<Rightarrow> sql_db \<Rightarrow> bool" where
  "schema_at v d \<longleftrightarrow>
     (if v < 1 then \<forall>(t, c)\<in>set baseline_columns. sql_find t d = None \<or> (t, c) \<in> set (map (\<lambda>(t, c, _). (t, c)) legacy_columns) \<or> c \<in> set (columns t d)
      else has_columns baseline_columns d) \<and>
     (v < 2 \<or> has_columns [(''audit'', ''actor'')] d) \<and> (if v < 3 then sql_find ''documents'' d = None else has_columns document_columns d)"

definition cols_kept :: "sql_db \<Rightarrow> sql_db \<Rightarrow> bool" where
  "cols_kept d d' \<longleftrightarrow> (\<forall>t. set (columns t d) \<subseteq> set (columns t d')) \<and> (sql_find ''documents'' d = None \<longrightarrow> sql_find ''documents'' d' = None)"

lemma order_cols: "order cols_kept"
  by (auto simp: order_def cols_kept_def)

lemma cols_same: "(\<And>t. sql_find t d' = sql_find t d) \<Longrightarrow> cols_kept d d'"
  by (simp add: cols_kept_def columns_def)

lemma cols_create: "u \<noteq> ''documents'' \<Longrightarrow> cols_kept d (create_table u cols fks d)"
  by (auto simp: cols_kept_def columns_def sql_find_create)

lemma columns_update:
  "columns t (sql_update u f d) = (if t = u then (case sql_find u d of None \<Rightarrow> [] | Some tb \<Rightarrow> map fst (tb_cols (f tb))) else columns t d)"
  by (simp add: columns_def sql_find_update split: option.split)

lemma columns_some: "sql_find t d = Some tb \<Longrightarrow> columns t d = map fst (tb_cols tb)"
  by (simp add: columns_def)

lemma cols_add_column: "add_column t c v d = Some d' \<Longrightarrow> cols_kept d d' \<and> c \<in> set (columns t d')"
proof -
  assume a: "add_column t c v d = Some d'"
  then obtain tb where tb: "sql_find t d = Some tb" by (cases "sql_find t d") (simp_all add: add_column_def)
  with a show ?thesis
    by (auto simp: add_column_def cols_kept_def columns_update sql_find_update columns_some[OF tb] split: if_splits)
qed

lemma cols_backfill: "backfill_actor d = Some d' \<Longrightarrow> cols_kept d d'"
proof (cases "sql_find ''audit'' d")
  case (Some tb)
  assume "backfill_actor d = Some d'"
  then show ?thesis
    by (auto simp: backfill_actor_def cols_kept_def columns_update sql_find_update columns_some[OF Some] Some split: if_splits)
qed (simp add: backfill_actor_def columns_def)

lemma cols_kept_has: "cols_kept d d' \<Longrightarrow> has_columns tcs d \<Longrightarrow> has_columns tcs d'"
  by (fastforce simp: cols_kept_def has_columns_def)

lemma ensure_adds:
  assumes "run_state (ensureColumnTx e t c v) s = (Inr x, s')"
  shows "c \<in> set (columns t (mg_db s'))"
  using assms
  by (auto simp: ensureColumnTx_def run_try_bind sql_read_def sql_do_def run_sql_Inr mig_return_def dest: cols_add_column
      split: prod.splits sum.splits if_splits)

lemma each_post:
  assumes "\<And>x s u s'. x \<in> set xs \<Longrightarrow> run_state (f x) s = (Inr u, s') \<Longrightarrow> Q x (mg_db s')"
    "\<And>x y. x \<in> set xs \<Longrightarrow> relates (\<lambda>d d'. Q y d \<longrightarrow> Q y d') (f x)" "run_state (mig_each f xs) s = (Inr u, s')"
  shows "\<forall>x\<in>set xs. Q x (mg_db s')"
  using assms
proof (induction xs arbitrary: s)
  case (Cons x xs)
  obtain s1 where s1: "run_state (f x) s = (Inr (), s1)" "run_state (mig_each f xs) s1 = (Inr u, s')"
    using Cons.prems(3) by (auto simp: run_try_bind split: prod.splits sum.splits)
  have o: "order (\<lambda>d d'. Q y d \<longrightarrow> Q y d')" for y by (auto simp: order_def)
  have "relates (\<lambda>d d'. Q x d \<longrightarrow> Q x d') (mig_each f xs)"
    using Cons.prems(2) by (intro relates_each o) simp
  with s1 Cons.prems(1)[OF _ s1(1)] have "Q x (mg_db s')" by (auto simp: relates_def)
  moreover have "\<forall>x\<in>set xs. Q x (mg_db s')"
    by (rule Cons.IH[OF _ _ s1(2)]) (use Cons.prems(1,2) in auto)
  ultimately show ?case by simp
qed simp

lemma find_fold_create:
  "distinct (map fst ts) \<Longrightarrow> sql_find t (fold (\<lambda>(t, cols, fks). create_table t cols fks) ts d) =
     (case sql_find t d of
        Some tb \<Rightarrow> Some tb
      | None \<Rightarrow> map_option (\<lambda>(cols, fks). \<lparr>tb_cols = cols, tb_fks = fks, tb_rows = []\<rparr>) (map_of ts t))"
proof (induction ts arbitrary: d)
  case (Cons x ts)
  obtain u cols fks where x: "x = (u, cols, fks)" by (cases x)
  have "map_of ts u = None" using Cons.prems x by (simp add: map_of_eq_None_iff)
  then show ?case using Cons by (auto simp: x sql_find_create split: option.splits)
qed (simp split: option.split)

lemma schema_names: "distinct (map fst schema_tables)" "''documents'' \<notin> set (map fst schema_tables)"
  by (simp_all add: schema_tables_def)

lemma apply_schema_find:
  assumes "apply_schema d = Some d'"
  shows "sql_find t d' = (case sql_find t d of Some tb \<Rightarrow> Some tb
     | None \<Rightarrow> map_option (\<lambda>(cols, fks). \<lparr>tb_cols = cols, tb_fks = fks, tb_rows = []\<rparr>) (map_of schema_tables t))"
proof -
  let ?d1 = "fold (\<lambda>(t, cols, fks). create_table t cols fks) schema_tables d"
  obtain d2 where "create_index ''audit_at'' ''audit'' ''at'' ?d1 = Some d2" "create_index ''audit_username'' ''audit'' ''username'' d2 = Some d'"
    using assms unfolding apply_schema_def Let_def by (auto simp: bind_eq_Some_conv)
  then have "sql_find t d' = sql_find t ?d1" by (simp add: sql_find_index)
  then show ?thesis by (simp only: find_fold_create[OF schema_names(1)])
qed

lemma cols_schema: "apply_schema d = Some d' \<Longrightarrow> cols_kept d d'"
proof -
  assume a: "apply_schema d = Some d'"
  have "map_of schema_tables ''documents'' = None" using schema_names(2) by (simp add: map_of_eq_None_iff)
  then show ?thesis by (auto simp: cols_kept_def columns_def apply_schema_find[OF a] split: option.splits)
qed

lemma step1_columns:
  assumes "step_result fs now 1 d = Some d'" "schema_at 0 d"
  shows "schema_at 1 d'"
proof -
  let ?f = "\<lambda>(t, c, v). ensureColumnTx (MigStep 1) t c v"
  obtain s where "run_state migrateV1Baseline (quiet d) = (Inr (), s)" and d': "d' = (mg_db s)\<lparr>sq_version := 1\<rparr>"
    using assms(1) by (auto simp: step_result_def migrations_def split: prod.splits sum.splits)
  then obtain s1 where s1: "apply_schema d = Some (mg_db s1)" "run_state (mig_each ?f legacy_columns) s1 = (Inr (), s)"
    by (auto simp: migrateV1Baseline_def run_try_bind sql_do_def run_sql_Inr quiet_def split: prod.splits sum.splits)
  have each: "relates cols_kept (?f x)" for x
    unfolding split_def by (intro relates_ensure order_cols) (simp add: cols_add_column)
  have "relates (\<lambda>d d'. fst (snd y) \<in> set (columns (fst y) d) \<longrightarrow> fst (snd y) \<in> set (columns (fst y) d')) (?f x)" for x y
    using each[of x] unfolding relates_def cols_kept_def by blast
  then have legacy: "\<forall>x\<in>set legacy_columns. fst (snd x) \<in> set (columns (fst x) (mg_db s))"
    by (intro each_post[OF _ _ s1(2)]) (auto dest: ensure_adds)
  have "relates cols_kept (mig_each ?f legacy_columns)" by (intro relates_each order_cols each)
  with s1(2) have kept: "cols_kept (mg_db s1) (mg_db s)" by (auto simp: relates_def)
  have "has_columns baseline_columns (mg_db s)"
    unfolding has_columns_def
  proof clarify
    fix t c assume tc: "(t, c) \<in> set baseline_columns"
    then obtain cols fks where tb: "(t, cols, fks) \<in> set schema_tables" "c \<in> fst ` set cols"
      by (auto simp: baseline_columns_def)
    then have map: "map_of schema_tables t = Some (cols, fks)" using schema_names(1) by simp
    have "sql_find t d = None \<or> (t, c) \<in> set (map (\<lambda>(t, c, _). (t, c)) legacy_columns) \<or> c \<in> set (columns t d)"
      using assms(2) tc by (auto simp: schema_at_def)
    then show "c \<in> set (columns t (mg_db s))"
    proof (elim disjE)
      assume "sql_find t d = None"
      with map tb(2) have "c \<in> set (columns t (mg_db s1))" by (simp add: columns_def apply_schema_find[OF s1(1)])
      with kept show ?thesis by (auto simp: cols_kept_def)
    next
      assume "(t, c) \<in> set (map (\<lambda>(t, c, _). (t, c)) legacy_columns)"
      then show ?thesis using legacy by auto
    next
      assume "c \<in> set (columns t d)"
      with cols_schema[OF s1(1)] kept show ?thesis by (auto simp: cols_kept_def)
    qed
  qed
  moreover have "sql_find ''documents'' (mg_db s) = None"
    using assms(2) cols_schema[OF s1(1)] kept by (simp add: schema_at_def cols_kept_def)
  ultimately show ?thesis by (simp add: schema_at_def d' has_columns_def columns_def)
qed

lemma step2_columns:
  assumes "step_result fs now 2 d = Some d'" "schema_at 1 d"
  shows "schema_at 2 d'"
proof -
  let ?e = "ensureColumnTx (MigStep 2) ''audit'' ''actor'' (STxt [])"
  have ens: "relates cols_kept ?e" by (intro relates_ensure order_cols) (simp add: cols_add_column)
  have "relates cols_kept migrateV2AuditActor"
    unfolding migrateV2AuditActor_def
    by (intro relates_bind relates_do order_cols ens) (auto simp: cols_backfill intro: cols_same dest: sql_find_index)
  then have kept: "cols_kept d d'"
    by (intro step_relates[OF order_cols _ _ assms(1)]) (auto simp: migrations_def intro: cols_same)
  obtain s where run: "run_state migrateV2AuditActor (quiet d) = (Inr (), s)" and d': "d' = (mg_db s)\<lparr>sq_version := 2\<rparr>"
    using assms(1) by (auto simp: step_result_def migrations_def split: prod.splits sum.splits)
  obtain s1 where s1: "run_state ?e (quiet d) = (Inr (), s1)"
    "run_state (try_bind (sql_do (MigStep 2) backfill_actor) (\<lambda>_. sql_do (MigStep 2) (create_index ''audit_actor'' ''audit'' ''actor''))) s1 = (Inr (), s)"
    using run by (auto simp: migrateV2AuditActor_def run_try_bind split: prod.splits sum.splits)
  have "relates cols_kept (try_bind (sql_do (MigStep 2) backfill_actor) (\<lambda>_. sql_do (MigStep 2) (create_index ''audit_actor'' ''audit'' ''actor'')))"
    by (intro relates_bind relates_do order_cols) (auto simp: cols_backfill intro: cols_same dest: sql_find_index)
  with s1(2) have "cols_kept (mg_db s1) (mg_db s)" by (auto simp: relates_def)
  with ensure_adds[OF s1(1)] have "''actor'' \<in> set (columns ''audit'' (mg_db s))" by (auto simp: cols_kept_def)
  then have "has_columns [(''audit'', ''actor'')] d'" by (simp add: has_columns_def d' columns_def)
  with kept assms(2) show ?thesis
    by (auto simp: schema_at_def intro: cols_kept_has) (simp add: cols_kept_def)
qed

lemma step3_columns:
  assumes "step_result fs now 3 d = Some d'" "schema_at 2 d"
  shows "schema_at 3 d'"
proof -
  have docs: "sql_find ''documents'' d = None" "has_columns baseline_columns d" "has_columns [(''audit'', ''actor'')] d"
    using assms(2) by (simp_all add: schema_at_def)
  obtain s where run: "run_state (migrateV3Documents fs now) (quiet d) = (Inr (), s)" and d': "d' = (mg_db s)\<lparr>sq_version := 3\<rparr>"
    using assms(1) by (auto simp: step_result_def migrations_def split: prod.splits sum.splits)
  obtain s1 where s1: "mg_db s1 = documents_table d" "run_state (mig_each (import_document fs now) document_imports) s1 = (Inr (), s)"
    using run by (auto simp: migrateV3Documents_def run_try_bind sql_do_def run_sql_Inr quiet_def split: prod.splits sum.splits)
  let ?R = "\<lambda>d d'. \<forall>t. set (columns t d) \<subseteq> set (columns t d')"
  have o: "order ?R" by (auto simp: order_def)
  have "relates ?R (import_document fs now im)" for im
    by (rule relates_import[OF o]) (cases "sql_find ''documents'' d", auto simp: replace_document_def columns_update columns_some split: if_splits option.splits)
  then have "relates ?R (mig_each (import_document fs now) document_imports)" by (intro relates_each o)
  with s1(2) have kept: "?R (documents_table d) (mg_db s)" by (fastforce simp: relates_def s1(1)[symmetric])
  have "set (columns t d) \<subseteq> set (columns t (documents_table d))" for t
    by (auto simp: documents_table_def columns_def sql_find_create)
  then have "has_columns baseline_columns (mg_db s)" "has_columns [(''audit'', ''actor'')] (mg_db s)"
    using docs(2,3) kept by (fastforce simp: has_columns_def)+
  moreover have "columns ''documents'' (documents_table d) = [''name'', ''content'', ''updated_at'', ''updated_by'']"
    using docs(1) by (simp add: documents_table_def columns_def sql_find_create req_col_def txt_col_def)
  then have "has_columns document_columns (mg_db s)" using kept by (force simp: has_columns_def document_columns_def)
  ultimately show ?thesis by (simp add: schema_at_def d' has_columns_def columns_def)
qed

lemma schema_at_negative: "v < 1 \<Longrightarrow> schema_at v d = schema_at 0 d"
  by (simp add: schema_at_def)

lemma schema_at_more: "3 \<le> v \<Longrightarrow> schema_at v d = schema_at 3 d"
  by (simp add: schema_at_def)


section \<open>An upgrade\<close>

text \<open>A file at version 2 without import paths, upgraded with nothing failing.\<close>

lemma run_quiet_sql:
  "mg_faults s = [] \<Longrightarrow> run_state (sql_read e f) s = (Inr (f (mg_db s)), s)"
  "mg_faults s = [] \<Longrightarrow> run_state (sql_do e g) s = (case g (mg_db s) of None \<Rightarrow> (Inl e, s) | Some d \<Rightarrow> (Inr (), s\<lparr>mg_db := d\<rparr>))"
  "mg_faults s = [] \<Longrightarrow> run_state (sql e h) s = (case h (mg_db s) of None \<Rightarrow> (Inl e, s) | Some (d, x) \<Rightarrow> (Inr x, s\<lparr>mg_db := d\<rparr>))"
  by (simp_all add: sql_read_def sql_do_def sql_def Let_def split: option.split)

lemma upgrade_from_2:
  assumes "sq_version d = 2" "\<not> isFresh d" "legacy_path KeyMOTDFile (documents_table d) = Some None" "legacy_path KeyBrandingFile (documents_table d) = Some None"
  defines "d' \<equiv> (documents_table d)\<lparr>sq_version := 3\<rparr>" and "s \<equiv> \<lparr>mg_db = d, mg_fk = True, mg_backups = Map.empty, mg_faults = []\<rparr>"
  shows "run_state (runMigrations fs now path) s =
    (if violates d' then Inl MigViolations else Inr (),
     \<lparr>mg_db = d', mg_fk = True, mg_backups = [backup_path path 2 now \<mapsto> d], mg_faults = []\<rparr>)"
proof -
  let ?s1 = "\<lparr>mg_db = d, mg_fk = False, mg_backups = [backup_path path 2 now \<mapsto> d], mg_faults = []\<rparr>"
  let ?s2 = "\<lparr>mg_db = d', mg_fk = False, mg_backups = [backup_path path 2 now \<mapsto> d], mg_faults = []\<rparr>"
  have imp: "run_state (import_document fs now (n, k)) t = (Inr (), t)" if "mg_faults t = []" "legacy_path k (mg_db t) = Some None" for n k t
    using that by (simp add: import_document_def run_try_bind run_quiet_sql mig_return_def)
  have step: "run_state (migrateV3Documents fs now) ?s1 = (Inr (), ?s1\<lparr>mg_db := documents_table d\<rparr>)"
    using assms(3,4) by (simp add: migrateV3Documents_def document_imports_def run_try_bind run_quiet_sql imp mig_return_def)
  have one: "run_state (runOne (3, migrateV3Documents fs now)) ?s1 = (Inr (), ?s2)"
    by (simp add: runOne_def run_try_bind run_quiet_sql step rolled_back_def mig_return_def d'_def)
  have pend: "filter (\<lambda>m. 2 < fst m) (migrations fs now) = [(3, migrateV3Documents fs now)]" by (simp add: migrations_def)
  have ap: "run_state (apply_pending fs now 2) ?s1 = (if violates d' then Inl MigViolations else Inr (), ?s2)"
    by (simp add: apply_pending_def pend run_try_bind one mig_return_def foreignKeyCheck_def run_quiet_sql mig_fail_def)
  have bak: "run_state (vacuumInto (backup_path path 2 now)) s = (Inr (), s\<lparr>mg_backups := [backup_path path 2 now \<mapsto> d]\<rparr>)"
    by (simp add: vacuumInto_def run_try_bind run_quiet_sql mig_return_def s_def)
  show ?thesis
    using assms(1,2) by (simp add: runMigrations_def run_try_bind run_quiet_sql max_version bak[unfolded s_def] ap s_def restore_foreign_keys_def)
qed

definition v2_file :: "sql_row list \<Rightarrow> sql_db" where
  "v2_file links = \<lparr>sq_tables = map (\<lambda>(t, cols, fks). (t, \<lparr>tb_cols = cols @ (if t = ''audit'' then [(''actor'', Some (STxt []))] else []), tb_fks = fks,
      tb_rows = (if t = ''users'' then [[(''id'', SInt 1), (''username'', STxt ''ALICE'')]]
                 else if t = ''groups'' then [[(''id'', SInt 1), (''name'', STxt ''OPS'')]]
                 else if t = ''user_groups'' then links else [])\<rparr>)) schema_tables, sq_indexes = [], sq_version = 2\<rparr>"

definition member :: "int \<Rightarrow> sql_row" where
  "member u = [(''user_id'', SInt u), (''group_id'', SInt 1)]"

definition at_rest :: "sql_db \<Rightarrow> mig_state" where
  "at_rest d = \<lparr>mg_db = d, mg_fk = True, mg_backups = Map.empty, mg_faults = []\<rparr>"

lemma v2_upgrade:
  "run_state (runMigrations fs now path) (at_rest (v2_file [member u])) =
    (if violates ((documents_table (v2_file [member u]))\<lparr>sq_version := 3\<rparr>) then Inl MigViolations else Inr (),
     \<lparr>mg_db = (documents_table (v2_file [member u]))\<lparr>sq_version := 3\<rparr>, mg_fk = True,
       mg_backups = [backup_path path 2 now \<mapsto> v2_file [member u]], mg_faults = []\<rparr>)"
proof -
  have "legacy_path KeyMOTDFile (documents_table (v2_file [member u])) = Some None"
    "legacy_path KeyBrandingFile (documents_table (v2_file [member u])) = Some None" "\<not> isFresh (v2_file [member u])"
    by code_simp+
  moreover have "sq_version (v2_file [member u]) = 2" by (simp add: v2_file_def)
  ultimately show ?thesis unfolding at_rest_def by (intro upgrade_from_2)
qed

lemma v2_links:
  "violates ((documents_table (v2_file [member 7]))\<lparr>sq_version := 3\<rparr>)"
  "\<not> violates ((documents_table (v2_file [member 1]))\<lparr>sq_version := 3\<rparr>)"
  by code_simp+

theorem fk_violation_reported_once_witness:
  "\<exists>s'. run_state (runMigrations (\<lambda>_. FileIrregular) 0 ''/db'') (at_rest (v2_file [member 7])) = (Inl MigViolations, s') \<and> violates (mg_db s') \<and>
     run_state (runMigrations (\<lambda>_. FileIrregular) 1 ''/db'') (s'\<lparr>mg_faults := []\<rparr>) = (Inr (), s'\<lparr>mg_faults := []\<rparr>)"
proof -
  obtain s' where run: "run_state (runMigrations (\<lambda>_. FileIrregular) 0 ''/db'') (at_rest (v2_file [member 7])) = (Inl MigViolations, s')"
    by (simp add: v2_upgrade v2_links)
  from fk_violation_reported_once[OF run, of "\<lambda>_. FileIrregular" 1 "''/db''"] run show ?thesis by blast
qed

theorem migration_outcome_witness:
  "\<exists>s'. run_state (runMigrations (\<lambda>_. FileIrregular) 0 ''/db'') (at_rest (v2_file [member 1])) = (Inr (), s') \<and>
     sq_version (mg_db s') = 3 \<and> mg_backups s' (backup_path ''/db'' 2 0) = Some (v2_file [member 1])"
proof -
  obtain s' where run: "run_state (runMigrations (\<lambda>_. FileIrregular) 0 ''/db'') (at_rest (v2_file [member 1])) = (Inr (), s')"
    by (simp add: v2_upgrade v2_links)
  have v: "sq_version (mg_db (at_rest (v2_file [member 1]))) = 2" "\<not> isFresh (mg_db (at_rest (v2_file [member 1])))"
    "mg_db (at_rest (v2_file [member 1])) = v2_file [member 1]"
    by code_simp+
  note out = migration_outcome[OF run]
  then have "sq_version (mg_db s') = 3" by simp
  with out v have "mg_backups s' (backup_path ''/db'' 2 0) = Some (v2_file [member 1])" by (auto simp: Let_def)
  with run \<open>sq_version (mg_db s') = 3\<close> show ?thesis by blast
qed

theorem migration_keeps_rows_witness:
  "\<exists>s' tb'. run_state (runMigrations (\<lambda>_. FileIrregular) 0 ''/db'') (at_rest (v2_file [member 1])) = (Inr (), s') \<and>
     sql_find ''users'' (mg_db s') = Some tb' \<and> map (\<lambda>row. map_of row ''username'') (tb_rows tb') = [Some (STxt ''ALICE'')]"
proof -
  obtain s' where run: "run_state (runMigrations (\<lambda>_. FileIrregular) 0 ''/db'') (at_rest (v2_file [member 1])) = (Inr (), s')"
    by (simp add: v2_upgrade v2_links)
  obtain tb where tb: "sql_find ''users'' (mg_db (at_rest (v2_file [member 1]))) = Some tb" "tb_rows tb = [[(''id'', SInt 1), (''username'', STxt ''ALICE'')]]"
    by (simp add: at_rest_def v2_file_def schema_tables_def sql_find_def)
  obtain tb' where "sql_find ''users'' (mg_db s') = Some tb'"
    "list_all2 (\<lambda>row row'. \<forall>c v. map_of row c = Some v \<and> (''users'', c) \<noteq> (''audit'', ''actor'') \<longrightarrow> map_of row' c = Some v) (tb_rows tb) (tb_rows tb')"
    using migration_keeps_rows[OF run] tb(1) by fastforce
  with run tb(2) show ?thesis by (auto simp: list_all2_Cons1)
qed


end
