(* ===== verification/Widgets.thy ===== *)
theory Widgets
  imports Drivers
begin

text \<open>
  The widget screens: internal/ui3270/screen.go, snapshotscreen.go and editorscreen.go. A builder
  turns a view into the fields of one 3270 screen and the cursor's first position. A field is
  go3270's \<open>Field\<close> with the members these packages set; the column of a field is its attribute
  byte, its content starts one column to the right.
\<close>

section \<open>Fields\<close>

record field3270 =
  fd_Row :: int
  fd_Col :: int
  fd_Name :: string
  fd_Content :: string
  fd_Write :: bool
  fd_Hidden :: bool
  fd_NumericOnly :: bool
  fd_KeepSpaces :: bool
  fd_Color :: color
  fd_Intense :: bool
  fd_Underscore :: bool

type_synonym screen3270 = "field3270 list"
type_synonym cursor = "int \<times> int"

definition field_at :: "int \<Rightarrow> int \<Rightarrow> field3270" where \<comment> \<open>\<open>go3270.Field{Row: r, Col: c}\<close>: a stop field\<close>
  "field_at r c =
     \<lparr>fd_Row = r, fd_Col = c, fd_Name = [], fd_Content = [], fd_Write = False, fd_Hidden = False, fd_NumericOnly = False,
      fd_KeepSpaces = False, fd_Color = DefaultColor, fd_Intense = False, fd_Underscore = False\<rparr>"

definition text_at :: "int \<Rightarrow> int \<Rightarrow> color \<Rightarrow> string \<Rightarrow> field3270" where
  "text_at r c clr s = (field_at r c)\<lparr>fd_Color := clr, fd_Content := s\<rparr>"

definition input_at :: "int \<Rightarrow> int \<Rightarrow> string \<Rightarrow> field3270" where \<comment> \<open>a green underscored input\<close>
  "input_at r c name = (field_at r c)\<lparr>fd_Name := name, fd_Write := True, fd_Color := Green, fd_Underscore := True\<rparr>"

definition title_at :: "int \<Rightarrow> int \<Rightarrow> string \<Rightarrow> field3270" where \<comment> \<open>white and intense\<close>
  "title_at r c s = (text_at r c White s)\<lparr>fd_Intense := True\<rparr>"

definition error_at :: "int \<Rightarrow> int \<Rightarrow> string \<Rightarrow> field3270" where \<comment> \<open>the red message field\<close>
  "error_at r c s = (text_at r c Red s)\<lparr>fd_Intense := True, fd_Name := ''errormsg''\<rparr>"

definition home :: cursor where "home = (0, 0)"

section \<open>Lists\<close>

definition list_row :: "nat \<Rightarrow> string \<Rightarrow> screen3270" where
  "list_row i r =
     [input_at (4 + int i) 0 (''cmd'' @ itoa (int i)), field_at (4 + int i) 2, text_at (4 + int i) 4 Green r]"

definition buildListScreen :: "int \<Rightarrow> list_view \<Rightarrow> screen3270 \<times> cursor" where
  "buildListScreen rows v =
     (let data = take (nat (listPageSize rows)) (lv_Rows v)
      in ([title_at 0 (centerCol (int (length (lv_Title v)))) (lv_Title v),
           text_at 0 60 DefaultColor (lv_RowInfo v),
           text_at bodyTopRow 0 Blue (lv_Header v)]
          @ concat (map (\<lambda>(i, r). list_row i r) (zip [0..<length data] data))
          @ (if data = [] then [text_at 4 4 DefaultColor ''(none)''] else [])
          @ [text_at (legendRow rows) 0 Turquoise (lv_Legend v),
             error_at messageRow 0 (lv_ErrMsg v),
             text_at (helpRow rows) 0 Blue (lv_PFHelp v)],
          if data = [] then home else (4, 1)))"

section \<open>Forms\<close>

definition formPFHelp :: "form_view \<Rightarrow> string" where
  "formPFHelp v = (if fv_PFHelp v \<noteq> [] then fv_PFHelp v else ''Enter=Save    PF3=Cancel'')"

definition form_label :: "form_field \<Rightarrow> int \<Rightarrow> bool \<Rightarrow> string" where
  "form_label f labelMax dotLeader = (if dotLeader then dotLeaderLabel (ff_Label f) labelMax else truncRunes (ff_Label f) labelMax)"

definition stop_col :: "form_field \<Rightarrow> int \<Rightarrow> int" where
  "stop_col f inputCol = min (inputCol + 1 + ff_Length f) 79"

definition placeFormField ::
  "form_field \<Rightarrow> int \<Rightarrow> int \<Rightarrow> int \<Rightarrow> int \<Rightarrow> bool \<Rightarrow> screen3270 \<times> cursor \<Rightarrow> screen3270 \<times> cursor" where
  "placeFormField f row labelCol inputCol labelMax dotLeader st =
     (case st of (screen, cur) \<Rightarrow>
        let label = form_label f labelMax dotLeader
        in if ff_ReadOnly f then
             (screen @ [text_at row labelCol Turquoise label, text_at row inputCol Green (ff_Value f)], cur)
           else
             (screen @ [text_at row labelCol Turquoise label,
                (input_at row inputCol (ff_Name f))\<lparr>fd_Hidden := ff_Hidden f, fd_Content := ff_Value f\<rparr>,
                field_at row (stop_col f inputCol)]
                @ (if ff_Suffix f = [] then [] else [text_at row (stop_col f inputCol + 1) Turquoise (ff_Suffix f)]),
              if cur = home then (row, inputCol + 1) else cur))"

definition max_label :: "form_field list \<Rightarrow> int" where
  "max_label fs = foldl (\<lambda>m f. max m (int (length (ff_Label f)))) 0 fs"

text \<open>The single-spaced layout. \<open>first\<close>: no primary field is placed yet.\<close>

fun compact_loop ::
  "form_view \<Rightarrow> int \<Rightarrow> int \<Rightarrow> int \<Rightarrow> int \<Rightarrow> bool \<Rightarrow> form_field list \<Rightarrow> screen3270 \<times> cursor \<Rightarrow> screen3270 \<times> cursor" where
  "compact_loop v limit inputCol row lastRow first [] st = st"
| "compact_loop v limit inputCol row lastRow first (f # fs) st =
     (if ff_SameRow f then
        (if first then compact_loop v limit inputCol row lastRow first fs st
         else compact_loop v limit inputCol row lastRow first fs
           (placeFormField f lastRow sameRowLabelCol sameRowInputCol sameRowLabelMax (fv_DotLeader v) st))
      else
        let row1 = (if ff_GapBefore f \<and> \<not> first \<and> ff_Section f = [] then row + 1 else row);
            row2 = (if ff_Section f \<noteq> [] \<and> \<not> first then row1 + 1 else row1)
        in if ff_Section f \<noteq> [] \<and> limit < row2 then st
           else
             let st2 = (if ff_Section f \<noteq> []
                        then (fst st @ [text_at row2 labelAttrCol Blue (sectionBanner (ff_Section f))], snd st) else st);
                 row3 = (if ff_Section f \<noteq> [] then row2 + 1 else row2)
             in if limit < row3 then st2
                else compact_loop v limit inputCol (row3 + 1) row3 False fs
                  (placeFormField f row3 labelAttrCol inputCol (formLabelMax inputCol) (fv_DotLeader v) st2))"

definition compact_inputCol :: "form_view \<Rightarrow> int" where
  "compact_inputCol v =
     (let maxLabel = max_label (filter (\<lambda>f. \<not> ff_SameRow f) (fv_Fields v))
      in formInputCol (if fv_DotLeader v then maxLabel + 1 else maxLabel))"

definition form_bottom :: "int \<Rightarrow> int \<Rightarrow> form_view \<Rightarrow> screen3270" where
  "form_bottom rows msgRow v = [error_at msgRow 2 (fv_ErrMsg v), text_at (helpRow rows) 0 Blue (formPFHelp v)]"

definition buildCompactFormScreen :: "int \<Rightarrow> form_view \<Rightarrow> screen3270 \<times> cursor" where
  "buildCompactFormScreen rows v =
     (let head = [title_at 0 (centerCol (int (length (fv_Title v)))) (fv_Title v)];
          intro = (if fv_Intro v \<noteq> [] then [text_at compactBodyTopRow labelAttrCol Turquoise (fv_Intro v)] else []);
          row = (if fv_Intro v \<noteq> [] then compactBodyTopRow + 2 else compactBodyTopRow);
          limit = compactMessageRow rows - 1
      in case compact_loop v limit (compact_inputCol v) row row True (fv_Fields v) (head @ intro, home) of
           (screen, cur) \<Rightarrow> (screen @ form_bottom rows (compactMessageRow rows) v, cur))"

definition buildFormScreen :: "int \<Rightarrow> form_view \<Rightarrow> screen3270 \<times> cursor" where
  "buildFormScreen rows v =
     (if fv_Compact v then buildCompactFormScreen rows v
      else
        let fs = take (nat (formMaxFields rows)) (fv_Fields v);
            inputCol = formInputCol (max_label fs);
            labelMax = formLabelMax inputCol
        in case foldl (\<lambda>st (i, f). placeFormField f (3 + 2 * int i) labelAttrCol inputCol labelMax (fv_DotLeader v) st)
                ([title_at 0 (centerCol (int (length (fv_Title v)))) (fv_Title v)], home)
                (zip [0..<length fs] fs) of
             (screen, cur) \<Rightarrow> (screen @ form_bottom rows messageRow v, cur))"

section \<open>Snapshots and details\<close>

definition snapCmdAttr :: int where "snapCmdAttr = 2"
definition snapCmdStop :: int where "snapCmdStop = 4"
definition snapLeftAttr :: int where "snapLeftAttr = 7"
definition snapMidAttr :: int where "snapMidAttr = 28"
definition snapRightAttr :: int where "snapRightAttr = 41"

definition snapSegments :: "int \<Rightarrow> snapshot_row \<Rightarrow> screen3270" where
  "snapSegments row r =
     [text_at row snapLeftAttr Green (sr_Left r), text_at row snapMidAttr (sr_MidColor r) (sr_Mid r),
      text_at row snapRightAttr Green (sr_Right r)]"

definition snapshot_cells :: "bool \<Rightarrow> nat \<Rightarrow> snapshot_row \<Rightarrow> screen3270" where
  "snapshot_cells wide i r =
     [input_at (4 + int i) snapCmdAttr (''cmd'' @ itoa (int i)), field_at (4 + int i) snapCmdStop]
     @ (if wide then [text_at (4 + int i) snapLeftAttr Green (sr_Left r)] else snapSegments (4 + int i) r)"

definition snapshot_head :: "bool \<Rightarrow> snapshot_row \<Rightarrow> screen3270" where
  "snapshot_head wide h =
     (if wide then [text_at bodyTopRow snapLeftAttr Blue (sr_Left h)]
      else [text_at bodyTopRow snapLeftAttr Blue (sr_Left h), text_at bodyTopRow snapMidAttr Blue (sr_Mid h),
            text_at bodyTopRow snapRightAttr Blue (sr_Right h)])"

definition buildSnapshotScreen :: "int \<Rightarrow> snapshot_view \<Rightarrow> screen3270 \<times> cursor" where
  "buildSnapshotScreen rows v =
     (let data = take (nat (listPageSize rows)) (sv_Rows v)
      in ([title_at 0 (centerCol (int (length (sv_Title v)))) (sv_Title v),
           text_at 0 60 DefaultColor (sv_RowInfo v),
           text_at 1 (centerCol (int (length (sv_AsOf v)))) Turquoise (sv_AsOf v)]
          @ snapshot_head (sv_Wide v) (sv_Head v)
          @ concat (map (\<lambda>(i, r). snapshot_cells (sv_Wide v) i r) (zip [0..<length data] data))
          @ (if data = [] then [text_at 4 snapLeftAttr DefaultColor (sv_Empty v)] else [])
          @ [text_at (legendRow rows) 2 Turquoise (sv_Legend v),
             error_at messageRow 2 (sv_ErrMsg v),
             text_at (helpRow rows) 0 Blue (sv_PFHelp v)],
          if data = [] then home else (4, snapCmdAttr + 1)))"

definition detailValueCol :: int where "detailValueCol = 16"
definition detailBodyWidth :: int where "detailBodyWidth = 76"

definition detail_cells :: "bool \<Rightarrow> int \<Rightarrow> detail_field \<Rightarrow> screen3270" where
  "detail_cells dotLeader row f =
     [text_at row labelAttrCol Turquoise
        (if dotLeader then dotLeaderLabel (df_Label f) (formLabelMax detailValueCol) else df_Label f),
      text_at row detailValueCol (df_Color f) (df_Value f)]"

text \<open>The body: lines from \<open>row\<close> down, none on the PF-key row or below.\<close>

fun detail_body :: "int \<Rightarrow> int \<Rightarrow> string list \<Rightarrow> screen3270" where
  "detail_body rows row [] = []"
| "detail_body rows row (l # ls) =
     (if helpRow rows \<le> row then [] else text_at row 2 DefaultColor l # detail_body rows (row + 1) ls)"

definition buildDetailScreen :: "int \<Rightarrow> detail_view \<Rightarrow> screen3270 \<times> cursor" where
  "buildDetailScreen rows v =
     (let n = length (dv_Fields v);
          row = bodyTopRow + int n + 1;
          row2 = (if dv_BodyLabel v \<noteq> [] then row + 1 else row)
      in ([title_at 0 (centerCol (int (length (dv_Title v)))) (dv_Title v)]
          @ (if dv_Message v \<noteq> []
             then [(text_at messageRow labelAttrCol Red (dv_Message v))\<lparr>fd_Intense := True\<rparr>] else [])
          @ concat (map (\<lambda>(i, f). detail_cells (dv_DotLeader v) (bodyTopRow + int i) f) (zip [0..<n] (dv_Fields v)))
          @ (if dv_BodyLabel v \<noteq> [] then [text_at row 2 Turquoise (dv_BodyLabel v)] else [])
          @ detail_body rows row2 (wrapText (dv_Body v) detailBodyWidth)
          @ [text_at (helpRow rows) 0 Blue (dv_PFHelp v)],
          home))"

section \<open>The editor\<close>

definition editorRuler :: string where
  "editorRuler = ''----+----1----+----2----+----3----+----4----+----5----+----6----+----7----+-''"

definition editor_row :: "nat \<Rightarrow> string \<times> bool \<Rightarrow> screen3270" where
  "editor_row i ln =
     [input_at (4 + int i) 0 (''pfx'' @ itoa (int i)),
      (case ln of (t, protected) \<Rightarrow>
         if protected then text_at (4 + int i) 3 Yellow (truncRunes t (int editorTextMax))
         else (text_at (4 + int i) 3 Green t)\<lparr>fd_Name := ''txt'' @ itoa (int i), fd_Write := True, fd_KeepSpaces := True\<rparr>)]"

definition buildEditorScreen :: "int \<Rightarrow> editor_view \<Rightarrow> screen3270 \<times> cursor" where
  "buildEditorScreen rows v =
     (let n = length (ev_Lines v);
          row = (if n = 0 then 4 else 4 + int (n - 1))
      in ([title_at 0 (centerCol (int (length (ev_Title v)))) (ev_Title v),
           text_at 0 60 DefaultColor (ev_RowInfo v),
           text_at bodyTopRow 3 Blue editorRuler]
          @ concat (map (\<lambda>(i, ln). editor_row i ln) (zip [0..<n] (ev_Lines v)))
          @ [field_at (row + 1) 0,
             text_at (legendRow rows) 2 Turquoise
               ''Prefix: I=Insert  D=Delete  R=Repeat    Yellow lines: re-import to change'',
             error_at messageRow 2 (ev_ErrMsg v),
             text_at (helpRow rows) 0 Blue (ev_PFHelp v)],
          if ev_Lines v = [] then home else (4, 1)))"

end
