(* ===== verification/Panels.thy ===== *)
theory Panels
  imports Widgets Session
begin

text \<open>
  The panels of internal/screens: menu.go, login.go, help.go, news.go, mfa.go, usersettings.go,
  admin.go and commandline.go, and \<open>paint\<close>, the screen that stands behind every view the
  presenter and the drivers show.
\<close>

section \<open>Common parts\<close>

definition cursorAt :: "field3270 \<Rightarrow> cursor" where "cursorAt f = (fd_Row f, fd_Col f + 1)"

definition commandLine :: "string \<Rightarrow> string \<Rightarrow> field3270 \<times> field3270 \<times> field3270" where
  "commandLine prompt fieldName =
     (text_at 1 0 Turquoise prompt, input_at 1 (0 + 1 + int (length prompt)) fieldName, field_at 1 79)"

definition title_line :: "geometry \<Rightarrow> string \<Rightarrow> field3270" where
  "title_line geom t = title_at 0 (geo_CenterCol geom (int (length t))) t"

definition messageLine :: "string \<Rightarrow> field3270" where "messageLine errMsg = error_at 2 2 errMsg"

definition help_line :: "geometry \<Rightarrow> string \<Rightarrow> field3270" where "help_line geom t = text_at (geo_HelpRow geom) 0 Blue t"

definition option_cells :: "int \<Rightarrow> color \<Rightarrow> string \<Rightarrow> string \<Rightarrow> string \<Rightarrow> screen3270" where
  "option_cells row clr key name desc =
     [(text_at row 0 clr key)\<lparr>fd_Intense := True\<rparr>, text_at row 6 Turquoise name, text_at row 17 Green desc]"

definition right_col :: "string \<Rightarrow> int" where "right_col s = max (79 - int (length s)) 0"

section \<open>The status block\<close>

definition truncateRunes :: "string \<Rightarrow> nat \<Rightarrow> string" where
  "truncateRunes s n = (if n < length s then take n s else s)"

definition julianDate :: "go_time \<Rightarrow> string" where
  "julianDate t =
     (case days_civil (day_of t) of (y, m, d) \<Rightarrow> zpad 2 (y mod 100) @ ''.'' @ zpad 3 (year_day (y, m, d)))"

definition clockHM :: "go_time \<Rightarrow> string" where "clockHM t = hm_string t"

definition termDisplay :: "string \<Rightarrow> string" where
  "termDisplay t =
     (let t1 = (if prefix ''IBM-'' t then drop 4 t else t)
      in trim_right (\<lambda>c. c = CHR ''-'') (truncateRunes t1 7))"

definition statusBlock :: "int \<Rightarrow> (string \<times> string) list \<Rightarrow> screen3270" where
  "statusBlock startRow rs =
     (let labelCol = StatusBlockCol; valueCol = labelCol + 10 + 1
      in concat (map (\<lambda>(i, label, val).
           [text_at (startRow + int i) labelCol Turquoise label, text_at (startRow + int i) valueCol Green val])
           (zip [0..<length rs] rs)))"

definition statusBlockFields :: "menu_status \<Rightarrow> screen3270" where
  "statusBlockFields status = statusBlock BodyTopRow
     [(''User ID. :'', truncateRunes (to_upper (ms_Username status)) 7),
      (''Date . . :'', julianDate (ms_Now status)),
      (''Time . . :'', clockHM (ms_Now status)),
      (''Terminal :'', termDisplay (ms_TermType status)),
      (''System ID:'', truncateRunes (ms_SystemID status) 7),
      (''Release. :'', truncateRunes (ms_Release status) 7)]"

section \<open>The service menu\<close>

definition MenuScreen ::
  "geometry \<Rightarrow> service list \<Rightarrow> bool \<Rightarrow> bool \<Rightarrow> menu_status \<Rightarrow> string \<Rightarrow> int \<Rightarrow>
   screen3270 \<times> (string \<times> service) list \<times> cursor" where
  "MenuScreen geom services admin settingsLocked status errMsg page =
     (case MenuPageBounds geom (int (length services)) admin page of
        (clamped, start, end, indicator) \<Rightarrow>
          let settings = (if clamped = 0 \<and> \<not> settingsLocked
                          then option_cells BodyTopRow DefaultColor ''  0'' ''Settings'' ''User and security parameters'' else []);
              row = (if clamped = 0 \<and> \<not> settingsLocked then BodyTopRow + 1 else BodyTopRow);
              window = slice services start end;
              list = concat (map (\<lambda>(i, svc). option_cells (row + int i) DefaultColor
                       (pad_left (CHR '' '') 3 (itoa (start + int i + 1)))
                       (truncateRunes (s_Name svc) 8) (truncateRunes (s_Description svc) 40)) (zip [0..<length window] window));
              metaRow = row + int (length window) + 1;
              (promptF, selection, stopF) = commandLine ''Option ===>'' FieldSelection
          in ([title_line geom ''TN3270 GATEWAY MENU'', text_at 0 (right_col indicator) Turquoise indicator]
              @ settings @ list
              @ (if services = [] then [text_at row 6 DefaultColor ''(no services available for your account)''] else [])
              @ (if admin then option_cells metaRow DefaultColor ''  A'' ''Admin'' ''System Administration'' else [])
              @ statusBlockFields status
              @ [promptF, selection\<lparr>fd_NumericOnly := \<not> admin\<rparr>, stopF, messageLine errMsg,
                 help_line geom ''PF1=Help  PF3=Logoff  PF7=PgUp  PF8=PgDn  (PA3 returns here from a session)''],
              menu_mapping services, cursorAt selection))"

section \<open>Login\<close>

definition loginCopyright :: string where "loginCopyright = ''(C) Copyright CoffeeMuse 2026''"

definition LoginScreen :: "geometry \<Rightarrow> menu_status \<Rightarrow> string list \<Rightarrow> string \<Rightarrow> screen3270 \<times> cursor" where
  "LoginScreen geom status branding errMsg =
     (let row = BodyBottomRow geom;
          username = input_at row 15 FieldUsername;
          h = LoginBrandingHeight geom;
          ls = take (nat h) branding;
          pad = (h - int (length ls)) div 2
      in ([title_line geom ''TN3270 GATEWAY LOGIN'',
           error_at 1 2 (truncateRunes errMsg 56),
           text_at row 2 Turquoise ''User ID . . :'',
           username,
           field_at row 28,
           text_at row 30 Turquoise ''Password . . :'',
           (input_at row 44 FieldPassword)\<lparr>fd_Hidden := True\<rparr>,
           field_at row 79,
           help_line geom ''PF3=Disconnect'',
           text_at (geo_HelpRow geom) (right_col loginCopyright) White loginCopyright]
          @ statusBlock 0
              [(''Date . . :'', julianDate (ms_Now status)),
               (''Time . . :'', clockHM (ms_Now status)),
               (''System ID:'', truncateRunes (ms_SystemID status) 7),
               (''Release. :'', truncateRunes (ms_Release status) 7)]
          @ concat (map (\<lambda>(i, ln). if ln = [] then [] else [text_at (LoginBrandingTop + pad + int i) 0 Turquoise ln])
              (zip [0..<length ls] ls)),
          cursorAt username))"

text \<open>\<open>go3270.Rules\<close>: the fields that must not be blank, with the text shown when they are.\<close>

definition LoginRules :: "(string \<times> string) list" where "LoginRules = [(FieldUsername, ''User ID is required'')]"
definition MFARules :: "(string \<times> string) list" where "MFARules = [(FieldMFACode, ''Code is required'')]"

section \<open>Help, news and the second factor\<close>

definition HelpScreen :: "geometry \<Rightarrow> string \<Rightarrow> string list \<Rightarrow> int \<Rightarrow> screen3270 \<times> cursor" where
  "HelpScreen geom title ls page =
     (case HelpPageBounds geom (int (length ls)) page of
        (_, start, end, indicator) \<Rightarrow>
          let window = slice ls start end
          in ([title_line geom title, text_at 0 (right_col indicator) Turquoise indicator]
              @ map (\<lambda>(i, l). text_at (BodyTopRow + int i) 0 Green (truncateRunes l 79)) (zip [0..<length window] window)
              @ [help_line geom ''PF3=Return   PF7=PgUp  PF8=PgDn''], home))"

definition NewsScreen :: "string list \<Rightarrow> screen3270 \<times> cursor" where
  "NewsScreen page =
     (map (\<lambda>(i, l). text_at (int i) 0 Red l) (zip [0..<length page] page)
      @ [text_at (int (length page) + 1) 0 Red ''***''], home)"

definition EnrollMFAScreen :: "geometry \<Rightarrow> string \<Rightarrow> string \<Rightarrow> string \<Rightarrow> string \<Rightarrow> screen3270 \<times> cursor" where
  "EnrollMFAScreen geom issuer account chunkedSecret errMsg =
     (let labelCol = 2; valueCol = 25;
          code = (input_at 11 valueCol FieldMFACode)\<lparr>fd_NumericOnly := True\<rparr>
      in ([title_line geom ''TN3270 GATEWAY: MFA ENROLLMENT'',
           (text_at 3 labelCol Yellow ''Multi-factor authentication is now required for your account.'')\<lparr>fd_Intense := True\<rparr>,
           text_at 5 labelCol Turquoise ''Enter the key below into your authenticator app (any TOTP app),'',
           text_at 6 labelCol Turquoise ''then type the current 6-digit code to confirm enrollment.'',
           text_at 8 labelCol Turquoise ''Issuer  . . . . . . :'', text_at 8 valueCol Turquoise issuer,
           text_at 9 labelCol Turquoise ''Account . . . . . . :'', text_at 9 valueCol Turquoise account,
           text_at 10 labelCol Turquoise ''Key . . . . . . . . :'', title_at 10 valueCol chunkedSecret,
           text_at 11 labelCol Turquoise ''Confirmation code . :'', code, field_at 11 (valueCol + 1 + 6),
           text_at 13 labelCol Turquoise ''Save the key in your app before confirming. It won't be shown again.'',
           error_at 2 labelCol errMsg,
           help_line geom ''Enter=Confirm   PF3=Cancel''],
          cursorAt code))"

definition VerifyMFAScreen :: "geometry \<Rightarrow> string \<Rightarrow> screen3270 \<times> cursor" where
  "VerifyMFAScreen geom errMsg =
     (let introRow = BodyTopRow; codeRow = introRow + 2; hintRow = codeRow + 3;
          code = (input_at codeRow 16 FieldMFACode)\<lparr>fd_NumericOnly := True\<rparr>
      in ([title_line geom ''TN3270 GATEWAY: MFA VERIFICATION'',
           text_at introRow 2 Turquoise ''Enter the current 6-digit code from your authenticator app.'',
           text_at codeRow 2 Turquoise ''Code . . . :'', code, field_at codeRow 23,
           text_at hintRow 2 Turquoise ''Lost your device? Contact your administrator to reset MFA.'',
           messageLine errMsg,
           help_line geom ''Enter=Verify   PF3=Cancel''],
          cursorAt code))"

section \<open>Option menus\<close>

definition option_menu :: "geometry \<Rightarrow> screen3270 \<Rightarrow> int \<Rightarrow> (string \<times> string \<times> string) list \<Rightarrow> string \<Rightarrow> string \<Rightarrow> string \<Rightarrow>
    screen3270 \<times> cursor" where \<comment> \<open>what admin.go and usersettings.go write alike\<close>
  "option_menu geom head topRow opts fieldName errMsg help =
     (let (promptF, option, stopF) = commandLine ''Option ===>'' fieldName
      in (head
          @ concat (map (\<lambda>(i, key, name, desc). option_cells (topRow + int i) White (''  '' @ key) name desc)
              (zip [0..<length opts] opts))
          @ [promptF, option, stopF, messageLine errMsg, help_line geom help],
          cursorAt option))"

definition admin_options :: "(string \<times> string \<times> string) list" where
  "admin_options =
     [(''1'', ''Users'', ''User accounts and group membership''),
      (''2'', ''Groups'', ''Group definitions''),
      (''3'', ''Services'', ''Backend TN3270 services''),
      (''4'', ''Sysparms'', ''Runtime system parameters''),
      (''5'', ''Networks'', ''Trusted networks (DoS allow-list)''),
      (''6'', ''Audit'', ''Browse the audit trail''),
      (''7'', ''Sessions'', ''Active client sessions''),
      (''8'', ''Documents'', ''MOTD and login branding text'')]"

definition AdminMenuScreen :: "geometry \<Rightarrow> string \<Rightarrow> screen3270 \<times> cursor" where
  "AdminMenuScreen geom errMsg =
     option_menu geom [title_line geom ''TN3270 GATEWAY ADMIN''] BodyTopRow admin_options FieldOption errMsg ''PF3=Main Menu''"

definition UserSettingsScreen :: "geometry \<Rightarrow> string \<Rightarrow> (string \<times> string \<times> string) list \<Rightarrow> string \<Rightarrow> screen3270 \<times> cursor" where
  "UserSettingsScreen geom username rows errMsg =
     option_menu geom [title_line geom ''TN3270 GATEWAY USER SETTINGS'', text_at BodyTopRow 2 Turquoise (''User: '' @ username)]
       (BodyTopRow + 2) rows FieldUSOption errMsg ''PF3=Service Menu''"

section \<open>Every view\<close>

text \<open>The panels take the terminal's geometry, the widgets its row count.\<close>

fun paint :: "geometry \<Rightarrow> view \<Rightarrow> screen3270 \<times> cursor" where
  "paint g (VLogin status branding errMsg) = LoginScreen g status branding errMsg"
| "paint g (VMenu svcs admin locked status errMsg page) =
     (case MenuScreen g svcs admin locked status errMsg page of (s, _, c) \<Rightarrow> (s, c))"
| "paint g (VHelp title ls page) = HelpScreen g title ls page"
| "paint g (VUserSettings username rows errMsg) = UserSettingsScreen g username rows errMsg"
| "paint g (VNews page) = NewsScreen page"
| "paint g (VEnroll issuer account secret errMsg) = EnrollMFAScreen g issuer account secret errMsg"
| "paint g (VVerify errMsg) = VerifyMFAScreen g errMsg"
| "paint g (VAdminMenu errMsg) = AdminMenuScreen g errMsg"
| "paint g (VList v) = buildListScreen (geo_Rows g) v"
| "paint g (VForm v) = buildFormScreen (geo_Rows g) v"
| "paint g (VSnapshot v) = buildSnapshotScreen (geo_Rows g) v"
| "paint g (VDetail v) = buildDetailScreen (geo_Rows g) v"
| "paint g (VEditor v) = buildEditorScreen (geo_Rows g) v"

end
