(* ===== verification/Screen_Facts.thy ===== *)
theory Screen_Facts
  imports Panels
begin

text \<open>
  When a screen is laid out well: every field lies inside the terminal's rows and the columns
  0-79, no field's content runs into another's attribute byte or content, and how many columns
  an input has before the next attribute byte ends it.
\<close>

section \<open>Well laid out screens\<close>

definition fd_End :: "field3270 \<Rightarrow> int" where "fd_End f = fd_Col f + int (length (fd_Content f))"

definition fits :: "int \<Rightarrow> field3270 \<Rightarrow> bool" where
  "fits rows f \<longleftrightarrow> 0 \<le> fd_Row f \<and> fd_Row f < rows \<and> 0 \<le> fd_Col f \<and> fd_End f \<le> 79"

definition apart :: "field3270 \<Rightarrow> field3270 \<Rightarrow> bool" where
  "apart f g \<longleftrightarrow> fd_Row f \<noteq> fd_Row g \<or> fd_End f < fd_Col g \<or> fd_End g < fd_Col f"

definition screen_ok :: "int \<Rightarrow> screen3270 \<Rightarrow> bool" where
  "screen_ok rows s \<longleftrightarrow> list_all (fits rows) s \<and> sorted_wrt apart s"

definition address :: "int \<Rightarrow> field3270 \<Rightarrow> int" where "address w f = fd_Row f * w + fd_Col f"

text \<open>The columns from an input to the next attribute byte, on a terminal \<open>w\<close> columns wide.\<close>

definition input_room :: "int \<Rightarrow> int \<Rightarrow> screen3270 \<Rightarrow> field3270 \<Rightarrow> int" where
  "input_room rows w s f =
     foldr (\<lambda>g a. if address w f < address w g then min a (address w g) else a) s (rows * w) - address w f - 1"

definition inputs :: "screen3270 \<Rightarrow> screen3270" where "inputs s = filter fd_Write s"

lemma apart_sym: "apart f g \<Longrightarrow> apart g f"
  by (auto simp: apart_def)

lemma screen_ok_Nil [simp]: "screen_ok rows []"
  by (simp add: screen_ok_def)

lemma screen_ok_Cons: "screen_ok rows (f # s) \<longleftrightarrow> fits rows f \<and> (\<forall>g\<in>set s. apart f g) \<and> screen_ok rows s"
  by (auto simp: screen_ok_def)

lemma screen_ok_append:
  "screen_ok rows (s @ t) \<longleftrightarrow> screen_ok rows s \<and> screen_ok rows t \<and> (\<forall>f\<in>set s. \<forall>g\<in>set t. apart f g)"
  by (auto simp: screen_ok_def sorted_wrt_append)

lemma screen_ok_fits: "screen_ok rows s \<Longrightarrow> f \<in> set s \<Longrightarrow> fits rows f"
  by (auto simp: screen_ok_def list_all_iff)

lemma screen_ok_mono: "screen_ok rows s \<Longrightarrow> rows \<le> rows' \<Longrightarrow> screen_ok rows' s"
  by (auto simp: screen_ok_def list_all_iff fits_def)

lemma other_rows_apart: "fd_Row f \<noteq> fd_Row g \<Longrightarrow> apart f g"
  by (simp add: apart_def)

lemma inputs_simps [simp]:
  "inputs [] = []" "inputs (f # s) = (if fd_Write f then [f] else []) @ inputs s" "inputs (s @ t) = inputs s @ inputs t"
  by (simp_all add: inputs_def)

lemma inputs_concat: "inputs (concat ss) = concat (map inputs ss)"
  by (induction ss) auto

lemma set_inputs [simp]: "f \<in> set (inputs s) \<longleftrightarrow> f \<in> set s \<and> fd_Write f"
  by (auto simp: inputs_def)

lemma field_sel [simp]:
  "fd_Row (field_at r c) = r" "fd_Col (field_at r c) = c" "fd_Content (field_at r c) = []" "fd_Write (field_at r c) = False"
  "fd_Name (field_at r c) = []"
  "fd_Row (text_at r c k s) = r" "fd_Col (text_at r c k s) = c" "fd_Content (text_at r c k s) = s" "fd_Write (text_at r c k s) = False"
  "fd_Row (input_at r c n) = r" "fd_Col (input_at r c n) = c" "fd_Content (input_at r c n) = []" "fd_Write (input_at r c n)"
  "fd_Name (input_at r c n) = n"
  "fd_Row (title_at r c s) = r" "fd_Col (title_at r c s) = c" "fd_Content (title_at r c s) = s" "\<not> fd_Write (title_at r c s)"
  "fd_Row (error_at r c s) = r" "fd_Col (error_at r c s) = c" "fd_Content (error_at r c s) = s" "\<not> fd_Write (error_at r c s)"
  by (simp_all add: field_at_def text_at_def input_at_def title_at_def error_at_def)

lemma fd_End_upd [simp]:
  "fd_End (f\<lparr>fd_Name := n\<rparr>) = fd_End f" "fd_End (f\<lparr>fd_Write := b\<rparr>) = fd_End f" "fd_End (f\<lparr>fd_Intense := b\<rparr>) = fd_End f"
  "fd_End (f\<lparr>fd_Hidden := b\<rparr>) = fd_End f" "fd_End (f\<lparr>fd_NumericOnly := b\<rparr>) = fd_End f"
  "fd_End (f\<lparr>fd_KeepSpaces := b\<rparr>) = fd_End f" "fd_End (f\<lparr>fd_Content := s\<rparr>) = fd_Col f + int (length s)"
  by (simp_all add: fd_End_def)

lemma fd_End_at [simp]:
  "fd_End (field_at r c) = c" "fd_End (text_at r c k s) = c + int (length s)" "fd_End (input_at r c n) = c"
  "fd_End (title_at r c s) = c + int (length s)" "fd_End (error_at r c s) = c + int (length s)"
  by (simp_all add: fd_End_def)

lemmas layout_simps = screen_ok_Cons screen_ok_append fits_def apart_def

text \<open>The pairs of fields that run into each other.\<close>

fun clashes :: "screen3270 \<Rightarrow> (field3270 \<times> field3270) list" where
  "clashes [] = []"
| "clashes (f # s) = map (Pair f) (filter (\<lambda>g. \<not> apart f g) s) @ clashes s"

lemma clashes_Nil: "clashes s = [] \<longleftrightarrow> sorted_wrt apart s"
  by (induction s) (auto simp: filter_empty_conv)

lemma screen_ok_clashes: "screen_ok rows s \<longleftrightarrow> list_all (fits rows) s \<and> clashes s = []"
  by (simp add: screen_ok_def clashes_Nil)

lemma clashes_append: "(\<And>f g. f \<in> set s \<Longrightarrow> g \<in> set t \<Longrightarrow> apart f g) \<Longrightarrow> clashes (s @ t) = clashes s @ clashes t"
  by (induction s) (auto simp: filter_empty_conv)

section \<open>Loops over rows\<close>

lemma zip_upt_snoc: "zip [0..<length (xs @ [x])] (xs @ [x]) = zip [0..<length xs] xs @ [(length xs, x)]"
  by (simp add: zip_append1)

lemma row_cell:
  assumes "f \<in> set (concat (map (\<lambda>(i, x). g i x) (zip [0..<length xs] xs)))"
  obtains i where "i < length xs" "f \<in> set (g i (xs ! i))"
  using assms by (auto simp: set_zip)

lemma row_cellI:
  "i < length xs \<Longrightarrow> f \<in> set (g i (xs ! i)) \<Longrightarrow> f \<in> set (concat (map (\<lambda>(i, x). g i x) (zip [0..<length xs] xs)))"
  by (auto simp: set_zip intro!: exI[of _ i] exI[of _ "xs ! i"])

lemma rows_ok:
  assumes "\<And>i. i < length xs \<Longrightarrow> screen_ok rows (g i (xs ! i)) \<and> (\<forall>f\<in>set (g i (xs ! i)). fd_Row f = r i)"
    and "\<And>i j. i < j \<Longrightarrow> r i \<noteq> (r j :: int)"
  shows "screen_ok rows (concat (map (\<lambda>(i, x). g i x) (zip [0..<length xs] xs)))"
  using assms(1)
proof (induction xs rule: rev_induct)
  case (snoc x xs)
  have old: "screen_ok rows (g i (xs ! i)) \<and> (\<forall>f\<in>set (g i (xs ! i)). fd_Row f = r i)" if "i < length xs" for i
    using snoc.prems[of i] that by (simp add: nth_append)
  have new: "screen_ok rows (g (length xs) x)" "\<forall>f\<in>set (g (length xs) x). fd_Row f = r (length xs)"
    using snoc.prems[of "length xs"] by simp_all
  have "apart f h" if "f \<in> set (concat (map (\<lambda>(i, x). g i x) (zip [0..<length xs] xs)))" "h \<in> set (g (length xs) x)" for f h
    using that(1)
  proof (rule row_cell)
    fix i assume "i < length xs" "f \<in> set (g i (xs ! i))"
    with old new(2) that(2) assms(2)[of i "length xs"] show ?thesis by (intro other_rows_apart) auto
  qed
  with snoc.IH[OF old] new(1) show ?case unfolding zip_upt_snoc by (simp add: screen_ok_append)
qed simp

lemma rows_inputs:
  "inputs (concat (map (\<lambda>(i, x). g i x) (zip [0..<length xs] xs))) =
   concat (map (\<lambda>(i, x). inputs (g i x)) (zip [0..<length xs] xs))"
  by (simp add: inputs_concat comp_def case_prod_unfold)

lemma concat_singles: "concat (map (\<lambda>(i, x). [g i x]) xs) = map (\<lambda>(i, x). g i x) xs"
  by (induction xs) auto

section \<open>The room of an input\<close>

lemma foldr_next:
  fixes a0 :: int
  shows "(\<forall>g\<in>set s. address w g \<le> a \<or> b \<le> address w g) \<Longrightarrow> b \<le> a0 \<Longrightarrow> (\<exists>g\<in>set s. address w g = b) \<or> b = a0 \<Longrightarrow> a < b \<Longrightarrow>
   foldr (\<lambda>g acc. if a < address w g then min acc (address w g) else acc) s a0 = b"
proof (induction s)
  case (Cons g s)
  let ?h = "\<lambda>g acc. if a < address w g then min acc (address w g) else acc"
  have lb: "b \<le> foldr ?h t a0" if "\<forall>g\<in>set t. address w g \<le> a \<or> b \<le> address w g" for t
    using that Cons.prems(2) by (induction t) auto
  show ?case
  proof (cases "(\<exists>g\<in>set s. address w g = b) \<or> b = a0")
    case True
    then have "foldr ?h s a0 = b" using Cons by simp
    with Cons.prems(1) show ?thesis by auto
  next
    case False
    then have "address w g = b" using Cons.prems(3) by auto
    with lb[of s] Cons.prems show ?thesis by (simp add: min_def)
  qed
qed auto

text \<open>On screens as wide as the content or wider, what ends an input is on its own row if anything is.\<close>

lemma input_roomI:
  assumes "80 \<le> w" "\<forall>g\<in>set s. 0 \<le> fd_Col g \<and> fd_Col g < 80" "e \<in> set s" "fd_Row e = fd_Row f" "fd_Col e = fd_Col f + k + 1"
    and "0 \<le> k" "0 \<le> fd_Col f" "fd_Row f < rows"
    and "\<forall>g\<in>set s. fd_Row g = fd_Row f \<longrightarrow> fd_Col g \<le> fd_Col f \<or> fd_Col e \<le> fd_Col g"
  shows "input_room rows w s f = k"
proof -
  have row: "x * w + 80 \<le> y * w" if "x < y" for x y :: int
  proof -
    have "(x + 1) * w \<le> y * w" using that assms(1) by (intro mult_right_mono) auto
    with assms(1) show ?thesis by (simp add: distrib_right)
  qed
  have e: "address w e = address w f + k + 1" using assms(4,5) by (simp add: address_def)
  have col: "fd_Col f < 80" using assms(2,3,5,6) by force
  have "address w g \<le> address w f \<or> address w e \<le> address w g" if "g \<in> set s" for g
  proof (cases "fd_Row g" "fd_Row f" rule: linorder_cases)
    case less
    with row[of "fd_Row g" "fd_Row f"] assms(2,7) that show ?thesis by (fastforce simp: address_def)
  next
    case equal
    with assms(9,4) that show ?thesis by (auto simp: address_def)
  next
    case greater
    have "fd_Col e < 80" "0 \<le> fd_Col g" using assms(2,3) that by auto
    with row[OF greater] assms(4) show ?thesis by (simp add: address_def)
  qed
  moreover have "address w e \<le> rows * w"
    using row[OF assms(8)] assms(2,3,4) by (fastforce simp: address_def)
  ultimately show ?thesis
    unfolding input_room_def using foldr_next[of s w "address w f" "address w e" "rows * w", OF _ _ disjI1[OF bexI[OF refl assms(3)]]] assms(6) e
    by simp
qed

section \<open>Lengths\<close>

lemma length_show_nat: "n < 10 ^ k \<Longrightarrow> 0 < k \<Longrightarrow> length (show_nat n) \<le> k"
proof (induction k arbitrary: n)
  case (Suc k)
  show ?case
  proof (cases "n < 10")
    case False
    with Suc.prems have "n div 10 < 10 ^ k" "0 < k" by (auto simp: less_mult_imp_div_less mult.commute intro: Nat.gr0I)
    with Suc.IH[of "n div 10"] False show ?thesis by (subst show_nat.simps) simp
  qed (subst show_nat.simps, simp)
qed simp

lemma length_itoa: "0 \<le> i \<Longrightarrow> i < 10 ^ k \<Longrightarrow> 0 < k \<Longrightarrow> length (itoa i) \<le> k"
proof -
  assume i: "0 \<le> i" "i < 10 ^ k" "0 < k"
  then have "nat i < nat (10 ^ k)" by linarith
  then have "nat i < 10 ^ k" by (simp add: nat_power_eq)
  with i length_show_nat[of "nat i" k] show ?thesis by (simp add: itoa_def)
qed

lemma length_zpad: "0 \<le> i \<Longrightarrow> i < 10 ^ k \<Longrightarrow> 0 < k \<Longrightarrow> length (zpad k i) = k"
  using length_itoa[of i k] by (simp add: zpad_def pad_left_def)

lemma normRows_ge: "24 \<le> normRows rows"
  by (simp add: normRows_def)

lemma centerCol_bounds: "0 \<le> centerCol n" "0 \<le> n \<Longrightarrow> n \<le> 79 \<Longrightarrow> centerCol n + n \<le> 79"
  by (auto simp: centerCol_def Let_def)

end
