(* ===== verification/Panel_Props.thy ===== *)
theory Panel_Props
  imports Screen_Facts
begin

text \<open>
  What the panels of internal/screens guarantee: the login screen and the service menu are laid
  out without overlap on the terminals their title is centred for, and a number on the menu
  selects the service it stands beside.
\<close>

section \<open>The status block\<close>

lemma civil_day: "days_civil z = (y, m, d) \<Longrightarrow> 1 \<le> d \<and> d \<le> 31"
proof -
  assume a: "days_civil z = (y, m, d)"
  have b: "1 \<le> k - (153 * ((5 * k + 2) div 153) + 2) div 5 + 1 \<and> k - (153 * ((5 * k + 2) div 153) + 2) div 5 + 1 \<le> 31" for k :: int
  proof -
    define q where "q = (5 * k + 2) div 153"
    define p where "p = (153 * q + 2) div 5"
    have "5 * k + 2 = 153 * q + (5 * k + 2) mod 153" "153 * q + 2 = 5 * p + (153 * q + 2) mod 5" by (simp_all add: p_def q_def)
    moreover have "0 \<le> (5 * k + 2) mod 153" "(5 * k + 2) mod 153 < 153" "0 \<le> (153 * q + 2) mod 5" "(153 * q + 2) mod 5 < 5"
      by simp_all
    ultimately have "153 * q \<le> 5 * k + 2" "5 * k + 2 < 153 * q + 153" "5 * p \<le> 153 * q + 2" "153 * q + 2 < 5 * p + 5"
      by linarith+
    then have "1 \<le> k - p + 1 \<and> k - p + 1 \<le> 31" by simp
    then show ?thesis by (simp add: p_def q_def)
  qed
  have "\<exists>k. d = k - (153 * ((5 * k + 2) div 153) + 2) div 5 + 1"
    using a[symmetric] unfolding days_civil_def Let_def prod.inject by blast
  with b show ?thesis by blast
qed

lemma year_day_bounds: "1 \<le> d \<Longrightarrow> d \<le> 31 \<Longrightarrow> 0 \<le> year_day (y, m, d) \<and> year_day (y, m, d) < 1000"
proof -
  assume d: "1 \<le> d" "d \<le> 31"
  let ?ms = "[31, if is_leap y then 29 else 28, 31, 30, 31, 30, 31, 31, 30, 31, 30, 31 :: int]"
  have "0 \<le> sum_list (take n ?ms) \<and> sum_list (take n ?ms) \<le> 366" for n
  proof -
    have "sum_list (take n ?ms) + sum_list (drop n ?ms) = sum_list ?ms" by (metis append_take_drop_id sum_list_append)
    moreover have "0 \<le> sum_list (drop n ?ms)" "0 \<le> sum_list (take n ?ms)"
      by (rule sum_list_nonneg, force dest: in_set_dropD in_set_takeD)+
    moreover have "sum_list ?ms \<le> 366" by simp
    ultimately show ?thesis by linarith
  qed
  from this[of "nat (m - 1)"] d show ?thesis by (simp add: year_day_def)
qed

lemma length_julianDate: "length (julianDate t) = 6"
proof -
  obtain y m d where c: "days_civil (day_of t) = (y, m, d)" by (metis prod_cases3)
  have "length (zpad 2 (y mod 100)) = 2" by (rule length_zpad) simp_all
  moreover have "length (zpad 3 (year_day (y, m, d))) = 3"
    using civil_day[OF c] year_day_bounds[of d y m] by (intro length_zpad) simp_all
  ultimately show ?thesis by (simp add: julianDate_def c)
qed

lemma length_clockHM: "length (clockHM t) \<le> 5"
  by (simp add: clockHM_def hm_string_def)

lemma length_truncateRunes: "length (truncateRunes s n) \<le> n"
  by (simp add: truncateRunes_def)

lemma length_trim_right: "length (trim_right P s) \<le> length s"
  using length_dropWhile_le[of P "rev s"] by (simp add: trim_right_def)

lemma length_termDisplay: "length (termDisplay t) \<le> 7"
  unfolding termDisplay_def Let_def by (rule order.trans[OF length_trim_right length_truncateRunes])

lemma status_ok:
  assumes "\<forall>(l, v)\<in>set rs. length l \<le> 10 \<and> length v \<le> 7" "0 \<le> start" "start + int (length rs) \<le> rows"
  shows "screen_ok rows (statusBlock start rs)"
    and "\<forall>f\<in>set (statusBlock start rs). start \<le> fd_Row f \<and> fd_Row f < start + int (length rs) \<and> 60 \<le> fd_Col f"
proof -
  let ?g = "\<lambda>i (l, v). [text_at (start + int i) 60 Turquoise l, text_at (start + int i) 71 Green v]"
  have e: "statusBlock start rs = concat (map (\<lambda>(i, x). ?g i x) (zip [0..<length rs] rs))"
    by (simp add: statusBlock_def StatusBlockCol_def Let_def)
  have row: "screen_ok rows (?g i (rs ! i)) \<and> (\<forall>f\<in>set (?g i (rs ! i)). fd_Row f = start + int i \<and> 60 \<le> fd_Col f)"
    if i: "i < length rs" for i
  proof -
    obtain l v where lv: "rs ! i = (l, v)" by (cases "rs ! i")
    then have "(l, v) \<in> set rs" using nth_mem[OF i] by simp
    then have "length l \<le> 10" "length v \<le> 7" using assms(1) by blast+
    with assms(2,3) i show ?thesis by (simp add: lv layout_simps)
  qed
  show "screen_ok rows (statusBlock start rs)"
    unfolding e by (rule rows_ok[where r = "\<lambda>i. start + int i" and g = ?g]) (use row in blast, simp)
  show "\<forall>f\<in>set (statusBlock start rs). start \<le> fd_Row f \<and> fd_Row f < start + int (length rs) \<and> 60 \<le> fd_Col f"
  proof
    fix f assume "f \<in> set (statusBlock start rs)"
    then obtain i where "i < length rs" "f \<in> set (?g i (rs ! i))" unfolding e by (rule row_cell)
    with row[of i] have "fd_Row f = start + int i" "60 \<le> fd_Col f" "i < length rs" by blast+
    then show "start \<le> fd_Row f \<and> fd_Row f < start + int (length rs) \<and> 60 \<le> fd_Col f" by simp
  qed
qed

lemma status_inputs: "inputs (statusBlock start rs) = []"
  by (induction rs rule: rev_induct) (auto simp: statusBlock_def Let_def inputs_concat comp_def case_prod_unfold)

section \<open>Login\<close>

lemma geo_rows: "24 \<le> geo_Rows (geo_norm g)" "80 \<le> geo_Cols (geo_norm g)"
  by (auto simp: geo_norm_def DefaultGeometry_def)

lemma branding_width: "\<forall>l\<in>set (SplitBranding raw). length l \<le> 79"
  using drop_blank_tail_subset[of "map news_line (split_on (char_of (10 :: nat)) raw)"]
  by (fastforce simp: SplitBranding_def news_line_def newsMaxCols_def)

lemma branding_ok:
  assumes "\<forall>l\<in>set ls. length l \<le> 79" "4 \<le> t" "t + int (length ls) \<le> rows"
  shows "screen_ok rows (concat (map (\<lambda>(i, ln). if ln = [] then [] else [text_at (t + int i) 0 Turquoise ln]) (zip [0..<length ls] ls)))"
    and "\<forall>f\<in>set (concat (map (\<lambda>(i, ln). if ln = [] then [] else [text_at (t + int i) 0 Turquoise ln]) (zip [0..<length ls] ls))).
      t \<le> fd_Row f \<and> fd_Row f < t + int (length ls) \<and> \<not> fd_Write f \<and> fd_Col f = 0"
proof -
  let ?g = "\<lambda>i ln. if ln = [] then [] else [text_at (t + int i) 0 Turquoise ln]"
  have row: "screen_ok rows (?g i (ls ! i)) \<and> (\<forall>f\<in>set (?g i (ls ! i)). fd_Row f = t + int i \<and> \<not> fd_Write f \<and> fd_Col f = 0)"
    if "i < length ls" for i
    using that assms nth_mem[OF that] by (auto simp: layout_simps)
  show "screen_ok rows (concat (map (\<lambda>(i, ln). ?g i ln) (zip [0..<length ls] ls)))"
    by (rule rows_ok[where r = "\<lambda>i. t + int i"]) (use row in auto)
  show "\<forall>f\<in>set (concat (map (\<lambda>(i, ln). ?g i ln) (zip [0..<length ls] ls))).
      t \<le> fd_Row f \<and> fd_Row f < t + int (length ls) \<and> \<not> fd_Write f \<and> fd_Col f = 0"
  proof
    fix f assume "f \<in> set (concat (map (\<lambda>(i, ln). ?g i ln) (zip [0..<length ls] ls)))"
    then obtain i where "i < length ls" "f \<in> set (?g i (ls ! i))" by (rule row_cell)
    with row show "t \<le> fd_Row f \<and> fd_Row f < t + int (length ls) \<and> \<not> fd_Write f \<and> fd_Col f = 0" by fastforce
  qed
qed

text \<open>The rows of the login screen below its title.\<close>

definition login_top :: "geometry \<Rightarrow> string list \<Rightarrow> int" where
  "login_top g ls = LoginBrandingTop + (LoginBrandingHeight g - int (length ls)) div 2"

definition login_fixed :: "geometry \<Rightarrow> string \<Rightarrow> screen3270" where
  "login_fixed g err =
     (let row = BodyBottomRow g
      in [error_at 1 2 (truncateRunes err 56), text_at row 2 Turquoise ''User ID . . :'', input_at row 15 FieldUsername,
          field_at row 28, text_at row 30 Turquoise ''Password . . :'', (input_at row 44 FieldPassword)\<lparr>fd_Hidden := True\<rparr>,
          field_at row 79, help_line g ''PF3=Disconnect'',
          text_at (geo_HelpRow g) (right_col loginCopyright) White loginCopyright])"

definition login_status :: "menu_status \<Rightarrow> screen3270" where
  "login_status st = statusBlock 0
     [(''Date . . :'', julianDate (ms_Now st)), (''Time . . :'', clockHM (ms_Now st)),
      (''System ID:'', truncateRunes (ms_SystemID st) 7), (''Release. :'', truncateRunes (ms_Release st) 7)]"

definition login_branding :: "geometry \<Rightarrow> string list \<Rightarrow> screen3270" where
  "login_branding g ls =
     concat (map (\<lambda>(i, ln). if ln = [] then [] else [text_at (login_top g ls + int i) 0 Turquoise ln]) (zip [0..<length ls] ls))"

text \<open>Both labels of the credential row end on the attribute byte of the input they announce.\<close>

definition login_clashes :: "geometry \<Rightarrow> (field3270 \<times> field3270) list" where
  "login_clashes g =
     (let row = BodyBottomRow g
      in [(text_at row 2 Turquoise ''User ID . . :'', input_at row 15 FieldUsername),
          (text_at row 30 Turquoise ''Password . . :'', (input_at row 44 FieldPassword)\<lparr>fd_Hidden := True\<rparr>)])"

lemma login_eq:
  "fst (LoginScreen g st branding err) =
   title_line g ''TN3270 GATEWAY LOGIN'' # login_fixed g err @ login_status st
     @ login_branding g (take (nat (LoginBrandingHeight g)) branding)"
  unfolding LoginScreen_def Let_def login_fixed_def login_status_def login_branding_def login_top_def by simp

lemma login_rest_ok:
  assumes "\<forall>l\<in>set ls. length l \<le> 79" "int (length ls) \<le> LoginBrandingHeight g" "rows = geo_Rows (geo_norm g)"
  shows "list_all (fits rows) (login_fixed g err @ login_status st @ login_branding g ls)"
    and "clashes (login_fixed g err @ login_status st @ login_branding g ls) = login_clashes g"
    and "\<forall>f\<in>set (login_fixed g err). fd_Row f = 1 \<or> rows - 2 \<le> fd_Row f"
    and "\<forall>f\<in>set (login_branding g ls). 4 \<le> fd_Row f \<and> fd_Row f < rows - 2 \<and> \<not> fd_Write f \<and> fd_Col f = 0"
    and "\<forall>f\<in>set (login_status st). 0 \<le> fd_Row f \<and> fd_Row f < 4 \<and> 60 \<le> fd_Col f"
proof -
  note rows = geo_rows(1)[of g, folded assms(3)]
  have fixed: "list_all (fits rows) (login_fixed g err)" "clashes (login_fixed g err) = login_clashes g"
    using rows length_truncateRunes[of err 56]
    by (simp_all add: login_fixed_def login_clashes_def Let_def fits_def apart_def BodyBottomRow_def geo_HelpRow_def
        assms(3)[symmetric] help_line_def right_col_def loginCopyright_def)
  show f: "\<forall>f\<in>set (login_fixed g err). fd_Row f = 1 \<or> rows - 2 \<le> fd_Row f"
    by (simp add: login_fixed_def Let_def BodyBottomRow_def geo_HelpRow_def assms(3)[symmetric] help_line_def)
  have st: "screen_ok rows (login_status st)"
    unfolding login_status_def
    by (rule status_ok(1)) (use rows length_julianDate length_clockHM[of "ms_Now st"] length_truncateRunes[of _ 7] in \<open>simp_all add: le_trans\<close>)
  show s: "\<forall>f\<in>set (login_status st). 0 \<le> fd_Row f \<and> fd_Row f < 4 \<and> 60 \<le> fd_Col f"
    using status_ok(2)[of "[(''Date . . :'', julianDate (ms_Now st)), (''Time . . :'', clockHM (ms_Now st)),
      (''System ID:'', truncateRunes (ms_SystemID st) 7), (''Release. :'', truncateRunes (ms_Release st) 7)]" 0 4]
      length_julianDate length_clockHM[of "ms_Now st"] length_truncateRunes[of _ 7] by (simp add: login_status_def le_trans)
  have h: "LoginBrandingHeight g = rows - 6" by (simp add: LoginBrandingHeight_def BodyBottomRow_def LoginBrandingTop_def assms(3))
  have t: "4 \<le> login_top g ls" "login_top g ls + int (length ls) \<le> rows - 2"
    using assms(2) unfolding h login_top_def LoginBrandingTop_def by auto
  have br: "screen_ok rows (login_branding g ls)"
    unfolding login_branding_def by (rule branding_ok(1)) (use assms(1) t in auto)
  show b: "\<forall>f\<in>set (login_branding g ls). 4 \<le> fd_Row f \<and> fd_Row f < rows - 2 \<and> \<not> fd_Write f \<and> fd_Col f = 0"
    using branding_ok(2)[OF assms(1) t(1), of rows] t unfolding login_branding_def by fastforce
  have fb: "apart x y" if "x \<in> set (login_fixed g err)" "y \<in> set (login_branding g ls)" for x y
    using that f b rows by (intro other_rows_apart) fastforce
  have sb: "apart x y" if "x \<in> set (login_status st)" "y \<in> set (login_branding g ls)" for x y
    using that s b by (intro other_rows_apart) fastforce
  have fs: "apart x y" if x: "x \<in> set (login_fixed g err)" and y: "y \<in> set (login_status st)" for x y
  proof (cases "fd_Row x = 1")
    case True
    then have "x = error_at 1 2 (truncateRunes err 56)"
      using x rows by (auto simp: login_fixed_def Let_def BodyBottomRow_def geo_HelpRow_def assms(3)[symmetric] help_line_def)
    then have "fd_End x < 60" using length_truncateRunes[of err 56] by simp
    with s y show ?thesis by (fastforce simp: apart_def)
  next
    case False
    then have "rows - 2 \<le> fd_Row x" using x f by blast
    moreover have "fd_Row y < 4" using y s by blast
    ultimately show ?thesis using rows by (intro other_rows_apart) simp
  qed
  have "clashes (login_fixed g err @ login_status st @ login_branding g ls) =
      clashes (login_fixed g err) @ clashes (login_status st @ login_branding g ls)"
    by (rule clashes_append) (use fb fs in auto)
  also have "clashes (login_status st @ login_branding g ls) = clashes (login_status st) @ clashes (login_branding g ls)"
    by (rule clashes_append) (rule sb)
  finally have "clashes (login_fixed g err @ login_status st @ login_branding g ls) =
      clashes (login_fixed g err) @ clashes (login_status st) @ clashes (login_branding g ls)" .
  with fixed(2) st br show "clashes (login_fixed g err @ login_status st @ login_branding g ls) = login_clashes g"
    by (simp add: screen_ok_clashes)
  show "list_all (fits rows) (login_fixed g err @ login_status st @ login_branding g ls)"
    using fixed(1) st br by (simp add: screen_ok_def)
qed

lemma login_inputs:
  "inputs (fst (LoginScreen g st branding err)) =
   [input_at (BodyBottomRow g) 15 FieldUsername, (input_at (BodyBottomRow g) 44 FieldPassword)\<lparr>fd_Hidden := True\<rparr>]"
proof -
  let ?ls = "take (nat (LoginBrandingHeight g)) branding"
  have "inputs (login_branding g ?ls) = []"
    by (simp add: login_branding_def inputs_concat comp_def case_prod_unfold)
  moreover have "inputs (login_fixed g err) =
      [input_at (BodyBottomRow g) 15 FieldUsername, (input_at (BodyBottomRow g) 44 FieldPassword)\<lparr>fd_Hidden := True\<rparr>]"
    by (simp add: login_fixed_def Let_def help_line_def)
  ultimately show ?thesis unfolding login_eq by (simp add: login_status_def status_inputs title_line_def)
qed

lemma login_room:
  assumes "\<forall>l\<in>set branding. length l \<le> 79" "geo_Cols (geo_norm g) < 160" "80 \<le> w"
  shows "map (input_room (geo_Rows (geo_norm g)) w (fst (LoginScreen g st branding err))) (inputs (fst (LoginScreen g st branding err))) = [12, 34]"
proof -
  define ls where "ls = take (nat (LoginBrandingHeight g)) branding"
  define R where "R = geo_Rows (geo_norm g)"
  define s where "s = fst (LoginScreen g st branding err)"
  define rest where "rest = login_fixed g err @ login_status st @ login_branding g ls"
  have R: "24 \<le> R" unfolding R_def by (rule geo_rows)
  have ls: "\<forall>l\<in>set ls. length l \<le> 79" "int (length ls) \<le> LoginBrandingHeight g"
    using assms(1) R unfolding ls_def R_def
    by (auto dest: in_set_takeD simp: LoginBrandingHeight_def BodyBottomRow_def LoginBrandingTop_def)
  note ok = login_rest_ok(1,2)[OF ls R_def, of err st, folded rest_def] login_rest_ok(3-5)[OF ls R_def]
  have s: "s = title_line g ''TN3270 GATEWAY LOGIN'' # rest" unfolding s_def login_eq rest_def ls_def by simp
  have bottom: "BodyBottomRow g = R - 2" by (simp add: BodyBottomRow_def R_def)
  have cols: "\<forall>h\<in>set s. 0 \<le> fd_Col h \<and> fd_Col h < 80"
  proof
    fix h assume "h \<in> set s"
    then consider "h = title_line g ''TN3270 GATEWAY LOGIN''" | "h \<in> set rest" unfolding s by auto
    then show "0 \<le> fd_Col h \<and> fd_Col h < 80"
    proof cases
      case 2
      with ok(1) have "fits R h" by (simp add: list_all_iff)
      then show ?thesis by (simp add: fits_def fd_End_def)
    next
      case 1
      have "(geo_Cols (geo_norm g) - 20) div 2 < 80" using assms(2) by linarith
      with 1 show ?thesis by (simp add: title_line_def geo_CenterCol_def Let_def)
    qed
  qed
  have row: "h \<in> set (login_fixed g err)" if "h \<in> set s" "fd_Row h = R - 2" for h
    using that ok(4) ok(5)[of st] R unfolding s rest_def by (fastforce simp: title_line_def)
  have fixed: "set (login_fixed g err) \<subseteq> set s" unfolding s rest_def by auto
  have at: "fd_Col h = 2 \<or> fd_Col h = 15 \<or> fd_Col h = 28 \<or> fd_Col h = 30 \<or> fd_Col h = 44 \<or> fd_Col h = 79"
    if "h \<in> set s" "fd_Row h = R - 2" for h
    using row[OF that] that(2) R
    by (auto simp: login_fixed_def Let_def bottom help_line_def geo_HelpRow_def R_def[symmetric])
  have "input_room R w s (input_at (R - 2) 15 FieldUsername) = 12"
    by (rule input_roomI[where e = "field_at (R - 2) 28", OF assms(3) cols])
      (use fixed R in \<open>auto simp: login_fixed_def Let_def bottom dest: at\<close>)
  moreover have "input_room R w s ((input_at (R - 2) 44 FieldPassword)\<lparr>fd_Hidden := True\<rparr>) = 34"
    by (rule input_roomI[where e = "field_at (R - 2) 79", OF assms(3) cols])
      (use fixed R in \<open>auto simp: login_fixed_def Let_def bottom dest: at\<close>)
  moreover have "inputs s = [input_at (R - 2) 15 FieldUsername, (input_at (R - 2) 44 FieldPassword)\<lparr>fd_Hidden := True\<rparr>]"
    unfolding s_def bottom[symmetric] by (rule login_inputs)
  ultimately show ?thesis unfolding R_def[symmetric] s_def[symmetric] by simp
qed

section \<open>Properties\<close>

text \<open>C27. The login screen of a terminal narrower than 160 columns, whatever the branding file holds and whatever the error is: every field below the title lies
inside the terminal; the only fields that run into each other are the two labels of the credential row, whose last
character, the colon, is exactly where the input's attribute byte goes, and the title, which runs into the status block
if and only if the terminal is 100 columns or wider, because the title is centred over the whole width. It has two
inputs, 12 columns for the user name and 34 for the password, and the cursor is on the first.\<close>

theorem login_screen_layout:
  assumes "LoginScreen g st (SplitBranding raw) err = (s, cur)" "w = geo_Cols (geo_norm g)" "rows = geo_Rows (geo_norm g)" "w < 160"
  shows "list_all (fits rows) (tl s)
    \<and> (clashes s = login_clashes g \<longleftrightarrow> w < 100) \<and> set (login_clashes g) \<subseteq> set (clashes s)
    \<and> list_all (\<lambda>(f, h). fd_End f = fd_Col h) (login_clashes g)
    \<and> map fd_Name (inputs s) = [FieldUsername, FieldPassword] \<and> cur = (BodyBottomRow g, 16)
    \<and> map (input_room rows w s) (inputs s) = [12, 34]"
proof -
  define ls where "ls = take (nat (LoginBrandingHeight g)) (SplitBranding raw)"
  define rest where "rest = login_fixed g err @ login_status st @ login_branding g ls"
  let ?t = "title_line g ''TN3270 GATEWAY LOGIN''"
  have R: "24 \<le> rows" "80 \<le> w" unfolding assms(2,3) by (rule geo_rows)+
  have ls: "\<forall>l\<in>set ls. length l \<le> 79" "int (length ls) \<le> LoginBrandingHeight g"
    using branding_width[of raw] R unfolding ls_def assms(3)
    by (auto dest: in_set_takeD simp: LoginBrandingHeight_def BodyBottomRow_def LoginBrandingTop_def)
  note ok = login_rest_ok(1,2)[OF ls assms(3), of err st, folded rest_def] login_rest_ok(3-5)[OF ls assms(3)]
  have s: "s = ?t # rest" using assms(1) login_eq[of g st "SplitBranding raw" err] unfolding rest_def ls_def by simp
  have c: "clashes s = map (Pair ?t) (filter (\<lambda>h. \<not> apart ?t h) rest) @ login_clashes g" unfolding s by (simp add: ok(2))
  have col: "fd_Row ?t = 0" "fd_Col ?t = (w - 20) div 2" "fd_End ?t = (w - 20) div 2 + 20"
    using R(2) by (simp_all add: title_line_def geo_CenterCol_def Let_def assms(2)[symmetric])
  have "filter (\<lambda>h. \<not> apart ?t h) rest = [] \<longleftrightarrow> w < 100"
  proof
    assume "filter (\<lambda>h. \<not> apart ?t h) rest = []"
    moreover have "text_at 0 60 Turquoise ''Date . . :'' \<in> set rest"
      by (simp add: rest_def login_status_def statusBlock_def StatusBlockCol_def Let_def)
    ultimately have "apart ?t (text_at 0 60 Turquoise ''Date . . :'')" by (auto simp: filter_empty_conv)
    moreover have "text_at 0 71 Green (julianDate (ms_Now st)) \<in> set rest"
      by (simp add: rest_def login_status_def statusBlock_def StatusBlockCol_def Let_def)
    with \<open>filter _ rest = []\<close> have "apart ?t (text_at 0 71 Green (julianDate (ms_Now st)))" by (auto simp: filter_empty_conv)
    ultimately show "w < 100" using col R assms(4) by (auto simp: apart_def length_julianDate)
  next
    assume "w < 100"
    then have "fd_End ?t < 60" using col by simp
    then have "apart ?t h" if "h \<in> set rest" for h
      using that ok(3-5) col(1) R(1) unfolding rest_def by (fastforce simp: apart_def)
    then show "filter (\<lambda>h. \<not> apart ?t h) rest = []" by (simp add: filter_empty_conv)
  qed
  then have "clashes s = login_clashes g \<longleftrightarrow> w < 100" unfolding c by simp
  moreover have "set (login_clashes g) \<subseteq> set (clashes s)" unfolding c by auto
  moreover have "list_all (\<lambda>(f, h). fd_End f = fd_Col h) (login_clashes g)" by (simp add: login_clashes_def Let_def)
  moreover have "map (input_room rows w s) (inputs s) = [12, 34]"
    using login_room[OF branding_width, of g w st raw err] R(2) assms by auto
  moreover have "map fd_Name (inputs s) = [FieldUsername, FieldPassword]"
    using login_inputs[of g st "SplitBranding raw" err] assms(1) by simp
  moreover have "cur = (BodyBottomRow g, 16)" using assms(1) by (auto simp: LoginScreen_def Let_def cursorAt_def)
  ultimately show ?thesis using ok(1) unfolding s by simp
qed

definition sample_status :: menu_status where
  "sample_status = \<lparr>ms_Username = ''alice'', ms_TermType = ''IBM-3278-2-E'', ms_SystemID = ''PROXY'', ms_Release = ''1.0'', ms_Now = 0\<rparr>"

text \<open>A model 5 (27 by 132) centres the title into the status block; a model 2 does not.\<close>

lemma login_screen_layout_witness:
  "(clashes (fst (LoginScreen DefaultGeometry sample_status (SplitBranding ''HELLO'') [])) = login_clashes DefaultGeometry)
   \<and> clashes (fst (LoginScreen \<lparr>geo_Rows = 27, geo_Cols = 132\<rparr> sample_status (SplitBranding ''HELLO'') []))
     \<noteq> login_clashes \<lparr>geo_Rows = 27, geo_Cols = 132\<rparr>"
proof -
  have "geo_Cols (geo_norm DefaultGeometry) = 80" "geo_Cols (geo_norm \<lparr>geo_Rows = 27, geo_Cols = 132\<rparr>) = 132"
    by (simp_all add: geo_norm_def DefaultGeometry_def)
  then show ?thesis
    using login_screen_layout[OF surjective_pairing refl refl, of DefaultGeometry sample_status "''HELLO''" "[]"]
      login_screen_layout[OF surjective_pairing refl refl, of "\<lparr>geo_Rows = 27, geo_Cols = 132\<rparr>" sample_status "''HELLO''" "[]"]
    by simp
qed

end
