(* ===== verification/Menu_Props.thy ===== *)
theory Menu_Props
  imports Panel_Props
begin

text \<open>
  The service menu's screen: where its rows end, when its title and page indicator meet, and
  that a number beside a service selects that service.
\<close>

section \<open>Numbers select\<close>

lemma digit_no_space: "is_digit c \<Longrightarrow> \<not> is_space c"
  by (auto simp: is_digit_def is_space_def)

lemma trim_number: "0 \<le> n \<Longrightarrow> trim_space (pad_left (CHR '' '') k (itoa n)) = itoa n"
proof -
  assume "0 \<le> n"
  then obtain m where m: "itoa n = show_nat m" by (simp add: itoa_def)
  have d: "\<forall>c\<in>set (show_nat m). \<not> is_space c" using show_nat_digits[of m] digit_no_space by (auto simp: list_all_iff)
  have sp: "is_space (CHR '' '')" by (simp add: is_space_def)
  have "dropWhile is_space (replicate j (CHR '' '') @ show_nat m) = show_nat m" for j
    using d sp by (induction j) (auto simp: dropWhile_eq_self_iff)
  moreover have "dropWhile is_space (rev (show_nat m)) = rev (show_nat m)"
    using d by (metis dropWhile_eq_self_iff last_in_set last_rev hd_rev rev.simps(1) rev_is_Nil_conv)
  ultimately show ?thesis by (simp add: m trim_space_def trim_left_def trim_right_def pad_left_def)
qed

lemma mapping_at:
  assumes "i < length svcs"
  shows "map_of (menu_mapping svcs) (itoa (int i + 1)) = Some (svcs ! i)"
proof (rule map_of_is_SomeI)
  have "map fst (menu_mapping svcs) = map (\<lambda>i. itoa (int i + 1)) (map fst (zip [0..<length svcs] svcs))"
    unfolding menu_mapping_def map_map by (simp only: comp_def case_prod_unfold fst_conv)
  then have "map fst (menu_mapping svcs) = map (\<lambda>i. itoa (int i + 1)) [0..<length svcs]" by simp
  then show "distinct (map fst (menu_mapping svcs))"
    by (simp add: distinct_map inj_on_def) (metis add_right_cancel itoa_inj of_nat_eq_iff)
  show "(itoa (int i + 1), svcs ! i) \<in> set (menu_mapping svcs)"
    unfolding menu_mapping_def set_map using assms
    by (intro image_eqI[of _ _ "(i, svcs ! i)"]) (auto simp: in_set_zip intro!: exI[of _ i])
qed

section \<open>The rows of a menu\<close>

lemma option_cells_ok:
  "0 \<le> row \<Longrightarrow> row < rows \<Longrightarrow> length key \<le> 5 \<Longrightarrow> length name \<le> 10 \<Longrightarrow> length desc \<le> 42 \<Longrightarrow>
   screen_ok rows (option_cells row k key name desc)
   \<and> (\<forall>f\<in>set (option_cells row k key name desc). fd_Row f = row \<and> fd_End f < 60 \<and> \<not> fd_Write f)"
  by (simp add: option_cells_def layout_simps)

definition menu_row :: "int \<Rightarrow> int \<Rightarrow> nat \<Rightarrow> service \<Rightarrow> screen3270" where
  "menu_row row start i svc = option_cells (row + int i) DefaultColor (pad_left (CHR '' '') 3 (itoa (start + int i + 1)))
     (truncateRunes (s_Name svc) 8) (truncateRunes (s_Description svc) 40)"

lemma menu_list_ok:
  assumes "0 \<le> start" "start + int (length ws) < 100000" "3 \<le> row" "row + int (length ws) \<le> rows"
  shows "screen_ok rows (concat (map (\<lambda>(i, svc). menu_row row start i svc) (zip [0..<length ws] ws)))"
    and "\<forall>f\<in>set (concat (map (\<lambda>(i, svc). menu_row row start i svc) (zip [0..<length ws] ws))).
      row \<le> fd_Row f \<and> fd_Row f < row + int (length ws) \<and> fd_End f < 60 \<and> \<not> fd_Write f"
proof -
  have r: "screen_ok rows (menu_row row start i (ws ! i))
      \<and> (\<forall>f\<in>set (menu_row row start i (ws ! i)). fd_Row f = row + int i \<and> fd_End f < 60 \<and> \<not> fd_Write f)"
    if "i < length ws" for i
    unfolding menu_row_def
  proof (rule option_cells_ok)
    have "length (itoa (start + int i + 1)) \<le> 5" by (rule length_itoa) (use assms(1,2) that in simp_all)
    then show "length (pad_left (CHR '' '') 3 (itoa (start + int i + 1))) \<le> 5" by (simp add: pad_left_def)
    show "length (truncateRunes (s_Name (ws ! i)) 8) \<le> 10" by (rule order.trans[OF length_truncateRunes]) simp
    show "length (truncateRunes (s_Description (ws ! i)) 40) \<le> 42" by (rule order.trans[OF length_truncateRunes]) simp
  qed (use assms that in simp_all)
  show "screen_ok rows (concat (map (\<lambda>(i, svc). menu_row row start i svc) (zip [0..<length ws] ws)))"
    by (rule rows_ok[where r = "\<lambda>i. row + int i"]) (use r in auto)
  show "\<forall>f\<in>set (concat (map (\<lambda>(i, svc). menu_row row start i svc) (zip [0..<length ws] ws))).
      row \<le> fd_Row f \<and> fd_Row f < row + int (length ws) \<and> fd_End f < 60 \<and> \<not> fd_Write f"
  proof
    fix f assume "f \<in> set (concat (map (\<lambda>(i, svc). menu_row row start i svc) (zip [0..<length ws] ws)))"
    then obtain i where "i < length ws" "f \<in> set (menu_row row start i (ws ! i))" by (rule row_cell)
    with r[of i] show "row \<le> fd_Row f \<and> fd_Row f < row + int (length ws) \<and> fd_End f < 60 \<and> \<not> fd_Write f" by auto
  qed
qed

text \<open>The body: the settings row, the services or the placeholder, the administrator's row.\<close>

definition menu_body :: "bool \<Rightarrow> int \<Rightarrow> service list \<Rightarrow> bool \<Rightarrow> bool \<Rightarrow> screen3270" where
  "menu_body settings start ws none admin =
     (let row = (if settings then BodyTopRow + 1 else BodyTopRow)
      in (if settings then option_cells BodyTopRow DefaultColor ''  0'' ''Settings'' ''User and security parameters'' else [])
         @ concat (map (\<lambda>(i, svc). menu_row row start i svc) (zip [0..<length ws] ws))
         @ (if none then [text_at row 6 DefaultColor ''(no services available for your account)''] else [])
         @ (if admin then option_cells (row + int (length ws) + 1) DefaultColor ''  A'' ''Admin'' ''System Administration'' else []))"

lemma menu_body_ok:
  assumes "24 \<le> rows" "0 \<le> start" "start + int (length ws) < 100000" "none \<longrightarrow> ws = []"
    "int (length ws) \<le> rows - 6 - (if admin then 1 else 0)"
  shows "screen_ok rows (menu_body settings start ws none admin)
    \<and> (\<forall>f\<in>set (menu_body settings start ws none admin). 3 \<le> fd_Row f \<and> fd_Row f \<le> rows - 2 \<and> fd_End f < 60 \<and> \<not> fd_Write f)"
proof -
  define row where "row = (if settings then 4 else 3 :: int)"
  define A where "A = (if settings then option_cells 3 DefaultColor ''  0'' ''Settings'' ''User and security parameters'' else [])"
  define B where "B = concat (map (\<lambda>(i, svc). menu_row row start i svc) (zip [0..<length ws] ws))"
  define C where "C = (if none then [text_at row 6 DefaultColor ''(no services available for your account)''] else [])"
  define D where "D = (if admin then option_cells (row + int (length ws) + 1) DefaultColor ''  A'' ''Admin'' ''System Administration'' else [])"
  have row: "3 \<le> row" "row \<le> 4" by (simp_all add: row_def)
  have eq: "menu_body settings start ws none admin = A @ B @ C @ D"
    by (simp add: menu_body_def A_def B_def C_def D_def row_def Let_def BodyTopRow_def)
  have A: "screen_ok rows A" "\<forall>f\<in>set A. fd_Row f = 3 \<and> row = 4 \<and> fd_End f < 60 \<and> \<not> fd_Write f"
    using option_cells_ok[of 3 rows "''  0''" "''Settings''" "''User and security parameters''" DefaultColor] assms(1)
    by (simp_all add: A_def row_def)
  have B: "screen_ok rows B" "\<forall>f\<in>set B. row \<le> fd_Row f \<and> fd_Row f < row + int (length ws) \<and> fd_End f < 60 \<and> \<not> fd_Write f"
    unfolding B_def using menu_list_ok[OF assms(2,3) row(1), of rows] assms(1,5) row(2) by (auto split: if_splits)
  have C: "screen_ok rows C" "\<forall>f\<in>set C. fd_Row f = row \<and> ws = [] \<and> fd_End f < 60 \<and> \<not> fd_Write f"
    using assms(1,4) row by (simp_all add: C_def layout_simps)
  have D: "screen_ok rows D" "\<forall>f\<in>set D. fd_Row f = row + int (length ws) + 1 \<and> fd_Row f \<le> rows - 2 \<and> fd_End f < 60 \<and> \<not> fd_Write f"
    using option_cells_ok[of "row + int (length ws) + 1" rows "''  A''" "''Admin''" "''System Administration''" DefaultColor] assms(5) row
    by (simp_all add: D_def split: if_splits)
  have "apart f h" if "f \<in> set A" "h \<in> set (B @ C @ D)" for f h
    using that A(2) B(2) C(2) D(2) by (intro other_rows_apart) fastforce
  moreover have "apart f h" if "f \<in> set B" "h \<in> set (C @ D)" for f h
    using that B(2) C(2) D(2) by (intro other_rows_apart) fastforce
  moreover have "apart f h" if "f \<in> set C" "h \<in> set D" for f h
    using that C(2) D(2) by (intro other_rows_apart) fastforce
  ultimately have "screen_ok rows (A @ B @ C @ D)" using A(1) B(1) C(1) D(1) unfolding screen_ok_append by blast
  moreover have "3 \<le> fd_Row f \<and> fd_Row f \<le> rows - 2 \<and> fd_End f < 60 \<and> \<not> fd_Write f" if "f \<in> set (A @ B @ C @ D)" for f
    using that A(2) B(2) C(2) D(2) row assms(1,5) by (fastforce split: if_splits)
  ultimately show ?thesis unfolding eq by blast
qed

section \<open>The whole menu\<close>

definition menu_command :: "geometry \<Rightarrow> bool \<Rightarrow> string \<Rightarrow> screen3270" where
  "menu_command g admin err =
     [text_at 1 0 Turquoise ''Option ===>'', (input_at 1 12 FieldSelection)\<lparr>fd_NumericOnly := \<not> admin\<rparr>, field_at 1 79, messageLine err,
      help_line g ''PF1=Help  PF3=Logoff  PF7=PgUp  PF8=PgDn  (PA3 returns here from a session)'']"

lemma menu_eq:
  assumes "MenuPageBounds g (int (length svcs)) admin page = (p, start, end, ind)"
  shows "MenuScreen g svcs admin locked st err page =
    (title_line g ''TN3270 GATEWAY MENU'' # text_at 0 (right_col ind) Turquoise ind
       # menu_body (p = 0 \<and> \<not> locked) start (slice svcs start end) (svcs = []) admin
       @ statusBlockFields st @ menu_command g admin err, menu_mapping svcs, (1, 13))"
  by (simp add: MenuScreen_def assms menu_body_def menu_row_def menu_command_def commandLine_def cursorAt_def Let_def)

lemma menu_status_ok:
  "24 \<le> rows \<Longrightarrow> screen_ok rows (statusBlockFields st)
     \<and> (\<forall>f\<in>set (statusBlockFields st). 3 \<le> fd_Row f \<and> fd_Row f < 9 \<and> 60 \<le> fd_Col f)"
proof -
  assume rows: "24 \<le> rows"
  let ?rs = "[(''User ID. :'', truncateRunes (to_upper (ms_Username st)) 7), (''Date . . :'', julianDate (ms_Now st)),
      (''Time . . :'', clockHM (ms_Now st)), (''Terminal :'', termDisplay (ms_TermType st)),
      (''System ID:'', truncateRunes (ms_SystemID st) 7), (''Release. :'', truncateRunes (ms_Release st) 7)]"
  have c: "length (clockHM (ms_Now st)) \<le> 7" by (rule order.trans[OF length_clockHM]) simp
  have "\<forall>(l, v)\<in>set ?rs. length l \<le> 10 \<and> length v \<le> 7"
    using c length_truncateRunes[of _ 7] length_termDisplay[of "ms_TermType st"] by (simp add: length_julianDate)
  from status_ok[OF this, of 3 rows] rows show ?thesis by (simp add: statusBlockFields_def BodyTopRow_def)
qed

lemma menu_rest_ok:
  assumes "24 \<le> rows" "rows = geo_Rows (geo_norm g)" "length err \<le> 77" "screen_ok rows body"
    "\<forall>f\<in>set body. 3 \<le> fd_Row f \<and> fd_Row f \<le> rows - 2 \<and> fd_End f < 60 \<and> \<not> fd_Write f"
  shows "screen_ok rows (body @ statusBlockFields st @ menu_command g admin err)"
    and "\<forall>f\<in>set (body @ statusBlockFields st @ menu_command g admin err). 1 \<le> fd_Row f"
proof -
  note st = menu_status_ok[OF assms(1), of st]
  have cmd: "screen_ok rows (menu_command g admin err)"
    "\<forall>f\<in>set (menu_command g admin err). fd_Row f \<in> {1, 2, rows - 1}"
    using assms(1,3) by (simp_all add: menu_command_def layout_simps messageLine_def help_line_def geo_HelpRow_def assms(2)[symmetric])
  have "apart f h" if "f \<in> set body" "h \<in> set (statusBlockFields st)" for f h
    using that assms(5) st by (fastforce simp: apart_def)
  moreover have "apart f h" if "f \<in> set body" "h \<in> set (menu_command g admin err)" for f h
    using that assms(1,5) cmd(2) by (intro other_rows_apart) fastforce
  moreover have "apart f h" if "f \<in> set (statusBlockFields st)" "h \<in> set (menu_command g admin err)" for f h
    using that st assms(1) cmd(2) by (intro other_rows_apart) fastforce
  ultimately show "screen_ok rows (body @ statusBlockFields st @ menu_command g admin err)"
    using assms(4) st cmd(1) unfolding screen_ok_append by auto
  show "\<forall>f\<in>set (body @ statusBlockFields st @ menu_command g admin err). 1 \<le> fd_Row f"
    using assms(1,5) st cmd(2) by fastforce
qed

lemma indicator_length:
  assumes "MenuPageBounds g (int n) admin page = (p, start, end, ind)" "n < 100000"
  shows "length ind \<le> 29" "0 \<le> start" "start \<le> end" "end \<le> int n" "end - start \<le> MenuCapacity g admin"
proof -
  have cap: "0 < MenuCapacity g admin" by (rule page_sizes_pos)
  have "length ind \<le> 29 \<and> 0 \<le> start \<and> start \<le> end \<and> end \<le> int n \<and> end - start \<le> MenuCapacity g admin"
  proof (cases "n = 0")
    case True
    with assms(1) cap show ?thesis
      by (auto simp: MenuPageBounds_def page_window_def)
  next
    case False
    obtain p' st' en' where w: "page_window (MenuCapacity g admin) page (int n) = (p', st', en')" by (metis prod_cases3)
    with assms(1) False have eq: "start = st'" "end = en'"
      "ind = ''ITEMS '' @ itoa (start + 1) @ '' TO '' @ itoa end @ '' OF '' @ itoa (int n)"
      by (auto simp: MenuPageBounds_def)
    have b: "0 \<le> start" "start < end" "end \<le> int n" "end - start \<le> MenuCapacity g admin"
      using page_window_ok[OF cap _ w] False by (auto simp: eq)
    have "length (itoa (start + 1)) \<le> 5" "length (itoa end) \<le> 5" "length (itoa (int n)) \<le> 5"
      by (rule length_itoa; use b assms(2) in simp)+
    with b show ?thesis by (simp add: eq(3))
  qed
  then show "length ind \<le> 29" "0 \<le> start" "start \<le> end" "end \<le> int n" "end - start \<le> MenuCapacity g admin" by simp_all
qed

text \<open>Every service of the window stands on the grid beside the number that selects it.\<close>

lemma menu_row_shown:
  assumes "0 \<le> start" "start \<le> int i" "int i < end" "end \<le> int (length svcs)"
  shows "\<exists>row number name desc.
    set (option_cells row DefaultColor number name desc) \<subseteq> set (menu_body settings start (slice svcs start end) none admin)
    \<and> name = truncateRunes (s_Name (svcs ! i)) 8 \<and> map_of (menu_mapping svcs) (trim_space number) = Some (svcs ! i)"
proof -
  let ?ws = "slice svcs start end" and ?row = "if settings then BodyTopRow + 1 else BodyTopRow"
  define j where "j = i - nat start"
  have j: "j < length ?ws" "?ws ! j = svcs ! i" "start + int j = int i" "i < length svcs"
    using assms by (auto simp: j_def slice_def)
  have "set (menu_row ?row start j (?ws ! j)) \<subseteq> set (menu_body settings start ?ws none admin)"
    using row_cellI[OF j(1), of _ "menu_row ?row start"] by (auto simp: menu_body_def Let_def)
  moreover have "map_of (menu_mapping svcs) (trim_space (pad_left (CHR '' '') 3 (itoa (start + int j + 1)))) = Some (svcs ! i)"
    unfolding j(3) using mapping_at[OF j(4)] by (simp add: trim_number)
  ultimately show ?thesis unfolding j(2) menu_row_def by blast
qed

section \<open>Properties\<close>

text \<open>C24. The service menu, for fewer than 100000 services and a message of at most 77 characters, on any page: it is laid
out inside the terminal without overlap exactly when the title, centred over the terminal's whole width, ends before the
right-aligned page indicator, which it always does on 80 columns and never on 132; every service of the page stands on
the grid with a number, and typing that number selects that very service; the option input is the only one and holds the
cursor; nothing of the page reaches the help row.\<close>

theorem menu_screen_layout:
  assumes "MenuScreen g svcs admin locked st err page = (s, m, cur)"
    and "MenuPageBounds g (int (length svcs)) admin page = (p, start, end, ind)"
    and "length svcs < 100000" "length err \<le> 77" "w = geo_Cols (geo_norm g)" "rows = geo_Rows (geo_norm g)"
  shows "(screen_ok rows s \<longleftrightarrow> (w - 19) div 2 + 19 + int (length ind) < 79)
    \<and> (w = 80 \<longrightarrow> screen_ok rows s) \<and> (w = 132 \<longrightarrow> \<not> screen_ok rows s)
    \<and> (\<forall>i. start \<le> int i \<and> int i < end \<longrightarrow> (\<exists>row number name desc.
         set (option_cells row DefaultColor number name desc) \<subseteq> set s \<and> name = truncateRunes (s_Name (svcs ! i)) 8
         \<and> map_of m (trim_space number) = Some (svcs ! i)))
    \<and> map fd_Name (inputs s) = [FieldSelection] \<and> cur = (1, 13)
    \<and> (\<forall>f\<in>set s. fd_Row f = rows - 1 \<longrightarrow> f = last s)"
proof -
  have R: "24 \<le> rows" "80 \<le> w" unfolding assms(5,6) by (rule geo_rows)+
  note b = indicator_length[OF assms(2,3)]
  define ws where "ws = slice svcs start end"
  define body where "body = menu_body (p = 0 \<and> \<not> locked) start ws (svcs = []) admin"
  have len: "int (length ws) = end - start" using b(2-4) by (simp add: ws_def slice_def)
  have cap: "MenuCapacity g admin = rows - 6 - (if admin then 1 else 0)"
    by (simp add: MenuCapacity_def menuBottomRow_def BodyBottomRow_def BodyTopRow_def assms(6) Let_def)
  have body: "screen_ok rows body"
    "\<forall>f\<in>set body. 3 \<le> fd_Row f \<and> fd_Row f \<le> rows - 2 \<and> fd_End f < 60 \<and> \<not> fd_Write f"
    unfolding body_def using menu_body_ok[OF R(1) b(2), of ws "svcs = []" admin "p = 0 \<and> \<not> locked"] len b(4,5) cap assms(3)
    by (auto simp: ws_def slice_def)
  define rest where "rest = body @ statusBlockFields st @ menu_command g admin err"
  note rest = menu_rest_ok[OF R(1) assms(6,4) body, of st admin, folded rest_def]
  have eq: "s = title_line g ''TN3270 GATEWAY MENU'' # text_at 0 (right_col ind) Turquoise ind # rest"
    "m = menu_mapping svcs" "cur = (1, 13)"
    using assms(1) unfolding menu_eq[OF assms(2)] rest_def body_def ws_def by simp_all
  have t: "title_line g ''TN3270 GATEWAY MENU'' = title_at 0 ((w - 19) div 2) ''TN3270 GATEWAY MENU''"
    using R(2) by (simp add: title_line_def geo_CenterCol_def Let_def assms(5)[symmetric])
  have away: "apart f h" if "f \<in> {title_line g ''TN3270 GATEWAY MENU'', text_at 0 (right_col ind) Turquoise ind}" "h \<in> set rest" for f h
    using that rest(2) by (intro other_rows_apart) (auto simp: t)
  have "screen_ok rows s \<longleftrightarrow> fits rows (title_line g ''TN3270 GATEWAY MENU'') \<and> fits rows (text_at 0 (right_col ind) Turquoise ind)
      \<and> apart (title_line g ''TN3270 GATEWAY MENU'') (text_at 0 (right_col ind) Turquoise ind)"
    unfolding eq(1) screen_ok_Cons using rest(1) away by auto
  then have ok: "screen_ok rows s \<longleftrightarrow> (w - 19) div 2 + 19 + int (length ind) < 79"
    using R b(1) by (auto simp: t fits_def apart_def right_col_def)
  have L: "12 \<le> length ind"
    using assms(2) by (auto simp: MenuPageBounds_def split: prod.splits if_splits)
  have shown: "\<exists>row number name desc.
         set (option_cells row DefaultColor number name desc) \<subseteq> set s \<and> name = truncateRunes (s_Name (svcs ! i)) 8
         \<and> map_of m (trim_space number) = Some (svcs ! i)" if i: "start \<le> int i" "int i < end" for i
    using menu_row_shown[OF b(2) i b(4), of "p = 0 \<and> \<not> locked" "svcs = []" admin]
    unfolding eq(1,2) rest_def body_def ws_def by fastforce
  have "inputs body = []" using body(2) by (simp add: inputs_def filter_empty_conv)
  then have inputs: "map fd_Name (inputs s) = [FieldSelection]"
    by (simp add: eq(1) rest_def menu_command_def t messageLine_def help_line_def statusBlockFields_def status_inputs)
  have "\<forall>f\<in>set s. fd_Row f = rows - 1 \<longrightarrow> f = last s"
    using body(2) menu_status_ok[OF R(1), of st] R(1)
    by (auto simp: eq(1) rest_def menu_command_def t messageLine_def help_line_def geo_HelpRow_def assms(6)[symmetric])
  with ok L b(1) shown inputs eq(3) show ?thesis by auto
qed

definition sample_service :: service where
  "sample_service = \<lparr>s_ID = 1, s_Name = ''TSO'', s_Description = ''Interactive'', s_Host = ''mvs'', s_Port = 23, s_TLS = False, s_TLSVerify = False\<rparr>"

text \<open>One service: typing 1 reaches it; the same menu on a model 5 has its title across the indicator.\<close>

lemma menu_screen_layout_witness:
  "screen_ok 24 (fst (MenuScreen DefaultGeometry [sample_service] True False sample_status [] 0))
   \<and> \<not> screen_ok 27 (fst (MenuScreen \<lparr>geo_Rows = 27, geo_Cols = 132\<rparr> [sample_service] True False sample_status [] 0))
   \<and> (\<exists>row number name desc.
         set (option_cells row DefaultColor number name desc)
           \<subseteq> set (fst (MenuScreen DefaultGeometry [sample_service] True False sample_status [] 0))
         \<and> name = truncateRunes ''TSO'' 8
         \<and> map_of (fst (snd (MenuScreen DefaultGeometry [sample_service] True False sample_status [] 0))) (trim_space number) = Some sample_service)"
proof -
  let ?five = "\<lparr>geo_Rows = 27, geo_Cols = 132\<rparr>"
  have m: "MenuScreen g [sample_service] True False sample_status [] 0 =
      (fst (MenuScreen g [sample_service] True False sample_status [] 0),
       fst (snd (MenuScreen g [sample_service] True False sample_status [] 0)),
       snd (snd (MenuScreen g [sample_service] True False sample_status [] 0)))" for g by simp
  have b: "MenuPageBounds DefaultGeometry (int (length [sample_service])) True 0 = (0, 0, 1, ''ITEMS 1 TO 1 OF 1'')"
    "MenuPageBounds ?five (int (length [sample_service])) True 0 = (0, 0, 1, ''ITEMS 1 TO 1 OF 1'')" by code_simp+
  have g: "geo_norm DefaultGeometry = DefaultGeometry" "geo_norm ?five = ?five" "geo_Rows DefaultGeometry = 24" "geo_Cols DefaultGeometry = 80"
    by (simp_all add: geo_norm_def DefaultGeometry_def)
  note d = menu_screen_layout[OF m b(1) _ _ refl refl, unfolded g]
  note f = menu_screen_layout[OF m b(2) _ _ refl refl, unfolded g]
  have "s_Name sample_service = ''TSO''" by (simp add: sample_service_def)
  with d f show ?thesis by (auto dest: spec[of _ 0])
qed

end
