(* ===== verification/Widget_Props.thy ===== *)
theory Widget_Props
  imports Screen_Facts Drivers_Facts
begin

text \<open>
  What the widget builders guarantee: where the fields of a list, a snapshot, the editor, a detail
  screen and a form lie, how wide their inputs are, and which inputs a screen has.
\<close>

section \<open>Lists, snapshots and the editor\<close>

lemma title_info_ok:
  "0 < rows \<Longrightarrow> screen_ok rows [title_at 0 (centerCol (int (length t))) t, text_at 0 60 k i] \<longleftrightarrow> length t \<le> 39 \<and> length i \<le> 19"
  by (auto simp: layout_simps centerCol_def Let_def)

lemma head_body_ok:
  assumes "0 < rows" "screen_ok rows rest" "\<forall>f\<in>set rest. fd_Row f \<noteq> 0"
  shows "screen_ok rows ([title_at 0 (centerCol (int (length t))) t, text_at 0 60 k i] @ rest) \<longleftrightarrow> length t \<le> 39 \<and> length i \<le> 19"
  unfolding screen_ok_append using assms title_info_ok[of rows t k i] other_rows_apart by fastforce

lemmas row_defs = bodyTopRow_def messageRow_def legendRow_def helpRow_def listPageSize_def

text \<open>The rows between the head and the legend, and the three fixed lines.\<close>

lemma body_ok:
  assumes "screen_ok (normRows rows) upper" "\<forall>f\<in>set upper. fd_Row f \<in> {1, 3}"
    and "screen_ok (normRows rows) body" "\<forall>f\<in>set body. 4 \<le> fd_Row f \<and> fd_Row f < legendRow rows"
    and "0 \<le> c1" "c1 + int (length legend) \<le> 79" "0 \<le> c2" "c2 + int (length err) \<le> 79" "int (length help) \<le> 79"
  shows "screen_ok (normRows rows) (upper @ body @
      [text_at (legendRow rows) c1 Turquoise legend, error_at messageRow c2 err, text_at (helpRow rows) 0 Blue help])"
proof -
  have "screen_ok (normRows rows) [text_at (legendRow rows) c1 Turquoise legend, error_at messageRow c2 err, text_at (helpRow rows) 0 Blue help]"
    using assms(5-9) normRows_ge[of rows] by (simp add: layout_simps row_defs)
  moreover have "apart f g" if "f \<in> set upper" "g \<in> set body \<or> g \<in> {text_at (legendRow rows) c1 Turquoise legend,
      error_at messageRow c2 err, text_at (helpRow rows) 0 Blue help}" for f g
    using that assms(2,4) normRows_ge[of rows] by (intro other_rows_apart) (fastforce simp: row_defs)
  moreover have "apart f g" if "f \<in> set body" "g \<in> {text_at (legendRow rows) c1 Turquoise legend,
      error_at messageRow c2 err, text_at (helpRow rows) 0 Blue help}" for f g
    using that assms(4) normRows_ge[of rows] by (intro other_rows_apart) (fastforce simp: row_defs)
  ultimately show ?thesis using assms(1,3) unfolding screen_ok_append by auto
qed

lemma page_take: "int (length (take (nat (listPageSize rows)) xs)) \<le> listPageSize rows"
  using normRows_ge[of rows] by (simp add: listPageSize_def)

lemma list_row_ok:
  "int i < listPageSize rows \<Longrightarrow> length r \<le> 75 \<Longrightarrow>
   screen_ok (normRows rows) (list_row i r) \<and> (\<forall>f\<in>set (list_row i r). fd_Row f = 4 + int i)"
  by (simp add: list_row_def layout_simps listPageSize_def)

lemma list_row_inputs: "inputs (list_row i r) = [input_at (4 + int i) 0 (''cmd'' @ itoa (int i))]"
  by (simp add: list_row_def)

lemma list_body:
  assumes "int (length xs) \<le> listPageSize rows" "\<forall>r\<in>set xs. length r \<le> 75"
  shows "screen_ok (normRows rows) (concat (map (\<lambda>(i, r). list_row i r) (zip [0..<length xs] xs)))"
    and "\<forall>f\<in>set (concat (map (\<lambda>(i, r). list_row i r) (zip [0..<length xs] xs))). 4 \<le> fd_Row f \<and> fd_Row f < legendRow rows"
proof -
  have "screen_ok (normRows rows) (list_row i (xs ! i)) \<and> (\<forall>f\<in>set (list_row i (xs ! i)). fd_Row f = 4 + int i)"
    if "i < length xs" for i
    using that assms by (intro list_row_ok) auto
  then show "screen_ok (normRows rows) (concat (map (\<lambda>(i, r). list_row i r) (zip [0..<length xs] xs)))"
    by (rule rows_ok[where r = "\<lambda>i. 4 + int i"]) auto
  show "\<forall>f\<in>set (concat (map (\<lambda>(i, r). list_row i r) (zip [0..<length xs] xs))). 4 \<le> fd_Row f \<and> fd_Row f < legendRow rows"
    using assms(1) by (fastforce simp: list_row_def row_defs elim!: row_cell)
qed

lemma row_inputs:
  assumes "\<And>i x. inputs (g i x) = [input_at (4 + int i) c (p @ itoa (int i))]"
  shows "inputs (concat (map (\<lambda>(i, x). g i x) (zip [0..<length xs] xs))) =
    map (\<lambda>i. input_at (4 + int i) c (p @ itoa (int i))) [0..<length xs]"
proof -
  have "inputs (concat (map (\<lambda>(i, x). g i x) (zip [0..<length xs] xs))) =
    map (\<lambda>p'. case p' of (i, x) \<Rightarrow> input_at (4 + int i) c (p @ itoa (int i))) (zip [0..<length xs] xs)"
    unfolding rows_inputs assms by (simp add: concat_singles)
  also have "\<dots> = map (\<lambda>i. input_at (4 + int i) c (p @ itoa (int i))) (map fst (zip [0..<length xs] xs))"
    by (simp only: map_map comp_def case_prod_unfold)
  also have "\<dots> = map (\<lambda>i. input_at (4 + int i) c (p @ itoa (int i))) [0..<length xs]" by (subst map_fst_zip) simp_all
  finally show ?thesis .
qed

text \<open>An input of a row is as wide as its own row makes it.\<close>

lemma row_room:
  assumes "s = pre @ concat (map (\<lambda>(i, x). g i x) (zip [0..<length xs] xs)) @ post" "80 \<le> w"
    and "\<forall>f\<in>set (pre @ post). (\<forall>j<length xs. fd_Row f \<noteq> r j) \<and> 0 \<le> fd_Col f \<and> fd_Col f < 80"
    and "\<And>j. j < length xs \<Longrightarrow> \<forall>f\<in>set (g j (xs ! j)). fd_Row f = r j \<and> 0 \<le> fd_Col f \<and> fd_Col f < 80"
    and "i < length xs" "f \<in> set (g i (xs ! i))" "r i < (rows :: int)" "e \<in> set (g i (xs ! i))" "fd_Col e = fd_Col f + k + 1" "0 \<le> k"
    and "inj r" "\<forall>h\<in>set (g i (xs ! i)). fd_Col h \<le> fd_Col f \<or> fd_Col e \<le> fd_Col h"
  shows "input_room rows w s f = k"
proof -
  let ?c = "concat (map (\<lambda>(i, x). g i x) (zip [0..<length xs] xs))"
  have cell: "\<exists>j<length xs. h \<in> set (g j (xs ! j)) \<and> fd_Row h = r j \<and> 0 \<le> fd_Col h \<and> fd_Col h < 80" if "h \<in> set ?c" for h
    using that by (rule row_cell) (use assms(4) in blast)
  have mem: "set (g i (xs ! i)) \<subseteq> set ?c" using row_cellI[OF assms(5), where g = g] by blast
  have f: "fd_Row f = r i" "0 \<le> fd_Col f" "fd_Row e = r i" using assms(4-6,8) by auto
  show ?thesis
  proof (rule input_roomI[where e = e])
    show "\<forall>g\<in>set s. 0 \<le> fd_Col g \<and> fd_Col g < 80" using cell assms(3) unfolding assms(1) by fastforce
    show "e \<in> set s" using mem assms(8) unfolding assms(1) set_append by blast
    show "\<forall>h\<in>set s. fd_Row h = fd_Row f \<longrightarrow> fd_Col h \<le> fd_Col f \<or> fd_Col e \<le> fd_Col h"
    proof (intro ballI impI)
      fix h assume h: "h \<in> set s" "fd_Row h = fd_Row f"
      have "\<exists>j<length xs. fd_Row h = r j" using h(2) f(1) assms(5) by auto
      with h(1) assms(3) have "h \<in> set ?c" unfolding assms(1) set_append by blast
      then obtain j where "h \<in> set (g j (xs ! j))" "fd_Row h = r j" using cell by blast
      with h(2) f(1) assms(11,12) show "fd_Col h \<le> fd_Col f \<or> fd_Col e \<le> fd_Col h" by (simp add: inj_eq)
    qed
  qed (use assms f in simp_all)
qed

lemma list_screen_inputs:
  "inputs (fst (buildListScreen rows v)) =
   map (\<lambda>i. input_at (4 + int i) 0 (''cmd'' @ itoa (int i))) [0..<min (length (lv_Rows v)) (nat (listPageSize rows))]"
  by (simp add: buildListScreen_def Let_def row_inputs[of list_row, OF list_row_inputs] del: length_take)
    (simp add: min.commute)

lemma body_rows:
  assumes "\<forall>f\<in>set upper. fd_Row f \<in> {1, 3}" "\<forall>f\<in>set body. 4 \<le> fd_Row f \<and> fd_Row f < legendRow rows"
  shows "\<forall>f\<in>set (upper @ body @
      [text_at (legendRow rows) c1 Turquoise legend, error_at messageRow c2 err, text_at (helpRow rows) 0 Blue help]). fd_Row f \<noteq> 0"
  using assms normRows_ge[of rows] by (fastforce simp: row_defs)

text \<open>The placeholder of an empty page.\<close>

lemma none_ok:
  assumes "screen_ok (normRows rows) body" "\<forall>f\<in>set body. 4 \<le> fd_Row f \<and> fd_Row f < legendRow rows" "data = [] \<Longrightarrow> body = []"
    and "0 \<le> c" "c + int (length t) \<le> 79"
  shows "screen_ok (normRows rows) (body @ (if data = [] then [text_at 4 c k t] else []))"
    and "\<forall>f\<in>set (body @ (if data = [] then [text_at 4 c k t] else [])). 4 \<le> fd_Row f \<and> fd_Row f < legendRow rows"
  using assms normRows_ge[of rows] by (auto simp: layout_simps row_defs)

lemma list_screen_room:
  assumes "80 \<le> w" "f \<in> set (inputs (fst (buildListScreen rows v)))"
  shows "input_room (normRows rows) w (fst (buildListScreen rows v)) f = 1"
proof -
  define d where "d = take (nat (listPageSize rows)) (lv_Rows v)"
  have size: "int (length d) \<le> listPageSize rows" unfolding d_def by (rule page_take)
  obtain i where i: "i < length d" "f = input_at (4 + int i) 0 (''cmd'' @ itoa (int i))"
    using assms(2) unfolding list_screen_inputs by (auto simp: d_def)
  then have "d \<noteq> []" by auto
  have c: "0 \<le> centerCol n" "centerCol n < 80" if "0 \<le> n" for n using that by (auto simp: centerCol_def Let_def)
  show ?thesis
  proof (rule row_room[where r = "\<lambda>i. 4 + int i" and i = i and g = list_row and xs = d and e = "field_at (4 + int i) 2"])
    show "fst (buildListScreen rows v) =
        [title_at 0 (centerCol (int (length (lv_Title v)))) (lv_Title v), text_at 0 60 DefaultColor (lv_RowInfo v),
         text_at bodyTopRow 0 Blue (lv_Header v)] @ concat (map (\<lambda>(i, r). list_row i r) (zip [0..<length d] d)) @
        [text_at (legendRow rows) 0 Turquoise (lv_Legend v), error_at messageRow 0 (lv_ErrMsg v), text_at (helpRow rows) 0 Blue (lv_PFHelp v)]"
      using \<open>d \<noteq> []\<close> unfolding d_def buildListScreen_def Let_def by simp
  qed (use assms(1) i size c normRows_ge[of rows] in \<open>auto simp: list_row_def row_defs inj_def\<close>)
qed

lemma list_screen_shape:
  assumes "length (lv_Header v) \<le> 79" "\<forall>r\<in>set (lv_Rows v). length r \<le> 75"
    "length (lv_Legend v) \<le> 79" "length (lv_ErrMsg v) \<le> 79" "length (lv_PFHelp v) \<le> 79"
  obtains rest where
    "fst (buildListScreen rows v) =
       [title_at 0 (centerCol (int (length (lv_Title v)))) (lv_Title v), text_at 0 60 DefaultColor (lv_RowInfo v)] @ rest"
    "screen_ok (normRows rows) rest" "\<forall>f\<in>set rest. fd_Row f \<noteq> 0"
proof -
  define d where "d = take (nat (listPageSize rows)) (lv_Rows v)"
  define cells where "cells = concat (map (\<lambda>(i, r). list_row i r) (zip [0..<length d] d))"
  have rows: "\<forall>r\<in>set d. length r \<le> 75" using assms(2) unfolding d_def by (meson in_set_takeD)
  have size: "int (length d) \<le> listPageSize rows" unfolding d_def by (rule page_take)
  have cells: "screen_ok (normRows rows) cells" "\<forall>f\<in>set cells. 4 \<le> fd_Row f \<and> fd_Row f < legendRow rows" "d = [] \<Longrightarrow> cells = []"
    unfolding cells_def using list_body[OF size rows] by simp_all
  note body = none_ok[OF cells, where c = 4 and t = "''(none)''" and k = DefaultColor]
  have up: "screen_ok (normRows rows) [text_at bodyTopRow 0 Blue (lv_Header v)]"
    "\<forall>f\<in>set [text_at bodyTopRow 0 Blue (lv_Header v)]. fd_Row f \<in> {1, 3}"
    using assms normRows_ge[of rows] by (simp_all add: layout_simps row_defs)
  show thesis
  proof (rule that)
    show "fst (buildListScreen rows v) =
       [title_at 0 (centerCol (int (length (lv_Title v)))) (lv_Title v), text_at 0 60 DefaultColor (lv_RowInfo v)]
       @ [text_at bodyTopRow 0 Blue (lv_Header v)] @ (cells @ (if d = [] then [text_at 4 4 DefaultColor ''(none)''] else [])) @
         [text_at (legendRow rows) 0 Turquoise (lv_Legend v), error_at messageRow 0 (lv_ErrMsg v), text_at (helpRow rows) 0 Blue (lv_PFHelp v)]"
      by (simp add: buildListScreen_def Let_def d_def cells_def)
  qed (rule body_ok[OF up body] body_rows[OF up(2) body(2)]; use assms in simp)+
qed

text \<open>One snapshot row: three segments, or one wide one.\<close>

definition segments_fit :: "bool \<Rightarrow> snapshot_row \<Rightarrow> bool" where
  "segments_fit wide r \<longleftrightarrow>
     (if wide then length (sr_Left r) \<le> 72
      else length (sr_Left r) \<le> 20 \<and> length (sr_Mid r) \<le> 12 \<and> length (sr_Right r) \<le> 38)"

lemmas snap_cols = snapCmdAttr_def snapCmdStop_def snapLeftAttr_def snapMidAttr_def snapRightAttr_def

lemma snapshot_cells_ok:
  "int i < listPageSize rows \<Longrightarrow> segments_fit wide r \<Longrightarrow>
   screen_ok (normRows rows) (snapshot_cells wide i r) \<and> (\<forall>f\<in>set (snapshot_cells wide i r). fd_Row f = 4 + int i)"
  by (simp add: snapshot_cells_def snapSegments_def layout_simps listPageSize_def segments_fit_def snap_cols split: if_splits)

lemma snapshot_cells_inputs: "inputs (snapshot_cells wide i r) = [input_at (4 + int i) snapCmdAttr (''cmd'' @ itoa (int i))]"
  by (simp add: snapshot_cells_def snapSegments_def)

lemma snapshot_body:
  assumes "int (length xs) \<le> listPageSize rows" "\<forall>r\<in>set xs. segments_fit wide r"
  shows "screen_ok (normRows rows) (concat (map (\<lambda>(i, r). snapshot_cells wide i r) (zip [0..<length xs] xs)))"
    and "\<forall>f\<in>set (concat (map (\<lambda>(i, r). snapshot_cells wide i r) (zip [0..<length xs] xs))). 4 \<le> fd_Row f \<and> fd_Row f < legendRow rows"
proof -
  have row: "screen_ok (normRows rows) (snapshot_cells wide i (xs ! i)) \<and> (\<forall>f\<in>set (snapshot_cells wide i (xs ! i)). fd_Row f = 4 + int i)"
    if "i < length xs" for i
    using that assms by (intro snapshot_cells_ok) auto
  then show "screen_ok (normRows rows) (concat (map (\<lambda>(i, r). snapshot_cells wide i r) (zip [0..<length xs] xs)))"
    by (rule rows_ok[where r = "\<lambda>i. 4 + int i"]) auto
  show "\<forall>f\<in>set (concat (map (\<lambda>(i, r). snapshot_cells wide i r) (zip [0..<length xs] xs))). 4 \<le> fd_Row f \<and> fd_Row f < legendRow rows"
  proof
    fix f assume "f \<in> set (concat (map (\<lambda>(i, r). snapshot_cells wide i r) (zip [0..<length xs] xs)))"
    then obtain i where "i < length xs" "f \<in> set (snapshot_cells wide i (xs ! i))" by (rule row_cell)
    with row[of i] assms(1) show "4 \<le> fd_Row f \<and> fd_Row f < legendRow rows" by (simp add: row_defs)
  qed
qed

lemma snapshot_screen_inputs:
  "inputs (fst (buildSnapshotScreen rows v)) =
   map (\<lambda>i. input_at (4 + int i) snapCmdAttr (''cmd'' @ itoa (int i))) [0..<min (length (sv_Rows v)) (nat (listPageSize rows))]"
  by (simp add: buildSnapshotScreen_def Let_def row_inputs[of "snapshot_cells (sv_Wide v)", OF snapshot_cells_inputs] snapshot_head_def
      del: length_take) (simp add: min.commute)

lemma snapshot_screen_shape:
  assumes "segments_fit (sv_Wide v) (sv_Head v)" "\<forall>r\<in>set (sv_Rows v). segments_fit (sv_Wide v) r"
    "length (sv_AsOf v) \<le> 79" "length (sv_Empty v) \<le> 72"
    "length (sv_Legend v) \<le> 77" "length (sv_ErrMsg v) \<le> 77" "length (sv_PFHelp v) \<le> 79"
  obtains rest where
    "fst (buildSnapshotScreen rows v) =
       [title_at 0 (centerCol (int (length (sv_Title v)))) (sv_Title v), text_at 0 60 DefaultColor (sv_RowInfo v)] @ rest"
    "screen_ok (normRows rows) rest" "\<forall>f\<in>set rest. fd_Row f \<noteq> 0"
proof -
  define d where "d = take (nat (listPageSize rows)) (sv_Rows v)"
  define cells where "cells = concat (map (\<lambda>(i, r). snapshot_cells (sv_Wide v) i r) (zip [0..<length d] d))"
  define up where "up = text_at 1 (centerCol (int (length (sv_AsOf v)))) Turquoise (sv_AsOf v) # snapshot_head (sv_Wide v) (sv_Head v)"
  have rows: "\<forall>r\<in>set d. segments_fit (sv_Wide v) r" using assms(2) unfolding d_def by (meson in_set_takeD)
  have size: "int (length d) \<le> listPageSize rows" unfolding d_def by (rule page_take)
  have cells: "screen_ok (normRows rows) cells" "\<forall>f\<in>set cells. 4 \<le> fd_Row f \<and> fd_Row f < legendRow rows" "d = [] \<Longrightarrow> cells = []"
    unfolding cells_def using snapshot_body[OF size rows] by simp_all
  note body = none_ok[OF cells, where c = snapLeftAttr and t = "sv_Empty v" and k = DefaultColor]
  have up: "screen_ok (normRows rows) up" "\<forall>f\<in>set up. fd_Row f \<in> {1, 3}"
    using assms(1,3) normRows_ge[of rows] centerCol_bounds[of "int (length (sv_AsOf v))"]
    by (simp_all add: up_def snapshot_head_def layout_simps row_defs segments_fit_def snap_cols split: if_splits)
  show thesis
  proof (rule that)
    show "fst (buildSnapshotScreen rows v) =
       [title_at 0 (centerCol (int (length (sv_Title v)))) (sv_Title v), text_at 0 60 DefaultColor (sv_RowInfo v)]
       @ up @ (cells @ (if d = [] then [text_at 4 snapLeftAttr DefaultColor (sv_Empty v)] else [])) @
         [text_at (legendRow rows) 2 Turquoise (sv_Legend v), error_at messageRow 2 (sv_ErrMsg v), text_at (helpRow rows) 0 Blue (sv_PFHelp v)]"
      by (simp add: buildSnapshotScreen_def Let_def d_def cells_def up_def)
  qed (rule body_ok[OF up body] body_rows[OF up(2) body(2)]; use assms in \<open>simp add: snap_cols\<close>)+
qed

section \<open>The editor\<close>

lemma editor_row_ok:
  "int i < listPageSize rows \<Longrightarrow> snd ln \<or> length (fst ln) \<le> editorTextMax \<Longrightarrow>
   screen_ok (normRows rows) (editor_row i ln) \<and> (\<forall>f\<in>set (editor_row i ln). fd_Row f = 4 + int i)"
  by (cases ln) (auto simp: editor_row_def layout_simps listPageSize_def editorTextMax_def truncRunes_def)

section \<open>Properties\<close>

text \<open>C28. A list screen is laid out without overlap, inside the terminal, exactly when its title has at most 39
characters and its row indicator at most 19 (given that the header, legend, message and help line fit their rows and
the row texts are at most 75 wide). It has one command input per shown row, named cmd0, cmd1, ... from the top,
each exactly one column wide on any terminal at least 80 columns wide, and the cursor starts on the first of them.\<close>

theorem list_screen_layout:
  assumes "length (lv_Header v) \<le> 79" "\<forall>r\<in>set (lv_Rows v). length r \<le> 75"
    "length (lv_Legend v) \<le> 79" "length (lv_ErrMsg v) \<le> 79" "length (lv_PFHelp v) \<le> 79" "80 \<le> w"
    and "buildListScreen rows v = (s, cur)"
  shows "(screen_ok (normRows rows) s \<longleftrightarrow> length (lv_Title v) \<le> 39 \<and> length (lv_RowInfo v) \<le> 19)
    \<and> map fd_Name (inputs s) = map (\<lambda>i. ''cmd'' @ itoa (int i)) [0..<min (length (lv_Rows v)) (nat (listPageSize rows))]
    \<and> (\<forall>f\<in>set (inputs s). input_room (normRows rows) w s f = 1)
    \<and> cur = (case inputs s of [] \<Rightarrow> home | f # _ \<Rightarrow> (fd_Row f, fd_Col f + 1))"
proof (intro conjI ballI)
  have s: "s = fst (buildListScreen rows v)" and cur: "cur = snd (buildListScreen rows v)" using assms(7) by simp_all
  obtain rest where rest: "s = [title_at 0 (centerCol (int (length (lv_Title v)))) (lv_Title v), text_at 0 60 DefaultColor (lv_RowInfo v)] @ rest"
    "screen_ok (normRows rows) rest" "\<forall>f\<in>set rest. fd_Row f \<noteq> 0"
    unfolding s using list_screen_shape[OF assms(1-5)] by blast
  show "screen_ok (normRows rows) s \<longleftrightarrow> length (lv_Title v) \<le> 39 \<and> length (lv_RowInfo v) \<le> 19"
    unfolding rest(1) by (rule head_body_ok) (use rest normRows_ge[of rows] in simp_all)
  show "map fd_Name (inputs s) = map (\<lambda>i. ''cmd'' @ itoa (int i)) [0..<min (length (lv_Rows v)) (nat (listPageSize rows))]"
    unfolding s list_screen_inputs by simp
  show "input_room (normRows rows) w s f = 1" if "f \<in> set (inputs s)" for f
    using that unfolding s by (rule list_screen_room[OF assms(6)])
  have "0 < nat (listPageSize rows)" using page_sizes_pos(1) by simp
  then show "cur = (case inputs s of [] \<Rightarrow> home | f # _ \<Rightarrow> (fd_Row f, fd_Col f + 1))"
    unfolding cur s list_screen_inputs
    by (cases "lv_Rows v") (auto simp: buildListScreen_def Let_def upt_rec[of 0] simp del: upt_Suc)
qed

definition sample_list :: "string \<Rightarrow> list_view" where
  "sample_list title = \<lparr>lv_Title = title, lv_RowInfo = ''ROW 1 TO 1 OF 1'', lv_Header = ''CMD USERNAME'', lv_Rows = [''ALICE''],
     lv_Legend = ''S = edit'', lv_ErrMsg = [], lv_PFHelp = ''PF3=Admin Menu''\<rparr>"

text \<open>The group list of a user whose name has seven letters no longer fits: its title has 40 characters.\<close>

lemma list_screen_layout_witness:
  "screen_ok 24 (fst (buildListScreen 24 (sample_list ''TN3270 GATEWAY ADMIN: GROUPS FOR ALICE'')))
   \<and> \<not> screen_ok 24 (fst (buildListScreen 24 (sample_list ''TN3270 GATEWAY ADMIN: GROUPS FOR BARBARA'')))"
  using list_screen_layout[of "sample_list ''TN3270 GATEWAY ADMIN: GROUPS FOR ALICE''" 80 24, OF _ _ _ _ _ _ surjective_pairing]
    list_screen_layout[of "sample_list ''TN3270 GATEWAY ADMIN: GROUPS FOR BARBARA''" 80 24, OF _ _ _ _ _ _ surjective_pairing]
  by (simp add: sample_list_def normRows_def)

end
