(* ===== verification/Form_Props.thy ===== *)
theory Form_Props
  imports Widget_Props
begin

text \<open>
  The form layouts: the flat form of screen.go and its compact form, whose loop places section
  banners, gutters and paired fields. A field that fits its column budget is shown without
  overlap, no editable field is lost while the terminal has rows for it, and the forms this
  program opens fit every terminal.
\<close>

section \<open>One field\<close>

definition form_cells :: "form_field \<Rightarrow> int \<Rightarrow> int \<Rightarrow> int \<Rightarrow> int \<Rightarrow> bool \<Rightarrow> screen3270" where
  "form_cells f row labelCol inputCol labelMax dot = fst (placeFormField f row labelCol inputCol labelMax dot ([], home))"

text \<open>What a field needs to end at column \<open>right\<close>.\<close>

definition field_fits :: "int \<Rightarrow> int \<Rightarrow> form_field \<Rightarrow> bool" where
  "field_fits right inputCol f \<longleftrightarrow>
     (if ff_ReadOnly f then inputCol + int (length (ff_Value f)) \<le> right
      else 0 \<le> ff_Length f \<and> int (length (ff_Value f)) \<le> ff_Length f \<and> inputCol + int (length (ff_Value f)) < 79
        \<and> (if ff_Suffix f = [] then stop_col f inputCol \<le> right
           else stop_col f inputCol + 1 + int (length (ff_Suffix f)) \<le> right))"

lemma place_eq:
  "placeFormField f row lc ic lm d (s, c) =
     (s @ form_cells f row lc ic lm d, if ff_ReadOnly f \<or> c \<noteq> home then c else (row, ic + 1))"
  by (simp add: placeFormField_def form_cells_def Let_def)

lemma form_cells_eq:
  "form_cells f row lc ic lm d =
     text_at row lc Turquoise (form_label f lm d) #
     (if ff_ReadOnly f then [text_at row ic Green (ff_Value f)]
      else [(input_at row ic (ff_Name f))\<lparr>fd_Hidden := ff_Hidden f, fd_Content := ff_Value f\<rparr>, field_at row (stop_col f ic)]
        @ (if ff_Suffix f = [] then [] else [text_at row (stop_col f ic + 1) Turquoise (ff_Suffix f)]))"
  by (simp add: form_cells_def placeFormField_def Let_def)

lemma length_form_label: "0 \<le> lm \<Longrightarrow> int (length (form_label f lm d)) \<le> lm"
  by (auto simp: form_label_def dotLeaderLabel_def truncRunes_def Let_def)

lemma form_cells_ok:
  assumes "0 \<le> row" "row < rows" "0 \<le> lc" "0 \<le> lm" "lc + lm < ic" "field_fits right ic f" "right \<le> 79"
  shows "screen_ok rows (form_cells f row lc ic lm d)"
    and "\<forall>g\<in>set (form_cells f row lc ic lm d). fd_Row g = row \<and> lc \<le> fd_Col g \<and> fd_End g \<le> right"
  using assms length_form_label[OF assms(4), of f d]
  by (auto simp: form_cells_eq layout_simps field_fits_def stop_col_def split: if_splits)

lemma form_cells_inputs:
  "inputs (form_cells f row lc ic lm d) =
     (if ff_ReadOnly f then []
      else [(input_at row ic (ff_Name f))\<lparr>fd_Hidden := ff_Hidden f, fd_Content := ff_Value f\<rparr>])"
  by (simp add: form_cells_eq)

text \<open>Where the cursor starts: one column right of the first input's attribute byte, or home.\<close>

definition first_input :: "screen3270 \<Rightarrow> cursor" where
  "first_input s = (case inputs s of [] \<Rightarrow> home | f # _ \<Rightarrow> (fd_Row f, fd_Col f + 1))"

lemma place_first_input:
  "c = first_input s \<Longrightarrow> 0 < row \<Longrightarrow> \<forall>f\<in>set (inputs s). 0 < fd_Row f \<Longrightarrow>
   (if ff_ReadOnly f \<or> c \<noteq> home then c else (row, ic + 1)) = first_input (s @ form_cells f row lc ic lm d)"
  by (auto simp: first_input_def form_cells_inputs home_def split: list.split)

lemma inputCol_bounds:
  "0 \<le> m \<Longrightarrow> 16 \<le> formInputCol m" "formInputCol m \<le> 63" "0 \<le> m \<Longrightarrow> 0 \<le> formLabelMax (formInputCol m)"
  "labelAttrCol + formLabelMax (formInputCol m) < formInputCol m"
  by (auto simp: formInputCol_def formLabelMax_def labelAttrCol_def labelGutter_def minInputCol_def minInputWidth_def)

lemma max_label_nonneg: "0 \<le> max_label fs"
proof -
  have "0 \<le> (m :: int) \<Longrightarrow> 0 \<le> foldl (\<lambda>m f. max m (int (length (ff_Label f)))) m fs" for m
    by (induction fs arbitrary: m) auto
  then show ?thesis by (simp add: max_label_def)
qed

section \<open>The compact layout\<close>

text \<open>The column budget of a compact form: a field paired with the next one ends before column 40.\<close>

fun compact_fits :: "int \<Rightarrow> bool \<Rightarrow> form_field list \<Rightarrow> bool" where
  "compact_fits ic paired [] = True"
| "compact_fits ic paired (f # fs) =
     (if ff_SameRow f then paired \<and> field_fits 79 sameRowInputCol f \<and> compact_fits ic False fs
      else field_fits (if fs \<noteq> [] \<and> ff_SameRow (hd fs) then 39 else 79) ic f \<and> compact_fits ic True fs)"

text \<open>The rows the fields take.\<close>

fun compact_height :: "bool \<Rightarrow> form_field list \<Rightarrow> int" where
  "compact_height first [] = 0"
| "compact_height first (f # fs) =
     (if ff_SameRow f then compact_height first fs
      else (if \<not> first \<and> (ff_GapBefore f \<or> ff_Section f \<noteq> []) then 1 else 0) + (if ff_Section f \<noteq> [] then 1 else 0)
        + 1 + compact_height False fs)"

lemma compact_height_nonneg: "0 \<le> compact_height first fs"
  by (induction fs arbitrary: first) auto

definition form_names :: "form_field list \<Rightarrow> string list" where
  "form_names fs = map ff_Name (filter (\<lambda>f. \<not> ff_ReadOnly f) fs)"

lemma form_names_simps [simp]:
  "form_names [] = []" "form_names (f # fs) = (if ff_ReadOnly f then [] else [ff_Name f]) @ form_names fs"
  by (simp_all add: form_names_def)

lemma form_cells_names: "map fd_Name (inputs (form_cells f row lc ic lm d)) = form_names [f]"
  by (simp add: form_cells_inputs)

definition compact_inv :: "int \<Rightarrow> int \<Rightarrow> int \<Rightarrow> int \<Rightarrow> bool \<Rightarrow> form_field list \<Rightarrow> screen3270 \<times> cursor \<Rightarrow> bool" where
  "compact_inv rows limit row lastRow paired fs st \<longleftrightarrow>
     screen_ok rows (fst st) \<and> (\<forall>f\<in>set (fst st). fd_Row f < row \<and> fd_Row f \<le> limit \<and> (fd_Write f \<longrightarrow> 0 < fd_Row f)) \<and>
     snd st = first_input (fst st) \<and> 0 < row \<and> limit < rows \<and>
     (paired \<longrightarrow> 0 < lastRow \<and> lastRow < row \<and> lastRow \<le> limit \<and>
        (fs \<noteq> [] \<and> ff_SameRow (hd fs) \<longrightarrow> (\<forall>f\<in>set (fst st). fd_Row f = lastRow \<longrightarrow> fd_End f \<le> 39)))"

lemma same_row_cells:
  assumes "compact_inv rows limit row lastRow True (f # fs) (s, c)" "ff_SameRow f" "field_fits 79 sameRowInputCol f"
  shows "compact_inv rows limit row lastRow False fs
    (placeFormField f lastRow sameRowLabelCol sameRowInputCol sameRowLabelMax d (s, c))"
proof -
  let ?n = "form_cells f lastRow sameRowLabelCol sameRowInputCol sameRowLabelMax d"
  have i: "screen_ok rows s" "\<forall>f\<in>set s. fd_Row f < row \<and> fd_Row f \<le> limit \<and> (fd_Write f \<longrightarrow> 0 < fd_Row f)"
    "c = first_input s" "0 < row" "limit < rows" "0 < lastRow" "lastRow < row" "lastRow \<le> limit"
    "\<forall>f\<in>set s. fd_Row f = lastRow \<longrightarrow> fd_End f \<le> 39"
    using assms(1,2) by (simp_all add: compact_inv_def)
  have n: "screen_ok rows ?n" "\<forall>g\<in>set ?n. fd_Row g = lastRow \<and> 40 \<le> fd_Col g \<and> fd_End g \<le> 79"
    using form_cells_ok[OF _ _ _ _ _ assms(3) order.refl, of lastRow rows sameRowLabelCol sameRowLabelMax d] i(5,6,8)
    by (simp_all add: sameRowLabelCol_def sameRowInputCol_def sameRowLabelMax_def)
  have "apart g h" if "g \<in> set s" "h \<in> set ?n" for g h
    using that i(9) n(2) by (cases "fd_Row g = lastRow") (fastforce simp: apart_def)+
  then have "screen_ok rows (s @ ?n)" using i(1) n(1) by (simp add: screen_ok_append)
  moreover have "(if ff_ReadOnly f \<or> c \<noteq> home then c else (lastRow, sameRowInputCol + 1)) = first_input (s @ ?n)"
    by (rule place_first_input[OF i(3,6)]) (use i(2) in simp)
  ultimately show ?thesis using i n(2) unfolding compact_inv_def place_eq by auto
qed

lemma primary_cells:
  assumes "compact_inv rows limit row lastRow paired (f # fs) (s, c)" "row \<le> row'" "row' \<le> limit" "16 \<le> ic"
    "field_fits (if fs \<noteq> [] \<and> ff_SameRow (hd fs) then 39 else 79) ic f"
  shows "compact_inv rows limit (row' + 1) row' True fs
    (placeFormField f row' labelAttrCol ic (formLabelMax ic) d (s, c))"
proof -
  let ?n = "form_cells f row' labelAttrCol ic (formLabelMax ic) d"
  let ?right = "if fs \<noteq> [] \<and> ff_SameRow (hd fs) then 39 else (79 :: int)"
  have i: "screen_ok rows s" "\<forall>f\<in>set s. fd_Row f < row \<and> fd_Row f \<le> limit \<and> (fd_Write f \<longrightarrow> 0 < fd_Row f)"
    "c = first_input s" "0 < row" "limit < rows"
    using assms(1) by (simp_all add: compact_inv_def)
  have n: "screen_ok rows ?n" "\<forall>g\<in>set ?n. fd_Row g = row' \<and> fd_End g \<le> ?right"
    using form_cells_ok[OF _ _ _ _ _ assms(5), of row' rows labelAttrCol "formLabelMax ic" d] i(4,5) assms(2-4)
    by (simp_all add: labelAttrCol_def formLabelMax_def labelGutter_def)
  have "apart g h" if "g \<in> set s" "h \<in> set ?n" for g h
    using that i(2) n(2) assms(2) by (intro other_rows_apart) fastforce
  then have "screen_ok rows (s @ ?n)" using i(1) n(1) by (simp add: screen_ok_append)
  moreover have "(if ff_ReadOnly f \<or> c \<noteq> home then c else (row', ic + 1)) = first_input (s @ ?n)"
    by (rule place_first_input[OF i(3)]) (use i(2,4) assms(2) in simp_all)
  moreover have "\<forall>g\<in>set s. fd_Row g \<noteq> row'" using i(2) assms(2) by fastforce
  ultimately show ?thesis using i n(2) assms(2,3) unfolding compact_inv_def place_eq by (auto split: if_splits)
qed

lemma length_banner: "length (sectionBanner name) = 77"
  by (simp add: sectionBanner_def sectionBannerWidth_def Let_def min_def) arith

lemma banner_cell:
  assumes "compact_inv rows limit row lastRow paired (f # fs) (s, c)" "row \<le> row'" "row' \<le> limit"
  shows "compact_inv rows limit (row' + 1) lastRow False (f # fs) (s @ [text_at row' labelAttrCol Blue (sectionBanner name)], c)"
proof -
  let ?b = "text_at row' labelAttrCol Blue (sectionBanner name)"
  have i: "screen_ok rows s" "\<forall>f\<in>set s. fd_Row f < row \<and> fd_Row f \<le> limit \<and> (fd_Write f \<longrightarrow> 0 < fd_Row f)"
    "c = first_input s" "0 < row" "limit < rows"
    using assms(1) by (simp_all add: compact_inv_def)
  have "fits rows ?b" using i(4,5) assms(2,3) by (simp add: fits_def labelAttrCol_def length_banner)
  moreover have "apart g ?b" if "g \<in> set s" for g using that i(2) assms(2) by (intro other_rows_apart) fastforce
  ultimately have "screen_ok rows (s @ [?b])" using i(1) by (simp add: screen_ok_append screen_ok_Cons)
  moreover have "first_input (s @ [?b]) = first_input s" by (simp add: first_input_def)
  ultimately show ?thesis using i assms(2,3) unfolding compact_inv_def by auto
qed

lemma compact_inv_done:
  "compact_inv rows limit row lastRow paired fs (s, c) \<Longrightarrow>
   screen_ok rows s \<and> (\<forall>f\<in>set s. fd_Row f \<le> limit) \<and> c = first_input s"
  by (simp add: compact_inv_def)

lemma compact_inv_weaken:
  "compact_inv rows limit row lastRow paired fs st \<Longrightarrow> row \<le> row' \<Longrightarrow> compact_inv rows limit row' lastRow False fs' st"
  by (fastforce simp: compact_inv_def)

text \<open>
  The loop keeps the invariant to its end; every editable field is on the screen while there is
  room for all of them.
\<close>

lemma compact_loop_ok:
  assumes "compact_inv rows limit row lastRow paired fs st" "compact_fits ic paired fs" "16 \<le> ic" "paired \<Longrightarrow> \<not> first"
    and "compact_loop v limit ic row lastRow first fs st = (s', c')"
  shows "screen_ok rows s' \<and> (\<forall>f\<in>set s'. fd_Row f \<le> limit) \<and> c' = first_input s'
    \<and> (row + compact_height first fs \<le> limit + 1 \<longrightarrow> map fd_Name (inputs s') = map fd_Name (inputs (fst st)) @ form_names fs)"
  using assms
proof (induction fs arbitrary: row lastRow paired first st)
  case Nil
  then have "compact_inv rows limit row lastRow paired [] (s', c')" "st = (s', c')" by simp_all
  with compact_inv_done show ?case by fastforce
next
  case (Cons f fs)
  obtain s c where st: "st = (s, c)" by (cases st)
  note prems = Cons.prems[unfolded st]
  show ?case
  proof (cases "ff_SameRow f")
    case True
    then have p: "paired" "\<not> first" "field_fits 79 sameRowInputCol f" "compact_fits ic False fs" using prems(2,4) by auto
    let ?st = "placeFormField f lastRow sameRowLabelCol sameRowInputCol sameRowLabelMax (fv_DotLeader v) (s, c)"
    have "compact_inv rows limit row lastRow False fs ?st"
      by (rule same_row_cells) (use prems(1) p True in simp_all)
    moreover have "compact_loop v limit ic row lastRow first fs ?st = (s', c')" using prems(5) p(2) True by simp
    moreover have "compact_height first (f # fs) = compact_height first fs" using True by simp
    ultimately show ?thesis
      using Cons.IH[of row lastRow False ?st first] p(4) prems(3) by (simp add: st place_eq form_cells_names)
  next
    case False
    define row1 where "row1 = (if ff_GapBefore f \<and> \<not> first \<and> ff_Section f = [] then row + 1 else row)"
    define row2 where "row2 = (if ff_Section f \<noteq> [] \<and> \<not> first then row1 + 1 else row1)"
    define st2 where "st2 = (if ff_Section f \<noteq> [] then (s @ [text_at row2 labelAttrCol Blue (sectionBanner (ff_Section f))], c) else (s, c))"
    define row3 where "row3 = (if ff_Section f \<noteq> [] then row2 + 1 else row2)"
    have le: "row \<le> row2" "row2 \<le> row3" by (auto simp: row1_def row2_def row3_def)
    have height: "row + compact_height first (f # fs) = row3 + 1 + compact_height False fs"
      using False by (simp add: row1_def row2_def row3_def)
    have loop: "(s', c') = (if ff_Section f \<noteq> [] \<and> limit < row2 then (s, c)
       else if limit < row3 then st2
       else compact_loop v limit ic (row3 + 1) row3 False fs
         (placeFormField f row3 labelAttrCol ic (formLabelMax ic) (fv_DotLeader v) st2))"
      unfolding prems(5)[symmetric] compact_loop.simps(2) row1_def row2_def row3_def st2_def Let_def
      by (simp only: False if_False fst_conv snd_conv)
    have fits: "field_fits (if fs \<noteq> [] \<and> ff_SameRow (hd fs) then 39 else 79) ic f" "compact_fits ic True fs"
      using prems(2) False by simp_all
    show ?thesis
    proof (cases "limit < row3")
      case True
      have no: "\<not> row + compact_height first (f # fs) \<le> limit + 1"
        unfolding height using True compact_height_nonneg[of False fs] by simp
      show ?thesis
      proof (cases "ff_Section f \<noteq> [] \<and> \<not> limit < row2")
        case True
        then have eq: "(s', c') = (s @ [text_at row2 labelAttrCol Blue (sectionBanner (ff_Section f))], c)"
          using loop \<open>limit < row3\<close> by (simp add: st2_def)
        have "row2 \<le> limit" using True by simp
        from compact_inv_done[OF banner_cell[OF prems(1) le(1) this, of "ff_Section f"]] eq no show ?thesis by simp
      next
        case out: False
        then have eq: "(s', c') = (s, c)"
        proof (cases "ff_Section f = []")
          case True
          with loop \<open>limit < row3\<close> show ?thesis by (simp add: st2_def)
        qed (use out loop in simp)
        from compact_inv_done[OF prems(1)] eq no show ?thesis by simp
      qed
    next
      case fit: False
      have st2: "compact_inv rows limit row3 lastRow False (f # fs) st2"
      proof (cases "ff_Section f = []")
        case True
        with compact_inv_weaken[OF prems(1), of row3 "f # fs"] le show ?thesis by (simp add: st2_def)
      next
        case sec: False
        with banner_cell[OF prems(1) le(1), of "ff_Section f"] fit le(2) show ?thesis by (simp add: st2_def row3_def)
      qed
      obtain s2 c2 where s2: "st2 = (s2, c2)" by (cases st2)
      have inv: "compact_inv rows limit (row3 + 1) row3 True fs
          (placeFormField f row3 labelAttrCol ic (formLabelMax ic) (fv_DotLeader v) (s2, c2))"
        by (rule primary_cells[OF st2[unfolded s2] order.refl _ prems(3) fits(1)]) (use fit in simp)
      have names: "map fd_Name (inputs s2) = map fd_Name (inputs s)"
        using s2 by (auto simp: st2_def split: if_splits)
      have "compact_loop v limit ic (row3 + 1) row3 False fs
         (placeFormField f row3 labelAttrCol ic (formLabelMax ic) (fv_DotLeader v) (s2, c2)) = (s', c')"
        using loop fit le(2) by (simp add: s2)
      from Cons.IH[OF inv fits(2) prems(3) _ this]
      show ?thesis unfolding st height by (simp add: place_eq form_cells_names names)
    qed
  qed
qed

section \<open>Whole forms\<close>

text \<open>What a form shows: a sound layout with every editable field on it, the cursor on the first.\<close>

definition form_shown :: "int \<Rightarrow> form_view \<Rightarrow> bool" where
  "form_shown rows v \<longleftrightarrow>
     (case buildFormScreen rows v of (s, cur) \<Rightarrow>
        screen_ok (normRows rows) s \<and> map fd_Name (inputs s) = form_names (fv_Fields v) \<and> cur = first_input s)"

text \<open>The budget of a form on the smallest terminal: 24 rows, so nine flat fields or compact rows 2 to 21.\<close>

definition form_fits :: "form_view \<Rightarrow> bool" where
  "form_fits v \<longleftrightarrow>
     length (fv_Title v) \<le> 79 \<and> length (formPFHelp v) \<le> 79 \<and> length (fv_Intro v) \<le> 77 \<and> length (fv_ErrMsg v) \<le> 77 \<and>
     (if fv_Compact v
      then compact_fits (compact_inputCol v) False (fv_Fields v)
        \<and> (if fv_Intro v = [] then 2 else 4) + compact_height True (fv_Fields v) \<le> 22
      else length (fv_Fields v) \<le> 9 \<and> list_all (field_fits 79 (formInputCol (max_label (fv_Fields v)))) (fv_Fields v))"

lemma bottom_ok:
  assumes "screen_ok (normRows rows) s" "\<forall>f\<in>set s. fd_Row f < normRows rows - 1 \<and> fd_Row f \<noteq> m" "0 \<le> m" "m < normRows rows - 1"
    "length (fv_ErrMsg v) \<le> 77" "length (formPFHelp v) \<le> 79"
  shows "screen_ok (normRows rows) (s @ form_bottom rows m v)"
proof -
  have "screen_ok (normRows rows) (form_bottom rows m v)"
    using assms(3-6) by (simp add: form_bottom_def layout_simps helpRow_def)
  moreover have "apart f g" if "f \<in> set s" "g \<in> set (form_bottom rows m v)" for f g
    using that assms(2) by (intro other_rows_apart) (auto simp: form_bottom_def helpRow_def)
  ultimately show ?thesis using assms(1) unfolding screen_ok_append by blast
qed

lemma first_input_bottom: "first_input (s @ form_bottom rows m v) = first_input s"
  by (simp add: first_input_def form_bottom_def)

lemma inputs_bottom [simp]: "inputs (form_bottom rows m v) = []"
  by (simp add: form_bottom_def)

lemma compact_inputCol_ge: "16 \<le> compact_inputCol v"
  using max_label_nonneg[of "filter (\<lambda>f. \<not> ff_SameRow f) (fv_Fields v)"]
  by (auto simp: compact_inputCol_def Let_def intro!: inputCol_bounds(1))

lemma compact_shown:
  assumes "fv_Compact v" "form_fits v"
  shows "form_shown rows v"
proof -
  define limit where "limit = compactMessageRow rows - 1"
  define start where "start = (if fv_Intro v \<noteq> [] then compactBodyTopRow + 2 else compactBodyTopRow)"
  define s0 where "s0 = [title_at 0 (centerCol (int (length (fv_Title v)))) (fv_Title v)]
    @ (if fv_Intro v \<noteq> [] then [text_at compactBodyTopRow labelAttrCol Turquoise (fv_Intro v)] else [])"
  obtain s c where loop: "compact_loop v limit (compact_inputCol v) start start True (fv_Fields v) (s0, home) = (s, c)"
    by (metis surj_pair)
  have limit: "limit = normRows rows - 3" by (simp add: limit_def compactMessageRow_def helpRow_def)
  have fits: "length (fv_Title v) \<le> 79" "length (formPFHelp v) \<le> 79" "length (fv_Intro v) \<le> 77" "length (fv_ErrMsg v) \<le> 77"
    "compact_fits (compact_inputCol v) False (fv_Fields v)" "start + compact_height True (fv_Fields v) \<le> limit + 1"
    using assms normRows_ge[of rows] by (auto simp: form_fits_def start_def limit compactBodyTopRow_def)
  have "compact_inv (normRows rows) limit start start False (fv_Fields v) (s0, home)"
    using fits centerCol_bounds[of "int (length (fv_Title v))"] normRows_ge[of rows]
    by (auto simp: compact_inv_def s0_def start_def limit layout_simps first_input_def compactBodyTopRow_def labelAttrCol_def)
  from compact_loop_ok[OF this fits(5) compact_inputCol_ge _ loop] fits(6)
  have r: "screen_ok (normRows rows) s" "\<forall>f\<in>set s. fd_Row f \<le> limit" "c = first_input s"
    "map fd_Name (inputs s) = map fd_Name (inputs s0) @ form_names (fv_Fields v)" by simp_all
  have b: "buildFormScreen rows v = (s @ form_bottom rows (compactMessageRow rows) v, c)"
    using assms(1) loop by (simp add: buildFormScreen_def buildCompactFormScreen_def Let_def limit_def start_def s0_def)
  have "screen_ok (normRows rows) (s @ form_bottom rows (compactMessageRow rows) v)"
    by (rule bottom_ok[OF r(1)]) (use r(2) limit fits normRows_ge[of rows] in \<open>fastforce simp: compactMessageRow_def helpRow_def\<close>)+
  moreover have "inputs s0 = []" by (simp add: s0_def)
  ultimately show ?thesis by (simp add: form_shown_def b r(3,4) first_input_bottom)
qed

lemma flat_fold:
  "fst (foldl (\<lambda>st (i, f). placeFormField f (r i) lc ic lm d st) (s, c) (zip ks fs)) =
   s @ concat (map (\<lambda>(i, f). form_cells f (r i) lc ic lm d) (zip ks fs))"
proof (induction ks arbitrary: fs s c)
  case (Cons k ks)
  show ?case
  proof (cases fs)
    case fs: (Cons f fs')
    show ?thesis by (simp add: fs place_eq Cons.IH)
  qed simp
qed simp

lemma flat_cursor:
  assumes "c = first_input s" "\<forall>f\<in>set (inputs s). 0 < fd_Row f" "\<And>i. 0 < r i"
  shows "snd (foldl (\<lambda>st (i, f). placeFormField f (r i) lc ic lm d st) (s, c) (zip ks fs)) =
    first_input (s @ concat (map (\<lambda>(i, f). form_cells f (r i) lc ic lm d) (zip ks fs)))"
  using assms(1,2)
proof (induction ks arbitrary: fs s c)
  case (Cons k ks)
  show ?case
  proof (cases fs)
    case fs: (Cons f fs')
    let ?n = "form_cells f (r k) lc ic lm d"
    let ?c = "if ff_ReadOnly f \<or> c \<noteq> home then c else (r k, ic + 1)"
    have c: "?c = first_input (s @ ?n)" by (rule place_first_input[OF Cons.prems(1) assms(3) Cons.prems(2)])
    have "\<forall>g\<in>set (inputs (s @ ?n)). 0 < fd_Row g" using Cons.prems(2) assms(3) by (auto simp: form_cells_inputs)
    from Cons.IH[OF c this, of fs'] show ?thesis by (simp add: fs place_eq)
  qed (use Cons.prems in simp)
qed simp

lemma flat_names:
  "length ks = length fs \<Longrightarrow>
   map fd_Name (inputs (concat (map (\<lambda>(i, f). form_cells f (r i) lc ic lm d) (zip ks fs)))) = form_names fs"
proof (induction ks arbitrary: fs)
  case (Cons k ks)
  then obtain f fs' where "fs = f # fs'" by (cases fs) auto
  with Cons show ?case by (simp add: form_cells_names)
qed simp

lemma flat_shown:
  assumes "\<not> fv_Compact v" "form_fits v"
  shows "form_shown rows v"
proof -
  define fs where "fs = fv_Fields v"
  define ic where "ic = formInputCol (max_label fs)"
  define s0 where "s0 = [title_at 0 (centerCol (int (length (fv_Title v)))) (fv_Title v)]"
  define cells where "cells = concat (map (\<lambda>(i, f). form_cells f (3 + 2 * int i) labelAttrCol ic (formLabelMax ic) (fv_DotLeader v))
    (zip [0..<length fs] fs))"
  have fits: "length (fv_Title v) \<le> 79" "length (formPFHelp v) \<le> 79" "length (fv_ErrMsg v) \<le> 77"
    "length fs \<le> 9" "\<forall>f\<in>set fs. field_fits 79 ic f"
    using assms by (auto simp: form_fits_def fs_def ic_def list_all_iff)
  have take: "take (nat (formMaxFields rows)) fs = fs"
    using fits(4) normRows_ge[of rows] by (simp add: formMaxFields_def)
  have row: "screen_ok (normRows rows) (form_cells (fs ! i) (3 + 2 * int i) labelAttrCol ic (formLabelMax ic) (fv_DotLeader v)) \<and>
      (\<forall>f\<in>set (form_cells (fs ! i) (3 + 2 * int i) labelAttrCol ic (formLabelMax ic) (fv_DotLeader v)). fd_Row f = 3 + 2 * int i)"
    if "i < length fs" for i
    using form_cells_ok[of "3 + 2 * int i" "normRows rows" labelAttrCol "formLabelMax ic" ic 79 "fs ! i" "fv_DotLeader v"]
      inputCol_bounds[of "max_label fs"] max_label_nonneg[of fs] fits(4,5) that normRows_ge[of rows]
    by (auto simp: ic_def labelAttrCol_def)
  have cells: "screen_ok (normRows rows) cells"
    unfolding cells_def by (rule rows_ok[where r = "\<lambda>i. 3 + 2 * int i"]) (use row in auto)
  have band: "3 \<le> fd_Row f \<and> fd_Row f < normRows rows - 1" if "f \<in> set cells" for f
    using that unfolding cells_def by (rule row_cell) (use row fits(4) normRows_ge[of rows] in fastforce)
  have "screen_ok (normRows rows) (s0 @ cells)"
    unfolding screen_ok_append using cells band fits(1) normRows_ge[of rows] centerCol_bounds[of "int (length (fv_Title v))"]
    by (fastforce simp: s0_def layout_simps)
  then have ok: "screen_ok (normRows rows) ((s0 @ cells) @ form_bottom rows messageRow v)"
    by (rule bottom_ok) (use band fits(2,3) normRows_ge[of rows] in \<open>fastforce simp: s0_def messageRow_def\<close>)+
  have b: "buildFormScreen rows v = ((s0 @ cells) @ form_bottom rows messageRow v, first_input (s0 @ cells))"
  proof -
    have "home = first_input s0" "\<forall>f\<in>set (inputs s0). 0 < fd_Row f" by (simp_all add: s0_def first_input_def)
    note c = flat_cursor[OF this, where r = "\<lambda>i. 3 + 2 * int i" and lc = labelAttrCol and ic = ic and lm = "formLabelMax ic"
        and d = "fv_DotLeader v" and ks = "[0..<length fs]" and fs = fs]
    show ?thesis
      using assms(1) c flat_fold[where r = "\<lambda>i. 3 + 2 * int i" and lc = labelAttrCol and ic = ic and lm = "formLabelMax ic"
          and d = "fv_DotLeader v" and ks = "[0..<length fs]" and fs = fs and s = s0 and c = home]
      by (simp add: buildFormScreen_def Let_def take fs_def[symmetric] ic_def[symmetric] s0_def[symmetric] cells_def[symmetric] prod_eq_iff split: prod.split)
  qed
  have "map fd_Name (inputs cells) = form_names fs" unfolding cells_def by (rule flat_names) simp
  with ok show ?thesis by (simp add: form_shown_def b first_input_bottom fs_def s0_def first_input_def)
qed

lemma form_shownI: "form_fits v \<Longrightarrow> form_shown rows v"
  using compact_shown flat_shown by blast

section \<open>The forms of the program\<close>

definition form_view_of :: "'s form_config \<Rightarrow> string \<Rightarrow> 's \<Rightarrow> form_view" where \<comment> \<open>the view \<open>RunForm\<close> paints\<close>
  "form_view_of fc errMsg s =
     \<lparr>fv_Title = fc_Title fc, fv_ErrMsg = errMsg, fv_Fields = fc_Fields fc s, fv_Intro = fc_Intro fc,
      fv_PFHelp = fc_PFHelp fc, fv_DotLeader = fc_DotLeader fc, fv_Compact = fc_Compact fc\<rparr>"

definition catalog_fields :: "string list \<Rightarrow> form_field list" where \<comment> \<open>the fields of \<open>systemParams\<close> with the stored values\<close>
  "catalog_fields vals =
     map (\<lambda>(e, v). form_input (se_Key e) (se_Label e) v (if se_Length e = 0 then 64 else se_Length e)) (zip Catalog vals)"

lemmas form_eval = form_fits_def formPFHelp_def form_view_of_def form_input_def compact_inputCol_def max_label_def
  formInputCol_def labelAttrCol_def labelGutter_def minInputCol_def minInputWidth_def field_fits_def stop_col_def
  sameRowInputCol_def yn_def

lemma user_form_fits:
  assumes "length msg \<le> 77" "\<And>u. t = Some u \<Longrightarrow> length (u_Username u) \<le> 32 \<and> length (u_FullName u) \<le> 40 \<and> length (u_Email u) \<le> 40"
  shows "form_fits (form_view_of (userEdit_form cfg t) msg (user_fields t))"
  using assms by (cases t) (auto simp: form_eval userEdit_form_def user_fields_def)

lemma service_form_fits:
  assumes "length msg \<le> 77"
    "\<And>s. t = Some s \<Longrightarrow> length (s_Name s) \<le> 8 \<and> length (s_Description s) \<le> 40 \<and> length (s_Host s) \<le> 48 \<and> 0 \<le> s_Port s \<and> s_Port s < 65536"
  shows "form_fits (form_view_of (serviceForm_form cfg t) msg (service_decor (service_fields t)))"
proof (cases t)
  case (Some s)
  have "length (itoa (s_Port s)) \<le> 5" using length_itoa[of "s_Port s" 5] assms(2)[OF Some] by simp
  with assms Some show ?thesis
    by (simp add: form_eval serviceForm_form_def service_fields_def service_decor_def FieldName_def FieldHost_def FieldTLS_def
        FieldVerify_def FieldDescription_def FieldPort_def)
qed (use assms in \<open>simp add: form_eval serviceForm_form_def service_fields_def service_decor_def FieldName_def FieldHost_def FieldTLS_def
        FieldVerify_def FieldDescription_def FieldPort_def\<close>)

lemma network_form_fits:
  "length msg \<le> 77 \<Longrightarrow> length cidr \<le> 48 \<Longrightarrow> length comment \<le> 40 \<Longrightarrow>
   form_fits (form_view_of (networkForm_form cfg t) msg
     [form_input FieldCIDR ''Network. . .'' cidr 48, form_input FieldComment ''Comment. . .'' comment 40])"
  by (simp add: form_eval networkForm_form_def)

lemma group_form_fits:
  "length msg \<le> 77 \<Longrightarrow> length name \<le> 32 \<Longrightarrow>
   form_fits (form_view_of (groupAdd_form cfg) msg [form_input FieldName ''Group name .'' name 32])"
  by (simp add: form_eval groupAdd_form_def)

lemma import_form_fits:
  "length msg \<le> 77 \<Longrightarrow> length path \<le> 55 \<Longrightarrow> length (d_Name d) \<le> 32 \<Longrightarrow>
   form_fits (form_view_of (import_form cfg fl d) msg ([form_input FieldPath ''Server file path. .'' path 56], m))"
  by (simp add: form_eval import_form_def)

lemma password_forms_fit:
  "length msg \<le> 77 \<Longrightarrow> length (id_Username ident) \<le> 32 \<Longrightarrow>
   form_fits (form_view_of (change_form cfg ident) msg (change_fields ident))"
  "length msg \<le> 77 \<Longrightarrow> length intro \<le> 77 \<Longrightarrow> form_fits (form_view_of (step_up_form cfg name intro) msg ok)"
  by (simp_all add: form_eval change_form_def change_fields_def step_up_form_def hidden_input_def)

text \<open>The labels of the catalog put the inputs at column 27, which leaves 51 columns for a path.\<close>

lemma system_form_fits:
  assumes "length msg \<le> 77" "list_all2 (\<lambda>e v. length v \<le> (if se_Length e = 0 then 51 else nat (se_Length e))) Catalog vals"
  shows "form_fits (form_view_of (system_form cfg) msg (catalog_fields vals))"
  using assms by (auto simp: form_eval system_form_def catalog_fields_def Catalog_def list_all2_Cons1)

section \<open>Properties\<close>

text \<open>C25. Every form of the program is shown whole on every terminal: laid out inside the screen without overlap, every
editable field present as an input of its name (so submitting cannot blank one that was never shown), the cursor on the
first. This covers adding and editing users, services and trusted networks, groups, document import, the system
parameters, and a user's own password forms, with any message of at most 77 characters; the values must fit the widths
the forms give them, 51 columns for the paths of the system parameters.\<close>

theorem program_forms_shown:
  assumes "length msg \<le> 77"
  shows "(\<forall>t. (\<forall>u. t = Some u \<longrightarrow> length (u_Username u) \<le> 32 \<and> length (u_FullName u) \<le> 40 \<and> length (u_Email u) \<le> 40) \<longrightarrow>
        form_shown rows (form_view_of (userEdit_form cfg t) msg (user_fields t)))
    \<and> (\<forall>t. (\<forall>s. t = Some s \<longrightarrow> length (s_Name s) \<le> 8 \<and> length (s_Description s) \<le> 40 \<and> length (s_Host s) \<le> 48 \<and>
          0 \<le> s_Port s \<and> s_Port s < 65536) \<longrightarrow>
        form_shown rows (form_view_of (serviceForm_form cfg t) msg (service_decor (service_fields t))))
    \<and> (\<forall>t cidr comment. length cidr \<le> 48 \<and> length comment \<le> 40 \<longrightarrow>
        form_shown rows (form_view_of (networkForm_form cfg t) msg
          [form_input FieldCIDR ''Network. . .'' cidr 48, form_input FieldComment ''Comment. . .'' comment 40]))
    \<and> (\<forall>name. length name \<le> 32 \<longrightarrow>
        form_shown rows (form_view_of (groupAdd_form cfg) msg [form_input FieldName ''Group name .'' name 32]))
    \<and> (\<forall>fl d path m. length path \<le> 55 \<and> length (d_Name d) \<le> 32 \<longrightarrow>
        form_shown rows (form_view_of (import_form cfg fl d) msg ([form_input FieldPath ''Server file path. .'' path 56], m)))
    \<and> (\<forall>vals. list_all2 (\<lambda>e v. length v \<le> (if se_Length e = 0 then 51 else nat (se_Length e))) Catalog vals \<longrightarrow>
        form_shown rows (form_view_of (system_form cfg) msg (catalog_fields vals)))
    \<and> (\<forall>ident. length (id_Username ident) \<le> 32 \<longrightarrow> form_shown rows (form_view_of (change_form cfg ident) msg (change_fields ident)))
    \<and> (\<forall>name intro ok. length intro \<le> 77 \<longrightarrow> form_shown rows (form_view_of (step_up_form cfg name intro) msg ok))"
  by (intro conjI allI impI form_shownI user_form_fits[OF assms] service_form_fits[OF assms] network_form_fits[OF assms]
      group_form_fits[OF assms] import_form_fits[OF assms] system_form_fits[OF assms] password_forms_fit[OF assms]) simp_all

text \<open>The form that edits a user on the smallest terminal has its eight inputs.\<close>

definition sample_user :: user where
  "sample_user = \<lparr>u_ID = 1, u_Username = ''ALICE'', u_PasswordHash = [], u_FullName = ''Alice'', u_Email = ''a@b.example'',
     u_MFARequired = True, u_MFASecret = [], u_MFAEnrolledAt = [], u_MFALastStep = 0, u_UserSettingsLocked = True\<rparr>"

lemma program_forms_shown_witness:
  "\<forall>cfg. form_shown 24 (form_view_of (userEdit_form cfg (Some sample_user)) ''INVALID EMAIL ADDRESS'' (user_fields (Some sample_user)))"
proof
  fix cfg
  have "length ''INVALID EMAIL ADDRESS'' \<le> 77" by simp
  then show "form_shown 24 (form_view_of (userEdit_form cfg (Some sample_user)) ''INVALID EMAIL ADDRESS'' (user_fields (Some sample_user)))"
    using program_forms_shown[of "''INVALID EMAIL ADDRESS''" 24 cfg] by (auto simp: sample_user_def)
qed

end
