(* ===== verification/Editor_Props.thy ===== *)
theory Editor_Props
  imports Widget_Props
begin

text \<open>
  The editor's screen: where its fields lie, how wide its inputs are, and that reading back a page
  on which nothing was typed leaves the document as it was, trailing blanks apart.
\<close>

section \<open>The screen\<close>

lemma editor_body:
  assumes "int (length xs) \<le> listPageSize rows" "\<forall>ln\<in>set xs. snd ln \<or> length (fst ln) \<le> editorTextMax"
    and "r = (if xs = [] then 5 else 4 + int (length xs))"
  shows "screen_ok (normRows rows) (concat (map (\<lambda>(i, ln). editor_row i ln) (zip [0..<length xs] xs)) @ [field_at r 0])"
    and "\<forall>f\<in>set (concat (map (\<lambda>(i, ln). editor_row i ln) (zip [0..<length xs] xs)) @ [field_at r 0]).
      4 \<le> fd_Row f \<and> fd_Row f < legendRow rows"
proof -
  let ?c = "concat (map (\<lambda>(i, ln). editor_row i ln) (zip [0..<length xs] xs))"
  have row: "screen_ok (normRows rows) (editor_row i (xs ! i)) \<and> (\<forall>f\<in>set (editor_row i (xs ! i)). fd_Row f = 4 + int i)"
    if "i < length xs" for i
    using that assms by (intro editor_row_ok) auto
  have ok: "screen_ok (normRows rows) ?c"
    by (rule rows_ok[where r = "\<lambda>i. 4 + int i"]) (use row in auto)
  have band: "4 \<le> fd_Row f \<and> fd_Row f < 4 + int (length xs)" if "f \<in> set ?c" for f
    using that by (rule row_cell) (use row in fastforce)
  have r: "fits (normRows rows) (field_at r 0)" "4 \<le> r" "r < legendRow rows"
    using assms(1,3) normRows_ge[of rows] by (auto simp: fits_def row_defs split: if_splits)
  have "apart f (field_at r 0)" if "f \<in> set ?c" for f
    using band[OF that] assms(3) that by (intro other_rows_apart) (auto split: if_splits)
  then show "screen_ok (normRows rows) (?c @ [field_at r 0])"
    unfolding screen_ok_append screen_ok_Cons using ok r(1) by simp
  show "\<forall>f\<in>set (?c @ [field_at r 0]). 4 \<le> fd_Row f \<and> fd_Row f < legendRow rows"
  proof
    fix f assume "f \<in> set (?c @ [field_at r 0])"
    then consider "f \<in> set ?c" | "f = field_at r 0" by auto
    then show "4 \<le> fd_Row f \<and> fd_Row f < legendRow rows"
      using band assms(1) r by cases (fastforce simp: row_defs)+
  qed
qed

definition editor_legend :: string where
  "editor_legend = ''Prefix: I=Insert  D=Delete  R=Repeat    Yellow lines: re-import to change''"

lemma editor_screen_eq:
  "fst (buildEditorScreen rows v) =
     [title_at 0 (centerCol (int (length (ev_Title v)))) (ev_Title v), text_at 0 60 DefaultColor (ev_RowInfo v)]
     @ [text_at bodyTopRow 3 Blue editorRuler]
     @ (concat (map (\<lambda>(i, ln). editor_row i ln) (zip [0..<length (ev_Lines v)] (ev_Lines v)))
        @ [field_at (if ev_Lines v = [] then 5 else 4 + int (length (ev_Lines v))) 0])
     @ [text_at (legendRow rows) 2 Turquoise editor_legend, error_at messageRow 2 (ev_ErrMsg v),
        text_at (helpRow rows) 0 Blue (ev_PFHelp v)]"
  by (auto simp: buildEditorScreen_def Let_def editor_legend_def int_ops of_nat_diff Suc_leI)

lemma editor_screen_shape:
  assumes "int (length (ev_Lines v)) \<le> listPageSize rows" "\<forall>ln\<in>set (ev_Lines v). snd ln \<or> length (fst ln) \<le> editorTextMax"
    "length (ev_ErrMsg v) \<le> 77" "length (ev_PFHelp v) \<le> 79"
  shows "screen_ok (normRows rows) (fst (buildEditorScreen rows v)) \<longleftrightarrow> length (ev_Title v) \<le> 39 \<and> length (ev_RowInfo v) \<le> 19"
proof -
  note body = editor_body[OF assms(1,2) refl]
  have up: "screen_ok (normRows rows) [text_at bodyTopRow 3 Blue editorRuler]"
    "\<forall>f\<in>set [text_at bodyTopRow 3 Blue editorRuler]. fd_Row f \<in> {1, 3}"
    using normRows_ge[of rows] by (simp_all add: layout_simps row_defs editorRuler_def)
  show ?thesis
    unfolding editor_screen_eq
  proof (rule head_body_ok)
    show "screen_ok (normRows rows) ([text_at bodyTopRow 3 Blue editorRuler]
     @ (concat (map (\<lambda>(i, ln). editor_row i ln) (zip [0..<length (ev_Lines v)] (ev_Lines v)))
        @ [field_at (if ev_Lines v = [] then 5 else 4 + int (length (ev_Lines v))) 0])
     @ [text_at (legendRow rows) 2 Turquoise editor_legend, error_at messageRow 2 (ev_ErrMsg v),
        text_at (helpRow rows) 0 Blue (ev_PFHelp v)])"
      by (rule body_ok[OF up body]) (use assms in \<open>simp_all add: editor_legend_def\<close>)
  qed (rule body_rows[OF up(2) body(2)] | use normRows_ge[of rows] in simp)+
qed

text \<open>A row's prefix input is two columns wide; a text input runs to the attribute byte of the next row.\<close>

lemma input_room_next_row:
  assumes "80 \<le> w" "\<forall>g\<in>set s. 0 \<le> fd_Col g \<and> fd_Col g < 80" "e \<in> set s" "fd_Row e = fd_Row f + 1" "fd_Col e = 0"
    and "0 \<le> fd_Col f" "fd_Col f < 80" "fd_Row f + 1 < rows" "\<forall>g\<in>set s. fd_Row g = fd_Row f \<longrightarrow> fd_Col g \<le> fd_Col f"
  shows "input_room rows w s f = w - fd_Col f - 1"
proof -
  have row: "x * w + w \<le> y * w" if "x < y" for x y :: int
  proof -
    have "(x + 1) * w \<le> y * w" using that assms(1) by (intro mult_right_mono) auto
    then show ?thesis by (simp add: distrib_right)
  qed
  have e: "address w e = address w f + (w - fd_Col f)" using assms(4,5) by (simp add: address_def distrib_right)
  have "address w g \<le> address w f \<or> address w e \<le> address w g" if g: "g \<in> set s" for g
  proof (cases "fd_Row g" "fd_Row f" rule: linorder_cases)
    case less
    have "fd_Col g < 80" using assms(2) g by auto
    with row[OF less] assms(1,6) show ?thesis by (simp add: address_def)
  next
    case equal
    with assms(9) g show ?thesis by (auto simp: address_def)
  next
    case greater
    have "0 \<le> fd_Col g" using assms(2) g by auto
    with row[OF greater] show ?thesis by (simp add: address_def e[unfolded address_def])
  qed
  moreover have "address w e \<le> rows * w" using row[OF assms(8)] assms(1,4,5) by (simp add: address_def distrib_right)
  ultimately show ?thesis
    unfolding input_room_def
    using foldr_next[of s w "address w f" "address w e" "rows * w", OF _ _ disjI1[OF bexI[OF refl assms(3)]]] assms(1,7) e by simp
qed

lemma editor_row_cols: "\<forall>f\<in>set (editor_row i ln). fd_Row f = 4 + int i \<and> (fd_Col f = 0 \<or> fd_Col f = 3)"
  by (cases ln) (simp add: editor_row_def)

lemma editor_screen_room:
  assumes "80 \<le> w" "int (length (ev_Lines v)) \<le> listPageSize rows" "f \<in> set (inputs (fst (buildEditorScreen rows v)))"
  shows "input_room (normRows rows) w (fst (buildEditorScreen rows v)) f = (if fd_Col f = 0 then 2 else w - 4)"
proof -
  define xs where "xs = ev_Lines v"
  let ?c = "concat (map (\<lambda>(i, ln). editor_row i ln) (zip [0..<length xs] xs))"
  let ?pre = "[title_at 0 (centerCol (int (length (ev_Title v)))) (ev_Title v), text_at 0 60 DefaultColor (ev_RowInfo v),
     text_at bodyTopRow 3 Blue editorRuler]"
  let ?post = "[field_at (if xs = [] then 5 else 4 + int (length xs)) 0, text_at (legendRow rows) 2 Turquoise editor_legend,
     error_at messageRow 2 (ev_ErrMsg v), text_at (helpRow rows) 0 Blue (ev_PFHelp v)]"
  have s: "fst (buildEditorScreen rows v) = ?pre @ ?c @ ?post" by (simp add: editor_screen_eq xs_def)
  have size: "int (length xs) \<le> normRows rows - 10" using assms(2) by (simp add: xs_def listPageSize_def)
  have "f \<in> set ?c" using assms(3) by (simp add: s)
  then obtain i where i: "i < length xs" "f \<in> set (editor_row i (xs ! i))" by (rule row_cell)
  have f: "fd_Row f = 4 + int i" "fd_Col f = 0 \<or> fd_Col f = 3" using editor_row_cols i(2) by auto
  have c: "0 \<le> centerCol n" "centerCol n < 80" if "0 \<le> n" for n using that by (auto simp: centerCol_def Let_def)
  have other: "\<forall>f\<in>set (?pre @ ?post). (\<forall>j<length xs. fd_Row f \<noteq> 4 + int j) \<and> 0 \<le> fd_Col f \<and> fd_Col f < 80"
    using size c normRows_ge[of rows] by (simp add: row_defs)
  have cell: "\<exists>j<length xs. h \<in> set (editor_row j (xs ! j)) \<and> fd_Row h = 4 + int j" if "h \<in> set ?c" for h
    using that by (rule row_cell) (use editor_row_cols in blast)
  have rowc: "\<forall>h\<in>set (editor_row j (xs ! j)). fd_Row h = 4 + int j \<and> 0 \<le> fd_Col h \<and> fd_Col h < 80" for j
    using editor_row_cols[of j "xs ! j"] by fastforce
  show ?thesis
  proof (cases "fd_Col f = 0")
    case True
    obtain t p where ln: "xs ! i = (t, p)" by (cases "xs ! i")
    have "input_room (normRows rows) w (fst (buildEditorScreen rows v)) f = 2"
    proof (rule row_room[where r = "\<lambda>i. 4 + int i", OF s assms(1) other rowc i, where e = "last (editor_row i (xs ! i))"])
      show "last (editor_row i (xs ! i)) \<in> set (editor_row i (xs ! i))" by (simp add: editor_row_def)
      show "fd_Col (last (editor_row i (xs ! i))) = fd_Col f + 2 + 1" using True by (simp add: ln editor_row_def)
      with True show "\<forall>h\<in>set (editor_row i (xs ! i)). fd_Col h \<le> fd_Col f \<or> fd_Col (last (editor_row i (xs ! i))) \<le> fd_Col h"
        using editor_row_cols[of i "xs ! i"] by fastforce
    qed (use size i(1) in \<open>simp_all add: inj_def\<close>)
    with True show ?thesis by simp
  next
    case False
    define e where "e = (if Suc i < length xs then input_at (4 + int (Suc i)) 0 (''pfx'' @ itoa (int (Suc i)))
      else field_at (4 + int (length xs)) 0)"
    have e: "e \<in> set (fst (buildEditorScreen rows v))" "fd_Row e = fd_Row f + 1" "fd_Col e = 0"
    proof -
      have "e \<in> set ?c" if "Suc i < length xs"
        using that by (rule row_cellI) (use that in \<open>simp add: editor_row_def e_def\<close>)
      moreover have "e \<in> set ?post" if "\<not> Suc i < length xs"
      proof -
        have "xs \<noteq> []" using i(1) by auto
        with that show ?thesis by (simp add: e_def)
      qed
      ultimately show "e \<in> set (fst (buildEditorScreen rows v))" unfolding s set_append by blast
      show "fd_Row e = fd_Row f + 1" "fd_Col e = 0" using i(1) f(1) by (auto simp: e_def)
    qed
    have cols: "\<forall>g\<in>set (fst (buildEditorScreen rows v)). 0 \<le> fd_Col g \<and> fd_Col g < 80"
    proof
      fix g assume "g \<in> set (fst (buildEditorScreen rows v))"
      then consider "g \<in> set ?c" | "g \<in> set (?pre @ ?post)" unfolding s set_append by blast
      then show "0 \<le> fd_Col g \<and> fd_Col g < 80"
      proof cases
        case 1
        then obtain j where "g \<in> set (editor_row j (xs ! j))" using cell by blast
        with rowc show ?thesis by blast
      qed (use other in blast)
    qed
    have "\<forall>g\<in>set (fst (buildEditorScreen rows v)). fd_Row g = fd_Row f \<longrightarrow> fd_Col g \<le> fd_Col f"
    proof (intro ballI impI)
      fix g assume g: "g \<in> set (fst (buildEditorScreen rows v))" "fd_Row g = fd_Row f"
      then have "\<exists>j<length xs. fd_Row g = 4 + int j" using f(1) i(1) by auto
      with g(1) other have "g \<in> set ?c" unfolding s set_append by blast
      then obtain j where "g \<in> set (editor_row j (xs ! j))" using cell by blast
      with editor_row_cols[of j "xs ! j"] f(2) False show "fd_Col g \<le> fd_Col f" by fastforce
    qed
    with input_room_next_row[OF assms(1) cols e _ _ _ this] f False size i(1)
    show ?thesis by auto
  qed
qed

section \<open>Reading an untouched page\<close>

text \<open>What a terminal sends back for inputs nobody typed in: go3270 trims a value unless the field keeps its spaces.\<close>

definition untouched :: "screen3270 \<Rightarrow> (string \<times> string) list" where
  "untouched s = map (\<lambda>f. (fd_Name f, if fd_KeepSpaces f then fd_Content f else trim_space (fd_Content f))) (inputs s)"

definition trailing_blank :: "char \<Rightarrow> bool" where "trailing_blank c \<longleftrightarrow> c = CHR '' '' \<or> c = CHR 0x00"

lemma trailing_blank_eq: "(\<lambda>c. c = CHR '' '' \<or> c = CHR 0x00) = trailing_blank"
  by (simp add: fun_eq_iff trailing_blank_def)

lemma untouched_simps [simp]:
  "untouched [] = []"
  "untouched (f # s) =
     (if fd_Write f then [(fd_Name f, if fd_KeepSpaces f then fd_Content f else trim_space (fd_Content f))] else []) @ untouched s"
  by (simp_all add: untouched_def)

lemma untouched_append: "untouched (s @ t) = untouched s @ untouched t"
  by (simp add: untouched_def)

lemma untouched_concat: "untouched (concat ss) = concat (map untouched ss)"
  by (induction ss) (simp_all add: untouched_append)

lemma map_filter_cong: "(\<And>x. x \<in> set xs \<Longrightarrow> f x = g x) \<Longrightarrow> List.map_filter f xs = List.map_filter g xs"
  by (induction xs) (simp_all add: List.map_filter_simps split: option.split)

lemma map_of_rows:
  assumes "i < length xs" "\<And>j. j < length xs \<Longrightarrow> j \<noteq> i \<Longrightarrow> k \<notin> fst ` set (h j (xs ! j))"
  shows "map_of (concat (map (\<lambda>(i, x). h i x) (zip [0..<length xs] xs))) k = map_of (h i (xs ! i)) k"
  using assms
proof (induction xs rule: rev_induct)
  case (snoc x xs)
  let ?m = "map_of (concat (map (\<lambda>(i, x). h i x) (zip [0..<length xs] xs)))"
  show ?case
  proof (cases "i < length xs")
    case True
    have "?m k = map_of (h i (xs ! i)) k"
    proof (rule snoc.IH[OF True])
      show "k \<notin> fst ` set (h j (xs ! j))" if "j < length xs" "j \<noteq> i" for j
        using snoc.prems(2)[of j] that by (simp add: nth_append)
    qed
    moreover have "map_of (h (length xs) x) k = None"
      using snoc.prems(2)[of "length xs"] True by (simp add: map_of_eq_None_iff)
    ultimately show ?thesis using True unfolding zip_upt_snoc by (simp add: nth_append map_add_def split: option.split)
  next
    case False
    then have i: "i = length xs" using snoc.prems(1) by simp
    have "?m k = None"
    proof -
      have no: "k \<notin> fst ` set (h j (xs ! j))" if "j < length xs" for j
        using snoc.prems(2)[of j] that i by (simp add: nth_append)
      have "k \<noteq> fst p" if "p \<in> set (concat (map (\<lambda>(i, x). h i x) (zip [0..<length xs] xs)))" for p
        using that by (rule row_cell) (use no in blast)
      then show ?thesis unfolding map_of_eq_None_iff by blast
    qed
    then show ?thesis unfolding zip_upt_snoc by (simp add: i map_add_def split: option.split)
  qed
qed simp

lemma untouched_editor_row:
  "untouched (editor_row i ln) = (''pfx'' @ itoa (int i), []) #
     (if snd ln then [] else [(''txt'' @ itoa (int i), fst ln)])"
  by (cases ln) (simp add: editor_row_def untouched_def input_at_def field_at_def text_at_def trim_space_def trim_left_def trim_right_def)

lemma untouched_editor:
  "untouched (fst (buildEditorScreen rows v)) =
   concat (map (\<lambda>(i, ln). untouched (editor_row i ln)) (zip [0..<length (ev_Lines v)] (ev_Lines v)))"
  by (simp add: editor_screen_eq untouched_append untouched_concat comp_def case_prod_unfold)

lemma untouched_editor_values:
  assumes "i < length (ev_Lines v)" "vals = untouched (fst (buildEditorScreen rows v))"
  shows "map_of vals (''pfx'' @ itoa (int i)) = Some []"
    "map_of vals (''txt'' @ itoa (int i)) = (if snd (ev_Lines v ! i) then None else Some (fst (ev_Lines v ! i)))"
proof -
  have other: "\<not> (''pfx'' @ itoa (int i) \<in> fst ` set (untouched (editor_row j ln)))"
    "\<not> (''txt'' @ itoa (int i) \<in> fst ` set (untouched (editor_row j ln)))" if "j \<noteq> i" for j ln
    using that by (auto simp: untouched_editor_row dest: itoa_inj)
  show "map_of vals (''pfx'' @ itoa (int i)) = Some []"
    unfolding assms(2) untouched_editor
    by (subst map_of_rows[where h = "\<lambda>i ln. untouched (editor_row i ln)", OF assms(1) other(1)]) (simp_all add: untouched_editor_row)
  show "map_of vals (''txt'' @ itoa (int i)) = (if snd (ev_Lines v ! i) then None else Some (fst (ev_Lines v ! i)))"
    unfolding assms(2) untouched_editor
    by (subst map_of_rows[where h = "\<lambda>i ln. untouched (editor_row i ln)", OF assms(1) other(2)]) (simp_all add: untouched_editor_row)
qed

lemma editorAction_untouched:
  assumes "resp = \<lparr>rs_AID = AIDEnter, rs_Values = untouched (fst (buildEditorScreen rows v))\<rparr>"
  shows "editorAction resp (length (ev_Lines v)) =
    \<lparr>ea_Prefix = [],
     ea_Text = List.map_filter (\<lambda>i. if snd (ev_Lines v ! i) then None
       else Some (i, trim_right trailing_blank (fst (ev_Lines v ! i)))) [0..<length (ev_Lines v)],
     ea_PF = 0\<rparr>"
proof -
  note val = untouched_editor_values[OF _ refl, where v = v and rows = rows]
  have "List.map_filter (\<lambda>i. case map_of (rs_Values resp) (''pfx'' @ itoa (int i)) of
      None \<Rightarrow> None | Some v \<Rightarrow> (case to_upper (trim_space v) of [] \<Rightarrow> None | c # _ \<Rightarrow> Some (i, c))) [0..<length (ev_Lines v)] = []"
    using val(1) by (auto simp: map_filter_def assms trim_space_def trim_left_def trim_right_def to_upper_def)
  moreover have "List.map_filter (\<lambda>i. map_option (\<lambda>v. (i, trim_right trailing_blank v)) (map_of (rs_Values resp) (''txt'' @ itoa (int i))))
      [0..<length (ev_Lines v)] =
    List.map_filter (\<lambda>i. if snd (ev_Lines v ! i) then None
       else Some (i, trim_right trailing_blank (fst (ev_Lines v ! i)))) [0..<length (ev_Lines v)]"
    by (rule map_filter_cong) (use val(2) in \<open>simp add: assms\<close>)
  ultimately show ?thesis by (simp add: editorAction_def trailing_blank_eq assms)
qed

lemma apply_text_page:
  assumes "0 \<le> st" "nat st + n \<le> length ls"
  shows "length (apply_text st (List.map_filter (\<lambda>i. if p i then None else Some (i, t i)) [0..<n]) ls) = length ls \<and>
    (\<forall>k<length ls. apply_text st (List.map_filter (\<lambda>i. if p i then None else Some (i, t i)) [0..<n]) ls ! k =
      (if nat st \<le> k \<and> k < nat st + n \<and> \<not> p (k - nat st) \<and> length (ls ! k) \<le> editorTextMax then t (k - nat st) else ls ! k))"
  using assms(2)
proof (induction n)
  case (Suc n)
  let ?F = "\<lambda>i. if p i then None else Some (i, t i)"
  let ?r = "apply_text st (List.map_filter ?F [0..<n]) ls"
  have at: "nat (st + int n) = nat st + n" using assms(1) by simp
  have step: "apply_text st (List.map_filter ?F [0..<Suc n]) ls =
    (if \<not> p n \<and> length (?r ! (nat st + n)) \<le> editorTextMax then ?r[nat st + n := t n] else ?r)"
    using Suc by (simp add: apply_text_def map_filter_def at)
  have IH: "length ?r = length ls" "\<And>k. k < length ls \<Longrightarrow> ?r ! k =
      (if nat st \<le> k \<and> k < nat st + n \<and> \<not> p (k - nat st) \<and> length (ls ! k) \<le> editorTextMax then t (k - nat st) else ls ! k)"
    using Suc by simp_all
  have here: "?r ! (nat st + n) = ls ! (nat st + n)" using IH(2)[of "nat st + n"] Suc.prems by simp
  show ?case unfolding step here
  proof (intro conjI allI impI)
    fix k assume k: "k < length ls"
    show "(if \<not> p n \<and> length (ls ! (nat st + n)) \<le> editorTextMax then ?r[nat st + n := t n] else ?r) ! k =
      (if nat st \<le> k \<and> k < nat st + Suc n \<and> \<not> p (k - nat st) \<and> length (ls ! k) \<le> editorTextMax then t (k - nat st) else ls ! k)"
    proof (cases "k = nat st + n")
      case True
      with IH k show ?thesis by auto
    next
      case False
      then have "k < nat st + Suc n \<longleftrightarrow> k < nat st + n" by auto
      with False IH(2)[OF k] show ?thesis by (simp add: nth_list_update)
    qed
  qed (use IH(1) in simp)
qed (auto simp: apply_text_def List.map_filter_simps)

section \<open>Properties\<close>

text \<open>C30. The editor's screen is laid out without overlap exactly when its title has at most 39 characters and its
row indicator at most 19; the cursor starts in the first prefix; and on a terminal \<open>w\<close> columns wide every prefix
input has two columns and every text input \<open>w\<close> - 4. That is the editor's own limit of 76 columns on an 80-column
terminal only: on a wider one a line can be typed that the editor will then refuse to change.\<close>

theorem editor_screen_layout:
  assumes "int (length (ev_Lines v)) \<le> listPageSize rows" "\<forall>ln\<in>set (ev_Lines v). snd ln \<or> length (fst ln) \<le> editorTextMax"
    "length (ev_ErrMsg v) \<le> 77" "length (ev_PFHelp v) \<le> 79" "80 \<le> w" "ev_Lines v \<noteq> []"
    and "buildEditorScreen rows v = (s, cur)"
  shows "(screen_ok (normRows rows) s \<longleftrightarrow> length (ev_Title v) \<le> 39 \<and> length (ev_RowInfo v) \<le> 19)
    \<and> (\<forall>f\<in>set (inputs s). input_room (normRows rows) w s f = (if fd_KeepSpaces f then w - 4 else 2))
    \<and> ((\<exists>f\<in>set (inputs s). int editorTextMax < input_room (normRows rows) w s f) \<longleftrightarrow>
         80 < w \<and> (\<exists>ln\<in>set (ev_Lines v). \<not> snd ln))
    \<and> cur = (4, 1)"
proof -
  have s: "s = fst (buildEditorScreen rows v)" and cur: "cur = snd (buildEditorScreen rows v)" using assms(7) by simp_all
  have keep: "fd_KeepSpaces f \<longleftrightarrow> fd_Col f \<noteq> 0" if "f \<in> set (inputs s)" for f
  proof -
    have "f \<in> set (concat (map (\<lambda>(i, ln). editor_row i ln) (zip [0..<length (ev_Lines v)] (ev_Lines v))))"
      using that by (simp add: s editor_screen_eq split: if_splits)
    then show ?thesis
      by (rule row_cell) (use that in \<open>auto simp: editor_row_def input_at_def text_at_def field_at_def split: prod.splits if_splits\<close>)
  qed
  have room: "\<forall>f\<in>set (inputs s). input_room (normRows rows) w s f = (if fd_KeepSpaces f then w - 4 else 2)"
    using editor_screen_room[OF assms(5,1), of _] keep unfolding s by simp
  have texts: "(\<exists>f\<in>set (inputs s). fd_KeepSpaces f) \<longleftrightarrow> (\<exists>ln\<in>set (ev_Lines v). \<not> snd ln)"
  proof
    assume "\<exists>f\<in>set (inputs s). fd_KeepSpaces f"
    then obtain f where f: "f \<in> set (inputs s)" "fd_KeepSpaces f" by blast
    then have "f \<in> set (concat (map (\<lambda>(i, ln). editor_row i ln) (zip [0..<length (ev_Lines v)] (ev_Lines v))))"
      by (simp add: s editor_screen_eq split: if_splits)
    then obtain i where "i < length (ev_Lines v)" "f \<in> set (editor_row i (ev_Lines v ! i))" by (rule row_cell)
    with f(2) have "\<not> snd (ev_Lines v ! i)" "ev_Lines v ! i \<in> set (ev_Lines v)"
      by (auto simp: editor_row_def input_at_def text_at_def field_at_def split: prod.splits if_splits)
    then show "\<exists>ln\<in>set (ev_Lines v). \<not> snd ln" by blast
  next
    assume "\<exists>ln\<in>set (ev_Lines v). \<not> snd ln"
    then obtain i where i: "i < length (ev_Lines v)" "\<not> snd (ev_Lines v ! i)" by (auto simp: in_set_conv_nth)
    let ?f = "(text_at (4 + int i) 3 Green (fst (ev_Lines v ! i)))\<lparr>fd_Name := ''txt'' @ itoa (int i), fd_Write := True, fd_KeepSpaces := True\<rparr>"
    have "?f \<in> set (concat (map (\<lambda>(i, ln). editor_row i ln) (zip [0..<length (ev_Lines v)] (ev_Lines v))))"
      using i(1) by (rule row_cellI) (use i(2) in \<open>cases "ev_Lines v ! i"; simp add: editor_row_def\<close>)
    then have "?f \<in> set (inputs s)" unfolding s editor_screen_eq set_inputs set_append by simp
    then show "\<exists>f\<in>set (inputs s). fd_KeepSpaces f" by (intro bexI[of _ ?f]) simp_all
  qed
  have "screen_ok (normRows rows) s \<longleftrightarrow> length (ev_Title v) \<le> 39 \<and> length (ev_RowInfo v) \<le> 19"
    unfolding s by (rule editor_screen_shape[OF assms(1-4)])
  moreover have "(\<exists>f\<in>set (inputs s). int editorTextMax < input_room (normRows rows) w s f) \<longleftrightarrow>
      80 < w \<and> (\<exists>ln\<in>set (ev_Lines v). \<not> snd ln)"
    using room texts by (auto simp: editorTextMax_def)
  moreover have "cur = (4, 1)" using assms(6) by (simp add: cur buildEditorScreen_def Let_def)
  ultimately show ?thesis using room by blast
qed

definition sample_page :: editor_view where
  "sample_page = \<lparr>ev_Title = ''EDIT MOTD'', ev_RowInfo = ''ROW 1 TO 2 OF 2'', ev_ErrMsg = [], ev_PFHelp = editorPFHelp,
     ev_Lines = [('' WELCOME '', False), (replicate 80 (CHR ''*''), True)]\<rparr>"

text \<open>The same page on a 132-column terminal has a text input of 128 columns.\<close>

lemma editor_screen_layout_witness:
  "screen_ok 27 (fst (buildEditorScreen 27 sample_page))
   \<and> \<not> (\<exists>f\<in>set (inputs (fst (buildEditorScreen 27 sample_page))). int editorTextMax < input_room 27 80 (fst (buildEditorScreen 27 sample_page)) f)
   \<and> (\<exists>f\<in>set (inputs (fst (buildEditorScreen 27 sample_page))). int editorTextMax < input_room 27 132 (fst (buildEditorScreen 27 sample_page)) f)"
proof -
  have h: "int (length (ev_Lines sample_page)) \<le> listPageSize 27"
    "\<forall>ln\<in>set (ev_Lines sample_page). snd ln \<or> length (fst ln) \<le> editorTextMax"
    "length (ev_ErrMsg sample_page) \<le> 77" "length (ev_PFHelp sample_page) \<le> 79" "ev_Lines sample_page \<noteq> []" "normRows 27 = 27"
    by (simp_all add: sample_page_def listPageSize_def normRows_def editorTextMax_def editorPFHelp_def)
  have l: "length (ev_Title sample_page) \<le> 39" "length (ev_RowInfo sample_page) \<le> 19" "\<exists>ln\<in>set (ev_Lines sample_page). \<not> snd ln"
    by (simp_all add: sample_page_def)
  note t = editor_screen_layout[OF h(1-4) _ h(5) surjective_pairing, unfolded h(6)]
  have w: "\<not> (80 :: int) < 80" "(80 :: int) < 132" "(80 :: int) \<le> 132" by simp_all
  show ?thesis using t[OF order.refl] t[OF w(3)] l w by blast
qed

text \<open>C26. Pressing Enter on an editor page nobody typed on issues no prefix command and leaves the document as it was,
except that the editable lines of the page lose their trailing blanks and NULs; a line wider than the editor's 76 columns
is left alone whatever it holds.\<close>

theorem editor_untouched_page:
  assumes "pageBounds page (int (length ls)) rows = (p, st, en, info)" "ls \<noteq> []"
    and "v = \<lparr>ev_Title = ttl, ev_RowInfo = info, ev_ErrMsg = msg, ev_PFHelp = editorPFHelp,
           ev_Lines = map (\<lambda>l. (l, editorTextMax < length l)) (slice ls st en)\<rparr>"
    and "act = editorAction \<lparr>rs_AID = AIDEnter, rs_Values = untouched (fst (buildEditorScreen rows v))\<rparr> (length (ev_Lines v))"
  shows "ea_Prefix act = [] \<and> ea_PF act = 0
    \<and> apply_text st (ea_Text act) ls =
        map (\<lambda>k. if st \<le> int k \<and> int k < en \<and> length (ls ! k) \<le> editorTextMax
                 then trim_right trailing_blank (ls ! k) else ls ! k) [0..<length ls]"
proof -
  have sz: "0 < listPageSize rows" "0 < int (length ls)" using page_sizes_pos(1) assms(2) by simp_all
  have w: "page_window (listPageSize rows) page (int (length ls)) = (p, st, en)"
    using assms(1) by (cases "page_window (listPageSize rows) page (int (length ls))") (simp add: pageBounds_def)
  note b = page_window_ok[OF sz w]
  let ?n = "nat (en - st)"
  have le: "nat st + ?n \<le> length ls" using b(4-6) by linarith
  have n: "length (slice ls st en) = ?n" "nat st + ?n \<le> length ls" "0 \<le> st" using le b(4) by (simp_all add: slice_def)
  have nth: "slice ls st en ! i = ls ! (nat st + i)" if "i < ?n" for i
    using that n by (simp add: slice_def)
  have act: "act = \<lparr>ea_Prefix = [],
     ea_Text = List.map_filter (\<lambda>i. if snd (ev_Lines v ! i) then None
       else Some (i, trim_right trailing_blank (fst (ev_Lines v ! i)))) [0..<length (ev_Lines v)], ea_PF = 0\<rparr>"
    unfolding assms(4) by (rule editorAction_untouched) simp
  let ?p = "\<lambda>i. editorTextMax < length (ls ! (nat st + i))"
  let ?t = "\<lambda>i. trim_right trailing_blank (ls ! (nat st + i))"
  have texts: "ea_Text act = List.map_filter (\<lambda>i. if ?p i then None else Some (i, ?t i)) [0..<?n]"
  proof -
    have len: "length (ev_Lines v) = ?n" by (simp add: assms(3) n(1))
    show ?thesis unfolding act len by (simp, rule map_filter_cong) (simp add: assms(3) n(1) nth)
  qed
  note r = apply_text_page[OF n(3,2), of ?p ?t, folded texts]
  have "apply_text st (ea_Text act) ls =
      map (\<lambda>k. if st \<le> int k \<and> int k < en \<and> length (ls ! k) \<le> editorTextMax
                 then trim_right trailing_blank (ls ! k) else ls ! k) [0..<length ls]"
  proof (rule nth_equalityI)
    fix k assume "k < length (apply_text st (ea_Text act) ls)"
    then have k: "k < length ls" using r by simp
    have "nat st \<le> k \<and> k < nat st + ?n \<longleftrightarrow> st \<le> int k \<and> int k < en" using b(5) n(3) by linarith
    then show "apply_text st (ea_Text act) ls ! k =
      map (\<lambda>k. if st \<le> int k \<and> int k < en \<and> length (ls ! k) \<le> editorTextMax
                 then trim_right trailing_blank (ls ! k) else ls ! k) [0..<length ls] ! k"
      using r k by auto
  qed (use r in simp)
  then show ?thesis by (simp add: act)
qed

lemma editor_untouched_page_witness:
  "apply_text 0 (ea_Text (editorAction \<lparr>rs_AID = AIDEnter, rs_Values = untouched (fst (buildEditorScreen 24
       \<lparr>ev_Title = ''EDIT MOTD'', ev_RowInfo = ''ROW 1 TO 2 OF 2'', ev_ErrMsg = [], ev_PFHelp = editorPFHelp,
        ev_Lines = [('' A '', False), (''B'', False)]\<rparr>))\<rparr> 2)) ['' A '', ''B''] = ['' A'', ''B'']"
proof -
  have b: "pageBounds 0 (int (length ['' A '', ''B''])) 24 = (0, 0, 2, ''ROW 1 TO 2 OF 2'')" by code_simp
  have v: "slice ['' A '', ''B''] 0 2 = ['' A '', ''B'']" by (simp add: slice_def)
  show ?thesis
    using editor_untouched_page[OF b list.distinct(2) refl refl, where ttl = "''EDIT MOTD''" and msg = "[]"]
    by (simp add: v editorTextMax_def trim_right_def trailing_blank_def upt_rec numeral_2_eq_2)
qed

end
