(* ===== verification/Audit_Screen_Props.thy ===== *)
theory Audit_Screen_Props
  imports Widget_Props Panel_Props
begin

text \<open>
  The audit viewer's screen: whatever the trail holds, its rows fit their three columns; and
  how many events its row indicator has room to count.
\<close>

section \<open>Rows\<close>

lemma civil_month: "days_civil z = (y, m, d) \<Longrightarrow> 0 \<le> m \<and> m < 100"
proof -
  assume a: "days_civil z = (y, m, d)"
  define doe where "doe = (z + 306) mod 146097"
  define a1 where "a1 = doe div 1460"
  define a2 where "a2 = doe div 36524"
  define a3 where "a3 = doe div 146096"
  define yoe where "yoe = (doe - a1 + a2 - a3) div 365"
  define b1 where "b1 = yoe div 4"
  define b2 where "b2 = yoe div 100"
  define doy where "doy = doe - (365 * yoe + b1 - b2)"
  define mp where "mp = (5 * doy + 2) div 153"
  have m: "m = (if mp < 10 then mp + 3 else mp - 9)"
    using a[symmetric] unfolding days_civil_def Let_def prod.inject mp_def doy_def b1_def b2_def yoe_def a1_def a2_def a3_def doe_def by blast
  have div: "k * (x div k) \<le> x \<and> x < k * (x div k) + k" if "0 < k" for x k :: int
    using pos_mod_sign[OF that, of x] pos_mod_bound[OF that, of x] mult_div_mod_eq[of k x] by linarith
  have doe: "0 \<le> doe" "doe < 146097" by (simp_all add: doe_def)
  note f = div[of 1460 doe, folded a1_def, OF zero_less_numeral] div[of 36524 doe, folded a2_def, OF zero_less_numeral]
    div[of 146096 doe, folded a3_def, OF zero_less_numeral] div[of 365 "doe - a1 + a2 - a3", folded yoe_def, OF zero_less_numeral]
    div[of 4 yoe, folded b1_def, OF zero_less_numeral] div[of 100 yoe, folded b2_def, OF zero_less_numeral]
  have "- 20 \<le> doy" unfolding doy_def using f doe by linarith
  moreover have "doy < 1000" unfolding doy_def using f doe by linarith
  ultimately have "- 3 \<le> mp" "mp < 100"
    using div[of 153 "5 * doy + 2", folded mp_def, OF zero_less_numeral] by linarith+
  with m show ?thesis by auto
qed

lemma length_md_string: "length (md_string t) = 5"
proof -
  obtain y m d where c: "days_civil (day_of t) = (y, m, d)" by (metis prod_cases3)
  have "length (zpad 2 m) = 2" "length (zpad 2 d) = 2"
    using civil_month[OF c] civil_day[OF c] by (auto intro!: length_zpad)
  then show ?thesis by (simp add: md_string_def c)
qed

lemma audit_row_fits: "segments_fit False (auditRow ev)"
  by (simp add: segments_fit_def auditRow_def Let_def length_md_string hm_string_def clip_pad_def pad_right_def)

section \<open>The row indicator\<close>

lemma length_show_nat_ge: "10 ^ k \<le> n \<Longrightarrow> k < length (show_nat n)"
proof (induction k arbitrary: n)
  case (Suc k)
  then have "\<not> n < 10" by (metis le_antisym less_or_eq_imp_le nat_less_le one_le_numeral one_le_power order.trans power_Suc_le_self self_le_power zero_less_Suc)
  moreover have "10 ^ k \<le> n div 10" using div_le_mono[OF Suc.prems, of 10] by simp
  ultimately show ?case using Suc.IH[of "n div 10"] by (subst show_nat.simps) simp
qed simp

lemma first_page_info:
  assumes "pageBounds 0 (int n) rows = (p, st, en, info)" "rows < 110" "n \<le> 10000"
  shows "length info \<le> 19 \<longleftrightarrow> n < 10000" "0 \<le> st" "st \<le> en" "en \<le> int n" "en - st \<le> listPageSize rows"
proof -
  have sz: "14 \<le> listPageSize rows" "listPageSize rows < 100" using assms(2) by (auto simp: listPageSize_def normRows_def)
  have w: "page_window (listPageSize rows) 0 (int n) = (0, 0, min (listPageSize rows) (int n))"
  proof (cases "n = 0")
    case False
    then show ?thesis using page_window_in_range[of "listPageSize rows" "int n" 0] sz(1) by (simp add: pos_imp_zdiv_nonneg_iff)
  qed (use sz(1) in \<open>simp add: page_window_def\<close>)
  then have e: "st = 0" "en = min (listPageSize rows) (int n)"
    "info = (if n = 0 then ''ROW 0 OF 0'' else ''ROW '' @ itoa 1 @ '' TO '' @ itoa en @ '' OF '' @ itoa (int n))"
    using assms(1) by (auto simp: pageBounds_def)
  have one: "length (itoa 1) = 1" by (subst itoa_def, subst show_nat.simps) simp
  have en: "length (itoa en) \<le> 2" using sz e(2) by (intro length_itoa) auto
  show "length info \<le> 19 \<longleftrightarrow> n < 10000"
  proof (cases "n < 10000")
    case True
    then have "length (itoa (int n)) \<le> 4" by (intro length_itoa) simp_all
    with True en one show ?thesis by (simp add: e(3))
  next
    case False
    then have n: "n = 10000" using assms(3) by simp
    have "4 < length (show_nat n)" by (rule length_show_nat_ge) (simp add: n)
    then have "4 < length (itoa (int n))" by (simp add: itoa_def)
    moreover have "1 < length (itoa en)"
      using length_show_nat_ge[of 1 "nat en"] sz(1) by (simp add: itoa_def e(2) n)
    ultimately show ?thesis using False one by (simp add: e(3))
  qed
  show "0 \<le> st" "st \<le> en" "en \<le> int n" "en - st \<le> listPageSize rows" using sz(1) by (simp_all add: e(1,2))
qed

section \<open>Properties\<close>

definition audit_view :: "settings \<Rightarrow> admin_flow \<Rightarrow> int \<Rightarrow> audit_event list \<Rightarrow> int \<Rightarrow> int \<Rightarrow> string \<Rightarrow> string \<Rightarrow> string \<Rightarrow> snapshot_view" where
  "audit_view cfg fl cap evs st en info asOf msg =
     (let sc = audit_list cfg fl cap
      in \<lparr>sv_Title = sc_Title sc, sv_RowInfo = info, sv_AsOf = asOf, sv_Legend = sc_Legend sc, sv_ErrMsg = msg,
          sv_PFHelp = sc_PFHelp sc, sv_Empty = sc_Empty sc, sv_Head = sc_Head sc,
          sv_Rows = slice (map auditRow evs) st en, sv_Wide = sc_Wide sc\<rparr>)"

text \<open>C29. The audit viewer's first page, whatever events the trail holds (their texts are clipped to the three columns): on
a terminal of less than 110 rows it is laid out inside the screen without overlap exactly when fewer than 10000 events are
listed. At 10000, which the audit_max_rows parameter admits, the row indicator runs past the right edge. There is one
command input per shown event.\<close>

theorem audit_screen_layout:
  assumes "pageBounds 0 (int (length evs)) rows = (p, st, en, info)" "length evs \<le> 10000" "rows < 110"
    "length asOf \<le> 79" "length msg \<le> 77"
    and "s = fst (paint \<lparr>geo_Rows = rows, geo_Cols = w\<rparr> (VSnapshot (audit_view cfg fl cap evs st en info asOf msg)))"
  shows "(screen_ok (normRows rows) s \<longleftrightarrow> length evs < 10000)
    \<and> map fd_Name (inputs s) = map (\<lambda>i. ''cmd'' @ itoa (int i)) [0..<nat (en - st)]"
proof -
  let ?v = "audit_view cfg fl cap evs st en info asOf msg"
  note i = first_page_info[OF assms(1,3,2)]
  have v: "sv_Title ?v = ''RECENT ACTIVITY''" "sv_RowInfo ?v = info" "segments_fit (sv_Wide ?v) (sv_Head ?v)"
    "sv_AsOf ?v = asOf" "sv_ErrMsg ?v = msg" "length (sv_Empty ?v) \<le> 72" "length (sv_Legend ?v) \<le> 77" "length (sv_PFHelp ?v) \<le> 79"
    by (simp_all add: audit_view_def audit_list_def Let_def segments_fit_def)
  have rows: "\<forall>r\<in>set (sv_Rows ?v). segments_fit (sv_Wide ?v) r"
    using audit_row_fits by (auto simp: audit_view_def audit_list_def Let_def slice_def dest!: in_set_takeD in_set_dropD)
  obtain rest where rest: "fst (buildSnapshotScreen rows ?v) =
       [title_at 0 (centerCol (int (length (sv_Title ?v)))) (sv_Title ?v), text_at 0 60 DefaultColor (sv_RowInfo ?v)] @ rest"
    "screen_ok (normRows rows) rest" "\<forall>f\<in>set rest. fd_Row f \<noteq> 0"
    using snapshot_screen_shape[OF v(3) rows, of rows] v assms(4,5) by metis
  have "screen_ok (normRows rows) s \<longleftrightarrow> length (sv_Title ?v) \<le> 39 \<and> length (sv_RowInfo ?v) \<le> 19"
    using head_body_ok[OF _ rest(2,3)] normRows_ge[of rows] unfolding assms(6) paint.simps geometry.simps rest(1) by fastforce
  moreover have "min (length (sv_Rows ?v)) (nat (listPageSize rows)) = nat (en - st)"
    using i(2-5) by (simp add: audit_view_def Let_def slice_def)
  ultimately show ?thesis using i(1) by (simp add: assms(6) snapshot_screen_inputs v)
qed

lemma audit_screen_layout_witness:
  "\<forall>cfg fl ev. screen_ok 24 (fst (paint DefaultGeometry (VSnapshot (audit_view cfg fl 500 (replicate 500 ev) 0 14 ''ROW 1 TO 14 OF 500'' [] []))))
    \<and> \<not> screen_ok 24 (fst (paint DefaultGeometry (VSnapshot (audit_view cfg fl 10000 (replicate 10000 ev) 0 14 ''ROW 1 TO 14 OF 10000'' [] []))))"
proof (intro allI)
  fix cfg fl and ev :: audit_event
  have b: "pageBounds 0 (int (length (replicate 500 ev))) 24 = (0, 0, 14, ''ROW 1 TO 14 OF 500'')"
    "pageBounds 0 (int (length (replicate 10000 ev))) 24 = (0, 0, 14, ''ROW 1 TO 14 OF 10000'')"
    by (simp_all only: length_replicate of_nat_numeral)
      (simp_all add: pageBounds_def page_window_def listPageSize_def normRows_def itoa_def show_nat.simps digit_char_def char_of_def bit_0)
  have len: "length (replicate 500 ev) \<le> 10000" "length (replicate 10000 ev) \<le> 10000" "(24 :: int) < 110"
    "length (replicate 500 ev) < 10000" "\<not> length (replicate 10000 ev) < 10000" "length ([] :: string) \<le> 79" "length ([] :: string) \<le> 77"
    unfolding length_replicate by simp_all
  have g: "\<lparr>geo_Rows = 24, geo_Cols = 80\<rparr> = DefaultGeometry" "normRows 24 = 24" by (simp_all add: DefaultGeometry_def normRows_def)
  note t1 = audit_screen_layout[OF b(1) len(1,3,6,7) refl, of 80 cfg fl 500, unfolded g, THEN conjunct1]
  note t2 = audit_screen_layout[OF b(2) len(2,3,6,7) refl, of 80 cfg fl 10000, unfolded g, THEN conjunct1]
  show "screen_ok 24 (fst (paint DefaultGeometry (VSnapshot (audit_view cfg fl 500 (replicate 500 ev) 0 14 ''ROW 1 TO 14 OF 500'' [] []))))
    \<and> \<not> screen_ok 24 (fst (paint DefaultGeometry (VSnapshot (audit_view cfg fl 10000 (replicate 10000 ev) 0 14 ''ROW 1 TO 14 OF 10000'' [] []))))"
    using t1 t2 len(4,5) by blast
qed

end
