(* ===== verification/Plain_Panel_Props.thy ===== *)
theory Plain_Panel_Props
  imports Panel_Props
begin

text \<open>
  The remaining panels on an 80-column terminal: the second factor's screens, the administrator's
  and the settings menus, the help viewer and the news pages.
\<close>

section \<open>Rows of options and of text\<close>

lemma wide_option_ok:
  "0 \<le> row \<Longrightarrow> row < rows \<Longrightarrow> length key \<le> 5 \<Longrightarrow> length name \<le> 10 \<Longrightarrow> length desc \<le> 62 \<Longrightarrow>
   screen_ok rows (option_cells row k key name desc) \<and> (\<forall>f\<in>set (option_cells row k key name desc). fd_Row f = row)"
  by (simp add: option_cells_def layout_simps)

lemma option_menu_ok:
  assumes "24 \<le> rows" "rows = geo_Rows (geo_norm g)" "screen_ok rows upper" "\<forall>f\<in>set upper. fd_Row f = 0 \<or> fd_Row f = 3 \<and> 3 < t"
    "3 \<le> t" "t + int (length opts) < rows" "\<forall>(k, n, d)\<in>set opts. length k \<le> 3 \<and> length n \<le> 10 \<and> length d \<le> 62"
    "length err \<le> 77" "length help \<le> 79"
  shows "screen_ok rows (fst (option_menu g upper t opts fname err help))"
proof -
  let ?g = "\<lambda>i (key, name, desc). option_cells (t + int i) White (''  '' @ key) name desc"
  let ?c = "concat (map (\<lambda>(i, x). ?g i x) (zip [0..<length opts] opts))"
  let ?b = "[text_at 1 0 Turquoise ''Option ===>'', input_at 1 12 fname, field_at 1 79, messageLine err, help_line g help]"
  have row: "screen_ok rows (?g i (opts ! i)) \<and> (\<forall>f\<in>set (?g i (opts ! i)). fd_Row f = t + int i)" if i: "i < length opts" for i
  proof -
    obtain k n d where o: "opts ! i = (k, n, d)" by (metis prod_cases3)
    then have "(k, n, d) \<in> set opts" using nth_mem[OF i] by simp
    then have "length k \<le> 3 \<and> length n \<le> 10 \<and> length d \<le> 62" using assms(7) by blast
    with assms(5,6) i show ?thesis using wide_option_ok[of "t + int i" rows "''  '' @ k" n d White] by (simp add: o)
  qed
  have c: "screen_ok rows ?c"
    by (rule rows_ok[where g = ?g and r = "\<lambda>i. t + int i"]) (use row in blast, simp)
  have band: "t \<le> fd_Row f \<and> fd_Row f < t + int (length opts)" if "f \<in> set ?c" for f
    using that by (rule row_cell) (use row in fastforce)
  have b: "screen_ok rows ?b" "\<forall>f\<in>set ?b. fd_Row f \<in> {1, 2, rows - 1}"
    using assms(1,8,9) by (simp_all add: layout_simps messageLine_def help_line_def geo_HelpRow_def assms(2)[symmetric])
  have "apart f h" if "f \<in> set upper" "h \<in> set ?c" for f h
    using band[OF that(2)] that(1) assms(4,5) by (intro other_rows_apart) fastforce
  moreover have "apart f h" if "f \<in> set upper" "h \<in> set ?b" for f h
    using b(2) that assms(1,4) by (intro other_rows_apart) fastforce
  moreover have "apart f h" if "f \<in> set ?c" "h \<in> set ?b" for f h
    using band[OF that(1)] b(2) that(2) assms(5,6) by (intro other_rows_apart) fastforce
  ultimately have "screen_ok rows (upper @ ?c @ ?b)"
    using assms(3) c b(1) unfolding screen_ok_append set_append by blast
  then show ?thesis by (simp add: option_menu_def commandLine_def)
qed

lemma text_rows_ok:
  assumes "\<forall>l\<in>set ls. length l \<le> 79" "0 \<le> t" "t + int (length ls) \<le> rows"
  shows "screen_ok rows (map (\<lambda>(i, l). text_at (t + int i) 0 k l) (zip [0..<length ls] ls))"
    and "\<forall>f\<in>set (map (\<lambda>(i, l). text_at (t + int i) 0 k l) (zip [0..<length ls] ls)). t \<le> fd_Row f \<and> fd_Row f < t + int (length ls)"
proof -
  have "screen_ok rows (concat (map (\<lambda>(i, l). [text_at (t + int i) 0 k l]) (zip [0..<length ls] ls)))"
    by (rule rows_ok[where r = "\<lambda>i. t + int i"]) (use assms nth_mem in \<open>auto simp: layout_simps\<close>)
  then show "screen_ok rows (map (\<lambda>(i, l). text_at (t + int i) 0 k l) (zip [0..<length ls] ls))" by (simp only: concat_singles)
  show "\<forall>f\<in>set (map (\<lambda>(i, l). text_at (t + int i) 0 k l) (zip [0..<length ls] ls)). t \<le> fd_Row f \<and> fd_Row f < t + int (length ls)"
    by (auto simp: set_zip)
qed

section \<open>The panels\<close>

lemma title_80:
  assumes "geo_Cols (geo_norm g) = 80"
  shows "title_line g t = title_at 0 (centerCol (int (length t))) t"
  by (simp add: title_line_def geo_CenterCol_def centerCol_def assms)

lemma enroll_ok:
  assumes "geo_Cols (geo_norm g) = 80" "length issuer \<le> 54" "length account \<le> 54" "length secret \<le> 54" "length err \<le> 77"
  shows "screen_ok (geo_Rows (geo_norm g)) (fst (EnrollMFAScreen g issuer account secret err))"
  using assms geo_rows(1)[of g]
  by (simp add: EnrollMFAScreen_def Let_def layout_simps title_80 centerCol_def help_line_def geo_HelpRow_def)

lemma verify_ok:
  assumes "geo_Cols (geo_norm g) = 80" "length err \<le> 77"
  shows "screen_ok (geo_Rows (geo_norm g)) (fst (VerifyMFAScreen g err))"
  using assms geo_rows(1)[of g]
  by (simp add: VerifyMFAScreen_def Let_def layout_simps title_80 centerCol_def help_line_def geo_HelpRow_def messageLine_def BodyTopRow_def)

lemma admin_menu_ok:
  assumes "geo_Cols (geo_norm g) = 80" "length err \<le> 77"
  shows "screen_ok (geo_Rows (geo_norm g)) (fst (AdminMenuScreen g err))"
  unfolding AdminMenuScreen_def
  by (rule option_menu_ok[OF geo_rows(1) refl])
    (use assms geo_rows(1)[of g] in \<open>simp_all add: title_80 centerCol_def layout_simps BodyTopRow_def admin_options_def\<close>)

lemma settings_menu_ok:
  assumes "geo_Cols (geo_norm g) = 80" "length err \<le> 77" "length username \<le> 71" "length rs \<le> 10"
    "\<forall>(k, n, d)\<in>set rs. length k \<le> 3 \<and> length n \<le> 10 \<and> length d \<le> 62"
  shows "screen_ok (geo_Rows (geo_norm g)) (fst (UserSettingsScreen g username rs err))"
  unfolding UserSettingsScreen_def
  by (rule option_menu_ok[OF geo_rows(1) refl])
    (use assms geo_rows(1)[of g] in \<open>simp_all add: title_80 centerCol_def layout_simps BodyTopRow_def\<close>)

lemma help_ok:
  assumes "geo_Cols (geo_norm g) = 80" "length title \<le> 20" "length ls < 100000"
  shows "screen_ok (geo_Rows (geo_norm g)) (fst (HelpScreen g title ls page))"
proof -
  define R where "R = geo_Rows (geo_norm g)"
  have R: "24 \<le> R" unfolding R_def by (rule geo_rows)
  obtain p st en ind where b: "HelpPageBounds g (int (length ls)) page = (p, st, en, ind)" by (metis prod_cases4)
  have cap: "0 < HelpPageSize g" "HelpPageSize g = R - 4" using R
    by (simp_all add: HelpPageSize_def BodyBottomRow_def BodyTopRow_def R_def)
  have w: "length ind \<le> 19 \<and> 0 \<le> st \<and> st \<le> en \<and> en \<le> int (length ls) \<and> en - st \<le> R - 4"
  proof (cases "ls = []")
    case True
    with b cap R show ?thesis by (auto simp: HelpPageBounds_def page_window_def)
  next
    case False
    obtain p' st' en' where pw: "page_window (HelpPageSize g) page (int (length ls)) = (p', st', en')" by (metis prod_cases3)
    with b False have eq: "p = p'" "st = st'" "en = en'"
      "ind = ''PAGE '' @ itoa (p + 1) @ '' OF '' @ itoa ((int (length ls) - 1) div HelpPageSize g + 1)"
      by (auto simp: HelpPageBounds_def)
    note o = page_window_ok[OF cap(1) _ pw, folded eq]
    have "(int (length ls) - 1) div HelpPageSize g \<le> int (length ls) - 1"
      using zdiv_mono2[of "int (length ls) - 1" 1 "HelpPageSize g"] cap False by (cases ls) simp_all
    then have "length (itoa (p + 1)) \<le> 5" "length (itoa ((int (length ls) - 1) div HelpPageSize g + 1)) \<le> 5"
      using o(1,2) False assms(3) by (auto intro!: length_itoa)
    with o False cap(2) show ?thesis by (simp add: eq(4))
  qed
  define ws where "ws = map (\<lambda>l. truncateRunes l 79) (slice ls st en)"
  define body where "body = map (\<lambda>(i, l). text_at (3 + int i) 0 Green l) (zip [0..<length ws] ws)"
  have ws: "int (length ws) \<le> R - 4" "\<forall>l\<in>set ws. length l \<le> 79"
    using w by (auto simp: ws_def slice_def length_truncateRunes)
  have body: "screen_ok R body" "\<forall>f\<in>set body. 3 \<le> fd_Row f \<and> fd_Row f < R - 1"
    using text_rows_ok[OF ws(2), of 3 R Green] ws(1) unfolding body_def by force+
  have eq: "fst (HelpScreen g title ls page) =
      title_line g title # text_at 0 (right_col ind) Turquoise ind # body @ [help_line g ''PF3=Return   PF7=PgUp  PF8=PgDn'']"
    by (simp add: HelpScreen_def b body_def ws_def Let_def BodyTopRow_def zip_map2 comp_def case_prod_unfold)
  have "apart f h" if "f \<in> {title_line g title, text_at 0 (right_col ind) Turquoise ind, help_line g ''PF3=Return   PF7=PgUp  PF8=PgDn''}"
      "h \<in> set body" for f h
    using that body(2) by (intro other_rows_apart) (auto simp: title_line_def help_line_def geo_HelpRow_def R_def[symmetric])
  then have "screen_ok R (fst (HelpScreen g title ls page)) \<longleftrightarrow>
      screen_ok R [title_line g title, text_at 0 (right_col ind) Turquoise ind, help_line g ''PF3=Return   PF7=PgUp  PF8=PgDn'']"
    unfolding eq screen_ok_Cons screen_ok_append using body(1) apart_sym by auto
  moreover have "screen_ok R [title_line g title, text_at 0 (right_col ind) Turquoise ind, help_line g ''PF3=Return   PF7=PgUp  PF8=PgDn'']"
    using assms(1,2) w R by (auto simp: layout_simps title_80 centerCol_def Let_def right_col_def help_line_def geo_HelpRow_def R_def[symmetric])
  ultimately show ?thesis unfolding R_def by blast
qed

lemma news_ok:
  assumes "pg \<in> set (PaginateNews g raw)"
  shows "screen_ok (geo_Rows (geo_norm g)) (fst (NewsScreen pg))"
proof -
  define R where "R = geo_Rows (geo_norm g)"
  have R: "24 \<le> R" unfolding R_def by (rule geo_rows)
  have per: "NewsLinesPerPage g = R - 2" by (simp add: NewsLinesPerPage_def R_def)
  have size: "int (length pg) \<le> R - 2"
    using chunks_bound[of "nat (NewsLinesPerPage g)" pg] assms per R by (fastforce simp: PaginateNews_def)
  have "set pg \<subseteq> set (map news_line (split_on (char_of (10 :: nat)) raw))"
    using chunks_subset assms drop_blank_tail_subset unfolding PaginateNews_def by blast
  then have width: "\<forall>l\<in>set pg. length l \<le> 79" by (auto simp: news_line_def newsMaxCols_def)
  let ?b = "map (\<lambda>(i, l). text_at (0 + int i) 0 Red l) (zip [0..<length pg] pg)"
  have b: "screen_ok R ?b" "\<forall>f\<in>set ?b. fd_Row f < int (length pg)"
    using text_rows_ok[OF width, of 0 R Red] size by simp_all
  have "screen_ok R (?b @ [text_at (int (length pg) + 1) 0 Red ''***''])"
    unfolding screen_ok_append screen_ok_Cons using b size R by (auto simp: fits_def apart_def)
  then show ?thesis by (simp add: NewsScreen_def R_def)
qed

section \<open>Properties\<close>

text \<open>On an 80-column terminal of any height the second factor's two screens, the administrator's menu, a user's
settings menu, every page of the help viewer and every page of the news are laid out inside the screen without overlap,
for texts within the widths stated; and typing the number an entry of the administrator's menu stands beside is the
choice of that entry.\<close>

theorem panels_layout:
  assumes "geo_Cols (geo_norm g) = 80" "rows = geo_Rows (geo_norm g)" "length err \<le> 77"
  shows "(\<forall>issuer account secret. length issuer \<le> 54 \<and> length account \<le> 54 \<and> length secret \<le> 54 \<longrightarrow>
        screen_ok rows (fst (paint g (VEnroll issuer account secret err))))
    \<and> screen_ok rows (fst (paint g (VVerify err)))
    \<and> screen_ok rows (fst (paint g (VAdminMenu err)))
    \<and> list_all (\<lambda>(n, key, _). admin_option key = Some n) (zip [1, 2, 3, 4, 5, 6, 7, 8] admin_options)
    \<and> (\<forall>username rs. length username \<le> 71 \<and> length rs \<le> 10
          \<and> (\<forall>(k, n, d)\<in>set rs. length k \<le> 3 \<and> length n \<le> 10 \<and> length d \<le> 62) \<longrightarrow>
        screen_ok rows (fst (paint g (VUserSettings username rs err))))
    \<and> (\<forall>title ls page. length title \<le> 20 \<and> length ls < 100000 \<longrightarrow> screen_ok rows (fst (paint g (VHelp title ls page))))
    \<and> (\<forall>raw. \<forall>pg\<in>set (PaginateNews g raw). screen_ok rows (fst (paint g (VNews pg))))"
proof -
  have "list_all (\<lambda>(n, key, _). admin_option key = Some n) (zip [1, 2, 3, 4, 5, 6, 7, 8] admin_options)" by code_simp
  then show ?thesis
    unfolding assms(2) using assms(1,3) enroll_ok verify_ok admin_menu_ok settings_menu_ok help_ok news_ok by simp
qed

lemma panels_layout_witness:
  "screen_ok 24 (fst (paint DefaultGeometry (VVerify ''Invalid code'')))
   \<and> screen_ok 24 (fst (paint DefaultGeometry (VHelp ''SERVICE MENU HELP'' [''line''] 3)))"
proof -
  have g: "geo_Cols (geo_norm DefaultGeometry) = 80" "24 = geo_Rows (geo_norm DefaultGeometry)" "length ''Invalid code'' \<le> 77"
    "length ''SERVICE MENU HELP'' \<le> 20 \<and> length [''line''] < 100000"
    by (simp_all add: geo_norm_def DefaultGeometry_def)
  from panels_layout[OF g(1-3)] g(4) show ?thesis by blast
qed

end
