(* ===== verification/Spec2Isabelle.thy ===== *)
theory Spec2Isabelle
  imports Gate_Props Viewer_Props Setup_Props Config_Props Commands_Props Quickstart_Props Migrate_Props
    Menu_Props Form_Props Editor_Props Audit_Screen_Props Plain_Panel_Props
begin

text \<open>
  Verification development for tn3270proxy, a gateway that 3270 terminals connect to: it asks for
  a user name and a password, optionally for a second factor, shows a menu of the services the
  user's groups are granted, and relays the terminal to the chosen host until the host closes or
  the user escapes. Administrators maintain users, groups, services, networks, system parameters
  and documents from the same terminal.

  How the program is put together, and where its parts are modelled. Per connection, server.go
  accepts and limits (Limiter: limiter.go and the accept loop as a step relation), asks whether
  the address is trusted (Trust, Netip: trust.go, net/netip), registers the session (Registry:
  registry.go), wraps the connection with idle deadlines (IdleConn: idleconn.go) and runs the
  session (Session: session.go; Presenter: presenter.go, presenter_mfa.go, term.go). A session
  logs on through Auth (auth.go) with the delays of Throttle (auththrottle.go), passes the second
  factor (Mfa: totp.go, cipher.go), the news pages and the menu, and from there the bridge
  (Bridge: bridge.go; Telnet: telnet.go), self-service, or the administrator's screens: the
  generic drivers of internal/ui3270 (Drivers: list.go, form.go, snapshotlist.go, detail.go,
  editor.go, action.go, renderer.go, types.go) configured by Admin (users, groups),
  Admin\_Catalog (services, networks, system parameters, documents) and Admin\_Monitor (audit
  log, active sessions, menu). All of it reads and writes the database (Store: internal/store)
  and the parameters of Sysconfig (catalog.go); Layout has the page arithmetic of the screens,
  Clock the time stamps, Prelude strings, numbers and Go's integers.

  What a session shows is a view; what the terminal receives for a view is \<open>paint\<close>, the fields of
  one screen at their rows and columns and the cursor's position. Widgets has the builders of
  internal/ui3270 (screen.go, snapshotscreen.go, editorscreen.go) for the generic drivers, Panels
  those of internal/screens (login, menu, help, news, second factor, settings, administration).

  Before the first connection: Config merges flags, file and environment over the defaults
  (internal/config/config.go; GoText has Go's flag and number parsing), Migrate brings the tables
  of an older database file to the current schema, backup first (internal/store/migrate.go,
  maintenance.go), Setup prepares the rows every start needs, the first administrator, the bulk
  load and the MFA master key (migrate.go, bootstrap.go, internal/seed, mfa.go), Commands has the
  command line, the start of the gateway and its listeners (cmd/tn3270proxy, internal/listen),
  and Quickstart provisions a fresh data directory (internal/quickstart).

  The model. The database is the record \<open>db\<close> of its tables; every store operation is a state
  transformer over it that runs its SQL statements one by one, each of which may fail
  (\<open>db_faults\<close>), inside a transaction where the code has one. A component that waits for the
  terminal runs in \<open>world\<close> (theory World): the shared state (database, throttle, registry), the
  script of what the terminal will send, the clock, the connection's deadline, and a log of what
  is shown, audited and dialled. A Go function that returns an error is a value of a sum type;
  a \<open>for\<close> loop is \<open>io_loop\<close> over the variables that survive a round. While a session waits, the
  rest of the process may change the shared state arbitrarily (\<open>in_env\<close>): other connections
  interleave with this one at its waits. What is not under src/ is a parameter: bcrypt, HOTP,
  AES-GCM, the random source, the file system, the resolver, the result of dialling a backend,
  and the contract of the go3270 library's screen call.

  Fuel. \<open>io_loop\<close> may run once more than there are inputs left in the script. Every loop of the
  code consumes input in every round that goes round again (the lemmas on \<open>progress\<close> in
  World\_Facts, Drivers\_Facts, Admin\_Flows and Session\_Facts), so the fuel is never exhausted:
  \<open>session_always_ends\<close>.

  What the groups of lemmas show. Effects: triples (\<open>hoare\<close>, \<open>keeps\<close>) for state transformers.
  Store\_Facts: the database stays well formed; deletes are all or nothing; the menu's query.
  World\_Facts: progress, invariants of the shared state, what is written to the log.
  Drivers\_Facts: one contract (locale) per driver, a client's invariant and progress proved once.
  Admin\_Inv, Admin\_Facts, Admin\_Flows: the last-administrator guards and one interpretation of
  the driver contracts per screen. Session\_Facts: the session ends and maps every failure.
  Traces, Protocol, Session\_Protocol: what each part may write, and the automaton of a whole
  session. Session\_Inv: the contract \<open>session_stable\<close> of a property that survives a session;
  Session\_Props: its two interpretations, administrability and least privilege. Gate\_Props:
  what it takes to pass the login and the second factor. Viewer\_Props: the snapshot viewers.
  Setup\_Props: what a step of the preparation establishes when it succeeds (\<open>succeeds\<close>) and
  that it succeeds when the database does (\<open>completes\<close>). Config\_Props: the layers of the
  configuration and what its validation accepts. Commands\_Props: the start of the gateway, the
  subcommands. Quickstart\_Props: the commit point of provisioning, its success, and that the
  gateway loads what it wrote. Migrate\_Props: steps as relations between the database before and
  after (\<open>relates\<close>) and as what the same text gives when nothing fails (\<open>faithful\<close>), from which
  a database is at every moment a prefix of the steps applied once.
  Screen\_Facts: when a screen is laid out well (\<open>screen_ok\<close>: every field inside the terminal and
  no two fields of a row overlapping) and how much room an input has. Widget\_Props, Form\_Props,
  Editor\_Props, Audit\_Screen\_Props, Panel\_Props, Menu\_Props and Plain\_Panel\_Props: for which
  texts, sizes and counts each screen is laid out well, which inputs it has, that no editable
  field of the program's forms is lost, that a page of the editor read back untouched is the page
  that was shown, and that a number on a menu selects what it stands beside.
  The theories of the small components carry their own properties.

  Migrate works on tables with columns and rows, the other theories on the record \<open>db\<close>: they
  start where the schema is current. Quickstart and the commands open such a database.

  Not modelled: the bytes of the data stream go3270 makes of a screen, the log handlers and the
  text the commands print, the generation of the certificate, the version and the dummy host.
\<close>

end
